(* ===== verification/Xdma_Prelude.thy ===== *)
theory Xdma_Prelude
  imports Main "HOL-Library.Word"
begin

text \<open>
  What the theories of the driver share: the C integer types, the errno values a function
  returns with a minus sign, the sizes and limits of \<^verbatim>\<open>xdma/libxdma.h\<close>,
  the loop that rewrites a range of cells of an array, and the lemmas about words and lists
  the component proofs use.
\<close>

unbundle bit_operations_syntax

section \<open>C types\<close>

type_synonym u8 = "8 word"
type_synonym u16 = "16 word"
type_synonym u32 = "32 word"
type_synonym u64 = "64 word"

section \<open>Errno values\<close>

text \<open>A kernel function returns 0 or a count on success and \<open>- E\<close> on failure.\<close>

abbreviation (input) EIO :: int where "EIO \<equiv> 5"
abbreviation (input) EAGAIN :: int where "EAGAIN \<equiv> 11"
abbreviation (input) ENOMEM :: int where "ENOMEM \<equiv> 12"
abbreviation (input) EFAULT :: int where "EFAULT \<equiv> 14"
abbreviation (input) EBUSY :: int where "EBUSY \<equiv> 16"
abbreviation (input) ENODEV :: int where "ENODEV \<equiv> 19"
abbreviation (input) EINVAL :: int where "EINVAL \<equiv> 22"
abbreviation (input) ENOTTY :: int where "ENOTTY \<equiv> 25"
abbreviation (input) EPROTO :: int where "EPROTO \<equiv> 71"
abbreviation (input) ETIMEDOUT :: int where "ETIMEDOUT \<equiv> 110"
abbreviation (input) ERESTARTSYS :: int where "ERESTARTSYS \<equiv> 512"
abbreviation (input) ENOIOCTLCMD :: int where "ENOIOCTLCMD \<equiv> 515"
abbreviation (input) EIOCBQUEUED :: int where "EIOCBQUEUED \<equiv> 529"

section \<open>Collections of facts\<close>

named_theorems xdma_defs \<open>definitions of the straight-line operations, unfolded together\<close>
named_theorems xdma_frame \<open>what an operation leaves unchanged\<close>

section \<open>A for loop over a range of array cells\<close>

text \<open>
  \<open>array_for lo n f xs\<close> is \<^verbatim>\<open>for (i = lo; i < lo + n; i++) xs[i] = f(i, xs[i])\<close>.
  A cell past the end of the array is not written: where a loop could run past the end the
  theorems about it carry the bound as a hypothesis.
\<close>

fun array_for :: "nat \<Rightarrow> nat \<Rightarrow> (nat \<Rightarrow> 'a \<Rightarrow> 'a) \<Rightarrow> 'a list \<Rightarrow> 'a list" where
  "array_for lo 0 f xs = xs"
| "array_for lo (Suc n) f xs = array_for (Suc lo) n f (xs[lo := f lo (xs ! lo)])"

lemma length_array_for [simp]: "length (array_for lo n f xs) = length xs"
  by (induction n arbitrary: lo xs) auto

lemma nth_array_for:
  "j < length xs \<Longrightarrow>
     array_for lo n f xs ! j = (if lo \<le> j \<and> j < lo + n then f j (xs ! j) else xs ! j)"
proof (induction n arbitrary: lo xs)
  case 0
  then show ?case by auto
next
  case (Suc n)
  show ?case
  proof (cases "j = lo")
    case True
    with Suc show ?thesis by simp
  next
    case False
    with Suc show ?thesis by auto
  qed
qed

lemma array_for_nil [simp]: "array_for lo n f [] = []"
  by (induction n arbitrary: lo) auto

lemma nth_update_pick: "i < length xs \<Longrightarrow> xs[i := v] ! j = (if j = i then v else xs ! j)"
  by (auto simp: nth_list_update)

section \<open>Words\<close>

lemma unat_add_no_wrap:
  fixes a b :: "'w::len word"
  shows "unat a + unat b < 2 ^ LENGTH('w) \<Longrightarrow> unat (a + b) = unat a + unat b"
  by (simp add: unat_word_ariths)

lemma unat_of_nat_small:
  "n < 2 ^ LENGTH('w) \<Longrightarrow> unat (of_nat n :: 'w::len word) = n"
  by (simp add: unat_of_nat take_bit_nat_eq_self)

lemma word_mask_bit_nonzero:
  fixes w :: "'w::len word"
  assumes "bit w n"
  shows "w AND push_bit n 1 \<noteq> 0"
proof
  assume "w AND push_bit n 1 = 0"
  moreover have "bit (w AND push_bit n 1) n"
    using assms by (auto simp: bit_simps dest: bit_imp_le_length)
  ultimately show False by simp
qed

lemma low_bits_mod: "unat (w AND mask n) = unat (w :: 'w::len word) mod 2 ^ n"
  by (simp flip: take_bit_eq_mask take_bit_eq_mod add: unsigned_take_bit_eq)

lemma unat_drop_bit: "unat (drop_bit n (w :: 'w::len word)) = unat w div 2 ^ n"
proof -
  have "unat (drop_bit n w) = drop_bit n (unat w)"
    by (rule bit_eqI) (auto simp: bit_unsigned_iff bit_simps dest: bit_imp_le_length)
  then show ?thesis by (simp add: drop_bit_eq_div)
qed

end
