(* ===== verification/Xdma_Regs.thy ===== *)
theory Xdma_Regs
  imports Xdma_Prelude
begin

text \<open>
  The register blocks of the DMA core (the structs and bit masks of
  \<^verbatim>\<open>xdma/libxdma.h\<close>) and access to them. A pointer into a mapped BAR is the BAR
  number with a byte offset. What the device answers is not under our control: a read takes
  its value from a function of all accesses made so far (the latest first), so that
  clear-on-read registers and registers that change by themselves are covered. Every read
  and write is recorded in the access log.
\<close>

section \<open>Memory-mapped access\<close>

datatype iomem = IOM (iobar: nat) (ioofs: nat)

definition io_plus :: "iomem \<Rightarrow> nat \<Rightarrow> iomem" where
  "io_plus p n = IOM (iobar p) (ioofs p + n)"

datatype access = Rd iomem | Wr iomem u32

type_synonym iolog = "access list"
type_synonym hw_model = "iolog \<Rightarrow> iomem \<Rightarrow> u32"

text \<open>The module parameters and the device the driver talks to.\<close>

record xenv =
  hw :: hw_model
  poll_mode :: bool
  interrupt_mode :: nat
  enable_st_c2h_credit :: bool
  desc_blen_max :: u32

definition read_register :: "('x) xenv_scheme \<Rightarrow> iomem \<Rightarrow> iolog \<Rightarrow> u32 \<times> iolog" where
  "read_register E a log = (hw E log a, Rd a # log)"

definition write_register :: "u32 \<Rightarrow> iomem \<Rightarrow> iolog \<Rightarrow> iolog" where
  "write_register v a log = Wr a v # log"

text \<open>The values written to one register, the latest first.\<close>

fun writes_to :: "iomem \<Rightarrow> iolog \<Rightarrow> u32 list" where
  "writes_to a [] = []"
| "writes_to a (Wr b v # log) = (if b = a then v # writes_to a log else writes_to a log)"
| "writes_to a (Rd b # log) = writes_to a log"

definition build_u32 :: "u32 \<Rightarrow> u32 \<Rightarrow> u32" where
  "build_u32 hi lo = push_bit 16 (hi AND 0xFFFF) OR (lo AND 0xFFFF)"

definition build_u64 :: "u64 \<Rightarrow> u64 \<Rightarrow> u64" where
  "build_u64 hi lo = push_bit 32 (hi AND 0xFFFFFFF) OR (lo AND 0xFFFFFFFF)"

section \<open>Register blocks\<close>

datatype engine_reg =
    ER_identifier | ER_control | ER_control_w1s | ER_control_w1c
  | ER_status | ER_status_rc | ER_completed_desc_count | ER_alignments
  | ER_poll_mode_wb_lo | ER_poll_mode_wb_hi
  | ER_interrupt_enable_mask | ER_interrupt_enable_mask_w1s | ER_interrupt_enable_mask_w1c
  | ER_perf_ctrl | ER_perf_cyc_lo | ER_perf_cyc_hi | ER_perf_dat_lo | ER_perf_dat_hi
  | ER_perf_pnd_lo | ER_perf_pnd_hi

text \<open>Byte offsets in the packed struct: 32-bit words, with its runs of reserved words.\<close>

fun engine_regs :: "engine_reg \<Rightarrow> nat" where
  "engine_regs ER_identifier = 0x00"
| "engine_regs ER_control = 0x04"
| "engine_regs ER_control_w1s = 0x08"
| "engine_regs ER_control_w1c = 0x0C"
| "engine_regs ER_status = 0x40"
| "engine_regs ER_status_rc = 0x44"
| "engine_regs ER_completed_desc_count = 0x48"
| "engine_regs ER_alignments = 0x4C"
| "engine_regs ER_poll_mode_wb_lo = 0x88"
| "engine_regs ER_poll_mode_wb_hi = 0x8C"
| "engine_regs ER_interrupt_enable_mask = 0x90"
| "engine_regs ER_interrupt_enable_mask_w1s = 0x94"
| "engine_regs ER_interrupt_enable_mask_w1c = 0x98"
| "engine_regs ER_perf_ctrl = 0xC0"
| "engine_regs ER_perf_cyc_lo = 0xC4"
| "engine_regs ER_perf_cyc_hi = 0xC8"
| "engine_regs ER_perf_dat_lo = 0xCC"
| "engine_regs ER_perf_dat_hi = 0xD0"
| "engine_regs ER_perf_pnd_lo = 0xD4"
| "engine_regs ER_perf_pnd_hi = 0xD8"

datatype sgdma_reg =
  SR_identifier | SR_first_desc_lo | SR_first_desc_hi | SR_first_desc_adjacent | SR_credits

fun engine_sgdma_regs :: "sgdma_reg \<Rightarrow> nat" where
  "engine_sgdma_regs SR_identifier = 0x00"
| "engine_sgdma_regs SR_first_desc_lo = 0x80"
| "engine_sgdma_regs SR_first_desc_hi = 0x84"
| "engine_sgdma_regs SR_first_desc_adjacent = 0x88"
| "engine_sgdma_regs SR_credits = 0x8C"

datatype interrupt_reg =
    IR_identifier | IR_user_int_enable | IR_user_int_enable_w1s | IR_user_int_enable_w1c
  | IR_channel_int_enable | IR_channel_int_enable_w1s | IR_channel_int_enable_w1c
  | IR_user_int_request | IR_channel_int_request | IR_user_int_pending
  | IR_channel_int_pending | IR_user_msi_vector nat | IR_channel_msi_vector nat

fun interrupt_regs :: "interrupt_reg \<Rightarrow> nat" where
  "interrupt_regs IR_identifier = 0x00"
| "interrupt_regs IR_user_int_enable = 0x04"
| "interrupt_regs IR_user_int_enable_w1s = 0x08"
| "interrupt_regs IR_user_int_enable_w1c = 0x0C"
| "interrupt_regs IR_channel_int_enable = 0x10"
| "interrupt_regs IR_channel_int_enable_w1s = 0x14"
| "interrupt_regs IR_channel_int_enable_w1c = 0x18"
| "interrupt_regs IR_user_int_request = 0x40"
| "interrupt_regs IR_channel_int_request = 0x44"
| "interrupt_regs IR_user_int_pending = 0x48"
| "interrupt_regs IR_channel_int_pending = 0x4C"
| "interrupt_regs (IR_user_msi_vector j) = 0x80 + 4 * j"
| "interrupt_regs (IR_channel_msi_vector j) = 0xA0 + 4 * j"

datatype sgdma_common_reg =
  CR_credit_mode_enable | CR_credit_mode_enable_w1s | CR_credit_mode_enable_w1c

fun sgdma_common_regs :: "sgdma_common_reg \<Rightarrow> nat" where
  "sgdma_common_regs CR_credit_mode_enable = 0x20"
| "sgdma_common_regs CR_credit_mode_enable_w1s = 0x24"
| "sgdma_common_regs CR_credit_mode_enable_w1c = 0x28"

section \<open>Constants\<close>

abbreviation (input) XDMA_OFS_INT_CTRL :: nat where "XDMA_OFS_INT_CTRL \<equiv> 0x2000"
abbreviation (input) XDMA_OFS_CONFIG :: nat where "XDMA_OFS_CONFIG \<equiv> 0x3000"
abbreviation (input) XDMA_CHANNEL_NUM_MAX :: nat where "XDMA_CHANNEL_NUM_MAX \<equiv> 4"
abbreviation (input) H2C_CHANNEL_OFFSET :: nat where "H2C_CHANNEL_OFFSET \<equiv> 0x1000"
abbreviation (input) SGDMA_OFFSET_FROM_CHANNEL :: nat where "SGDMA_OFFSET_FROM_CHANNEL \<equiv> 0x4000"
abbreviation (input) CHANNEL_SPACING :: nat where "CHANNEL_SPACING \<equiv> 0x100"
abbreviation (input) TARGET_SPACING :: nat where "TARGET_SPACING \<equiv> 0x1000"
abbreviation (input) BYPASS_MODE_SPACING :: nat where "BYPASS_MODE_SPACING \<equiv> 0x100"
abbreviation (input) MAX_USER_IRQ :: nat where "MAX_USER_IRQ \<equiv> 16"

abbreviation (input) XDMA_CTRL_RUN_STOP :: u32 where "XDMA_CTRL_RUN_STOP \<equiv> 0x1"
abbreviation (input) XDMA_CTRL_IE_DESC_STOPPED :: u32 where "XDMA_CTRL_IE_DESC_STOPPED \<equiv> 0x2"
abbreviation (input) XDMA_CTRL_IE_DESC_COMPLETED :: u32 where "XDMA_CTRL_IE_DESC_COMPLETED \<equiv> 0x4"
abbreviation (input) XDMA_CTRL_IE_DESC_ALIGN_MISMATCH :: u32
  where "XDMA_CTRL_IE_DESC_ALIGN_MISMATCH \<equiv> 0x8"
abbreviation (input) XDMA_CTRL_IE_MAGIC_STOPPED :: u32 where "XDMA_CTRL_IE_MAGIC_STOPPED \<equiv> 0x10"
abbreviation (input) XDMA_CTRL_IE_IDLE_STOPPED :: u32 where "XDMA_CTRL_IE_IDLE_STOPPED \<equiv> 0x40"
abbreviation (input) XDMA_CTRL_IE_READ_ERROR :: u32 where "XDMA_CTRL_IE_READ_ERROR \<equiv> 0x3E00"
abbreviation (input) XDMA_CTRL_IE_DESC_ERROR :: u32 where "XDMA_CTRL_IE_DESC_ERROR \<equiv> 0xF80000"
abbreviation (input) XDMA_CTRL_NON_INCR_ADDR :: u32 where "XDMA_CTRL_NON_INCR_ADDR \<equiv> 0x2000000"
abbreviation (input) XDMA_CTRL_POLL_MODE_WB :: u32 where "XDMA_CTRL_POLL_MODE_WB \<equiv> 0x4000000"

abbreviation (input) XDMA_STAT_BUSY :: u32 where "XDMA_STAT_BUSY \<equiv> 0x1"
abbreviation (input) XDMA_STAT_DESC_STOPPED :: u32 where "XDMA_STAT_DESC_STOPPED \<equiv> 0x2"
abbreviation (input) XDMA_STAT_DESC_COMPLETED :: u32 where "XDMA_STAT_DESC_COMPLETED \<equiv> 0x4"
abbreviation (input) XDMA_STAT_ALIGN_MISMATCH :: u32 where "XDMA_STAT_ALIGN_MISMATCH \<equiv> 0x8"
abbreviation (input) XDMA_STAT_MAGIC_STOPPED :: u32 where "XDMA_STAT_MAGIC_STOPPED \<equiv> 0x10"
abbreviation (input) XDMA_STAT_INVALID_LEN :: u32 where "XDMA_STAT_INVALID_LEN \<equiv> 0x20"
abbreviation (input) XDMA_STAT_IDLE_STOPPED :: u32 where "XDMA_STAT_IDLE_STOPPED \<equiv> 0x40"
abbreviation (input) XDMA_STAT_DESC_UNSUPP_REQ :: u32 where "XDMA_STAT_DESC_UNSUPP_REQ \<equiv> 0x80000"
abbreviation (input) XDMA_STAT_DESC_COMPL_ABORT :: u32 where "XDMA_STAT_DESC_COMPL_ABORT \<equiv> 0x100000"
abbreviation (input) XDMA_STAT_DESC_PARITY_ERR :: u32 where "XDMA_STAT_DESC_PARITY_ERR \<equiv> 0x200000"
abbreviation (input) XDMA_STAT_DESC_HEADER_EP :: u32 where "XDMA_STAT_DESC_HEADER_EP \<equiv> 0x400000"
abbreviation (input) XDMA_STAT_DESC_UNEXP_COMPL :: u32 where "XDMA_STAT_DESC_UNEXP_COMPL \<equiv> 0x800000"
abbreviation (input) XDMA_STAT_H2C_R_UNSUPP_REQ :: u32 where "XDMA_STAT_H2C_R_UNSUPP_REQ \<equiv> 0x200"
abbreviation (input) XDMA_STAT_H2C_R_COMPL_ABORT :: u32 where "XDMA_STAT_H2C_R_COMPL_ABORT \<equiv> 0x400"
abbreviation (input) XDMA_STAT_H2C_R_PARITY_ERR :: u32 where "XDMA_STAT_H2C_R_PARITY_ERR \<equiv> 0x800"
abbreviation (input) XDMA_STAT_H2C_R_HEADER_EP :: u32 where "XDMA_STAT_H2C_R_HEADER_EP \<equiv> 0x1000"
abbreviation (input) XDMA_STAT_H2C_R_UNEXP_COMPL :: u32 where "XDMA_STAT_H2C_R_UNEXP_COMPL \<equiv> 0x2000"
abbreviation (input) XDMA_STAT_H2C_W_DECODE_ERR :: u32 where "XDMA_STAT_H2C_W_DECODE_ERR \<equiv> 0x4000"
abbreviation (input) XDMA_STAT_H2C_W_SLAVE_ERR :: u32 where "XDMA_STAT_H2C_W_SLAVE_ERR \<equiv> 0x8000"
abbreviation (input) XDMA_STAT_C2H_R_DECODE_ERR :: u32 where "XDMA_STAT_C2H_R_DECODE_ERR \<equiv> 0x200"
abbreviation (input) XDMA_STAT_C2H_R_SLAVE_ERR :: u32 where "XDMA_STAT_C2H_R_SLAVE_ERR \<equiv> 0x400"

definition XDMA_STAT_COMMON_ERR_MASK :: u32 where
  "XDMA_STAT_COMMON_ERR_MASK =
     XDMA_STAT_ALIGN_MISMATCH OR XDMA_STAT_MAGIC_STOPPED OR XDMA_STAT_INVALID_LEN"

definition XDMA_STAT_DESC_ERR_MASK :: u32 where
  "XDMA_STAT_DESC_ERR_MASK =
     XDMA_STAT_DESC_UNSUPP_REQ OR XDMA_STAT_DESC_COMPL_ABORT OR XDMA_STAT_DESC_PARITY_ERR OR
     XDMA_STAT_DESC_HEADER_EP OR XDMA_STAT_DESC_UNEXP_COMPL"

definition XDMA_STAT_H2C_R_ERR_MASK :: u32 where
  "XDMA_STAT_H2C_R_ERR_MASK =
     XDMA_STAT_H2C_R_UNSUPP_REQ OR XDMA_STAT_H2C_R_COMPL_ABORT OR
     XDMA_STAT_H2C_R_PARITY_ERR OR XDMA_STAT_H2C_R_HEADER_EP OR XDMA_STAT_H2C_R_UNEXP_COMPL"

definition XDMA_STAT_H2C_W_ERR_MASK :: u32 where
  "XDMA_STAT_H2C_W_ERR_MASK = XDMA_STAT_H2C_W_DECODE_ERR OR XDMA_STAT_H2C_W_SLAVE_ERR"

definition XDMA_STAT_C2H_R_ERR_MASK :: u32 where
  "XDMA_STAT_C2H_R_ERR_MASK = XDMA_STAT_C2H_R_DECODE_ERR OR XDMA_STAT_C2H_R_SLAVE_ERR"

definition XDMA_STAT_H2C_ERR_MASK :: u32 where
  "XDMA_STAT_H2C_ERR_MASK =
     XDMA_STAT_COMMON_ERR_MASK OR XDMA_STAT_DESC_ERR_MASK OR
     XDMA_STAT_H2C_R_ERR_MASK OR XDMA_STAT_H2C_W_ERR_MASK"

definition XDMA_STAT_C2H_ERR_MASK :: u32 where
  "XDMA_STAT_C2H_ERR_MASK =
     XDMA_STAT_COMMON_ERR_MASK OR XDMA_STAT_DESC_ERR_MASK OR XDMA_STAT_C2H_R_ERR_MASK"

lemmas stat_masks =
  XDMA_STAT_COMMON_ERR_MASK_def XDMA_STAT_DESC_ERR_MASK_def XDMA_STAT_H2C_R_ERR_MASK_def
  XDMA_STAT_H2C_W_ERR_MASK_def XDMA_STAT_C2H_R_ERR_MASK_def XDMA_STAT_H2C_ERR_MASK_def
  XDMA_STAT_C2H_ERR_MASK_def

abbreviation (input) XDMA_DESC_STOPPED :: u32 where "XDMA_DESC_STOPPED \<equiv> 0x1"
abbreviation (input) XDMA_DESC_COMPLETED :: u32 where "XDMA_DESC_COMPLETED \<equiv> 0x2"
abbreviation (input) XDMA_DESC_EOP :: u32 where "XDMA_DESC_EOP \<equiv> 0x10"
abbreviation (input) XDMA_PERF_RUN :: u32 where "XDMA_PERF_RUN \<equiv> 0x1"
abbreviation (input) XDMA_PERF_CLEAR :: u32 where "XDMA_PERF_CLEAR \<equiv> 0x2"
abbreviation (input) XDMA_PERF_AUTO :: u32 where "XDMA_PERF_AUTO \<equiv> 0x4"
abbreviation (input) MAGIC_ENGINE :: u64 where "MAGIC_ENGINE \<equiv> 0xEEEEEEEE"
abbreviation (input) MAGIC_DEVICE :: u64 where "MAGIC_DEVICE \<equiv> 0xDDDDDDDD"
abbreviation (input) MAGIC_CHAR :: u64 where "MAGIC_CHAR \<equiv> 0xCCCCCCCC"
abbreviation (input) BLOCK_ID_MASK :: u32 where "BLOCK_ID_MASK \<equiv> 0xFFF00000"
abbreviation (input) BLOCK_ID_HEAD :: u32 where "BLOCK_ID_HEAD \<equiv> 0x1FC00000"
abbreviation (input) WB_COUNT_MASK :: u32 where "WB_COUNT_MASK \<equiv> 0x00ffffff"
abbreviation (input) WB_ERR_MASK :: u32 where "WB_ERR_MASK \<equiv> 0x80000000"
abbreviation (input) DESC_MAGIC :: u32 where "DESC_MAGIC \<equiv> 0xAD4B0000"
abbreviation (input) RX_STATUS_EOP :: u32 where "RX_STATUS_EOP \<equiv> 1"
abbreviation (input) XDEV_FLAG_OFFLINE :: u32 where "XDEV_FLAG_OFFLINE \<equiv> 1"

section \<open>The interrupt block\<close>

text \<open>\<open>cfg\<close> is the mapped configuration BAR, \<^verbatim>\<open>xdev->bar[xdev->config_bar_idx]\<close>.\<close>

definition int_reg :: "iomem \<Rightarrow> interrupt_reg \<Rightarrow> iomem" where
  "int_reg cfg r = io_plus (io_plus cfg XDMA_OFS_INT_CTRL) (interrupt_regs r)"

definition channel_interrupts_enable :: "iomem \<Rightarrow> u32 \<Rightarrow> iolog \<Rightarrow> iolog" where
  "channel_interrupts_enable cfg msk = write_register msk (int_reg cfg IR_channel_int_enable_w1s)"

definition channel_interrupts_disable :: "iomem \<Rightarrow> u32 \<Rightarrow> iolog \<Rightarrow> iolog" where
  "channel_interrupts_disable cfg msk = write_register msk (int_reg cfg IR_channel_int_enable_w1c)"

definition user_interrupts_enable :: "iomem \<Rightarrow> u32 \<Rightarrow> iolog \<Rightarrow> iolog" where
  "user_interrupts_enable cfg msk = write_register msk (int_reg cfg IR_user_int_enable_w1s)"

definition user_interrupts_disable :: "iomem \<Rightarrow> u32 \<Rightarrow> iolog \<Rightarrow> iolog" where
  "user_interrupts_disable cfg msk = write_register msk (int_reg cfg IR_user_int_enable_w1c)"

definition read_interrupts :: "('x) xenv_scheme \<Rightarrow> iomem \<Rightarrow> iolog \<Rightarrow> u32 \<times> iolog" where
  "read_interrupts E cfg log =
     (let (hi, log) = read_register E (int_reg cfg IR_user_int_request) log;
          (lo, log) = read_register E (int_reg cfg IR_channel_int_request) log
      in (build_u32 hi lo, log))"

text \<open>
  The six status reads of the probe: they only print, but a read of a device register is an
  access the device sees.
\<close>

definition check_nonzero_interrupt_status :: "('x) xenv_scheme \<Rightarrow> iomem \<Rightarrow> iolog \<Rightarrow> iolog" where
  "check_nonzero_interrupt_status E cfg log =
     fold (\<lambda>r log. snd (read_register E (int_reg cfg r) log))
       [IR_user_int_enable, IR_channel_int_enable, IR_user_int_request,
        IR_channel_int_request, IR_user_int_pending, IR_channel_int_pending] log"

section \<open>Facts about register access\<close>

lemma writes_to_read [simp]:
  "writes_to a (snd (read_register E b log)) = writes_to a log"
  by (simp add: read_register_def)

lemma writes_to_write [simp]:
  "writes_to a (write_register v b log) =
     (if b = a then v # writes_to a log else writes_to a log)"
  by (simp add: write_register_def)

lemma io_plus_inject [simp]: "io_plus p m = io_plus p n \<longleftrightarrow> m = n"
  by (simp add: io_plus_def)

lemma io_plus_io_plus [simp]: "io_plus (io_plus p m) n = io_plus p (m + n)"
  by (simp add: io_plus_def)

lemma engine_regs_inject: "engine_regs r = engine_regs r' \<longleftrightarrow> r = r'"
  by (cases r; cases r') simp_all

lemma engine_regs_bound: "engine_regs r + 4 \<le> CHANNEL_SPACING"
  by (cases r) simp_all

lemma sgdma_regs_bound: "engine_sgdma_regs r + 4 \<le> CHANNEL_SPACING"
  by (cases r) simp_all

end
