(* ===== verification/Xdma_Desc.thy ===== *)
theory Xdma_Desc
  imports Xdma_Regs
begin

text \<open>
  The SG DMA descriptors (\<^verbatim>\<open>struct xdma_desc\<close>) and the functions of
  \<^verbatim>\<open>libxdma.c\<close> that write them: chaining, linking, the adjacent count, the
  control byte and the addresses. An array of descriptors is a list, a pointer into it the
  index of the cell. \<^verbatim>\<open>cpu_to_le32\<close> is the identity on the supported x86_64 hosts.
  The last part is the reader's side: what an SG engine transfers when it follows the
  \<open>next\<close> addresses from the first descriptor.
\<close>

section \<open>Descriptors\<close>

record xdma_desc =
  d_control :: u32
  d_bytes :: u32
  d_src_addr_lo :: u32
  d_src_addr_hi :: u32
  d_dst_addr_lo :: u32
  d_dst_addr_hi :: u32
  d_next_lo :: u32
  d_next_hi :: u32

definition zero_desc :: xdma_desc where
  "zero_desc = \<lparr>d_control = 0, d_bytes = 0, d_src_addr_lo = 0, d_src_addr_hi = 0,
     d_dst_addr_lo = 0, d_dst_addr_hi = 0, d_next_lo = 0, d_next_hi = 0\<rparr>"

abbreviation (input) sizeof_xdma_desc :: nat where "sizeof_xdma_desc \<equiv> 32"

record xdma_result =
  r_status :: u32
  r_length :: u32

definition zero_result :: xdma_result where
  "zero_result = \<lparr>r_status = 0, r_length = 0\<rparr>"

abbreviation (input) sizeof_xdma_result :: nat where "sizeof_xdma_result \<equiv> 32"

datatype dma_data_direction = DMA_TO_DEVICE | DMA_FROM_DEVICE

definition PCI_DMA_H :: "u64 \<Rightarrow> u32" where
  "PCI_DMA_H addr = ucast (drop_bit 16 (drop_bit 16 addr))"

definition PCI_DMA_L :: "u64 \<Rightarrow> u32" where
  "PCI_DMA_L addr = ucast (addr AND 0xffffffff)"

text \<open>The address an engine forms of the two words.\<close>

definition addr_of :: "u32 \<Rightarrow> u32 \<Rightarrow> u64" where
  "addr_of hi lo = push_bit 32 (ucast hi) OR ucast lo"

lemma addr_of_parts [simp]: "addr_of (PCI_DMA_H a) (PCI_DMA_L a) = a"
proof (rule bit_word_eqI)
  fix n
  assume n: "n < LENGTH(64)"
  have mask: "(0xffffffff :: u64) = mask 32" by (simp add: mask_eq_exp_minus_1)
  show "bit (addr_of (PCI_DMA_H a) (PCI_DMA_L a)) n = bit a n"
    using n unfolding addr_of_def PCI_DMA_H_def PCI_DMA_L_def mask
    by (auto simp: bit_simps)
qed

section \<open>Writing descriptors\<close>

text \<open>
  \<open>transfer_desc_init base count bus ds\<close> chains \<open>count\<close> descriptors from
  cell \<open>base\<close>, whose bus address is \<open>bus\<close>: in iteration \<open>i\<close> of the loop
  \<^verbatim>\<open>desc_bus\<close> has been incremented \<open>i + 1\<close> times.
\<close>

definition link_next :: "u64 \<Rightarrow> xdma_desc \<Rightarrow> xdma_desc" where
  "link_next nxt d = d\<lparr>d_next_lo := PCI_DMA_L nxt, d_next_hi := PCI_DMA_H nxt,
     d_bytes := 0, d_control := DESC_MAGIC\<rparr>"

definition transfer_desc_init :: "nat \<Rightarrow> nat \<Rightarrow> u64 \<Rightarrow> xdma_desc list \<Rightarrow> xdma_desc list" where
  "transfer_desc_init base count bus ds =
     (let ds = array_for base (count - 1)
                 (\<lambda>i. link_next (bus + of_nat (sizeof_xdma_desc * (i - base + 1)))) ds;
          i = base + (count - 1)
      in ds[i := (ds ! i)\<lparr>d_next_lo := 0, d_next_hi := 0, d_bytes := 0,
                         d_control := DESC_MAGIC\<rparr>])"

definition xdma_desc_link :: "xdma_desc \<Rightarrow> u64 option \<Rightarrow> xdma_desc" where
  "xdma_desc_link first second_bus =
     (let control = d_control first AND 0x00FFC0ff;
          first = (case second_bus of
              Some bus \<Rightarrow> first\<lparr>d_next_lo := PCI_DMA_L bus, d_next_hi := PCI_DMA_H bus\<rparr>
            | None \<Rightarrow> first\<lparr>d_next_lo := 0, d_next_hi := 0\<rparr>)
      in first\<lparr>d_control := control OR DESC_MAGIC\<rparr>)"

definition xdma_desc_adjacent :: "xdma_desc \<Rightarrow> u32 \<Rightarrow> xdma_desc" where
  "xdma_desc_adjacent desc next_adjacent =
     (let control = d_control desc AND 0x0000f0ff;
          control = control OR (0xAD4B0000 OR push_bit 8 next_adjacent)
      in desc\<lparr>d_control := control\<rparr>)"

definition xdma_desc_control_set :: "xdma_desc \<Rightarrow> u32 \<Rightarrow> int \<times> xdma_desc" where
  "xdma_desc_control_set first control_field =
     (let control = d_control first AND NOT 0xFF
      in if control_field AND NOT 0xFF \<noteq> 0 then (- EINVAL, first)
         else (0, first\<lparr>d_control := control OR control_field\<rparr>))"

text \<open>\<^verbatim>\<open>memset\<close> of \<open>count\<close> descriptors from cell \<open>base\<close>.\<close>

definition xdma_desc_done :: "nat \<Rightarrow> nat \<Rightarrow> xdma_desc list \<Rightarrow> xdma_desc list" where
  "xdma_desc_done base count ds = array_for base count (\<lambda>_ _. zero_desc) ds"

definition xdma_desc_set ::
  "xdma_desc \<Rightarrow> u64 \<Rightarrow> u64 \<Rightarrow> u32 \<Rightarrow> dma_data_direction \<Rightarrow> xdma_desc" where
  "xdma_desc_set desc rc_bus_addr ep_addr len dir =
     (let desc = desc\<lparr>d_bytes := len\<rparr>
      in case dir of
           DMA_TO_DEVICE \<Rightarrow>
             desc\<lparr>d_src_addr_lo := PCI_DMA_L rc_bus_addr, d_src_addr_hi := PCI_DMA_H rc_bus_addr,
                  d_dst_addr_lo := PCI_DMA_L ep_addr, d_dst_addr_hi := PCI_DMA_H ep_addr\<rparr>
         | DMA_FROM_DEVICE \<Rightarrow>
             desc\<lparr>d_src_addr_lo := PCI_DMA_L ep_addr, d_src_addr_hi := PCI_DMA_H ep_addr,
                  d_dst_addr_lo := PCI_DMA_L rc_bus_addr, d_dst_addr_hi := PCI_DMA_H rc_bus_addr\<rparr>)"

text \<open>The number of adjacent descriptors to announce: unsigned 32-bit throughout.\<close>

definition xdma_get_next_adj :: "u32 \<Rightarrow> u32 \<Rightarrow> u32" where
  "xdma_get_next_adj remaining next_lo =
     (if remaining \<le> 1 then 0
      else (let next_index = drop_bit 5 (next_lo AND 0xFFF) mod 0x40
            in min (0x40 - next_index - 1) (remaining - 1)))"

text \<open>The loop that fills in the adjacent numbers of \<open>count\<close> descriptors from \<open>base\<close>.\<close>

definition set_adjacents :: "nat \<Rightarrow> nat \<Rightarrow> xdma_desc list \<Rightarrow> xdma_desc list" where
  "set_adjacents base count ds =
     array_for base count
       (\<lambda>i d. xdma_desc_adjacent d
                (xdma_get_next_adj (of_nat (count - (i - base) - 1)) (d_next_lo d))) ds"

lemmas desc_defs = link_next_def transfer_desc_init_def xdma_desc_link_def
  xdma_desc_adjacent_def xdma_desc_control_set_def xdma_desc_done_def xdma_desc_set_def
  set_adjacents_def

section \<open>What the writers do\<close>

lemma length_transfer_desc_init [simp]:
  "length (transfer_desc_init base count bus ds) = length ds"
  by (simp add: transfer_desc_init_def Let_def)

lemma length_set_adjacents [simp]: "length (set_adjacents base count ds) = length ds"
  by (simp add: set_adjacents_def)

lemma length_xdma_desc_done [simp]: "length (xdma_desc_done base count ds) = length ds"
  by (simp add: xdma_desc_done_def)

text \<open>Bus address of the \<open>k\<close>-th descriptor of an array that starts at \<open>bus\<close>.\<close>

definition desc_addr :: "u64 \<Rightarrow> nat \<Rightarrow> u64" where
  "desc_addr bus k = bus + of_nat (sizeof_xdma_desc * k)"

lemma nth_transfer_desc_init:
  assumes "0 < count" and "base + count \<le> length ds" and "j < length ds"
  shows "transfer_desc_init base count bus ds ! j =
    (if base \<le> j \<and> j < base + count then
       (ds ! j)\<lparr>d_next_lo := if Suc j = base + count then 0
                             else PCI_DMA_L (desc_addr bus (Suc (j - base))),
                d_next_hi := if Suc j = base + count then 0
                             else PCI_DMA_H (desc_addr bus (Suc (j - base))),
                d_bytes := 0, d_control := DESC_MAGIC\<rparr>
     else ds ! j)"
proof -
  have "Suc j = base + count \<longleftrightarrow> j = base + (count - 1)"
    using assms(1) by auto
  then show ?thesis
    using assms
    by (auto simp: transfer_desc_init_def Let_def nth_update_pick nth_array_for link_next_def
        desc_addr_def algebra_simps)
qed

section \<open>The adjacent count\<close>

lemma next_index_bound: "unat ((x :: u32) mod 0x40) < 64"
  by (simp add: unat_mod)

lemma next_index_nat_bound: "(n :: nat) div 32 mod 64 \<le> 63"
  using mod_less_divisor [of 64 "n div 32"] by simp

lemma get_next_adj_unat:
  assumes "1 < unat remaining"
  shows "unat (xdma_get_next_adj remaining next_lo) =
    min (63 - unat next_lo mod 4096 div 32 mod 64) (unat remaining - 1)"
proof -
  let ?ix = "drop_bit 5 (next_lo AND 0xFFF) mod (0x40 :: u32)"
  have r: "\<not> remaining \<le> 1"
    using assms by (simp add: word_le_nat_alt)
  have m: "(0xFFF :: u32) = mask 12" by (simp add: mask_eq_exp_minus_1)
  have ix: "unat ?ix = unat next_lo mod 4096 div 32 mod 64"
    by (simp only: m unat_mod unat_drop_bit low_bits_mod) simp
  have a: "unat (0x40 - ?ix - 1) = 63 - unat ?ix"
  proof -
    have lt: "unat ?ix < 64" by (rule next_index_bound)
    then have "?ix \<le> 0x40" by (simp add: word_le_nat_alt)
    then have s: "unat (0x40 - ?ix) = 64 - unat ?ix" by (simp add: unat_sub)
    then have "1 \<le> (0x40 - ?ix)" using lt by (simp add: word_le_nat_alt)
    then have "unat (0x40 - ?ix - 1) = unat (0x40 - ?ix) - unat (1 :: u32)"
      by (rule unat_sub)
    with s show ?thesis by simp
  qed
  have b: "unat (remaining - 1) = unat remaining - 1"
    using r by (simp add: unat_sub word_le_nat_alt)
  have "unat (min (0x40 - ?ix - 1) (remaining - 1)) =
      min (unat (0x40 - ?ix - 1)) (unat (remaining - 1))"
    by (simp add: min_def word_le_nat_alt)
  then have "unat (min (0x40 - ?ix - 1) (remaining - 1)) =
      min (63 - unat next_lo mod 4096 div 32 mod 64) (unat remaining - 1)"
    by (simp only: a b ix)
  with r show ?thesis
    by (simp only: xdma_get_next_adj_def Let_def if_False)
qed

lemma get_next_adj_small: "unat remaining \<le> 1 \<Longrightarrow> xdma_get_next_adj remaining next_lo = 0"
  by (simp add: xdma_get_next_adj_def word_le_nat_alt)

lemma get_next_adj_le: "unat (xdma_get_next_adj remaining next_lo) \<le> 63"
  by (cases "1 < unat remaining") (auto simp: get_next_adj_unat get_next_adj_small)

lemma get_next_adj_remaining: "unat (xdma_get_next_adj remaining next_lo) \<le> unat remaining - 1"
  by (cases "1 < unat remaining") (auto simp: get_next_adj_unat get_next_adj_small)

lemma div_block_add:
  fixes a k :: nat
  assumes "a div 32 mod 64 + k \<le> 63"
  shows "(a + 32 * k) div 2048 = a div 2048"
proof -
  have "(a div 32 + k) div 64 = a div 32 div 64"
    using assms by (simp add: div_add1_eq [of "a div 32" k 64])
  moreover have "(a + 32 * k) div 32 = a div 32 + k" by simp
  ultimately have "(a + 32 * k) div 32 div 64 = a div 32 div 64" by simp
  then show ?thesis by (simp add: div_mult2_eq [symmetric])
qed

lemma adjacent_run_block:
  assumes "1 < unat remaining"
  shows "(unat next_lo + 32 * unat (xdma_get_next_adj remaining next_lo)) div 2048 =
      unat next_lo div 2048"
    and "unat (xdma_get_next_adj remaining next_lo) < unat remaining"
proof -
  have "unat next_lo mod 4096 div 32 mod 64 = unat next_lo div 32 mod 64"
    by (simp add: mod_mult2_eq [of _ 32 128, simplified] mod_mod_cancel)
  moreover have "unat (xdma_get_next_adj remaining next_lo) \<le>
      63 - unat next_lo mod 4096 div 32 mod 64"
    using assms by (simp add: get_next_adj_unat)
  ultimately have "unat next_lo div 32 mod 64 +
      unat (xdma_get_next_adj remaining next_lo) \<le> 63"
    using next_index_nat_bound [of "unat next_lo"] by linarith
  then show "(unat next_lo + 32 * unat (xdma_get_next_adj remaining next_lo)) div 2048 =
      unat next_lo div 2048"
    by (rule div_block_add)
  show "unat (xdma_get_next_adj remaining next_lo) < unat remaining"
    using assms get_next_adj_remaining [of remaining next_lo] by linarith
qed

text \<open>
  The run of adjacent descriptors announced for a next descriptor at
  \<open>next_lo\<close> stays inside one aligned block of 64 descriptors (2 KiB, so it never crosses
  the 4 KiB page the engine fetches in one request) and never reaches past the remaining
  descriptors.
\<close>

theorem adjacent_run_in_block:
  assumes "1 < unat remaining"
  shows "let k = unat (xdma_get_next_adj remaining next_lo) in
    (unat next_lo + sizeof_xdma_desc * k) div 2048 = unat next_lo div 2048 \<and>
    k < unat remaining"
  using adjacent_run_block [OF assms] by (simp add: Let_def)

theorem adjacent_run_in_block_witness:
  "unat (xdma_get_next_adj 100 0x1040) = 61 \<and>
   (let k = unat (xdma_get_next_adj 100 0x1040) in
     (unat (0x1040 :: u32) + 32 * k) div 2048 = unat (0x1040 :: u32) div 2048 \<and>
     k < unat (100 :: u32))"
proof -
  have "1 < unat (100 :: u32)" by simp
  from adjacent_run_in_block [OF this, of "0x1040"] show ?thesis
    by (simp add: xdma_get_next_adj_def word_le_nat_alt min_def)
qed

end
