(* ===== verification/Xdma_Engine.thy ===== *)
theory Xdma_Engine
  imports Xdma_Desc
begin

text \<open>
  One SG DMA engine: its state (\<^verbatim>\<open>struct xdma_engine\<close>), the transfers queued on it
  (\<^verbatim>\<open>struct xdma_transfer\<close>), starting and stopping it and servicing it after an
  interrupt or a poll (\<^verbatim>\<open>libxdma.c\<close>, \<^verbatim>\<open>engine_reg_dump\<close> to
  \<^verbatim>\<open>engine_service_poll\<close>).

  A transfer object is named by an identifier, the pair of the request that holds it and its
  place in \<^verbatim>\<open>tfer[]\<close>; \<open>xfers\<close> is the store of these objects, and the queue of
  the engine is the list of their identifiers. \<^verbatim>\<open>desc_virt\<close> is an index into the
  descriptor ring. A completion callback is a function pointer that only changes the state of
  its owner, \<open>client\<close>. Counts that stay within the ring (at most 2048) are natural
  numbers; the counters the hardware and the driver compare are 32-bit words.
\<close>

section \<open>State\<close>

datatype transfer_state =
    TRANSFER_STATE_NEW | TRANSFER_STATE_SUBMITTED | TRANSFER_STATE_COMPLETED
  | TRANSFER_STATE_FAILED | TRANSFER_STATE_ABORTED

abbreviation (input) ENGINE_SHUTDOWN_NONE :: u32 where "ENGINE_SHUTDOWN_NONE \<equiv> 0"
abbreviation (input) ENGINE_SHUTDOWN_REQUEST :: u32 where "ENGINE_SHUTDOWN_REQUEST \<equiv> 1"
abbreviation (input) ENGINE_SHUTDOWN_IDLE :: u32 where "ENGINE_SHUTDOWN_IDLE \<equiv> 2"
abbreviation (input) XFER_FLAG_NEED_UNMAP :: u32 where "XFER_FLAG_NEED_UNMAP \<equiv> 1"
abbreviation (input) XFER_FLAG_ST_C2H_EOP_RCVED :: u32 where "XFER_FLAG_ST_C2H_EOP_RCVED \<equiv> 2"

type_synonym xid = "nat \<times> nat"

record xdma_transfer =
  x_desc_virt :: nat
  x_res_virt :: nat
  x_res_bus :: u64
  x_desc_bus :: u64
  x_desc_adjacent :: nat
  x_desc_num :: nat
  x_desc_index :: nat
  x_desc_cmpl :: nat
  x_desc_cmpl_th :: nat
  x_dir :: dma_data_direction
  x_state :: transfer_state
  x_flags :: u32
  x_cyclic :: bool
  x_last_in_request :: bool
  x_len :: u32
  x_cb :: "nat option"

definition zero_xfer :: xdma_transfer where
  "zero_xfer = \<lparr>x_desc_virt = 0, x_res_virt = 0, x_res_bus = 0, x_desc_bus = 0,
     x_desc_adjacent = 0, x_desc_num = 0, x_desc_index = 0, x_desc_cmpl = 0,
     x_desc_cmpl_th = 0, x_dir = DMA_TO_DEVICE, x_state = TRANSFER_STATE_NEW, x_flags = 0,
     x_cyclic = False, x_last_in_request = False, x_len = 0, x_cb = None\<rparr>"

record xdma_performance_ioctl =
  p_version :: u32
  p_transfer_size :: u32
  p_stopped :: u32
  p_iterations :: u32
  p_clock_cycle_count :: u64
  p_data_cycle_count :: u64
  p_pending_count :: u64

record xdma_engine =
  e_magic :: u64
  e_name :: string
  e_regs :: iomem
  e_sgdma_regs :: iomem
  e_bypass_offset :: u32
  e_shutdown :: u32
  e_dir :: dma_data_direction
  e_addr_align :: u8
  e_len_granularity :: u8
  e_addr_bits :: u8
  e_channel :: nat
  e_streaming :: bool
  e_device_open :: bool
  e_running :: bool
  e_non_incr_addr :: bool
  e_eop_flush :: bool
  e_desc_dequeued :: u32
  e_desc_max :: nat
  e_status :: u32
  e_interrupt_enable_mask_value :: u32
  e_transfer_list :: "xid list"
  e_cyclic_result :: "xdma_result list"
  e_cyclic_result_bus :: u64
  e_perf_buf_virt :: bool
  e_perf_buf_bus :: u64
  e_poll_mode_addr_virt :: "u32 option"
  e_poll_mode_bus :: u64
  e_msix_irq_line :: u32
  e_irq_bitmask :: u32
  e_desc_bus :: u64
  e_desc :: "xdma_desc list"
  e_desc_idx :: nat
  e_desc_used :: u32
  e_xdma_perf :: "xdma_performance_ioctl option"
  e_cmplthp :: "nat option"
  e_intr_work_cpu :: nat

text \<open>Wake-ups and deferred work the driver asks the kernel for, in order.\<close>

datatype wake = Wake_xfer xid | Wake_shutdown | Wake_perf | Wake_cmpl_thread nat

text \<open>
  What an operation on one engine sees: the engine, the transfer objects, the access log, the
  wake-ups so far (latest first), the state of the owner of the completion callbacks, and the
  fields of \<^verbatim>\<open>struct xdma_dev\<close> the engine code reads.
\<close>

record 'c est =
  eng :: xdma_engine
  xfers :: "xid \<Rightarrow> xdma_transfer"
  io :: iolog
  wakes :: "wake list"
  client :: 'c
  xdev_flags :: u32
  xdev_msix_enabled :: bool
  xdev_cfg :: iomem

text \<open>The callback \<^verbatim>\<open>cb->io_done(cb, err)\<close>, a function of the callback's owner.\<close>

record 'c kenv = xenv +
  io_done :: "nat \<Rightarrow> int \<Rightarrow> 'c \<Rightarrow> 'c"

section \<open>Register access of an engine\<close>

definition ereg :: "('c, 's) est_scheme \<Rightarrow> engine_reg \<Rightarrow> iomem" where
  "ereg st r = io_plus (e_regs (eng st)) (engine_regs r)"

definition sreg :: "('c, 's) est_scheme \<Rightarrow> sgdma_reg \<Rightarrow> iomem" where
  "sreg st r = io_plus (e_sgdma_regs (eng st)) (engine_sgdma_regs r)"

definition read_ereg ::
  "('x) xenv_scheme \<Rightarrow> engine_reg \<Rightarrow> ('c, 's) est_scheme \<Rightarrow> u32 \<times> ('c, 's) est_scheme" where
  "read_ereg E r st = (let (v, log) = read_register E (ereg st r) (io st) in (v, st\<lparr>io := log\<rparr>))"

definition write_ereg ::
  "u32 \<Rightarrow> engine_reg \<Rightarrow> ('c, 's) est_scheme \<Rightarrow> ('c, 's) est_scheme" where
  "write_ereg v r st = st\<lparr>io := write_register v (ereg st r) (io st)\<rparr>"

definition write_sreg ::
  "u32 \<Rightarrow> sgdma_reg \<Rightarrow> ('c, 's) est_scheme \<Rightarrow> ('c, 's) est_scheme" where
  "write_sreg v r st = st\<lparr>io := write_register v (sreg st r) (io st)\<rparr>"

definition read_sreg ::
  "('x) xenv_scheme \<Rightarrow> sgdma_reg \<Rightarrow> ('c, 's) est_scheme \<Rightarrow> u32 \<times> ('c, 's) est_scheme" where
  "read_sreg E r st = (let (v, log) = read_register E (sreg st r) (io st) in (v, st\<lparr>io := log\<rparr>))"

definition set_xfer ::
  "xid \<Rightarrow> xdma_transfer \<Rightarrow> ('c, 's) est_scheme \<Rightarrow> ('c, 's) est_scheme" where
  "set_xfer t x st = st\<lparr>xfers := (xfers st)(t := x)\<rparr>"

section \<open>Performance counters\<close>

definition enable_perf :: "('x) xenv_scheme \<Rightarrow> ('c, 's) est_scheme \<Rightarrow> ('c, 's) est_scheme" where
  "enable_perf E st =
     (let st = write_ereg XDMA_PERF_CLEAR ER_perf_ctrl st;
          (_, st) = read_ereg E ER_identifier st;
          st = write_ereg (XDMA_PERF_AUTO OR XDMA_PERF_RUN) ER_perf_ctrl st;
          (_, st) = read_ereg E ER_identifier st
      in st)"

definition get_perf_stats ::
  "('x) xenv_scheme \<Rightarrow> ('c, 's) est_scheme \<Rightarrow> ('c, 's) est_scheme" where
  "get_perf_stats E st =
     (case e_xdma_perf (eng st) of
        None \<Rightarrow> st
      | Some p \<Rightarrow>
          (let (lo, st) = read_ereg E ER_completed_desc_count st;
               p = p\<lparr>p_iterations := ucast (build_u64 0 (ucast lo))\<rparr>;
               (hi, st) = read_ereg E ER_perf_cyc_hi st;
               (lo, st) = read_ereg E ER_perf_cyc_lo st;
               p = p\<lparr>p_clock_cycle_count := build_u64 (ucast hi) (ucast lo)\<rparr>;
               (hi, st) = read_ereg E ER_perf_dat_hi st;
               (lo, st) = read_ereg E ER_perf_dat_lo st;
               p = p\<lparr>p_data_cycle_count := build_u64 (ucast hi) (ucast lo)\<rparr>;
               (hi, st) = read_ereg E ER_perf_pnd_hi st;
               (lo, st) = read_ereg E ER_perf_pnd_lo st;
               p = p\<lparr>p_pending_count := build_u64 (ucast hi) (ucast lo)\<rparr>
           in st\<lparr>eng := (eng st)\<lparr>e_xdma_perf := Some p\<rparr>\<rparr>))"

section \<open>Status, start and stop\<close>

definition engine_reg_dump ::
  "('x) xenv_scheme \<Rightarrow> ('c, 's) est_scheme \<Rightarrow> int \<times> ('c, 's) est_scheme" where
  "engine_reg_dump E st =
     (let (w, st) = read_ereg E ER_identifier st
      in if w AND BLOCK_ID_MASK \<noteq> BLOCK_ID_HEAD then (- EINVAL, st)
         else (let (_, st) = read_ereg E ER_status st;
                   (_, st) = read_ereg E ER_control st;
                   (_, st) = read_sreg E SR_first_desc_lo st;
                   (_, st) = read_sreg E SR_first_desc_hi st;
                   (_, st) = read_sreg E SR_first_desc_adjacent st;
                   (_, st) = read_ereg E ER_completed_desc_count st;
                   (_, st) = read_ereg E ER_interrupt_enable_mask st
               in (0, st)))"

definition engine_status_read ::
  "('x) xenv_scheme \<Rightarrow> bool \<Rightarrow> bool \<Rightarrow> ('c, 's) est_scheme \<Rightarrow> int \<times> ('c, 's) est_scheme" where
  "engine_status_read E clear dump st =
     (let (rv, st) = (if dump then engine_reg_dump E st else (0, st))
      in if rv < 0 then (rv, st)
         else (let (v, st) = read_ereg E (if clear then ER_status_rc else ER_status) st
               in (rv, st\<lparr>eng := (eng st)\<lparr>e_status := v\<rparr>\<rparr>)))"

text \<open>The control word written to stop an engine, and the one written to start it.\<close>

definition stop_control :: "('x) xenv_scheme \<Rightarrow> u32" where
  "stop_control E =
     (XDMA_CTRL_IE_DESC_ALIGN_MISMATCH OR XDMA_CTRL_IE_MAGIC_STOPPED OR
      XDMA_CTRL_IE_READ_ERROR OR XDMA_CTRL_IE_DESC_ERROR) OR
     (if poll_mode E then XDMA_CTRL_POLL_MODE_WB
      else XDMA_CTRL_IE_DESC_STOPPED OR XDMA_CTRL_IE_DESC_COMPLETED)"

definition credit_engine :: "('x) xenv_scheme \<Rightarrow> xdma_engine \<Rightarrow> bool" where
  "credit_engine E e \<longleftrightarrow> enable_st_c2h_credit E \<and> e_streaming e \<and> e_dir e = DMA_FROM_DEVICE"

definition xdma_engine_stop ::
  "('x) xenv_scheme \<Rightarrow> ('c, 's) est_scheme \<Rightarrow> int \<times> ('c, 's) est_scheme" where
  "xdma_engine_stop E st =
     (let st = (if credit_engine E (eng st) then write_sreg 0 SR_credits st else st);
          st = write_ereg (stop_control E) ER_control st
      in (0, st\<lparr>eng := (eng st)\<lparr>e_running := False\<rparr>\<rparr>))"

definition start_control :: "('x) xenv_scheme \<Rightarrow> xdma_engine \<Rightarrow> u32" where
  "start_control E e =
     (XDMA_CTRL_RUN_STOP OR XDMA_CTRL_IE_READ_ERROR OR XDMA_CTRL_IE_DESC_ERROR OR
      XDMA_CTRL_IE_DESC_ALIGN_MISMATCH OR XDMA_CTRL_IE_MAGIC_STOPPED) OR
     (if poll_mode E then XDMA_CTRL_POLL_MODE_WB
      else XDMA_CTRL_IE_DESC_STOPPED OR XDMA_CTRL_IE_DESC_COMPLETED) OR
     (if e_non_incr_addr e then XDMA_CTRL_NON_INCR_ADDR else 0)"

definition engine_start_mode_config ::
  "('x) xenv_scheme \<Rightarrow> ('c, 's) est_scheme \<Rightarrow> int \<times> ('c, 's) est_scheme" where
  "engine_start_mode_config E st =
     (let st = (if e_xdma_perf (eng st) \<noteq> None
                then write_ereg (XDMA_CTRL_IE_DESC_STOPPED OR XDMA_CTRL_IE_DESC_COMPLETED OR
                       XDMA_CTRL_IE_DESC_ALIGN_MISMATCH OR XDMA_CTRL_IE_MAGIC_STOPPED OR
                       XDMA_CTRL_IE_IDLE_STOPPED OR XDMA_CTRL_IE_READ_ERROR OR
                       XDMA_CTRL_IE_DESC_ERROR) ER_interrupt_enable_mask st
                else st);
          st = write_ereg (start_control E (eng st)) ER_control st;
          (_, st) = read_ereg E ER_status st
      in (0, st))"

definition engine_start ::
  "('x) xenv_scheme \<Rightarrow> ('c, 's) est_scheme \<Rightarrow> xid option \<times> ('c, 's) est_scheme" where
  "engine_start E st =
     (if e_running (eng st) then (None, st)
      else case e_transfer_list (eng st) of
        [] \<Rightarrow> (None, st)
      | t # _ \<Rightarrow>
          (let x = xfers st t;
               st = st\<lparr>eng := (eng st)\<lparr>e_shutdown := ENGINE_SHUTDOWN_NONE\<rparr>\<rparr>;
               st = (if credit_engine E (eng st)
                     then write_sreg (e_desc_used (eng st)) SR_credits st else st);
               st = st\<lparr>eng := (eng st)\<lparr>e_desc_dequeued := 0\<rparr>\<rparr>;
               st = write_sreg (PCI_DMA_L (x_desc_bus x)) SR_first_desc_lo st;
               st = write_sreg (PCI_DMA_H (x_desc_bus x)) SR_first_desc_hi st;
               st = write_sreg (xdma_get_next_adj (of_nat (x_desc_adjacent x))
                                  (PCI_DMA_L (x_desc_bus x))) SR_first_desc_adjacent st;
               (rv, st) = engine_start_mode_config E st
           in if rv < 0 then (None, st)
              else (let (rv, st) = engine_status_read E False False st
                    in if rv < 0 then (None, st)
                       else (Some t, st\<lparr>eng := (eng st)\<lparr>e_running := True\<rparr>\<rparr>))))"

end
