(* ===== verification/Xdma_Service.thy ===== *)
theory Xdma_Service
  imports Xdma_Engine
begin

text \<open>
  Servicing an engine (\<^verbatim>\<open>engine_service_shutdown\<close> to
  \<^verbatim>\<open>engine_service_poll\<close> of \<^verbatim>\<open>libxdma.c\<close>): the engine reports how many
  descriptors of the current run it has completed; the driver retires the transfers those
  descriptors belong to, from the head of the queue, and restarts the engine on what is left.
\<close>

section \<open>The operations\<close>

definition wake_up :: "wake \<Rightarrow> ('c, 's) est_scheme \<Rightarrow> ('c, 's) est_scheme" where
  "wake_up w st = st\<lparr>wakes := w # wakes st\<rparr>"

definition engine_service_shutdown ::
  "('x) xenv_scheme \<Rightarrow> ('c, 's) est_scheme \<Rightarrow> int \<times> ('c, 's) est_scheme" where
  "engine_service_shutdown E st =
     (let (rv, st) = xdma_engine_stop E st
      in if rv < 0 then (rv, st) else (0, wake_up Wake_shutdown st))"

text \<open>The transfer pointer of the code is an option: \<open>None\<close> is NULL.\<close>

definition engine_transfer_completion ::
  "('c, 'x) kenv_scheme \<Rightarrow> xid option \<Rightarrow> ('c, 's) est_scheme \<Rightarrow>
     xid option \<times> ('c, 's) est_scheme" where
  "engine_transfer_completion E transfer st =
     (case transfer of
        None \<Rightarrow> (None, st)
      | Some t \<Rightarrow>
          (let st = wake_up (Wake_xfer t) st;
               x = xfers st t
           in (Some t,
               case x_cb x of
                 Some cb \<Rightarrow> (if x_last_in_request x
                            then st\<lparr>client := io_done E cb 0 (client st)\<rparr> else st)
               | None \<Rightarrow> st)))"

text \<open>\<^verbatim>\<open>list_del(engine->transfer_list.next)\<close>.\<close>

definition del_head :: "('c, 's) est_scheme \<Rightarrow> ('c, 's) est_scheme" where
  "del_head st = st\<lparr>eng := (eng st)\<lparr>e_transfer_list := tl (e_transfer_list (eng st))\<rparr>\<rparr>"

definition head_of :: "('c, 's) est_scheme \<Rightarrow> xid option" where
  "head_of st = (case e_transfer_list (eng st) of [] \<Rightarrow> None | t # _ \<Rightarrow> Some t)"

definition retire_one ::
  "('c, 'x) kenv_scheme \<Rightarrow> xid \<Rightarrow> ('c, 's) est_scheme \<Rightarrow> ('c, 's) est_scheme" where
  "retire_one E t st =
     (let n = x_desc_num (xfers st t);
          st = del_head st;
          st = st\<lparr>eng := (eng st)\<lparr>e_desc_dequeued := e_desc_dequeued (eng st) + of_nat n\<rparr>\<rparr>;
          st = set_xfer t ((xfers st t)\<lparr>x_state := TRANSFER_STATE_COMPLETED\<rparr>) st
      in snd (engine_transfer_completion E (Some t) st))"

lemma transfer_list_completion [simp]:
  "eng (snd (engine_transfer_completion E tr st)) = eng st"
  by (simp add: engine_transfer_completion_def wake_up_def Let_def split: option.splits)

lemma transfer_list_retire_one [simp]:
  "e_transfer_list (eng (retire_one E t st)) = tl (e_transfer_list (eng st))"
  by (simp add: retire_one_def del_head_def set_xfer_def Let_def)

function engine_service_transfer_list ::
  "('c, 'x) kenv_scheme \<Rightarrow> xid option \<Rightarrow> u32 \<Rightarrow> ('c, 's) est_scheme \<Rightarrow>
     xid option \<times> u32 \<times> ('c, 's) est_scheme" where
  "engine_service_transfer_list E None desc_completed st = (None, desc_completed, st)"
| "engine_service_transfer_list E (Some t) desc_completed st =
     (let x = xfers st t
      in if \<not> x_cyclic x \<and> unat desc_completed > x_desc_num x
         then (let st = retire_one E t st;
                   desc_completed = desc_completed - of_nat (x_desc_num x)
               in case e_transfer_list (eng st) of
                    [] \<Rightarrow> (None, desc_completed, st)
                  | h # _ \<Rightarrow> engine_service_transfer_list E (Some h) desc_completed st)
         else (Some t, desc_completed, st))"
  by pat_completeness auto
termination
proof (relation "measure (\<lambda>(E, tr, pc, st). length (e_transfer_list (eng st)))", goal_cases)
  case 1
  then show ?case by simp
next
  case (2 E t pc st x st' pc' h l)
  then have "tl (e_transfer_list (eng st)) = h # l" by simp
  then show ?case using 2 by (cases "e_transfer_list (eng st)") auto
qed

declare engine_service_transfer_list.simps [simp del]

definition engine_err_handle ::
  "('x) xenv_scheme \<Rightarrow> xid \<Rightarrow> ('c, 's) est_scheme \<Rightarrow> int \<times> ('c, 's) est_scheme" where
  "engine_err_handle E t st =
     (let st = (if e_status (eng st) AND XDMA_STAT_BUSY \<noteq> 0
                then snd (read_ereg E ER_status st) else st);
          st = set_xfer t ((xfers st t)\<lparr>x_state := TRANSFER_STATE_FAILED\<rparr>) st
      in xdma_engine_stop E st)"

definition status_error :: "xdma_engine \<Rightarrow> bool" where
  "status_error e \<longleftrightarrow>
     (e_dir e = DMA_FROM_DEVICE \<and> e_status e AND XDMA_STAT_C2H_ERR_MASK \<noteq> 0) \<or>
     (e_dir e = DMA_TO_DEVICE \<and> e_status e AND XDMA_STAT_H2C_ERR_MASK \<noteq> 0)"

definition eop_in_results :: "xdma_result list \<Rightarrow> nat \<Rightarrow> nat \<Rightarrow> bool" where
  "eop_in_results rs base n \<longleftrightarrow>
     list_ex (\<lambda>i. r_status (rs ! (base + i)) AND RX_STATUS_EOP \<noteq> 0) [0..<n]"

definition add_dequeued :: "u32 \<Rightarrow> ('c, 's) est_scheme \<Rightarrow> ('c, 's) est_scheme" where
  "add_dequeued n st =
     st\<lparr>eng := (eng st)\<lparr>e_desc_dequeued := e_desc_dequeued (eng st) + n\<rparr>\<rparr>"

text \<open>\<^verbatim>\<open>transfer_del:\<close> remove the head of the queue and complete the transfer.\<close>

definition transfer_del ::
  "('c, 'x) kenv_scheme \<Rightarrow> xid \<Rightarrow> ('c, 's) est_scheme \<Rightarrow> xid option \<times> ('c, 's) est_scheme" where
  "transfer_del E t st = engine_transfer_completion E (Some t) (del_head st)"

definition engine_service_final_transfer ::
  "('c, 'x) kenv_scheme \<Rightarrow> xid option \<Rightarrow> u32 \<Rightarrow> ('c, 's) est_scheme \<Rightarrow>
     xid option \<times> ('c, 's) est_scheme" where
  "engine_service_final_transfer E transfer desc_completed st =
     (case transfer of
        None \<Rightarrow> (None, st)
      | Some t \<Rightarrow>
          if status_error (eng st) then transfer_del E t (snd (engine_err_handle E t st))
          else (let x = xfers st t in
            if unat desc_completed < x_desc_num x then
              if e_eop_flush (eng st) then
                (let x = (if eop_in_results (e_cyclic_result (eng st)) (x_res_virt x)
                               (unat desc_completed)
                          then x\<lparr>x_flags := x_flags x OR XFER_FLAG_ST_C2H_EOP_RCVED\<rparr> else x);
                     x = x\<lparr>x_desc_cmpl := unat desc_completed\<rparr>;
                     st = set_xfer t x st
                 in if x_flags x AND XFER_FLAG_ST_C2H_EOP_RCVED = 0 then (None, st)
                    else (let (_, st) = engine_service_shutdown E st;
                              st = set_xfer t (x\<lparr>x_state := TRANSFER_STATE_COMPLETED\<rparr>) st;
                              st = add_dequeued (of_nat (x_desc_cmpl x)) st
                          in transfer_del E t st))
              else
                (let st = set_xfer t (x\<lparr>x_state := TRANSFER_STATE_FAILED\<rparr>) st;
                     st = add_dequeued (of_nat (x_desc_num x)) st;
                     st = set_xfer t ((xfers st t)\<lparr>x_desc_cmpl := unat desc_completed\<rparr>) st
                 in transfer_del E t st)
            else
              (let st = set_xfer t (x\<lparr>x_state := TRANSFER_STATE_COMPLETED,
                                      x_desc_cmpl := x_desc_num x\<rparr>) st;
                   st = add_dequeued (of_nat (x_desc_num x)) st
               in transfer_del E t st)))"

definition engine_service_perf ::
  "u32 \<Rightarrow> ('c, 's) est_scheme \<Rightarrow> int \<times> ('c, 's) est_scheme" where
  "engine_service_perf desc_completed st =
     (case e_xdma_perf (eng st) of
        None \<Rightarrow> (0, st)
      | Some p \<Rightarrow>
          (let p = (if e_status (eng st) AND XDMA_STAT_DESC_COMPLETED \<noteq> 0
                    then p\<lparr>p_iterations := desc_completed\<rparr> else p);
               stopped = (e_status (eng st) AND XDMA_STAT_DESC_STOPPED \<noteq> 0);
               p = (if stopped then p\<lparr>p_stopped := 1\<rparr> else p);
               st = st\<lparr>eng := (eng st)\<lparr>e_xdma_perf := Some p\<rparr>\<rparr>
           in (0, if stopped then wake_up Wake_perf st else st)))"

definition engine_service_resume ::
  "('x) xenv_scheme \<Rightarrow> ('c, 's) est_scheme \<Rightarrow> int \<times> ('c, 's) est_scheme" where
  "engine_service_resume E st =
     (if \<not> e_running (eng st) then
        (if e_transfer_list (eng st) \<noteq> [] then
           (let (started, st) = engine_start E st
            in if started = None then (- EINVAL, st) else (0, st))
         else if e_shutdown (eng st) AND ENGINE_SHUTDOWN_REQUEST \<noteq> 0 then
           (0, wake_up Wake_shutdown
                 (st\<lparr>eng := (eng st)\<lparr>e_shutdown := e_shutdown (eng st) OR ENGINE_SHUTDOWN_IDLE\<rparr>\<rparr>))
         else (0, st))
      else if e_transfer_list (eng st) = [] then (0, snd (engine_service_shutdown E st))
      else (0, st))"

text \<open>
  The part of \<^verbatim>\<open>engine_service\<close> after the descriptor count is known: retire, then
  resume.
\<close>

definition service_queue ::
  "('c, 'x) kenv_scheme \<Rightarrow> u32 \<Rightarrow> ('c, 's) est_scheme \<Rightarrow> ('c, 's) est_scheme" where
  "service_queue E desc_count st =
     (let transfer = head_of st;
          st = (if transfer = None then st else snd (engine_service_perf desc_count st));
          desc_count = desc_count - e_desc_dequeued (eng st);
          (transfer, desc_count, st) = engine_service_transfer_list E transfer desc_count st;
          (_, st) = engine_service_final_transfer E transfer desc_count st
      in snd (engine_service_resume E st))"

definition engine_service ::
  "('c, 'x) kenv_scheme \<Rightarrow> u32 \<Rightarrow> ('c, 's) est_scheme \<Rightarrow> int \<times> ('c, 's) est_scheme" where
  "engine_service E desc_writeback st =
     (let desc_count = desc_writeback AND WB_COUNT_MASK;
          err_flag = desc_writeback AND WB_ERR_MASK
      in if \<not> e_running (eng st) then
           (let (rv, st) = engine_status_read E True False st
            in if rv < 0 then (rv, st) else (0, st))
         else
           (let (rv, st) = (if desc_count = 0 \<or> err_flag \<noteq> 0
                            then engine_status_read E True False st else (0, st))
            in if rv < 0 then (rv, st)
               else
                 (let (rv, st) =
                    (if (e_running (eng st) \<and> e_status (eng st) AND XDMA_STAT_BUSY = 0) \<or>
                        (\<not> e_eop_flush (eng st) \<and> desc_count \<noteq> 0)
                     then engine_service_shutdown E st else (0, st))
                  in if rv < 0 then (rv, st)
                     else
                       (let (desc_count, st) =
                          (if desc_count = 0 then read_ereg E ER_completed_desc_count st
                           else (desc_count, st));
                            st = (if desc_count = 0 then st else service_queue E desc_count st)
                        in (if err_flag \<noteq> 0 then - 1 else 0, st)))))"

text \<open>The work item an interrupt schedules: service the engine, then re-enable its interrupt.\<close>

definition engine_service_work ::
  "('c, 'x) kenv_scheme \<Rightarrow> ('c, 's) est_scheme \<Rightarrow> ('c, 's) est_scheme" where
  "engine_service_work E st =
     (if e_magic (eng st) \<noteq> MAGIC_ENGINE then st
      else (let (rv, st) = engine_service E 0 st
            in if rv < 0 then st
               else if xdev_msix_enabled st
               then write_ereg (e_interrupt_enable_mask_value (eng st))
                      ER_interrupt_enable_mask_w1s st
               else st\<lparr>io := channel_interrupts_enable (xdev_cfg st)
                              (e_irq_bitmask (eng st)) (io st)\<rparr>))"

text \<open>
  The polling loop. \<open>wb k\<close> is the value found in the write-back word in iteration
  \<open>k\<close> and \<open>late k\<close> whether the ten-second deadline has passed by then; resetting a
  non-zero word is part of reading it. The loop runs until one of its exits is taken, so the
  result is an option.
\<close>

partial_function (option) wb_monitor_loop ::
  "(nat \<Rightarrow> u32) \<Rightarrow> (nat \<Rightarrow> bool) \<Rightarrow> u32 \<Rightarrow> nat \<Rightarrow> u32 option" where
  "wb_monitor_loop wb late expected_wb k =
     (let desc_wb = wb k
      in if desc_wb AND WB_ERR_MASK \<noteq> 0 then Some desc_wb
         else if desc_wb \<ge> expected_wb then Some desc_wb
         else if late k then
           Some (if desc_wb AND WB_COUNT_MASK > expected_wb
                 then expected_wb OR WB_ERR_MASK else desc_wb)
         else wb_monitor_loop wb late expected_wb (Suc k))"

declare wb_monitor_loop.simps [code]

definition engine_service_wb_monitor ::
  "(nat \<Rightarrow> u32) \<Rightarrow> (nat \<Rightarrow> bool) \<Rightarrow> u32 \<Rightarrow> u32 option" where
  "engine_service_wb_monitor wb late expected_wb =
     (if expected_wb = 0 then Some 0 else wb_monitor_loop wb late expected_wb 0)"

definition engine_service_poll ::
  "('c, 'x) kenv_scheme \<Rightarrow> (nat \<Rightarrow> u32) \<Rightarrow> (nat \<Rightarrow> bool) \<Rightarrow> u32 \<Rightarrow>
     ('c, 's) est_scheme \<Rightarrow> (int \<times> ('c, 's) est_scheme) option" where
  "engine_service_poll E wb late expected_desc_count st =
     (if e_magic (eng st) \<noteq> MAGIC_ENGINE then Some (- EINVAL, st)
      else case engine_service_wb_monitor wb late expected_desc_count of
             None \<Rightarrow> None
           | Some desc_wb \<Rightarrow> Some (if desc_wb = 0 then (0, st) else engine_service E desc_wb st))"

end
