(* ===== verification/Xdma_Service_Facts.thy ===== *)
theory Xdma_Service_Facts
  imports Xdma_Service
begin

text \<open>
  What servicing an engine does: the effect of each operation on the queue, the transfers and
  the running flag, the loop that retires transfers against the order of the queue, and the
  invariant of a queue that every service keeps.
\<close>

section \<open>Frame facts of register access, start and stop\<close>

lemma read_ereg_frame [simp]:
  "eng (snd (read_ereg E r st)) = eng st" "xfers (snd (read_ereg E r st)) = xfers st"
  "wakes (snd (read_ereg E r st)) = wakes st" "client (snd (read_ereg E r st)) = client st"
  "xdev_flags (snd (read_ereg E r st)) = xdev_flags st"
  by (simp_all add: read_ereg_def read_register_def)

lemma read_sreg_frame [simp]:
  "eng (snd (read_sreg E r st)) = eng st" "xfers (snd (read_sreg E r st)) = xfers st"
  "wakes (snd (read_sreg E r st)) = wakes st" "client (snd (read_sreg E r st)) = client st"
  "xdev_flags (snd (read_sreg E r st)) = xdev_flags st"
  by (simp_all add: read_sreg_def read_register_def)

lemma write_ereg_frame [simp]:
  "eng (write_ereg v r st) = eng st" "xfers (write_ereg v r st) = xfers st"
  "wakes (write_ereg v r st) = wakes st" "client (write_ereg v r st) = client st"
  "xdev_flags (write_ereg v r st) = xdev_flags st"
  by (simp_all add: write_ereg_def)

lemma write_sreg_frame [simp]:
  "eng (write_sreg v r st) = eng st" "xfers (write_sreg v r st) = xfers st"
  "wakes (write_sreg v r st) = wakes st" "client (write_sreg v r st) = client st"
  "xdev_flags (write_sreg v r st) = xdev_flags st"
  by (simp_all add: write_sreg_def)

lemma read_ereg_value: "fst (read_ereg E r st) = hw E (io st) (ereg st r)"
  by (simp add: read_ereg_def read_register_def)

lemma engine_stop_frame [simp]:
  "fst (xdma_engine_stop E st) = 0"
  "eng (snd (xdma_engine_stop E st)) = (eng st)\<lparr>e_running := False\<rparr>"
  "xfers (snd (xdma_engine_stop E st)) = xfers st"
  "wakes (snd (xdma_engine_stop E st)) = wakes st"
  "client (snd (xdma_engine_stop E st)) = client st"
  "xdev_flags (snd (xdma_engine_stop E st)) = xdev_flags st"
  by (simp_all add: xdma_engine_stop_def Let_def)

lemma service_shutdown_frame [simp]:
  "fst (engine_service_shutdown E st) = 0"
  "eng (snd (engine_service_shutdown E st)) = (eng st)\<lparr>e_running := False\<rparr>"
  "xfers (snd (engine_service_shutdown E st)) = xfers st"
  "wakes (snd (engine_service_shutdown E st)) = Wake_shutdown # wakes st"
  "client (snd (engine_service_shutdown E st)) = client st"
  by (simp_all add: engine_service_shutdown_def wake_up_def split_beta Let_def)

lemma status_read_frame [simp]:
  "fst (engine_status_read E c False st) = 0"
  "eng (snd (engine_status_read E c False st)) =
     (eng st)\<lparr>e_status := hw E (io st) (ereg st (if c then ER_status_rc else ER_status))\<rparr>"
  "xfers (snd (engine_status_read E c d st)) = xfers st"
  "wakes (snd (engine_status_read E c d st)) = wakes st"
  "client (snd (engine_status_read E c d st)) = client st"
  "xdev_flags (snd (engine_status_read E c d st)) = xdev_flags st"
  by (simp_all add: engine_status_read_def engine_reg_dump_def split_beta Let_def read_ereg_value)

lemma status_read_queue [simp]:
  "e_transfer_list (eng (snd (engine_status_read E c d st))) = e_transfer_list (eng st)"
  "e_running (eng (snd (engine_status_read E c d st))) = e_running (eng st)"
  by (simp_all add: engine_status_read_def engine_reg_dump_def split_beta Let_def)

lemma mode_config_frame [simp]:
  "fst (engine_start_mode_config E st) = 0"
  "eng (snd (engine_start_mode_config E st)) = eng st"
  "xfers (snd (engine_start_mode_config E st)) = xfers st"
  "wakes (snd (engine_start_mode_config E st)) = wakes st"
  "client (snd (engine_start_mode_config E st)) = client st"
  "xdev_flags (snd (engine_start_mode_config E st)) = xdev_flags st"
  by (simp_all add: engine_start_mode_config_def split_beta Let_def)

lemma engine_start_frame [simp]:
  "xfers (snd (engine_start E st)) = xfers st"
  "wakes (snd (engine_start E st)) = wakes st"
  "client (snd (engine_start E st)) = client st"
  "xdev_flags (snd (engine_start E st)) = xdev_flags st"
  "e_transfer_list (eng (snd (engine_start E st))) = e_transfer_list (eng st)"
  by (simp_all add: engine_start_def split_beta Let_def split: list.splits)

lemma engine_start_idle:
  assumes "\<not> e_running (eng st)" and "e_transfer_list (eng st) = t # ts"
  shows "fst (engine_start E st) = Some t"
    and "e_running (eng (snd (engine_start E st)))"
    and "e_desc_dequeued (eng (snd (engine_start E st))) = 0"
    and "e_shutdown (eng (snd (engine_start E st))) = ENGINE_SHUTDOWN_NONE"
  using assms by (simp_all add: engine_start_def split_beta Let_def)

lemma set_xfer_frame [simp]:
  "eng (set_xfer t x st) = eng st" "xfers (set_xfer t x st) = (xfers st)(t := x)"
  "wakes (set_xfer t x st) = wakes st" "client (set_xfer t x st) = client st"
  "io (set_xfer t x st) = io st"
  by (simp_all add: set_xfer_def)

lemma service_perf_frame [simp]:
  "fst (engine_service_perf n st) = 0"
  "xfers (snd (engine_service_perf n st)) = xfers st"
  "client (snd (engine_service_perf n st)) = client st"
  "e_transfer_list (eng (snd (engine_service_perf n st))) = e_transfer_list (eng st)"
  "e_running (eng (snd (engine_service_perf n st))) = e_running (eng st)"
  "e_desc_dequeued (eng (snd (engine_service_perf n st))) = e_desc_dequeued (eng st)"
  "status_error (eng (snd (engine_service_perf n st))) = status_error (eng st)"
  "e_eop_flush (eng (snd (engine_service_perf n st))) = e_eop_flush (eng st)"
  by (simp_all add: engine_service_perf_def wake_up_def Let_def status_error_def split: option.splits)

lemma completion_frame [simp]:
  "fst (engine_transfer_completion E tr st) = tr"
  "xfers (snd (engine_transfer_completion E tr st)) = xfers st"
  "set (wakes st) \<subseteq> set (wakes (snd (engine_transfer_completion E tr st)))"
  by (auto simp: engine_transfer_completion_def wake_up_def Let_def split: option.splits)

lemma completion_wakes:
  "Wake_xfer t \<in> set (wakes (snd (engine_transfer_completion E (Some t) st)))"
  by (auto simp: engine_transfer_completion_def wake_up_def Let_def split: option.splits)

section \<open>Retiring the transfers before the last\<close>

definition complete_set :: "xid set \<Rightarrow> (xid \<Rightarrow> xdma_transfer) \<Rightarrow> xid \<Rightarrow> xdma_transfer" where
  "complete_set T xs t = (if t \<in> T then (xs t)\<lparr>x_state := TRANSFER_STATE_COMPLETED\<rparr> else xs t)"

lemma complete_set_empty [simp]: "complete_set {} xs = xs"
  by (auto simp: complete_set_def)

lemma complete_set_desc_num [simp]: "x_desc_num (complete_set T xs t) = x_desc_num (xs t)"
  by (simp add: complete_set_def)

lemma complete_set_cyclic [simp]: "x_cyclic (complete_set T xs t) = x_cyclic (xs t)"
  by (simp add: complete_set_def)

lemma complete_set_other: "t \<notin> T \<Longrightarrow> complete_set T xs t = xs t"
  by (simp add: complete_set_def)

lemma complete_set_insert:
  "complete_set (insert t T) xs =
     complete_set T (xs(t := (xs t)\<lparr>x_state := TRANSFER_STATE_COMPLETED\<rparr>))"
  by (auto simp: complete_set_def fun_eq_iff)

lemma retire_one_frame [simp]:
  "xfers (retire_one E t st) =
     (xfers st)(t := (xfers st t)\<lparr>x_state := TRANSFER_STATE_COMPLETED\<rparr>)"
  "e_desc_dequeued (eng (retire_one E t st)) =
     e_desc_dequeued (eng st) + of_nat (x_desc_num (xfers st t))"
  "e_running (eng (retire_one E t st)) = e_running (eng st)"
  "e_status (eng (retire_one E t st)) = e_status (eng st)"
  "e_dir (eng (retire_one E t st)) = e_dir (eng st)"
  "e_eop_flush (eng (retire_one E t st)) = e_eop_flush (eng st)"
  by (simp_all add: retire_one_def del_head_def Let_def)

lemma retire_one_wakes:
  "set (wakes (retire_one E t st)) \<supseteq> insert (Wake_xfer t) (set (wakes st))"
  by (auto simp: retire_one_def del_head_def Let_def engine_transfer_completion_def wake_up_def
      split: option.splits)

definition desc_sum :: "(xid \<Rightarrow> xdma_transfer) \<Rightarrow> xid list \<Rightarrow> nat" where
  "desc_sum xs ts = sum_list (map (\<lambda>t. x_desc_num (xs t)) ts)"

lemma desc_sum_simps [simp]:
  "desc_sum xs [] = 0" "desc_sum xs (t # ts) = x_desc_num (xs t) + desc_sum xs ts"
  by (simp_all add: desc_sum_def)

lemma desc_sum_cong:
  "(\<And>t. t \<in> set ts \<Longrightarrow> x_desc_num (xs t) = x_desc_num (ys t)) \<Longrightarrow> desc_sum xs ts = desc_sum ys ts"
  unfolding desc_sum_def by (rule arg_cong [where f = sum_list]) simp

lemma fold_retire_effect:
  assumes "e_transfer_list (eng st) = ds @ rest" and "distinct ds"
  shows "e_transfer_list (eng (fold (retire_one E) ds st)) = rest \<and>
    xfers (fold (retire_one E) ds st) = complete_set (set ds) (xfers st) \<and>
    e_desc_dequeued (eng (fold (retire_one E) ds st)) =
      e_desc_dequeued (eng st) + of_nat (desc_sum (xfers st) ds) \<and>
    e_running (eng (fold (retire_one E) ds st)) = e_running (eng st) \<and>
    e_status (eng (fold (retire_one E) ds st)) = e_status (eng st) \<and>
    e_dir (eng (fold (retire_one E) ds st)) = e_dir (eng st) \<and>
    e_eop_flush (eng (fold (retire_one E) ds st)) = e_eop_flush (eng st) \<and>
    Wake_xfer ` set ds \<union> set (wakes st) \<subseteq> set (wakes (fold (retire_one E) ds st))"
  using assms
proof (induction ds arbitrary: st)
  case Nil
  then show ?case by simp
next
  case (Cons d ds)
  let ?st = "retire_one E d st"
  have "e_transfer_list (eng ?st) = ds @ rest" using Cons.prems by simp
  note IH = Cons.IH [OF this]
  have sum: "desc_sum (xfers ?st) ds = desc_sum (xfers st) ds"
    by (rule desc_sum_cong) simp
  have set: "complete_set (set (d # ds)) (xfers st) = complete_set (set ds) (xfers ?st)"
    by (simp add: complete_set_insert)
  have wk: "Wake_xfer ` set (d # ds) \<union> set (wakes st) \<subseteq> Wake_xfer ` set ds \<union> set (wakes ?st)"
    using retire_one_wakes [of d st E] by auto
  have eqs: "fold (retire_one E) (d # ds) st = fold (retire_one E) ds ?st" by simp
  have cnt: "e_desc_dequeued (eng ?st) + of_nat (desc_sum (xfers ?st) ds) =
      e_desc_dequeued (eng st) + of_nat (desc_sum (xfers st) (d # ds))"
    unfolding sum by simp
  have dist: "distinct ds" using Cons.prems by simp
  have frame: "e_running (eng ?st) = e_running (eng st)" "e_status (eng ?st) = e_status (eng st)"
    "e_dir (eng ?st) = e_dir (eng st)" "e_eop_flush (eng ?st) = e_eop_flush (eng st)"
    by simp_all
  show ?case
    unfolding eqs set using IH [OF dist] wk unfolding cnt frame by (meson subset_trans)
qed

lemma service_list_prefix:
  assumes "e_transfer_list (eng st) = ds @ t # rest" and "distinct (ds @ t # rest)"
    and "\<forall>d \<in> set ds. \<not> x_cyclic (xfers st d)"
    and "unat pc = desc_sum (xfers st) ds + k" and "0 < k" and "k \<le> x_desc_num (xfers st t)"
  shows "engine_service_transfer_list E (head_of st) pc st =
    (Some t, of_nat k, fold (retire_one E) ds st)"
  using assms
proof (induction ds arbitrary: st pc)
  case Nil
  then have "unat pc = k" by simp
  then have "pc = of_nat k" by (metis of_nat_unat ucast_id)
  with Nil show ?case
    by (simp add: head_of_def engine_service_transfer_list.simps Let_def)
next
  case (Cons d ds)
  let ?st = "retire_one E d st" and ?pc = "pc - of_nat (x_desc_num (xfers st d))"
  have num: "x_desc_num (xfers st d) < unat pc" using Cons.prems by simp
  have "unat pc < 2 ^ 32" using unsigned_less [of pc] by simp
  with num have lt: "x_desc_num (xfers st d) < 2 ^ 32" by (rule less_trans)
  then have "unat (of_nat (x_desc_num (xfers st d)) :: u32) = x_desc_num (xfers st d)"
    by (simp add: unat_of_nat_small)
  then have pc: "unat ?pc = unat pc - x_desc_num (xfers st d)"
    using num by (simp add: unat_sub word_le_nat_alt)
  have q: "e_transfer_list (eng ?st) = ds @ t # rest" using Cons.prems by simp
  have sum: "desc_sum (xfers ?st) ds = desc_sum (xfers st) ds"
    by (rule desc_sum_cong) simp
  have s5: "unat ?pc = desc_sum (xfers ?st) ds + k"
    unfolding sum using pc Cons.prems by simp
  have IH: "engine_service_transfer_list E (head_of ?st) ?pc ?st =
      (Some t, of_nat k, fold (retire_one E) ds ?st)"
    by (rule Cons.IH [OF q _ _ s5]) (use Cons.prems in auto)
  have "\<not> x_cyclic (xfers st d)" using Cons.prems by simp
  with num have "engine_service_transfer_list E (Some d) pc st =
      engine_service_transfer_list E (head_of ?st) ?pc ?st"
    using q by (simp add: engine_service_transfer_list.simps(2) [of E d] Let_def head_of_def
        split: list.splits)
  with IH Cons.prems(1) show ?case by (simp add: head_of_def)
qed

section \<open>Every service takes a prefix off the queue\<close>

text \<open>
  \<open>serviced st st'\<close>: the queue of \<open>st'\<close> is a suffix of the queue of
  \<open>st\<close>; every transfer taken off has a final state and was woken; every other transfer
  keeps its state.
\<close>

definition finished :: "xdma_transfer \<Rightarrow> bool" where
  "finished x \<longleftrightarrow> x_state x = TRANSFER_STATE_COMPLETED \<or> x_state x = TRANSFER_STATE_FAILED"

definition serviced :: "('c, 's) est_scheme \<Rightarrow> ('c, 's) est_scheme \<Rightarrow> bool" where
  "serviced st st' \<longleftrightarrow>
     (\<exists>n. e_transfer_list (eng st') = drop n (e_transfer_list (eng st)) \<and>
       (\<forall>t \<in> set (take n (e_transfer_list (eng st))).
          finished (xfers st' t) \<and> Wake_xfer t \<in> set (wakes st')) \<and>
       (\<forall>t. t \<notin> set (take n (e_transfer_list (eng st))) \<longrightarrow>
          x_state (xfers st' t) = x_state (xfers st t)) \<and>
       set (wakes st) \<subseteq> set (wakes st'))"

lemma serviced_frame:
  assumes "e_transfer_list (eng st') = e_transfer_list (eng st)"
    and "\<And>t. x_state (xfers st' t) = x_state (xfers st t)" and "set (wakes st) \<subseteq> set (wakes st')"
  shows "serviced st st'"
  unfolding serviced_def by (rule exI [of _ 0]) (use assms in simp)

lemma serviced_head:
  assumes "e_transfer_list (eng st) = t # rest" and "e_transfer_list (eng st') = rest"
    and "finished (xfers st' t)" and "Wake_xfer t \<in> set (wakes st')"
    and "\<And>u. u \<noteq> t \<Longrightarrow> x_state (xfers st' u) = x_state (xfers st u)"
    and "set (wakes st) \<subseteq> set (wakes st')"
  shows "serviced st st'"
  unfolding serviced_def by (rule exI [of _ 1]) (use assms in simp)

lemma serviced_trans [trans]:
  assumes 1: "serviced st st'" and 2: "serviced st' st''" and d: "distinct (e_transfer_list (eng st))"
  shows "serviced st st''"
proof -
  let ?q = "e_transfer_list (eng st)"
  from 1 obtain n where n: "e_transfer_list (eng st') = drop n ?q"
      "\<And>t. t \<in> set (take n ?q) \<Longrightarrow> finished (xfers st' t) \<and> Wake_xfer t \<in> set (wakes st')"
      "\<And>t. t \<notin> set (take n ?q) \<Longrightarrow> x_state (xfers st' t) = x_state (xfers st t)"
      "set (wakes st) \<subseteq> set (wakes st')"
    unfolding serviced_def by blast
  from 2 n(1) obtain m where m: "e_transfer_list (eng st'') = drop m (drop n ?q)"
      "\<And>t. t \<in> set (take m (drop n ?q)) \<Longrightarrow> finished (xfers st'' t) \<and> Wake_xfer t \<in> set (wakes st'')"
      "\<And>t. t \<notin> set (take m (drop n ?q)) \<Longrightarrow> x_state (xfers st'' t) = x_state (xfers st' t)"
      "set (wakes st') \<subseteq> set (wakes st'')"
    unfolding serviced_def by auto
  have take: "take (n + m) ?q = take n ?q @ take m (drop n ?q)" by (simp add: take_add)
  have disj: "t \<notin> set (take m (drop n ?q))" if "t \<in> set (take n ?q)" for t
    using that d set_take_disj_set_drop_if_distinct [of ?q n n] set_take_subset [of m "drop n ?q"]
    by blast
  have "finished (xfers st'' t) \<and> Wake_xfer t \<in> set (wakes st'')" if "t \<in> set (take (n + m) ?q)" for t
  proof (cases "t \<in> set (take n ?q)")
    case True
    then show ?thesis using n(2) [OF True] m(3) [OF disj [OF True]] m(4)
      unfolding finished_def by (metis subset_eq)
  next
    case False
    with that show ?thesis using m(2) unfolding take by auto
  qed
  moreover have "x_state (xfers st'' t) = x_state (xfers st t)" if "t \<notin> set (take (n + m) ?q)" for t
    using that n(3) m(3) unfolding take by simp
  ultimately show ?thesis
    unfolding serviced_def
    by (intro exI [of _ "n + m"]) (use m(1) m(4) n(4) in \<open>auto simp: add.commute\<close>)
qed

lemma serviced_distinct:
  "serviced st st' \<Longrightarrow> distinct (e_transfer_list (eng st)) \<Longrightarrow> distinct (e_transfer_list (eng st'))"
  unfolding serviced_def by auto

lemma retire_one_serviced:
  "e_transfer_list (eng st) = t # rest \<Longrightarrow> serviced st (retire_one E t st)"
  by (rule serviced_head) (use retire_one_wakes [of t st E] in \<open>auto simp: finished_def\<close>)

lemma service_list_serviced:
  assumes "head_of st = tr" and "distinct (e_transfer_list (eng st))"
    and "engine_service_transfer_list E tr pc st = (tr', pc', st')"
  shows "serviced st st' \<and> tr' = head_of st'"
  using assms
proof (induction E tr pc st arbitrary: tr' pc' st' rule: engine_service_transfer_list.induct)
  case (1 E pc st)
  then show ?case by (auto simp: engine_service_transfer_list.simps intro: serviced_frame)
next
  case (2 E t pc st)
  from "2.prems"(1) obtain rest where q: "e_transfer_list (eng st) = t # rest"
    by (auto simp: head_of_def split: list.splits)
  show ?case
  proof (cases "\<not> x_cyclic (xfers st t) \<and> unat pc > x_desc_num (xfers st t)")
    case False
    with 2 show ?thesis
      by (auto simp: engine_service_transfer_list.simps intro: serviced_frame)
  next
    case True
    let ?st = "retire_one E t st" and ?pc = "pc - of_nat (x_desc_num (xfers st t))"
    have r: "serviced st ?st" by (rule retire_one_serviced [OF q])
    show ?thesis
    proof (cases rest)
      case Nil
      with True q "2.prems"(3) have "tr' = None" "st' = ?st"
        by (auto simp: engine_service_transfer_list.simps)
      with r Nil q show ?thesis by (simp add: head_of_def)
    next
      case (Cons h l)
      have "engine_service_transfer_list E (Some h) ?pc ?st = (tr', pc', st')"
        using True q Cons "2.prems"(3) by (simp add: engine_service_transfer_list.simps(2) [of E t])
      then have "serviced ?st st' \<and> tr' = head_of st'"
        using "2.IH" [OF refl True refl refl] q Cons "2.prems"(2)
        by (simp add: head_of_def)
      with r serviced_trans "2.prems"(2) show ?thesis by blast
    qed
  qed
qed

lemma transfer_del_frame [simp]:
  "e_transfer_list (eng (snd (transfer_del E t st))) = tl (e_transfer_list (eng st))"
  "xfers (snd (transfer_del E t st)) = xfers st"
  "e_running (eng (snd (transfer_del E t st))) = e_running (eng st)"
  "e_desc_dequeued (eng (snd (transfer_del E t st))) = e_desc_dequeued (eng st)"
  by (simp_all add: transfer_del_def del_head_def)

lemma transfer_del_wakes:
  "insert (Wake_xfer t) (set (wakes st)) \<subseteq> set (wakes (snd (transfer_del E t st)))"
  by (auto simp: transfer_del_def del_head_def engine_transfer_completion_def wake_up_def Let_def
      split: option.splits)

lemma transfer_del_serviced:
  assumes "e_transfer_list (eng st) = t # rest" and "e_transfer_list (eng st') = t # rest"
    and "finished (xfers st' t)" and "\<And>u. u \<noteq> t \<Longrightarrow> x_state (xfers st' u) = x_state (xfers st u)"
    and "set (wakes st) \<subseteq> set (wakes st')"
  shows "serviced st (snd (transfer_del E t st'))"
  by (rule serviced_head [OF assms(1)]) (use assms transfer_del_wakes [of t st' E] in auto)

lemma err_handle_frame [simp]:
  "eng (snd (engine_err_handle E t st)) = (eng st)\<lparr>e_running := False\<rparr>"
  "xfers (snd (engine_err_handle E t st)) =
     (xfers st)(t := (xfers st t)\<lparr>x_state := TRANSFER_STATE_FAILED\<rparr>)"
  "wakes (snd (engine_err_handle E t st)) = wakes st"
  by (simp_all add: engine_err_handle_def Let_def)

lemma add_dequeued_frame [simp]:
  "e_transfer_list (eng (add_dequeued n st)) = e_transfer_list (eng st)"
  "e_running (eng (add_dequeued n st)) = e_running (eng st)"
  "xfers (add_dequeued n st) = xfers st" "wakes (add_dequeued n st) = wakes st"
  by (simp_all add: add_dequeued_def)

lemma final_transfer_serviced:
  assumes "tr = head_of st"
  shows "serviced st (snd (engine_service_final_transfer E tr pc st))"
proof (cases tr)
  case None
  then show ?thesis by (auto simp: engine_service_final_transfer_def intro: serviced_frame)
next
  case (Some t)
  with assms obtain rest where q: "e_transfer_list (eng st) = t # rest"
    by (auto simp: head_of_def split: list.splits)
  consider (err) "status_error (eng st)"
    | (short) "\<not> status_error (eng st)" "unat pc < x_desc_num (xfers st t)"
        "\<not> e_eop_flush (eng st)"
    | (flush) "\<not> status_error (eng st)" "unat pc < x_desc_num (xfers st t)" "e_eop_flush (eng st)"
    | (all) "\<not> status_error (eng st)" "\<not> unat pc < x_desc_num (xfers st t)"
    by blast
  then show ?thesis
  proof cases
    case err
    then show ?thesis unfolding Some
      by (simp add: engine_service_final_transfer_def del: fun_upd_apply)
         (rule transfer_del_serviced [OF q], simp_all add: q finished_def)
  next
    case short
    then show ?thesis unfolding Some
      by (simp add: engine_service_final_transfer_def Let_def del: fun_upd_apply)
         (rule transfer_del_serviced [OF q], simp_all add: q finished_def)
  next
    case flush
    then show ?thesis unfolding Some
      by (simp add: engine_service_final_transfer_def Let_def split_beta del: fun_upd_apply)
         (intro conjI impI serviced_frame transfer_del_serviced [OF q];
          auto simp: q finished_def)
  next
    case all
    then show ?thesis unfolding Some
      by (simp add: engine_service_final_transfer_def Let_def del: fun_upd_apply)
         (rule transfer_del_serviced [OF q], simp_all add: q finished_def)
  qed
qed

end
