(* ===== verification/Xdma_Service_Spec.thy ===== *)
theory Xdma_Service_Spec
  imports Xdma_Service_Facts
begin

text \<open>
  The properties of servicing an engine. For any hardware and any write-back word a service
  takes a prefix off the queue, gives every transfer of it a final state and wakes its waiter,
  and leaves a running engine only where there is work; when the hardware reports the
  descriptors of a whole number of transfers, exactly these are completed.
\<close>

section \<open>Resuming\<close>

lemma service_resume_frame [simp]:
  "e_transfer_list (eng (snd (engine_service_resume E st))) = e_transfer_list (eng st)"
  "xfers (snd (engine_service_resume E st)) = xfers st"
  "set (wakes st) \<subseteq> set (wakes (snd (engine_service_resume E st)))"
  by (auto simp: engine_service_resume_def wake_up_def split_beta Let_def)

lemma service_resume_running:
  "e_running (eng (snd (engine_service_resume E st))) \<longleftrightarrow> e_transfer_list (eng st) \<noteq> []"
  by (cases "e_transfer_list (eng st)")
     (auto simp: engine_service_resume_def wake_up_def split_beta Let_def engine_start_idle)

lemma service_perf_wakes: "set (wakes st) \<subseteq> set (wakes (snd (engine_service_perf n st)))"
  by (auto simp: engine_service_perf_def wake_up_def Let_def split: option.splits)

section \<open>The queue part\<close>

lemma service_queue_serviced:
  assumes "distinct (e_transfer_list (eng st))"
  shows "serviced st (service_queue E pc st)"
proof -
  let ?s1 = "if head_of st = None then st else snd (engine_service_perf pc st)"
  let ?n = "pc - e_desc_dequeued (eng ?s1)"
  obtain tr n s2 where loop: "engine_service_transfer_list E (head_of st) ?n ?s1 = (tr, n, s2)"
    by (cases "engine_service_transfer_list E (head_of st) ?n ?s1") auto
  let ?s3 = "snd (engine_service_final_transfer E tr n s2)"
  have q1: "e_transfer_list (eng ?s1) = e_transfer_list (eng st)" by simp
  have 1: "serviced st ?s1" by (rule serviced_frame) (use service_perf_wakes in auto)
  have h: "head_of ?s1 = head_of st" by (simp add: head_of_def)
  have 2: "serviced ?s1 s2 \<and> tr = head_of s2"
    by (rule service_list_serviced [OF h _ loop]) (use q1 assms in simp)
  then have 3: "serviced s2 ?s3" by (intro final_transfer_serviced) simp
  have 4: "serviced ?s3 (snd (engine_service_resume E ?s3))"
    by (rule serviced_frame) simp_all
  have "service_queue E pc st = snd (engine_service_resume E ?s3)"
    using loop by (simp add: service_queue_def Let_def split_beta)
  moreover have d1: "distinct (e_transfer_list (eng ?s1))" using q1 assms by simp
  have d2: "distinct (e_transfer_list (eng s2))" using 2 d1 serviced_distinct by blast
  have d3: "distinct (e_transfer_list (eng ?s3))" using 3 d2 serviced_distinct by blast
  show ?thesis
    unfolding calculation
    by (rule serviced_trans [OF 1 serviced_trans [OF conjunct1 [OF 2] serviced_trans [OF 3 4 d2] d1] assms])
qed

lemma service_queue_running:
  "e_running (eng (service_queue E pc st)) \<longleftrightarrow> e_transfer_list (eng (service_queue E pc st)) \<noteq> []"
  by (simp add: service_queue_def Let_def split_beta service_resume_running)

section \<open>The whole service\<close>

lemma engine_service_cases:
  obtains (idle) "\<not> e_running (eng st)"
      "snd (engine_service E wb st) = snd (engine_status_read E True False st)"
  | (zero) s where "e_running (eng st)" "serviced st s"
      "e_transfer_list (eng s) = e_transfer_list (eng st)"
      "snd (engine_service E wb st) = s" "xfers s = xfers st" "client s = client st"
      "\<exists>v b. eng s = (eng st)\<lparr>e_status := v, e_running := b\<rparr>"
  | (queue) s n where "e_running (eng st)" "serviced st s"
      "e_transfer_list (eng s) = e_transfer_list (eng st)" "n \<noteq> 0"
      "snd (engine_service E wb st) = service_queue E n s" "xfers s = xfers st" "client s = client st"
      "\<exists>v b. eng s = (eng st)\<lparr>e_status := v, e_running := b\<rparr>"
proof (cases "e_running (eng st)")
  case False
  then show ?thesis by (intro idle) (auto simp: engine_service_def Let_def split_beta)
next
  case True
  let ?c = "wb AND WB_COUNT_MASK"
  let ?s1 = "if ?c = 0 \<or> wb AND WB_ERR_MASK \<noteq> 0 then snd (engine_status_read E True False st) else st"
  let ?s2 = "if (e_running (eng ?s1) \<and> e_status (eng ?s1) AND XDMA_STAT_BUSY = 0) \<or>
      (\<not> e_eop_flush (eng ?s1) \<and> ?c \<noteq> 0) then snd (engine_service_shutdown E ?s1) else ?s1"
  let ?r = "if ?c = 0 then read_ereg E ER_completed_desc_count ?s2 else (?c, ?s2)"
  have eq: "snd (engine_service E wb st) =
      (if fst ?r = 0 then snd ?r else service_queue E (fst ?r) (snd ?r))"
    using True by (auto simp: engine_service_def Let_def split_beta)
  have fr: "e_transfer_list (eng (snd ?r)) = e_transfer_list (eng st)" "serviced st (snd ?r)"
    "xfers (snd ?r) = xfers st" "client (snd ?r) = client st"
    by (auto intro!: serviced_frame)
  have "\<exists>v b. eng ?s2 = (eng st)\<lparr>e_status := v, e_running := b\<rparr>"
    by (cases "eng st") auto
  moreover have "eng (snd ?r) = eng ?s2" by (cases "?c = 0") simp_all
  ultimately have en: "\<exists>v b. eng (snd ?r) = (eng st)\<lparr>e_status := v, e_running := b\<rparr>"
    by (simp only:)
  show ?thesis
  proof (cases "fst ?r = 0")
    case True
    with eq have "snd (engine_service E wb st) = snd ?r" by simp
    then show ?thesis using zero [of "snd ?r"] fr en \<open>e_running (eng st)\<close> by blast
  next
    case False
    with eq have "snd (engine_service E wb st) = service_queue E (fst ?r) (snd ?r)" by simp
    then show ?thesis using queue [of "snd ?r" "fst ?r"] False fr en \<open>e_running (eng st)\<close> by blast
  qed
qed

lemma engine_service_serviced:
  "distinct (e_transfer_list (eng st)) \<Longrightarrow> serviced st (snd (engine_service E wb st))"
proof (cases rule: engine_service_cases [where st = st and E = E and wb = wb])
  case idle
  then show ?thesis by (auto intro!: serviced_frame)
next
  case (zero s)
  then show ?thesis by simp
next
  case (queue s n)
  assume d: "distinct (e_transfer_list (eng st))"
  have "distinct (e_transfer_list (eng s))" using queue(3) d by simp
  then have "serviced s (service_queue E n s)" by (rule service_queue_serviced)
  with queue serviced_trans d show ?thesis by metis
qed

text \<open>
  C17 (safety). Whatever the hardware and the write-back word say, one service of an engine
  takes a prefix off its queue in order: each transfer taken off is completed or failed and its
  waiter woken, every other transfer keeps its state, and no wake-up is lost.
\<close>
theorem engine_service_in_order:
  "distinct (e_transfer_list (eng st)) \<Longrightarrow> serviced st (snd (engine_service E wb st))"
  by (rule engine_service_serviced)

section \<open>Samples\<close>

text \<open>
  A small engine, environment and state the witnesses of the properties evaluate: the hardware
  reports \<open>s\<close> in the status registers and \<open>c\<close> in the completed count.
\<close>

definition sample_engine :: xdma_engine where
  "sample_engine = \<lparr>e_magic = MAGIC_ENGINE, e_name = [], e_regs = IOM 0 0,
     e_sgdma_regs = IOM 0 0x4000, e_bypass_offset = 0, e_shutdown = 0, e_dir = DMA_TO_DEVICE,
     e_addr_align = 1, e_len_granularity = 1, e_addr_bits = 64, e_channel = 0,
     e_streaming = False, e_device_open = False, e_running = False, e_non_incr_addr = False,
     e_eop_flush = False, e_desc_dequeued = 0, e_desc_max = 16, e_status = 0,
     e_interrupt_enable_mask_value = 0, e_transfer_list = [], e_cyclic_result = [],
     e_cyclic_result_bus = 0, e_perf_buf_virt = False, e_perf_buf_bus = 0,
     e_poll_mode_addr_virt = None, e_poll_mode_bus = 0, e_msix_irq_line = 0,
     e_irq_bitmask = 1, e_desc_bus = 0x10000, e_desc = replicate 16 zero_desc, e_desc_idx = 0,
     e_desc_used = 0, e_xdma_perf = None, e_cmplthp = None, e_intr_work_cpu = 0\<rparr>"

definition sample_env :: "u32 \<Rightarrow> u32 \<Rightarrow> nat kenv" where
  "sample_env s c = \<lparr>hw = (\<lambda>log a. if a = IOM 0 0x48 then c else s), poll_mode = False,
     interrupt_mode = 0, enable_st_c2h_credit = False, desc_blen_max = 0x1000,
     io_done = (\<lambda>cb err n. n + 1)\<rparr>"

definition sample_xfer :: "nat \<Rightarrow> xdma_transfer" where
  "sample_xfer n = zero_xfer\<lparr>x_desc_num := n, x_desc_adjacent := n, x_state := TRANSFER_STATE_SUBMITTED\<rparr>"

definition sample_est :: "xdma_engine \<Rightarrow> nat \<Rightarrow> nat est" where
  "sample_est e n = \<lparr>eng = e, xfers = (\<lambda>_. sample_xfer n), io = [], wakes = [], client = 0,
     xdev_flags = 0, xdev_msix_enabled = False, xdev_cfg = IOM 1 0\<rparr>"

definition running_sample :: "nat est" where
  "running_sample =
     sample_est (sample_engine\<lparr>e_running := True, e_transfer_list := [(0, 0), (1, 0), (2, 0)]\<rparr>) 2"

lemmas sample_defs = sample_engine_def sample_env_def sample_xfer_def sample_est_def
  running_sample_def zero_xfer_def io_plus_def

lemma engine_service_in_order_witness:
  "serviced running_sample (snd (engine_service (sample_env 0 3) 0 running_sample))"
  by (rule engine_service_in_order) (simp add: sample_defs)

lemma serviced_wakes:
  assumes "serviced st st'" and "e_transfer_list (eng st) = ds @ t # rest"
    and "e_transfer_list (eng st') = rest" and "distinct (ds @ t # rest)"
  shows "Wake_xfer ` set (ds @ [t]) \<subseteq> set (wakes st')"
proof -
  from assms obtain n where n: "rest = drop n (ds @ t # rest)"
      "\<And>u. u \<in> set (take n (ds @ t # rest)) \<Longrightarrow> Wake_xfer u \<in> set (wakes st')"
    unfolding serviced_def by auto
  have "length rest = length (ds @ t # rest) - n" using n(1) by (metis length_drop)
  then have len: "n = length (ds @ [t]) \<or> rest = []" by (cases rest) auto
  have "take n (ds @ t # rest) = ds @ [t]"
  proof (cases "rest = []")
    case True
    then have "drop n (ds @ [t]) = []" using n(1) by simp
    then show ?thesis using True by (simp only: take_all drop_eq_Nil)
  next
    case False
    then show ?thesis using len by simp
  qed
  then show ?thesis using n(2) by auto
qed

section \<open>What a reported count means\<close>

text \<open>
  The head transfer of a service when the engine has stopped after \<open>k\<close> of its
  descriptors: failed on an error status or when \<open>k\<close> falls short, completed otherwise.
\<close>

definition final_xfer :: "bool \<Rightarrow> nat \<Rightarrow> xdma_transfer \<Rightarrow> xdma_transfer" where
  "final_xfer err k x =
     (if err then x\<lparr>x_state := TRANSFER_STATE_FAILED\<rparr>
      else if k < x_desc_num x then x\<lparr>x_state := TRANSFER_STATE_FAILED, x_desc_cmpl := k\<rparr>
      else x\<lparr>x_state := TRANSFER_STATE_COMPLETED, x_desc_cmpl := x_desc_num x\<rparr>)"

lemma final_transfer_exact:
  assumes "e_transfer_list (eng st) = t # rest" and "\<not> e_eop_flush (eng st)"
  shows "e_transfer_list (eng (snd (engine_service_final_transfer E (Some t) pc st))) = rest"
    and "xfers (snd (engine_service_final_transfer E (Some t) pc st)) =
      (xfers st)(t := final_xfer (status_error (eng st)) (unat pc) (xfers st t))"
  using assms by (simp_all add: engine_service_final_transfer_def final_xfer_def Let_def)

lemma service_queue_exact:
  assumes q: "e_transfer_list (eng st) = ds @ t # rest" and d: "distinct (ds @ t # rest)"
    and cyc: "\<forall>d \<in> set ds. \<not> x_cyclic (xfers st d)" and flush: "\<not> e_eop_flush (eng st)"
    and cnt: "unat c = unat (e_desc_dequeued (eng st)) + desc_sum (xfers st) ds + k"
    and k: "0 < k" "k \<le> x_desc_num (xfers st t)"
  shows "e_transfer_list (eng (service_queue E c st)) = rest \<and>
    xfers (service_queue E c st) =
      (complete_set (set ds) (xfers st))(t := final_xfer (status_error (eng st)) k (xfers st t))"
proof -
  let ?s1 = "snd (engine_service_perf c st)"
  let ?n = "c - e_desc_dequeued (eng ?s1)"
  let ?s2 = "fold (retire_one E) ds ?s1"
  have head: "head_of ?s1 = head_of st" "head_of st \<noteq> None"
    using q by (auto simp: head_of_def split: list.splits)
  have "unat ?n = unat c - unat (e_desc_dequeued (eng st))"
    using cnt by (simp add: unat_sub word_le_nat_alt)
  then have n: "unat ?n = desc_sum (xfers ?s1) ds + k" using cnt by simp
  have "unat ?n < 2 ^ 32" using unsigned_less [of ?n] by simp
  then have k32: "unat (of_nat k :: u32) = k" using n by (simp add: unat_of_nat_small)
  have loop: "engine_service_transfer_list E (head_of st) ?n ?s1 = (Some t, of_nat k, ?s2)"
    using service_list_prefix [of ?s1 ds t rest ?n k E] q d cyc n k head by simp
  have s2: "e_transfer_list (eng ?s2) = t # rest" "xfers ?s2 = complete_set (set ds) (xfers st)"
    "status_error (eng ?s2) = status_error (eng st)" "\<not> e_eop_flush (eng ?s2)"
    using fold_retire_effect [of ?s1 ds "t # rest" E] q d flush service_perf_frame(7) [of c st]
    by (simp_all add: status_error_def del: service_perf_frame(7))
  have tds: "complete_set (set ds) (xfers st) t = xfers st t" using d by (simp add: complete_set_other)
  have "service_queue E c st =
      snd (engine_service_resume E (snd (engine_service_final_transfer E (Some t) (of_nat k) ?s2)))"
    using loop head(2) by (simp only: service_queue_def Let_def split_beta if_False fst_conv snd_conv)
  then show ?thesis
    using final_transfer_exact [OF s2(1,4), of E "of_nat k"] by (simp add: s2(2,3) tds k32)
qed

lemma engine_service_retires:
  assumes "e_running (eng st)" and "\<not> e_eop_flush (eng st)"
    and "e_transfer_list (eng st) = ds @ t # rest" and "distinct (ds @ t # rest)"
    and "\<forall>d \<in> set ds. \<not> x_cyclic (xfers st d)"
    and "hw E (io st) (ereg st ER_status_rc) = s" and "s AND XDMA_STAT_BUSY = 0"
    and "\<forall>log. hw E log (ereg st ER_completed_desc_count) = c"
    and "unat c = unat (e_desc_dequeued (eng st)) + desc_sum (xfers st) ds + k"
    and "0 < k" and "k \<le> x_desc_num (xfers st t)"
  shows "e_transfer_list (eng (snd (engine_service E 0 st))) = rest \<and>
    xfers (snd (engine_service E 0 st)) =
      (complete_set (set ds) (xfers st))
        (t := final_xfer (status_error ((eng st)\<lparr>e_status := s\<rparr>)) k (xfers st t)) \<and>
    Wake_xfer ` set (ds @ [t]) \<subseteq> set (wakes (snd (engine_service E 0 st))) \<and>
    (e_running (eng (snd (engine_service E 0 st))) \<longleftrightarrow> rest \<noteq> [])"
proof -
  let ?s1 = "snd (engine_status_read E True False st)"
  let ?s2 = "snd (engine_service_shutdown E ?s1)"
  let ?s3 = "snd (read_ereg E ER_completed_desc_count ?s2)"
  have c: "fst (read_ereg E ER_completed_desc_count ?s2) = c"
    using assms(8) by (simp add: read_ereg_value ereg_def)
  have nz: "c \<noteq> 0" using assms(9,10) by auto
  have eq: "snd (engine_service E 0 st) = service_queue E c ?s3"
    using assms(1,6,7) c nz by (simp add: engine_service_def Let_def split_beta)
  have e3: "status_error (eng ?s3) = status_error ((eng st)\<lparr>e_status := s\<rparr>)"
    using assms(6) by (simp add: status_error_def)
  have main: "e_transfer_list (eng (service_queue E c ?s3)) = rest \<and>
      xfers (service_queue E c ?s3) = (complete_set (set ds) (xfers ?s3))
        (t := final_xfer (status_error (eng ?s3)) k (xfers ?s3 t))"
    by (rule service_queue_exact) (use assms in simp_all)
  have d: "distinct (e_transfer_list (eng st))" using assms(3,4) by simp
  have run: "e_running (eng (service_queue E c ?s3)) \<longleftrightarrow> rest \<noteq> []"
    using service_queue_running [of E c ?s3] main by simp
  have "serviced ?s3 (service_queue E c ?s3)" by (rule service_queue_serviced) (simp add: d)
  then have "Wake_xfer ` set (ds @ [t]) \<subseteq> set (wakes (service_queue E c ?s3))"
    by (rule serviced_wakes [OF _ _ _ assms(4)]) (use main assms(3) in simp_all)
  with main run show ?thesis unfolding eq e3 by simp
qed

text \<open>
  C8 (functional). An interrupt finds the engine stopped: if the completed descriptor count
  covers the transfers \<open>ds\<close> of the queue and \<open>k\<close> descriptors of the next one,
  \<open>t\<close>, then the service completes exactly \<open>ds\<close>, completes \<open>t\<close> if all of it is done
  and the status shows no error and fails it otherwise, touches no other transfer, wakes all of
  them, and the engine runs again exactly if something is left in the queue.
\<close>
theorem engine_service_exact:
  assumes "e_running (eng st)" and "\<not> e_eop_flush (eng st)"
    and "e_transfer_list (eng st) = ds @ t # rest" and "distinct (ds @ t # rest)"
    and "\<forall>d \<in> set ds. \<not> x_cyclic (xfers st d)"
    and "hw E (io st) (ereg st ER_status_rc) = s" and "s AND XDMA_STAT_BUSY = 0"
    and "\<forall>log. hw E log (ereg st ER_completed_desc_count) = c"
    and "unat c = unat (e_desc_dequeued (eng st)) + desc_sum (xfers st) ds + k"
    and "0 < k" and "k \<le> x_desc_num (xfers st t)"
  shows "e_transfer_list (eng (snd (engine_service E 0 st))) = rest \<and>
    xfers (snd (engine_service E 0 st)) =
      (complete_set (set ds) (xfers st))
        (t := final_xfer (status_error ((eng st)\<lparr>e_status := s\<rparr>)) k (xfers st t)) \<and>
    Wake_xfer ` set (ds @ [t]) \<subseteq> set (wakes (snd (engine_service E 0 st))) \<and>
    (e_running (eng (snd (engine_service E 0 st))) \<longleftrightarrow> rest \<noteq> [])"
  by (rule engine_service_retires [OF assms])

lemma engine_service_exact_witness:
  "e_transfer_list (eng (snd (engine_service (sample_env 0 4) 0 running_sample))) = [(2, 0)] \<and>
   e_running (eng (snd (engine_service (sample_env 0 4) 0 running_sample)))"
  using engine_service_exact [of running_sample "[(0, 0)]" "(1, 0)" "[(2, 0)]" "sample_env 0 4" 0 4 2]
  by (simp add: sample_defs ereg_def stat_masks)

text \<open>
  An error the hardware reports before it has completed a single descriptor is not
  serviced: the engine is stopped, but the transfer that failed stays at the head of the queue
  in its old state, and no waiter is woken for it; only the time-out of the submitter ends it.
\<close>
theorem engine_service_count_zero:
  assumes "e_running (eng st)" and "hw E (io st) (ereg st ER_status_rc) = s"
    and "s AND XDMA_STAT_BUSY = 0"
    and "\<forall>log. hw E log (ereg st ER_completed_desc_count) = 0"
  shows "fst (engine_service E 0 st) = 0 \<and>
    e_transfer_list (eng (snd (engine_service E 0 st))) = e_transfer_list (eng st) \<and>
    \<not> e_running (eng (snd (engine_service E 0 st))) \<and>
    xfers (snd (engine_service E 0 st)) = xfers st \<and>
    wakes (snd (engine_service E 0 st)) = Wake_shutdown # wakes st"
proof -
  let ?s2 = "snd (engine_service_shutdown E (snd (engine_status_read E True False st)))"
  have c: "fst (read_ereg E ER_completed_desc_count ?s2) = 0"
    using assms(4) by (simp add: read_ereg_value ereg_def)
  have "engine_service E 0 st = (0, snd (read_ereg E ER_completed_desc_count ?s2))"
    using assms(1,2,3) c by (simp add: engine_service_def Let_def split_beta)
  then show ?thesis by simp
qed

lemma engine_service_count_zero_witness:
  "e_transfer_list (eng (snd (engine_service (sample_env 0x80000 0) 0 running_sample))) =
     [(0, 0), (1, 0), (2, 0)] \<and>
   \<not> e_running (eng (snd (engine_service (sample_env 0x80000 0) 0 running_sample)))"
  using engine_service_count_zero [of running_sample "sample_env 0x80000 0" "0x80000"]
  by (simp add: sample_defs ereg_def stat_masks)

lemma engine_service_runs_queue:
  "e_running (eng st) \<longrightarrow> e_transfer_list (eng st) \<noteq> [] \<Longrightarrow>
   e_running (eng (snd (engine_service E wb st))) \<longrightarrow>
     e_transfer_list (eng (snd (engine_service E wb st))) \<noteq> []"
  by (cases rule: engine_service_cases [where st = st and E = E and wb = wb])
     (simp_all add: service_queue_running)

definition work_while_running :: "('c, 's) est_scheme \<Rightarrow> bool" where
  "work_while_running st \<longleftrightarrow> (e_running (eng st) \<longrightarrow> e_transfer_list (eng st) \<noteq> [])"

text \<open>
  A service leaves the engine running only while a transfer is queued: if that
  holds before it holds after, whatever the hardware and the write-back word say.
\<close>
theorem engine_service_running_queue:
  assumes "work_while_running st"
  shows "work_while_running (snd (engine_service E wb st))"
  using assms unfolding work_while_running_def by (rule engine_service_runs_queue)

lemma engine_service_running_queue_witness:
  "work_while_running (snd (engine_service (sample_env 0 3) 0 running_sample))"
  by (rule engine_service_running_queue) (simp add: work_while_running_def sample_defs)

section \<open>Streaming with end-of-packet flush\<close>

text \<open>
  On a streaming engine that flushes at the end of a packet, a transfer whose
  descriptors are not all done stays queued with the count of its completed descriptors, unless
  one of the completed ones carries the end-of-packet mark; then the transfer is completed with
  that count, the engine stopped and the mark recorded in its flags.
\<close>
theorem final_transfer_eop:
  assumes "e_eop_flush (eng st)" and "e_transfer_list (eng st) = t # rest"
    and "\<not> status_error (eng st)" and "unat pc < x_desc_num (xfers st t)"
    and "x_flags (xfers st t) AND XFER_FLAG_ST_C2H_EOP_RCVED = 0"
  shows "if eop_in_results (e_cyclic_result (eng st)) (x_res_virt (xfers st t)) (unat pc)
    then e_transfer_list (eng (snd (engine_service_final_transfer E (Some t) pc st))) = rest \<and>
      \<not> e_running (eng (snd (engine_service_final_transfer E (Some t) pc st))) \<and>
      xfers (snd (engine_service_final_transfer E (Some t) pc st)) t =
        (xfers st t)\<lparr>x_flags := x_flags (xfers st t) OR XFER_FLAG_ST_C2H_EOP_RCVED,
          x_desc_cmpl := unat pc, x_state := TRANSFER_STATE_COMPLETED\<rparr>
    else e_transfer_list (eng (snd (engine_service_final_transfer E (Some t) pc st))) = t # rest \<and>
      e_running (eng (snd (engine_service_final_transfer E (Some t) pc st))) = e_running (eng st) \<and>
      xfers (snd (engine_service_final_transfer E (Some t) pc st)) t =
        (xfers st t)\<lparr>x_desc_cmpl := unat pc\<rparr>"
proof -
  have "(x_flags (xfers st t) OR XFER_FLAG_ST_C2H_EOP_RCVED) AND XFER_FLAG_ST_C2H_EOP_RCVED =
      XFER_FLAG_ST_C2H_EOP_RCVED"
    by (simp add: bit.conj_disj_distrib2 flip: or.assoc and.assoc)
  then have "(x_flags (xfers st t) OR XFER_FLAG_ST_C2H_EOP_RCVED) AND XFER_FLAG_ST_C2H_EOP_RCVED \<noteq> 0"
    by simp
  with assms show ?thesis
    by (simp add: engine_service_final_transfer_def Let_def split_beta)
qed

lemma final_transfer_eop_witness:
  "e_transfer_list (eng (snd (engine_service_final_transfer (sample_env 0 0) (Some (0, 0)) 1
     (sample_est (sample_engine\<lparr>e_eop_flush := True, e_transfer_list := [(0, 0)],
        e_cyclic_result := [\<lparr>r_status = RX_STATUS_EOP, r_length = 64\<rparr>, zero_result]\<rparr>) 2)))) = []"
  using final_transfer_eop [of "sample_est (sample_engine\<lparr>e_eop_flush := True,
      e_transfer_list := [(0, 0)],
      e_cyclic_result := [\<lparr>r_status = RX_STATUS_EOP, r_length = 64\<rparr>, zero_result]\<rparr>) 2"
      "(0, 0)" "[]" 1 "sample_env 0 0"]
  by (simp add: sample_defs status_error_def eop_in_results_def)

section \<open>Polling\<close>

lemma wb_monitor_loop_ends:
  assumes "late n" and "k \<le> n"
  shows "\<exists>j. k \<le> j \<and> j \<le> n \<and> wb_monitor_loop wb late e k = Some (wb j) \<and>
    (wb j AND WB_ERR_MASK \<noteq> 0 \<or> wb j \<ge> e \<or> late j)"
  using assms(2)
proof (induction k rule: inc_induct)
  case base
  have "\<not> e < wb n AND WB_COUNT_MASK" if "wb n < e"
    using that word_and_le2 [of "wb n" WB_COUNT_MASK] by (meson leD le_less_trans less_imp_le)
  then show ?case
    using assms(1) by (intro exI [of _ n]) (auto simp: wb_monitor_loop.simps [of wb late e n] Let_def not_le)
next
  case (step k)
  have "\<not> e < wb k AND WB_COUNT_MASK" if "wb k < e"
    using that word_and_le2 [of "wb k" WB_COUNT_MASK] by (meson leD le_less_trans less_imp_le)
  then have "wb_monitor_loop wb late e k = Some (wb k) \<and>
      (wb k AND WB_ERR_MASK \<noteq> 0 \<or> wb k \<ge> e \<or> late k) \<or>
      wb_monitor_loop wb late e k = wb_monitor_loop wb late e (Suc k)"
    by (auto simp: wb_monitor_loop.simps [of wb late e k] Let_def not_le)
  then show ?case using step by (metis Suc_leD less_imp_le order_refl)
qed

text \<open>
  Polling ends no later than the first iteration after its deadline, and
  what it returns is a value the hardware wrote: one with the error flag, one that has reached
  the expected count, or whatever was there at the deadline. The time-out branch that sets the
  error flag itself is never taken.
\<close>
theorem wb_monitor_returns:
  "late n \<Longrightarrow> expected \<noteq> 0 \<Longrightarrow>
   \<exists>j \<le> n. engine_service_wb_monitor wb late expected = Some (wb j) \<and>
     (wb j AND WB_ERR_MASK \<noteq> 0 \<or> wb j \<ge> expected \<or> late j)"
  using wb_monitor_loop_ends [of late n 0 wb expected]
  by (auto simp: engine_service_wb_monitor_def)

lemma wb_monitor_returns_witness:
  "\<exists>j \<le> (5 :: nat). engine_service_wb_monitor (\<lambda>_. 1) (\<lambda>k. 3 \<le> k) 4 = Some ((\<lambda>_. 1) j) \<and>
     ((1 :: u32) AND WB_ERR_MASK \<noteq> 0 \<or> (1 :: u32) \<ge> 4 \<or> 3 \<le> j)"
  using wb_monitor_returns [of "\<lambda>k. 3 \<le> k" 5 4 "\<lambda>_. 1"] by simp

end
