(* ===== verification/Xdma_Request.thy ===== *)
theory Xdma_Request
  imports Xdma_Desc
begin

text \<open>
  A DMA request (\<^verbatim>\<open>struct xdma_request_cb\<close>): the scatter list of a buffer cut
  into software descriptors of at most \<^verbatim>\<open>desc_blen_max\<close> bytes
  (\<^verbatim>\<open>xdma_request_alloc\<close>, \<^verbatim>\<open>xdma_init_request\<close>). The properties:
  the cutting ends, the array is large enough, every piece is within the limit and not empty, and
  the pieces are the bytes of the scatter list in order.
\<close>

section \<open>Data\<close>

text \<open>The DMA view of a scatter list entry, and the table with its count of mapped entries.\<close>

record scatterlist =
  sg_dma_address :: u64
  sg_dma_len :: u32

record sg_table =
  sgl :: "scatterlist list"
  nents :: nat
  orig_nents :: nat

record sw_desc =
  sd_addr :: u64
  sd_len :: u32

definition zero_sw_desc :: sw_desc where
  "zero_sw_desc = \<lparr>sd_addr = 0, sd_len = 0\<rparr>"

record xdma_request_cb =
  rq_sgt :: sg_table
  rq_ep_addr :: u64
  rq_aperture :: u32
  rq_total_len :: u32
  rq_offset :: u32
  rq_sg :: nat
  rq_sg_idx :: nat
  rq_sg_offset :: u32
  rq_cb :: "nat option"
  rq_sw_desc_idx :: nat
  rq_sw_desc_cnt :: nat
  rq_sdesc :: "sw_desc list"

definition empty_sgt :: sg_table where
  "empty_sgt = \<lparr>sgl = [], nents = 0, orig_nents = 0\<rparr>"

text \<open>A freshly allocated request: all zero, with room for \<open>n\<close> software descriptors.\<close>

definition zero_request :: "nat \<Rightarrow> xdma_request_cb" where
  "zero_request n = \<lparr>rq_sgt = empty_sgt, rq_ep_addr = 0, rq_aperture = 0, rq_total_len = 0,
     rq_offset = 0, rq_sg = 0, rq_sg_idx = 0, rq_sg_offset = 0, rq_cb = None,
     rq_sw_desc_idx = 0, rq_sw_desc_cnt = 0, rq_sdesc = replicate n zero_sw_desc\<rparr>"

section \<open>Operations\<close>

text \<open>\<open>oom n\<close> says that neither \<^verbatim>\<open>kzalloc\<close> nor \<^verbatim>\<open>vmalloc\<close> has room for \<open>n\<close> descriptors.\<close>

definition xdma_request_alloc :: "(nat \<Rightarrow> bool) \<Rightarrow> nat \<Rightarrow> xdma_request_cb option" where
  "xdma_request_alloc oom sdesc_nr = (if oom sdesc_nr then None else Some (zero_request sdesc_nr))"

text \<open>Extra descriptors counted for an entry longer than the limit, in unsigned arithmetic.\<close>

definition extra_of :: "u32 \<Rightarrow> u32 \<Rightarrow> nat" where
  "extra_of blen len = (if len > blen then unat ((len + blen - 1) div blen) else 0)"

fun count_extra :: "u32 \<Rightarrow> scatterlist list \<Rightarrow> nat" where
  "count_extra blen [] = 0"
| "count_extra blen (sg # sgs) = extra_of blen (sg_dma_len sg) + count_extra blen sgs"

text \<open>
  The inner loop, \<^verbatim>\<open>while (tlen)\<close>, on the array and its next free place. With a
  limit of zero it would not end.
\<close>

partial_function (option) cut_entry ::
  "u32 \<Rightarrow> u64 \<Rightarrow> u32 \<Rightarrow> nat \<times> sw_desc list \<Rightarrow> (nat \<times> sw_desc list) option" where
  "cut_entry blen addr tlen a =
     (if tlen = 0 then Some a
      else if tlen > blen
      then cut_entry blen (addr + ucast blen) (tlen - blen)
             (Suc (fst a), (snd a)[fst a := \<lparr>sd_addr = addr, sd_len = blen\<rparr>])
      else Some (Suc (fst a), (snd a)[fst a := \<lparr>sd_addr = addr, sd_len = tlen\<rparr>]))"

declare cut_entry.simps [code]

fun cut_entries ::
  "u32 \<Rightarrow> scatterlist list \<Rightarrow> u32 \<times> nat \<times> sw_desc list \<Rightarrow> (u32 \<times> nat \<times> sw_desc list) option" where
  "cut_entries blen [] (tot, a) = Some (tot, a)"
| "cut_entries blen (sg # sgs) (tot, a) =
     (case cut_entry blen (sg_dma_address sg) (sg_dma_len sg) a of
        None \<Rightarrow> None
      | Some a \<Rightarrow> cut_entries blen sgs (tot + sg_dma_len sg, a))"

text \<open>The outer option is non-termination, the inner one the NULL the code returns.\<close>

definition xdma_init_request ::
  "u32 \<Rightarrow> (nat \<Rightarrow> bool) \<Rightarrow> sg_table \<Rightarrow> u64 \<Rightarrow> xdma_request_cb option option" where
  "xdma_init_request blen oom sgt ep_addr =
     (let sgs = take (nents sgt) (sgl sgt);
          mx = nents sgt + count_extra blen sgs
      in case xdma_request_alloc oom mx of
           None \<Rightarrow> Some None
         | Some req \<Rightarrow>
             (let req = req\<lparr>rq_sgt := sgt, rq_ep_addr := ep_addr\<rparr>
              in case cut_entries blen sgs (rq_total_len req, 0, rq_sdesc req) of
                   None \<Rightarrow> None
                 | Some (tot, j, sd) \<Rightarrow>
                     Some (if j > mx then None
                           else Some (req\<lparr>rq_total_len := tot, rq_sdesc := sd,
                                          rq_sw_desc_cnt := j\<rparr>))))"

section \<open>The pieces of an entry\<close>

text \<open>
  The specification: the pieces of \<open>n\<close> bytes at \<open>addr\<close> with limit \<open>b\<close>, on
  natural numbers.
\<close>

function pieces :: "nat \<Rightarrow> u64 \<Rightarrow> nat \<Rightarrow> sw_desc list" where
  "pieces b addr n =
     (if n = 0 \<or> b = 0 then []
      else if n > b then \<lparr>sd_addr = addr, sd_len = of_nat b\<rparr> # pieces b (addr + of_nat b) (n - b)
      else [\<lparr>sd_addr = addr, sd_len = of_nat n\<rparr>])"
  by pat_completeness auto
termination by (relation "measure (\<lambda>(b, addr, n). n)") auto

declare pieces.simps [simp del]

text \<open>Writing a list of values into an array from a place on.\<close>

fun write_from :: "nat \<Rightarrow> 'a list \<Rightarrow> 'a list \<Rightarrow> 'a list" where
  "write_from j [] xs = xs"
| "write_from j (v # vs) xs = write_from (Suc j) vs (xs[j := v])"

lemma length_write_from [simp]: "length (write_from j vs xs) = length xs"
  by (induction vs arbitrary: j xs) auto

lemma write_from_append:
  "write_from j (us @ vs) xs = write_from (j + length us) vs (write_from j us xs)"
  by (induction us arbitrary: j xs) auto

lemma write_from_fits:
  "j + length vs \<le> length xs \<Longrightarrow>
     write_from j vs xs = take j xs @ vs @ drop (j + length vs) xs"
proof (induction vs arbitrary: j xs)
  case Nil
  then show ?case by simp
next
  case (Cons v vs)
  then have "j < length xs" by simp
  then have "take (Suc j) (xs[j := v]) = take j xs @ [v]"
    by (simp add: take_Suc_conv_app_nth)
  with Cons show ?case by simp
qed

lemma cut_entry_pieces:
  assumes "blen \<noteq> 0"
  shows "cut_entry blen addr tlen (j, sd) =
    Some (j + length (pieces (unat blen) addr (unat tlen)),
          write_from j (pieces (unat blen) addr (unat tlen)) sd)"
proof (induction "unat tlen" arbitrary: addr tlen j sd rule: less_induct)
  case less
  have b0: "unat blen \<noteq> 0" using assms by (simp add: unat_eq_0)
  consider "tlen = 0" | "tlen \<noteq> 0" "tlen \<le> blen" | "tlen > blen" by (meson not_le)
  then show ?case
  proof cases
    case 1
    then show ?thesis by (simp add: cut_entry.simps pieces.simps)
  next
    case 2
    then show ?thesis
      by (simp add: cut_entry.simps [of blen addr tlen] pieces.simps [of "unat blen" addr] assms
          unat_eq_0 word_le_nat_alt word_less_nat_alt)
  next
    case 3
    then have lt: "unat blen < unat tlen" by (simp add: word_less_nat_alt)
    then have sub: "unat (tlen - blen) = unat tlen - unat blen"
      by (simp add: unat_sub word_le_nat_alt)
    then have "unat (tlen - blen) < unat tlen" using b0 lt by simp
    note IH = less [OF this]
    have "pieces (unat blen) addr (unat tlen) = \<lparr>sd_addr = addr, sd_len = blen\<rparr> #
        pieces (unat blen) (addr + ucast blen) (unat (tlen - blen))"
      using b0 lt by (simp add: pieces.simps [of "unat blen" addr "unat tlen"] sub)
    moreover have "tlen \<noteq> 0" using 3 by auto
    ultimately show ?thesis
      using 3 IH by (simp add: cut_entry.simps [of blen addr tlen])
  qed
qed

fun all_pieces :: "nat \<Rightarrow> scatterlist list \<Rightarrow> sw_desc list" where
  "all_pieces b [] = []"
| "all_pieces b (sg # sgs) =
     pieces b (sg_dma_address sg) (unat (sg_dma_len sg)) @ all_pieces b sgs"

lemma cut_entries_pieces:
  assumes "blen \<noteq> 0"
  shows "cut_entries blen sgs (tot, j, sd) =
    Some (tot + sum_list (map sg_dma_len sgs), j + length (all_pieces (unat blen) sgs),
          write_from j (all_pieces (unat blen) sgs) sd)"
  by (induction sgs arbitrary: tot j sd)
     (simp_all add: cut_entry_pieces [OF assms] write_from_append algebra_simps)

text \<open>The number of pieces of an entry is the rounded-up quotient.\<close>

lemma ceil_step:
  fixes n b :: nat
  assumes "0 < b" and "b < n"
  shows "(n + b - 1) div b = Suc ((n - b + b - 1) div b)"
proof -
  have "n + b - 1 = (n - b + b - 1) + b" using assms by simp
  then show ?thesis using assms(1) by (simp only: div_add_self2)
qed

lemma ceil_one:
  fixes n b :: nat
  assumes "0 < n" and "n \<le> b"
  shows "(n + b - 1) div b = 1"
  by (rule div_nat_eqI) (use assms in simp_all)

lemma length_pieces: "0 < b \<Longrightarrow> length (pieces b addr n) = (n + b - 1) div b"
proof (induction b addr n rule: pieces.induct)
  case (1 b addr n)
  consider "n = 0" | "0 < n" "n \<le> b" | "b < n" by linarith
  then show ?case
  proof cases
    case 3
    have "\<not> (n = 0 \<or> b = 0)" using 3 1(2) by simp
    note IH = 1(1) [OF this 3 1(2)]
    show ?thesis
      unfolding ceil_step [OF 1(2) 3] IH [symmetric]
      using 3 1(2) by (simp add: pieces.simps [of b addr n])
  next
    case 1
    then show ?thesis using \<open>0 < b\<close> by (simp add: pieces.simps [of b addr 0])
  next
    case 2
    show ?thesis unfolding ceil_one [OF 2]
      using 2 by (simp add: pieces.simps [of b addr n])
  qed
qed

lemma pieces_sum:
  "0 < b \<Longrightarrow> b < 2 ^ 32 \<Longrightarrow> sum_list (map (\<lambda>d. unat (sd_len d)) (pieces b addr n)) = n"
  by (induction b addr n rule: pieces.induct)
     (subst pieces.simps, auto simp: unat_of_nat_small)

lemma pieces_bounds:
  assumes "0 < b" and "b < 2 ^ 32"
  shows "\<forall>d \<in> set (pieces b addr n). 0 < unat (sd_len d) \<and> unat (sd_len d) \<le> b"
  using assms
proof (induction b addr n rule: pieces.induct)
  case (1 b addr n)
  show ?case
  proof (cases "n > b")
    case True
    with 1 show ?thesis by (simp add: pieces.simps [of b addr n] unat_of_nat_small)
  next
    case False
    with 1(3) have "n < 2 ^ 32" by simp
    with False show ?thesis by (simp add: pieces.simps [of b addr n] unat_of_nat_small)
  qed
qed

text \<open>A piece starts where the one before it ends, the first one at the entry's address.\<close>

fun consecutive :: "u64 \<Rightarrow> sw_desc list \<Rightarrow> bool" where
  "consecutive addr [] = True"
| "consecutive addr (d # ds) \<longleftrightarrow> sd_addr d = addr \<and> consecutive (addr + ucast (sd_len d)) ds"

lemma pieces_consecutive: "b < 2 ^ 32 \<Longrightarrow> consecutive addr (pieces b addr n)"
proof (induction b addr n rule: pieces.induct)
  case (1 b addr n)
  have "(ucast (of_nat b :: u32) :: u64) = of_nat b"
    by (subst of_nat_unat [symmetric]) (use 1(2) in \<open>simp add: unat_of_nat_small\<close>)
  with 1 show ?case by (simp add: pieces.simps [of b addr n])
qed

section \<open>The request\<close>

lemma all_pieces_fit:
  assumes "blen \<noteq> 0" and "\<forall>sg \<in> set sgs. unat (sg_dma_len sg) + unat blen \<le> 2 ^ 32"
  shows "length (all_pieces (unat blen) sgs) \<le> length sgs + count_extra blen sgs"
  using assms(2)
proof (induction sgs)
  case (Cons sg sgs)
  let ?n = "unat (sg_dma_len sg)" and ?b = "unat blen"
  have b: "0 < ?b" using assms(1) by (simp add: unat_eq_0 zero_less_iff_neq_zero)
  have "length (pieces ?b a ?n) \<le> 1 + extra_of blen (sg_dma_len sg)" for a
  proof (cases "sg_dma_len sg > blen")
    case True
    have nb: "?n + ?b \<le> 2 ^ 32" using Cons.prems by simp
    have b1: "unat (blen - 1) = ?b - 1" using b by (simp add: unat_sub word_le_nat_alt)
    have "?n + unat (blen - 1) < 2 ^ LENGTH(32)" using nb b unfolding b1 by simp
    then have "unat (sg_dma_len sg + (blen - 1)) = ?n + (?b - 1)"
      unfolding b1 [symmetric] by (rule unat_add_no_wrap)
    then have "unat (sg_dma_len sg + blen - 1) = ?n + ?b - 1"
      using b by (simp add: add_diff_eq)
    then show ?thesis using True by (simp add: extra_of_def length_pieces [OF b] unat_div)
  next
    case False
    then have "?n \<le> ?b" by (simp add: word_less_nat_alt)
    then show ?thesis using ceil_one [of ?n ?b] b
      by (cases "?n = 0") (simp_all add: length_pieces [OF b])
  qed
  then have "length (pieces ?b (sg_dma_address sg) ?n) \<le> 1 + extra_of blen (sg_dma_len sg)" .
  with Cons show ?case by simp
qed simp

text \<open>A request that is built holds the pieces of its list.\<close>

lemma init_request_built:
  assumes "blen \<noteq> 0" and "nents sgt \<le> length (sgl sgt)" and "\<forall>n. \<not> oom n"
    and "\<forall>sg \<in> set (take (nents sgt) (sgl sgt)). unat (sg_dma_len sg) + unat blen \<le> 2 ^ 32"
  shows "\<exists>req. xdma_init_request blen oom sgt ep = Some (Some req) \<and>
    take (rq_sw_desc_cnt req) (rq_sdesc req) = all_pieces (unat blen) (take (nents sgt) (sgl sgt)) \<and>
    rq_sw_desc_cnt req \<le> length (rq_sdesc req) \<and> rq_sw_desc_idx req = 0 \<and>
    rq_ep_addr req = ep \<and>
    rq_total_len req = sum_list (map sg_dma_len (take (nents sgt) (sgl sgt)))"
proof -
  let ?sgs = "take (nents sgt) (sgl sgt)"
  let ?ps = "all_pieces (unat blen) ?sgs" and ?mx = "nents sgt + count_extra blen ?sgs"
  have fit: "length ?ps \<le> ?mx" using all_pieces_fit [OF assms(1,4)] assms(2) by simp
  have "write_from 0 ?ps (replicate ?mx zero_sw_desc) =
      ?ps @ drop (length ?ps) (replicate ?mx zero_sw_desc)"
    using fit by (simp add: write_from_fits)
  with fit show ?thesis
    using assms(3) by (simp add: xdma_init_request_def xdma_request_alloc_def zero_request_def Let_def
        cut_entries_pieces [OF assms(1)])
qed


definition sample_sgt :: sg_table where
  "sample_sgt = \<lparr>sgl = [\<lparr>sg_dma_address = 0x1000, sg_dma_len = 0x1800\<rparr>,
     \<lparr>sg_dma_address = 0x8000, sg_dma_len = 0x100\<rparr>], nents = 2, orig_nents = 2\<rparr>"


text \<open>
  Every piece is within the descriptor length limit and not empty, the pieces of an
  entry follow each other without a gap from the entry's address, and their lengths add up to the
  entry's length.
\<close>
theorem pieces_correct:
  "0 < b \<Longrightarrow> b < 2 ^ 32 \<Longrightarrow>
   (\<forall>d \<in> set (pieces b addr n). 0 < unat (sd_len d) \<and> unat (sd_len d) \<le> b) \<and>
   consecutive addr (pieces b addr n) \<and> sum_list (map (\<lambda>d. unat (sd_len d)) (pieces b addr n)) = n"
  using pieces_bounds pieces_consecutive pieces_sum by blast

lemma pieces_correct_witness:
  "consecutive 0x1000 (pieces 0x1000 0x1000 0x2800)"
  using pieces_correct [of "0x1000" "0x1000" "0x2800"] by simp

text \<open>
  The rounding can wrap: with the default limit of \<open>2 ^ 28 - 1\<close> bytes an
  entry of \<open>0xF8000000\<close> bytes is counted as no extra descriptor although it needs sixteen, so
  the request is refused, after the array of one descriptor has been written past its end.
\<close>
theorem init_request_wrap:
  "xdma_init_request 0xFFFFFFF (\<lambda>_. False)
     \<lparr>sgl = [\<lparr>sg_dma_address = 0, sg_dma_len = 0xF8000000\<rparr>], nents = 1, orig_nents = 1\<rparr> 0 = Some None"
  by (simp add: xdma_init_request_def xdma_request_alloc_def zero_request_def Let_def extra_of_def
      cut_entry_pieces pieces.simps)

end
