(* ===== verification/Xdma_Transfer.thy ===== *)
theory Xdma_Transfer
  imports Xdma_Service_Spec Xdma_Request
begin

text \<open>
  Transfers: laying a part of a request out in the descriptor ring of an engine
  (\<^verbatim>\<open>transfer_init\<close>, \<^verbatim>\<open>transfer_build\<close>), queueing it, aborting it and taking it
  apart. The main property is a refinement: an engine that follows the chain of descriptors from
  the address it is given moves exactly the pieces of the request the transfer was built for.
\<close>

section \<open>Flags of the device\<close>

definition xdma_device_flag_check :: "u32 \<Rightarrow> u32 \<Rightarrow> bool" where
  "xdma_device_flag_check flags f \<longleftrightarrow> flags AND f \<noteq> 0"

definition xdma_device_flag_test_n_set :: "u32 \<Rightarrow> u32 \<Rightarrow> bool \<times> u32" where
  "xdma_device_flag_test_n_set flags f =
     (if flags AND f \<noteq> 0 then (True, flags) else (False, flags OR f))"

definition xdma_device_flag_set :: "u32 \<Rightarrow> u32 \<Rightarrow> u32" where
  "xdma_device_flag_set flags f = flags OR f"

definition xdma_device_flag_clear :: "u32 \<Rightarrow> u32 \<Rightarrow> u32" where
  "xdma_device_flag_clear flags f = flags AND NOT f"

section \<open>Building\<close>

definition streaming_c2h :: "xdma_engine \<Rightarrow> bool" where
  "streaming_c2h e \<longleftrightarrow> e_streaming e \<and> e_dir e = DMA_FROM_DEVICE"

text \<open>What the loop of \<^verbatim>\<open>transfer_build\<close> changes: the rings, and its running values.\<close>

record build =
  b_desc :: "xdma_desc list"
  b_result :: "xdma_result list"
  b_len :: u32
  b_ep :: u64
  b_bus :: u64

definition build_step ::
  "xdma_engine \<Rightarrow> xdma_transfer \<Rightarrow> (nat \<Rightarrow> sw_desc) \<Rightarrow> nat \<Rightarrow> build \<Rightarrow> build" where
  "build_step e x sdesc j b =
     (let sd = sdesc j;
          k = x_desc_virt x + j;
          d = xdma_desc_set (b_desc b ! k) (sd_addr sd) (b_ep b) (sd_len sd) (x_dir x);
          b = b\<lparr>b_desc := (b_desc b)[k := d], b_len := b_len b + sd_len sd\<rparr>;
          b = (if e_non_incr_addr e then b else b\<lparr>b_ep := b_ep b + ucast (sd_len sd)\<rparr>)
      in if streaming_c2h e then
           b\<lparr>b_result := (b_result b)[x_res_virt x + j := zero_result],
             b_desc := (b_desc b)[k := d\<lparr>d_src_addr_lo := PCI_DMA_L (b_bus b),
                                       d_src_addr_hi := PCI_DMA_H (b_bus b)\<rparr>],
             b_bus := b_bus b + of_nat sizeof_xdma_result\<rparr>
         else b)"

definition transfer_build ::
  "xdma_engine \<Rightarrow> xdma_request_cb \<Rightarrow> xdma_transfer \<Rightarrow> nat \<Rightarrow>
     xdma_engine \<times> xdma_request_cb \<times> xdma_transfer" where
  "transfer_build e req x desc_max =
     (let b = fold (build_step e x (\<lambda>j. rq_sdesc req ! (rq_sw_desc_idx req + j))) [0..<desc_max]
                \<lparr>b_desc = e_desc e, b_result = e_cyclic_result e, b_len = x_len x,
                 b_ep = rq_ep_addr req, b_bus = x_res_bus x\<rparr>
      in (e\<lparr>e_desc := b_desc b, e_cyclic_result := b_result b\<rparr>,
          req\<lparr>rq_ep_addr := b_ep b, rq_sw_desc_idx := rq_sw_desc_idx req + desc_max\<rparr>,
          x\<lparr>x_len := b_len b\<rparr>))"

text \<open>The control byte of the last descriptor, and of the others of a flushing engine.\<close>

definition last_control :: u32 where
  "last_control = XDMA_DESC_STOPPED OR XDMA_DESC_EOP OR XDMA_DESC_COMPLETED"

definition set_controls :: "bool \<Rightarrow> nat \<Rightarrow> nat \<Rightarrow> xdma_desc list \<Rightarrow> xdma_desc list" where
  "set_controls eop_flush base n ds =
     (let last = n - 1;
          ds = ds[base + last := snd (xdma_desc_control_set (ds ! (base + last)) last_control)]
      in if eop_flush
         then array_for base last (\<lambda>_ d. snd (xdma_desc_control_set d XDMA_DESC_COMPLETED)) ds
         else ds)"

definition transfer_init ::
  "xdma_engine \<Rightarrow> xdma_request_cb \<Rightarrow> xdma_engine \<times> xdma_request_cb \<times> xdma_transfer" where
  "transfer_init e req =
     (let desc_max = min (rq_sw_desc_cnt req - rq_sw_desc_idx req) (e_desc_max e);
          x = zero_xfer\<lparr>x_dir := e_dir e, x_desc_virt := e_desc_idx e, x_res_virt := e_desc_idx e,
                x_desc_bus := e_desc_bus e + of_nat (sizeof_xdma_desc * e_desc_idx e),
                x_res_bus := e_cyclic_result_bus e + of_nat (sizeof_xdma_result * e_desc_idx e),
                x_desc_index := e_desc_idx e\<rparr>;
          desc_max = (if e_desc_idx e + desc_max \<ge> e_desc_max e
                      then e_desc_max e - e_desc_idx e else desc_max);
          e = e\<lparr>e_desc := transfer_desc_init (x_desc_virt x) desc_max (x_desc_bus x) (e_desc e)\<rparr>;
          (e, req, x) = transfer_build e req x desc_max;
          x = x\<lparr>x_desc_adjacent := desc_max\<rparr>;
          e = e\<lparr>e_desc := set_controls (e_eop_flush e) (x_desc_virt x) desc_max (e_desc e)\<rparr>;
          x = x\<lparr>x_desc_cmpl_th := if e_eop_flush e then 1 else desc_max\<rparr>;
          x = x\<lparr>x_desc_num := desc_max\<rparr>;
          e = e\<lparr>e_desc_idx := (e_desc_idx e + desc_max) mod e_desc_max e,
                e_desc_used := e_desc_used e + of_nat desc_max\<rparr>;
          e = e\<lparr>e_desc := set_adjacents (x_desc_virt x) (x_desc_num x) (e_desc e)\<rparr>
      in (e, req, x))"

section \<open>Queueing, aborting, taking apart\<close>

definition transfer_queue ::
  "('x) xenv_scheme \<Rightarrow> xid \<Rightarrow> ('c, 's) est_scheme \<Rightarrow> int \<times> ('c, 's) est_scheme" where
  "transfer_queue E t st =
     (if x_desc_num (xfers st t) = 0 then (- EINVAL, st)
      else if xdma_device_flag_check (xdev_flags st) XDEV_FLAG_OFFLINE then (- EBUSY, st)
      else if e_shutdown (eng st) AND ENGINE_SHUTDOWN_REQUEST \<noteq> 0 then (- EBUSY, st)
      else (let st = set_xfer t ((xfers st t)\<lparr>x_state := TRANSFER_STATE_SUBMITTED\<rparr>) st;
                st = st\<lparr>eng := (eng st)\<lparr>e_transfer_list := e_transfer_list (eng st) @ [t]\<rparr>\<rparr>
            in if \<not> e_running (eng st) then (0, snd (engine_start E st)) else (0, st)))"

definition transfer_abort ::
  "xid \<Rightarrow> ('c, 's) est_scheme \<Rightarrow> int \<times> ('c, 's) est_scheme" where
  "transfer_abort t st =
     (if x_desc_num (xfers st t) = 0 then (- EINVAL, st)
      else (let st = (if head_of st = Some t then del_head st else st)
            in (0, if x_state (xfers st t) = TRANSFER_STATE_SUBMITTED
                   then set_xfer t ((xfers st t)\<lparr>x_state := TRANSFER_STATE_ABORTED\<rparr>) st
                   else st)))"

text \<open>The second component is the scatter list of the transfer, unmapped or not.\<close>

definition transfer_destroy ::
  "xdma_transfer \<Rightarrow> xdma_engine \<Rightarrow> sg_table \<Rightarrow> xdma_engine \<times> sg_table" where
  "transfer_destroy x e sgt =
     (e\<lparr>e_desc := xdma_desc_done (x_desc_virt x) (x_desc_num x) (e_desc e)\<rparr>,
      if x_last_in_request x \<and> x_flags x AND XFER_FLAG_NEED_UNMAP \<noteq> 0
      then (if nents sgt \<noteq> 0 then sgt\<lparr>nents := 0\<rparr> else sgt) else sgt)"

section \<open>The descriptors of a transfer\<close>

text \<open>The end-point address when \<open>n\<close> pieces have been laid out.\<close>

fun ep_at :: "bool \<Rightarrow> u64 \<Rightarrow> (nat \<Rightarrow> sw_desc) \<Rightarrow> nat \<Rightarrow> u64" where
  "ep_at fixed ep sdesc 0 = ep"
| "ep_at fixed ep sdesc (Suc n) =
     (if fixed then ep_at fixed ep sdesc n
      else ep_at fixed ep sdesc n + ucast (sd_len (sdesc n)))"

definition built_desc ::
  "xdma_engine \<Rightarrow> u64 \<Rightarrow> u64 \<Rightarrow> (nat \<Rightarrow> sw_desc) \<Rightarrow> nat \<Rightarrow> xdma_desc \<Rightarrow> xdma_desc" where
  "built_desc e ep bus sdesc j d =
     (let d = xdma_desc_set d (sd_addr (sdesc j)) (ep_at (e_non_incr_addr e) ep sdesc j)
                (sd_len (sdesc j)) (e_dir e)
      in if streaming_c2h e
         then d\<lparr>d_src_addr_lo := PCI_DMA_L (bus + of_nat (sizeof_xdma_result * j)),
                d_src_addr_hi := PCI_DMA_H (bus + of_nat (sizeof_xdma_result * j))\<rparr>
         else d)"

lemma build_fold:
  fixes sdesc :: "nat \<Rightarrow> sw_desc"
  assumes "x_dir x = e_dir e" and "x_desc_virt x + n \<le> length (b_desc b)"
  defines "r \<equiv> fold (build_step e x sdesc) [0..<n] b"
  shows "b_ep r = ep_at (e_non_incr_addr e) (b_ep b) sdesc n \<and>
    (streaming_c2h e \<longrightarrow> b_bus r = b_bus b + of_nat (sizeof_xdma_result * n)) \<and>
    length (b_desc r) = length (b_desc b) \<and>
    b_len r = b_len b + sum_list (map (\<lambda>j. sd_len (sdesc j)) [0..<n]) \<and>
    (\<forall>j < length (b_desc b). b_desc r ! j =
       (if x_desc_virt x \<le> j \<and> j < x_desc_virt x + n
        then built_desc e (b_ep b) (b_bus b) sdesc (j - x_desc_virt x) (b_desc b ! j)
        else b_desc b ! j))"
  using assms(2) unfolding r_def
proof (induction n)
  case 0
  then show ?case by auto
next
  case (Suc n)
  let ?r = "fold (build_step e x sdesc) [0..<n] b" and ?k = "x_desc_virt x + n"
  have fold: "fold (build_step e x sdesc) [0..<Suc n] b = build_step e x sdesc n ?r" by simp
  from Suc have IH: "b_ep ?r = ep_at (e_non_incr_addr e) (b_ep b) sdesc n"
    "streaming_c2h e \<Longrightarrow> b_bus ?r = b_bus b + of_nat (sizeof_xdma_result * n)"
    "length (b_desc ?r) = length (b_desc b)"
    "b_len ?r = b_len b + sum_list (map (\<lambda>j. sd_len (sdesc j)) [0..<n])"
    "\<And>j. j < length (b_desc b) \<Longrightarrow> b_desc ?r ! j =
       (if x_desc_virt x \<le> j \<and> j < ?k
        then built_desc e (b_ep b) (b_bus b) sdesc (j - x_desc_virt x) (b_desc b ! j)
        else b_desc b ! j)"
    by simp_all
  have k: "?k < length (b_desc b)" using Suc.prems by simp
  have nth: "b_desc (build_step e x sdesc n ?r) =
      (b_desc ?r)[?k := built_desc e (b_ep b) (b_bus b) sdesc n (b_desc b ! ?k)]"
    using IH(1,2) IH(5) [OF k] assms(1) by (simp add: build_step_def built_desc_def Let_def)
  have "b_desc (build_step e x sdesc n ?r) ! j =
       (if x_desc_virt x \<le> j \<and> j < x_desc_virt x + Suc n
        then built_desc e (b_ep b) (b_bus b) sdesc (j - x_desc_virt x) (b_desc b ! j)
        else b_desc b ! j)" if "j < length (b_desc b)" for j
  proof (cases "j = ?k")
    case True
    then show ?thesis unfolding nth using k IH(3) by simp
  next
    case False
    then show ?thesis unfolding nth using IH(5) [OF that] by auto
  qed
  with IH(1-4) show ?case
    unfolding fold by (auto simp: build_step_def Let_def algebra_simps)
qed

text \<open>How many descriptors the transfer gets: what is left of the request, up to the end of the ring.\<close>

definition planned :: "xdma_engine \<Rightarrow> xdma_request_cb \<Rightarrow> nat" where
  "planned e req =
     min (rq_sw_desc_cnt req - rq_sw_desc_idx req) (e_desc_max e - e_desc_idx e)"

definition ring_ok :: "xdma_engine \<Rightarrow> bool" where
  "ring_ok e \<longleftrightarrow> e_desc_idx e < e_desc_max e \<and> length (e_desc e) = e_desc_max e"

definition req_left :: "xdma_request_cb \<Rightarrow> bool" where
  "req_left req \<longleftrightarrow> rq_sw_desc_idx req < rq_sw_desc_cnt req"

definition next_sdesc :: "xdma_request_cb \<Rightarrow> nat \<Rightarrow> sw_desc" where
  "next_sdesc req j = rq_sdesc req ! (rq_sw_desc_idx req + j)"

definition first_desc_bus :: "xdma_engine \<Rightarrow> u64" where
  "first_desc_bus e = e_desc_bus e + of_nat (sizeof_xdma_desc * e_desc_idx e)"

definition first_res_bus :: "xdma_engine \<Rightarrow> u64" where
  "first_res_bus e = e_cyclic_result_bus e + of_nat (sizeof_xdma_result * e_desc_idx e)"

lemma planned_code:
  assumes "ring_ok e"
  shows "(if e_desc_idx e + min (rq_sw_desc_cnt req - rq_sw_desc_idx req) (e_desc_max e) \<ge> e_desc_max e
      then e_desc_max e - e_desc_idx e
      else min (rq_sw_desc_cnt req - rq_sw_desc_idx req) (e_desc_max e)) = planned e req"
  using assms by (auto simp: planned_def ring_ok_def min_def)

lemma planned_bounds:
  assumes "ring_ok e" and "req_left req"
  shows "0 < planned e req" and "planned e req \<le> rq_sw_desc_cnt req - rq_sw_desc_idx req"
    and "e_desc_idx e + planned e req \<le> e_desc_max e"
  using assms by (auto simp: planned_def ring_ok_def req_left_def)

definition built :: "xdma_engine \<Rightarrow> xdma_request_cb \<Rightarrow> build" where
  "built e req =
     fold (build_step e (zero_xfer\<lparr>x_dir := e_dir e, x_desc_virt := e_desc_idx e,
                           x_res_virt := e_desc_idx e, x_desc_bus := first_desc_bus e,
                           x_res_bus := first_res_bus e, x_desc_index := e_desc_idx e\<rparr>)
             (next_sdesc req)) [0..<planned e req]
       \<lparr>b_desc = transfer_desc_init (e_desc_idx e) (planned e req) (first_desc_bus e) (e_desc e),
        b_result = e_cyclic_result e, b_len = 0, b_ep = rq_ep_addr req, b_bus = first_res_bus e\<rparr>"

lemma build_step_desc [simp]: "build_step (e\<lparr>e_desc := ds\<rparr>) = build_step e"
  by (simp add: fun_eq_iff build_step_def streaming_c2h_def)

lemma transfer_init_eq:
  assumes "ring_ok e"
  shows "transfer_init e req =
    (e\<lparr>e_desc := set_adjacents (e_desc_idx e) (planned e req)
                   (set_controls (e_eop_flush e) (e_desc_idx e) (planned e req) (b_desc (built e req))),
       e_cyclic_result := b_result (built e req),
       e_desc_idx := (e_desc_idx e + planned e req) mod e_desc_max e,
       e_desc_used := e_desc_used e + of_nat (planned e req)\<rparr>,
     req\<lparr>rq_ep_addr := b_ep (built e req), rq_sw_desc_idx := rq_sw_desc_idx req + planned e req\<rparr>,
     zero_xfer\<lparr>x_dir := e_dir e, x_desc_virt := e_desc_idx e, x_res_virt := e_desc_idx e,
       x_desc_bus := first_desc_bus e, x_res_bus := first_res_bus e, x_desc_index := e_desc_idx e,
       x_len := b_len (built e req), x_desc_adjacent := planned e req,
       x_desc_cmpl_th := if e_eop_flush e then 1 else planned e req,
       x_desc_num := planned e req\<rparr>)"
  unfolding transfer_init_def transfer_build_def Let_def planned_code [OF assms]
  by (simp add: built_def next_sdesc_def [abs_def] first_desc_bus_def first_res_bus_def
      split_beta Let_def zero_xfer_def)

lemma built_facts:
  assumes "ring_ok e" and "req_left req"
  shows "b_ep (built e req) =
      ep_at (e_non_incr_addr e) (rq_ep_addr req) (next_sdesc req) (planned e req)"
    and "length (b_desc (built e req)) = length (e_desc e)"
    and "b_len (built e req) = sum_list (map (\<lambda>j. sd_len (next_sdesc req j)) [0..<planned e req])"
    and "j < e_desc_max e \<Longrightarrow> b_desc (built e req) ! j =
      (if e_desc_idx e \<le> j \<and> j < e_desc_idx e + planned e req
       then built_desc e (rq_ep_addr req) (first_res_bus e) (next_sdesc req) (j - e_desc_idx e)
              (transfer_desc_init (e_desc_idx e) (planned e req) (first_desc_bus e) (e_desc e) ! j)
       else e_desc e ! j)"
proof -
  note b = planned_bounds [OF assms]
  let ?b = "\<lparr>b_desc = transfer_desc_init (e_desc_idx e) (planned e req) (first_desc_bus e) (e_desc e),
        b_result = e_cyclic_result e, b_len = 0, b_ep = rq_ep_addr req, b_bus = first_res_bus e\<rparr>"
  have len: "length (e_desc e) = e_desc_max e" using assms(1) by (simp add: ring_ok_def)
  have "e_desc_idx e + planned e req \<le> length (b_desc ?b)" using b(3) len by simp
  note bf = build_fold [of "zero_xfer\<lparr>x_dir := e_dir e, x_desc_virt := e_desc_idx e,
      x_res_virt := e_desc_idx e, x_desc_bus := first_desc_bus e,
      x_res_bus := first_res_bus e, x_desc_index := e_desc_idx e\<rparr>" e "planned e req" ?b
      "next_sdesc req", folded built_def, simplified, OF this [simplified]]
  show "b_ep (built e req) =
      ep_at (e_non_incr_addr e) (rq_ep_addr req) (next_sdesc req) (planned e req)"
    and "length (b_desc (built e req)) = length (e_desc e)"
    and "b_len (built e req) = sum_list (map (\<lambda>j. sd_len (next_sdesc req j)) [0..<planned e req])"
    using bf by simp_all
  show "b_desc (built e req) ! j =
      (if e_desc_idx e \<le> j \<and> j < e_desc_idx e + planned e req
       then built_desc e (rq_ep_addr req) (first_res_bus e) (next_sdesc req) (j - e_desc_idx e)
              (transfer_desc_init (e_desc_idx e) (planned e req) (first_desc_bus e) (e_desc e) ! j)
       else e_desc e ! j)" if "j < e_desc_max e"
    using bf that len b nth_transfer_desc_init [of "planned e req" "e_desc_idx e" "e_desc e" j]
    by auto
qed

text \<open>The control byte of the \<open>i\<close>-th of \<open>n\<close> descriptors, and its finished descriptor.\<close>

definition control_byte :: "bool \<Rightarrow> nat \<Rightarrow> nat \<Rightarrow> u32" where
  "control_byte eop_flush n i =
     (if Suc i = n then last_control else if eop_flush then XDMA_DESC_COMPLETED else 0)"

lemma length_set_controls [simp]: "length (set_controls f base n ds) = length ds"
  by (simp add: set_controls_def Let_def)

lemma desc_control_id: "d_control d = c \<Longrightarrow> d\<lparr>d_control := c\<rparr> = d"
  by auto

lemma nth_set_controls:
  assumes "0 < n" and "base + n \<le> length ds" and "j < length ds"
    and "\<And>i. i < n \<Longrightarrow> d_control (ds ! (base + i)) = DESC_MAGIC"
  shows "set_controls f base n ds ! j =
    (if base \<le> j \<and> j < base + n
     then (ds ! j)\<lparr>d_control := DESC_MAGIC OR control_byte f n (j - base)\<rparr> else ds ! j)"
proof (cases "base \<le> j \<and> j < base + n")
  case True
  then obtain i where i: "j = base + i" "i < n" by (auto simp: le_iff_add)
  then have "d_control (ds ! j) = DESC_MAGIC" using assms(4) by simp
  then have set: "snd (xdma_desc_control_set (ds ! j) c) = (ds ! j)\<lparr>d_control := DESC_MAGIC OR c\<rparr>"
    if "c AND NOT 0xFF = 0" for c
    using that by (simp add: xdma_desc_control_set_def)
  have same: "(ds ! j)\<lparr>d_control := DESC_MAGIC\<rparr> = ds ! j"
    using \<open>d_control (ds ! j) = DESC_MAGIC\<close> by (rule desc_control_id)
  show ?thesis
  proof (cases "Suc i = n")
    case True
    then show ?thesis
      using assms(1-3) i set [of last_control]
      by (auto simp: set_controls_def Let_def nth_array_for control_byte_def last_control_def)
  next
    case False
    then have "j < base + (n - 1)" using i by simp
    with False show ?thesis
      using assms(1-3) i set [of XDMA_DESC_COMPLETED] same
      by (auto simp: set_controls_def Let_def nth_array_for control_byte_def)
  qed
next
  case False
  then show ?thesis
    using assms(1-3)
    by (auto simp: set_controls_def Let_def nth_update_pick nth_array_for)
qed

section \<open>What the engine finds in memory\<close>

definition next_bus :: "xdma_engine \<Rightarrow> xdma_request_cb \<Rightarrow> nat \<Rightarrow> u64" where
  "next_bus e req i =
     (if Suc i = planned e req then 0 else desc_addr (first_desc_bus e) (Suc i))"

definition adjacent_of :: "xdma_engine \<Rightarrow> xdma_request_cb \<Rightarrow> nat \<Rightarrow> u32" where
  "adjacent_of e req i =
     xdma_get_next_adj (of_nat (planned e req - i - 1)) (PCI_DMA_L (next_bus e req i))"

definition laid_desc :: "xdma_engine \<Rightarrow> xdma_request_cb \<Rightarrow> nat \<Rightarrow> xdma_desc" where
  "laid_desc e req i =
     (built_desc e (rq_ep_addr req) (first_res_bus e) (next_sdesc req) i
        (zero_desc\<lparr>d_next_lo := PCI_DMA_L (next_bus e req i),
                   d_next_hi := PCI_DMA_H (next_bus e req i)\<rparr>))
       \<lparr>d_control := control_byte (e_eop_flush e) (planned e req) i OR
          (0xAD4B0000 OR push_bit 8 (adjacent_of e req i))\<rparr>"

lemma built_desc_keeps [simp]:
  "d_next_lo (built_desc e ep bus sdesc i d) = d_next_lo d"
  "d_next_hi (built_desc e ep bus sdesc i d) = d_next_hi d"
  "d_control (built_desc e ep bus sdesc i d) = d_control d"
  by (simp_all add: built_desc_def xdma_desc_set_def Let_def split: dma_data_direction.splits)

lemma built_desc_only:
  "d_next_lo d = d_next_lo d' \<Longrightarrow> d_next_hi d = d_next_hi d' \<Longrightarrow>
   (built_desc e ep bus sdesc i d)\<lparr>d_control := c\<rparr> = (built_desc e ep bus sdesc i d')\<lparr>d_control := c\<rparr>"
  by (cases d; cases d')
     (simp add: built_desc_def xdma_desc_set_def Let_def split: dma_data_direction.splits)

lemma PCI_DMA_zero [simp]: "PCI_DMA_L 0 = 0" "PCI_DMA_H 0 = 0"
  by (simp_all add: PCI_DMA_L_def PCI_DMA_H_def)

lemma control_byte_kept:
  "(DESC_MAGIC OR control_byte f n i) AND 0x0000f0ff = control_byte f n i"
  by (simp add: control_byte_def last_control_def)

lemma transfer_init_nth:
  assumes "ring_ok e" and "req_left req" and "j < e_desc_max e"
  shows "e_desc (fst (transfer_init e req)) ! j =
    (if e_desc_idx e \<le> j \<and> j < e_desc_idx e + planned e req
     then laid_desc e req (j - e_desc_idx e) else e_desc e ! j)"
proof -
  note b = planned_bounds [OF assms(1,2)] and bf = built_facts [OF assms(1,2)]
  let ?base = "e_desc_idx e" and ?n = "planned e req"
  let ?B = "b_desc (built e req)"
  let ?D = "set_controls (e_eop_flush e) ?base ?n ?B"
  have len: "length (e_desc e) = e_desc_max e" using assms(1) by (simp add: ring_ok_def)
  have fit: "?base + ?n \<le> length ?B" using b(3) bf(2) len by simp
  have init: "transfer_desc_init ?base ?n (first_desc_bus e) (e_desc e) ! (?base + i) =
      (e_desc e ! (?base + i))\<lparr>d_next_lo := PCI_DMA_L (next_bus e req i),
        d_next_hi := PCI_DMA_H (next_bus e req i), d_bytes := 0, d_control := DESC_MAGIC\<rparr>"
    if "i < ?n" for i
    using that b len by (simp add: nth_transfer_desc_init next_bus_def)
  have magic: "d_control (?B ! (?base + i)) = DESC_MAGIC" if "i < ?n" for i
    using that b(3) bf(4) [of "?base + i"] init [OF that] by simp
  note D = nth_set_controls [OF b(1) fit _ magic]
  have E: "e_desc (fst (transfer_init e req)) ! j =
      (if ?base \<le> j \<and> j < ?base + ?n
       then xdma_desc_adjacent (?D ! j)
              (xdma_get_next_adj (of_nat (?n - (j - ?base) - 1)) (d_next_lo (?D ! j)))
       else ?D ! j)"
    using assms(3) fit bf(2) len by (simp add: transfer_init_eq [OF assms(1)] set_adjacents_def nth_array_for)
  have lt: "j < length ?B" using assms(3) bf(2) len by simp
  show ?thesis
  proof (cases "?base \<le> j \<and> j < ?base + ?n")
    case True
    then obtain i where i: "j = ?base + i" "i < ?n" by (auto simp: le_iff_add)
    have Bj: "?B ! j = built_desc e (rq_ep_addr req) (first_res_bus e) (next_sdesc req) i
        ((e_desc e ! j)\<lparr>d_next_lo := PCI_DMA_L (next_bus e req i),
          d_next_hi := PCI_DMA_H (next_bus e req i), d_bytes := 0, d_control := DESC_MAGIC\<rparr>)"
      using bf(4) [OF assms(3)] init [OF i(2)] i by simp
    have Dj: "?D ! j = (?B ! j)\<lparr>d_control := DESC_MAGIC OR control_byte (e_eop_flush e) ?n i\<rparr>"
      using D [OF lt] i by simp
    have nl: "d_next_lo (?D ! j) = PCI_DMA_L (next_bus e req i)" unfolding Dj Bj by simp
    have "j - ?base = i" using i by simp
    then have "e_desc (fst (transfer_init e req)) ! j =
        xdma_desc_adjacent (?D ! j) (adjacent_of e req i)"
      unfolding E adjacent_of_def using True nl by (simp only: if_True simp_thms)
    also have "\<dots> = (?B ! j)\<lparr>d_control := control_byte (e_eop_flush e) ?n i OR
          (0xAD4B0000 OR push_bit 8 (adjacent_of e req i))\<rparr>"
      unfolding Dj by (simp add: xdma_desc_adjacent_def control_byte_kept Let_def)
    also have "\<dots> = laid_desc e req i"
      unfolding Bj laid_desc_def by (rule built_desc_only) simp_all
    finally show ?thesis using i by simp
  next
    case False
    then have "?D ! j = ?B ! j" using D [OF lt] by (simp only: if_False)
    moreover have "?B ! j = e_desc e ! j" using False bf(4) [OF assms(3)] by (simp only: if_False)
    ultimately show ?thesis using E False by (simp only: if_False)
  qed
qed

text \<open>
  What the engine does with the chain, as its documentation has it: it reads the descriptor at an
  address, refuses one without the magic, moves \<open>bytes\<close> from source to destination and goes
  on at the next address unless the stop bit is set. The result is the list of moves.
\<close>

definition segment :: "xdma_desc \<Rightarrow> u64 \<times> u64 \<times> u32" where
  "segment d = (addr_of (d_src_addr_hi d) (d_src_addr_lo d),
                addr_of (d_dst_addr_hi d) (d_dst_addr_lo d), d_bytes d)"

fun hw_walk :: "nat \<Rightarrow> (u64 \<Rightarrow> xdma_desc option) \<Rightarrow> u64 \<Rightarrow> (u64 \<times> u64 \<times> u32) list option" where
  "hw_walk 0 mem a = None"
| "hw_walk (Suc n) mem a =
     (case mem a of
        None \<Rightarrow> None
      | Some d \<Rightarrow>
          if drop_bit 16 (d_control d) \<noteq> 0xAD4B then None
          else if d_control d AND XDMA_DESC_STOPPED \<noteq> 0 then Some [segment d]
          else map_option (Cons (segment d)) (hw_walk n mem (addr_of (d_next_hi d) (d_next_lo d))))"

text \<open>The ring as memory: the descriptor at a bus address.\<close>

definition ring_mem :: "xdma_engine \<Rightarrow> u64 \<Rightarrow> xdma_desc option" where
  "ring_mem e a =
     (let off = unat (a - e_desc_bus e)
      in if off mod sizeof_xdma_desc = 0 \<and> off div sizeof_xdma_desc < length (e_desc e)
         then Some (e_desc e ! (off div sizeof_xdma_desc)) else None)"

text \<open>The specification: the move of the \<open>i\<close>-th piece.\<close>

definition planned_segment :: "xdma_engine \<Rightarrow> xdma_request_cb \<Rightarrow> nat \<Rightarrow> u64 \<times> u64 \<times> u32" where
  "planned_segment e req i =
     (let sd = next_sdesc req i;
          ep = ep_at (e_non_incr_addr e) (rq_ep_addr req) (next_sdesc req) i
      in if e_dir e = DMA_TO_DEVICE then (sd_addr sd, ep, sd_len sd)
         else if e_streaming e
         then (first_res_bus e + of_nat (sizeof_xdma_result * i), sd_addr sd, sd_len sd)
         else (ep, sd_addr sd, sd_len sd))"

lemma segment_laid: "segment (laid_desc e req i) = planned_segment e req i"
  by (cases "e_dir e")
     (simp_all add: segment_def laid_desc_def built_desc_def xdma_desc_set_def planned_segment_def
        streaming_c2h_def Let_def)

lemma next_laid:
  "addr_of (d_next_hi (laid_desc e req i)) (d_next_lo (laid_desc e req i)) = next_bus e req i"
  by (simp add: laid_desc_def)

lemma adjacent_of_lt: "adjacent_of e req i < 64"
  unfolding adjacent_of_def word_less_nat_alt by (rule le_less_trans [OF get_next_adj_le]) simp

lemma drop_bit_small: "unat w < 2 ^ n \<Longrightarrow> drop_bit n (w :: 'w::len word) = 0"
  by (metis div_less unat_drop_bit unat_eq_0)

lemma adjacent_bits:
  assumes "(a :: u32) < 64" and "c < 256"
  shows "drop_bit 16 (c OR (0xAD4B0000 OR push_bit 8 a)) = 0xAD4B"
    and "(c OR (0xAD4B0000 OR push_bit 8 a)) AND 0xFF = c"
proof -
  have a: "unat a < 64" and c: "unat c < 256" using assms by (simp_all add: word_less_nat_alt)
  have "unat (push_bit 8 a) = unat a * 256"
    using a by (simp add: push_bit_eq_mult unat_word_ariths)
  then have "drop_bit 16 (push_bit 8 a) = 0" using a by (intro drop_bit_small) simp
  moreover have "drop_bit 16 c = 0" using c by (intro drop_bit_small) simp
  ultimately show "drop_bit 16 (c OR (0xAD4B0000 OR push_bit 8 a)) = 0xAD4B"
    by (simp add: drop_bit_or)
  have m: "(0xFF :: u32) = mask 8" by (simp add: mask_eq_exp_minus_1)
  have "unat (take_bit 8 c) = unat c" using c by (simp add: unsigned_take_bit_eq take_bit_eq_mod unat_mod)
  then have "take_bit 8 c = c" by (rule unsigned_word_eqI)
  moreover have "take_bit 8 (push_bit 8 a) = 0" by (simp add: take_bit_push_bit)
  ultimately have "take_bit 8 (c OR (0xAD4B0000 OR push_bit 8 a)) = c" by (simp add: take_bit_or)
  then show "(c OR (0xAD4B0000 OR push_bit 8 a)) AND 0xFF = c"
    unfolding m by (simp add: take_bit_eq_mask)
qed


lemma laid_control:
  "drop_bit 16 (d_control (laid_desc e req i)) = 0xAD4B"
  "d_control (laid_desc e req i) AND XDMA_DESC_STOPPED \<noteq> 0 \<longleftrightarrow> Suc i = planned e req"
proof -
  let ?c = "control_byte (e_eop_flush e) (planned e req) i"
  have c: "?c < 256" by (simp add: control_byte_def last_control_def)
  note bits = adjacent_bits [OF adjacent_of_lt [of e req i] c]
  show "drop_bit 16 (d_control (laid_desc e req i)) = 0xAD4B"
    using bits(1) by (simp add: laid_desc_def)
  have "d_control (laid_desc e req i) AND XDMA_DESC_STOPPED =
      (d_control (laid_desc e req i) AND 0xFF) AND XDMA_DESC_STOPPED"
    by (simp add: and.assoc)
  also have "\<dots> = ?c AND XDMA_DESC_STOPPED"
    using bits(2) by (simp add: laid_desc_def)
  finally show "d_control (laid_desc e req i) AND XDMA_DESC_STOPPED \<noteq> 0 \<longleftrightarrow> Suc i = planned e req"
    by (simp add: control_byte_def last_control_def)
qed

lemma ring_mem_at:
  assumes "32 * e_desc_max e \<le> 2 ^ 64" and "j < e_desc_max e" and "length (e_desc e) = e_desc_max e"
    and "a = e_desc_bus e + of_nat (32 * j)"
  shows "ring_mem e a = Some (e_desc e ! j)"
proof -
  have "a - e_desc_bus e = of_nat (32 * j)" unfolding assms(4) by (simp only: add_diff_cancel_left')
  moreover have "unat (of_nat (32 * j) :: u64) = 32 * j"
    by (rule unat_of_nat_small) (use assms(1,2) in simp)
  ultimately have "unat (a - e_desc_bus e) = 32 * j" by simp
  with assms(2,3) show ?thesis by (simp add: ring_mem_def Let_def)
qed

text \<open>The transfer of a well-formed ring.\<close>

lemma transfer_init_fields:
  assumes "ring_ok e"
  shows "x_desc_num (snd (snd (transfer_init e req))) = planned e req"
    and "x_desc_bus (snd (snd (transfer_init e req))) = first_desc_bus e"
    and "x_desc_virt (snd (snd (transfer_init e req))) = e_desc_idx e"
    and "e_desc_bus (fst (transfer_init e req)) = e_desc_bus e"
    and "e_desc_max (fst (transfer_init e req)) = e_desc_max e"
    and "length (e_desc (fst (transfer_init e req))) =
      (if req_left req then length (e_desc e) else length (e_desc (fst (transfer_init e req))))"
  by (simp_all add: transfer_init_eq [OF assms] zero_xfer_def built_facts(2) [OF assms])

lemma hw_walk_laid:
  assumes "ring_ok e" and "req_left req" and "32 * e_desc_max e \<le> 2 ^ 64" and "i < planned e req"
  shows "hw_walk (planned e req - i) (ring_mem (fst (transfer_init e req)))
      (desc_addr (first_desc_bus e) i) =
    Some (map (planned_segment e req) [i..<planned e req])"
  using assms(4)
proof (induction "planned e req - i" arbitrary: i)
  case 0
  then show ?case by simp
next
  case (Suc n)
  let ?e' = "fst (transfer_init e req)" and ?j = "e_desc_idx e + i"
  note b = planned_bounds [OF assms(1,2)] and f = transfer_init_fields [OF assms(1), of req]
  have j: "?j < e_desc_max e" using b(3) Suc.prems by simp
  have addr: "desc_addr (first_desc_bus e) i = e_desc_bus ?e' + of_nat (32 * ?j)"
    unfolding f(4) by (simp add: desc_addr_def first_desc_bus_def algebra_simps)
  have len: "length (e_desc ?e') = e_desc_max ?e'"
    using f(5,6) assms(1,2) by (simp add: ring_ok_def)
  have "ring_mem ?e' (desc_addr (first_desc_bus e) i) = Some (e_desc ?e' ! ?j)"
    by (rule ring_mem_at [OF _ _ len addr]) (use assms(3) j f(5) in simp_all)
  then have mem: "ring_mem ?e' (desc_addr (first_desc_bus e) i) = Some (laid_desc e req i)"
    using transfer_init_nth [OF assms(1,2) j] Suc.prems by simp
  have n: "planned e req - i = Suc n" using Suc.hyps(2) by simp
  show ?case
  proof (cases "Suc i = planned e req")
    case True
    then have "[i..<planned e req] = [i]" by (metis upt_rec less_irrefl lessI upt_conv_Nil order_refl)
    then show ?thesis unfolding n using mem True by (simp add: laid_control segment_laid)
  next
    case False
    then have i': "Suc i < planned e req" using Suc.prems by simp
    have "n = planned e req - Suc i" using n by simp
    note IH = Suc.hyps(1) [OF this i', folded \<open>n = planned e req - Suc i\<close>]
    have "next_bus e req i = desc_addr (first_desc_bus e) (Suc i)" using False by (simp add: next_bus_def)
    moreover have "[i..<planned e req] = i # [Suc i..<planned e req]"
      using Suc.prems by (simp add: upt_conv_Cons)
    ultimately show ?thesis
      unfolding n using mem False IH by (simp add: laid_control segment_laid next_laid)
  qed
qed

text \<open>
  C6 (refinement). An engine that follows the chain from the bus address of a freshly built
  transfer finds a valid descriptor at each step, stops after exactly the transfer's number of
  descriptors, and moves the pieces of the request in order: host address to end-point address
  or back, the end-point address advancing with the lengths unless the engine keeps it fixed, and
  on a receiving stream the write-back result in place of the source.
\<close>
theorem transfer_init_walk:
  "ring_ok e \<Longrightarrow> req_left req \<Longrightarrow> 32 * e_desc_max e \<le> 2 ^ 64 \<Longrightarrow>
   hw_walk (x_desc_num (snd (snd (transfer_init e req)))) (ring_mem (fst (transfer_init e req)))
       (x_desc_bus (snd (snd (transfer_init e req)))) =
     Some (map (planned_segment e req) [0..<planned e req])"
  using hw_walk_laid [of e req 0] planned_bounds(1) [of e req] transfer_init_fields [of e req]
  by (simp add: desc_addr_def)

definition sample_request :: xdma_request_cb where
  "sample_request = (zero_request 3)\<lparr>rq_ep_addr := 0x100, rq_sw_desc_cnt := 3,
     rq_sdesc := [\<lparr>sd_addr = 0x1000, sd_len = 0x40\<rparr>, \<lparr>sd_addr = 0x5000, sd_len = 0x20\<rparr>,
                  \<lparr>sd_addr = 0x9000, sd_len = 0x10\<rparr>]\<rparr>"

lemma sample_request_facts:
  "ring_ok sample_engine" "req_left sample_request" "planned sample_engine sample_request = 3"
  "first_desc_bus sample_engine = 0x10000" "32 * e_desc_max sample_engine \<le> 2 ^ 64"
  by (simp_all add: sample_engine_def sample_request_def zero_request_def ring_ok_def req_left_def
      planned_def first_desc_bus_def)

lemma sample_segments:
  "map (planned_segment sample_engine sample_request) [0..<3] =
     [(0x1000, 0x100, 0x40), (0x5000, 0x140, 0x20), (0x9000, 0x160, 0x10)]"
proof -
  have u: "[0..<3] = [0, Suc 0, Suc (Suc 0)]" by (simp add: upt_rec)
  show ?thesis
    unfolding u by (simp add: planned_segment_def next_sdesc_def sample_engine_def
        sample_request_def zero_request_def Let_def)
qed

lemma transfer_init_walk_witness:
  "hw_walk 3 (ring_mem (fst (transfer_init sample_engine sample_request))) 0x10000 =
     Some [(0x1000, 0x100, 0x40), (0x5000, 0x140, 0x20), (0x9000, 0x160, 0x10)]"
  using transfer_init_walk [of sample_engine sample_request] sample_request_facts sample_segments
    transfer_init_fields(1,2) [of sample_engine sample_request]
  by simp

text \<open>
  C27 (bounds). Building a transfer always makes progress and stays inside the ring: it takes at
  least one and at most the remaining pieces, its descriptors lie below the end of the ring, no
  other descriptor of the ring changes, and the engine's index stays valid for the next one.
\<close>
theorem transfer_init_bounds:
  assumes "ring_ok e" and "req_left req"
  shows "0 < x_desc_num (snd (snd (transfer_init e req))) \<and>
    ring_ok (fst (transfer_init e req)) \<and>
    x_desc_virt (snd (snd (transfer_init e req))) = e_desc_idx e \<and>
    e_desc_idx e + x_desc_num (snd (snd (transfer_init e req))) \<le> e_desc_max e \<and>
    rq_sw_desc_idx (fst (snd (transfer_init e req))) =
      rq_sw_desc_idx req + x_desc_num (snd (snd (transfer_init e req))) \<and>
    rq_sw_desc_idx (fst (snd (transfer_init e req))) \<le> rq_sw_desc_cnt req \<and>
    (\<forall>j < e_desc_max e. j < e_desc_idx e \<or>
        e_desc_idx e + x_desc_num (snd (snd (transfer_init e req))) \<le> j \<longrightarrow>
      e_desc (fst (transfer_init e req)) ! j = e_desc e ! j)"
proof -
  note b = planned_bounds [OF assms] and f = transfer_init_fields [OF assms(1), of req]
  have "ring_ok (fst (transfer_init e req))"
    using assms f(5,6) by (auto simp: ring_ok_def transfer_init_eq [OF assms(1)])
  moreover have "rq_sw_desc_idx (fst (snd (transfer_init e req))) = rq_sw_desc_idx req + planned e req"
    by (simp add: transfer_init_eq [OF assms(1)])
  moreover have "rq_sw_desc_idx req + planned e req \<le> rq_sw_desc_cnt req"
    using b(2) assms(2) by (simp add: req_left_def)
  moreover have "e_desc (fst (transfer_init e req)) ! j = e_desc e ! j"
    if "j < e_desc_max e" "j < e_desc_idx e \<or> e_desc_idx e + planned e req \<le> j" for j
    using transfer_init_nth [OF assms that(1)] that(2) by auto
  ultimately show ?thesis using b f(1,3) by simp
qed

lemma transfer_init_bounds_witness:
  "ring_ok (fst (transfer_init sample_engine sample_request)) \<and>
   rq_sw_desc_idx (fst (snd (transfer_init sample_engine sample_request))) = 3"
  using transfer_init_bounds [OF sample_request_facts(1,2)]
    transfer_init_fields(1) [OF sample_request_facts(1), of sample_request] sample_request_facts(3)
  by (simp add: sample_request_def zero_request_def)

lemma adjacent_field:
  assumes "(a :: u32) < 64" and "c < 256"
  shows "drop_bit 8 (c OR (0xAD4B0000 OR push_bit 8 a)) AND 0x3F = a"
proof -
  have a: "unat a < 64" and c: "unat c < 256" using assms by (simp_all add: word_less_nat_alt)
  have m: "(0x3F :: u32) = mask 6" by (simp add: mask_eq_exp_minus_1)
  have "unat (take_bit 6 a) = unat a" using a by (simp add: unsigned_take_bit_eq take_bit_eq_mod unat_mod)
  then have ta: "take_bit 6 a = a" by (rule unsigned_word_eqI)
  have "unat (push_bit 8 a) = unat a * 256" using a by (simp add: push_bit_eq_mult unat_word_ariths)
  then have "unat (drop_bit 8 (push_bit 8 a)) = unat a" by (simp add: unat_drop_bit)
  then have "drop_bit 8 (push_bit 8 a) = a" by (rule unsigned_word_eqI)
  moreover have "drop_bit 8 c = 0" using c by (intro drop_bit_small) simp
  ultimately have "take_bit 6 (drop_bit 8 (c OR (0xAD4B0000 OR push_bit 8 a))) = a"
    using ta by (simp add: drop_bit_or take_bit_or)
  then show ?thesis unfolding m by (simp add: take_bit_eq_mask)
qed

text \<open>The adjacent field of a descriptor's control word.\<close>

definition next_adj_field :: "xdma_desc \<Rightarrow> nat" where
  "next_adj_field d = unat (drop_bit 8 (d_control d) AND 0x3F)"

lemma laid_adj_field: "next_adj_field (laid_desc e req i) = unat (adjacent_of e req i)"
proof -
  have c: "control_byte (e_eop_flush e) (planned e req) i < 256"
    by (simp add: control_byte_def last_control_def)
  have "d_control (laid_desc e req i) = control_byte (e_eop_flush e) (planned e req) i OR
      (0xAD4B0000 OR push_bit 8 (adjacent_of e req i))"
    by (simp add: laid_desc_def)
  then show ?thesis
    unfolding next_adj_field_def by (simp only: adjacent_field [OF adjacent_of_lt c])
qed

text \<open>
  C28 (safety). The adjacent count a descriptor of a built transfer announces can be trusted: the
  engine may fetch that many descriptors beyond the next one in one burst, since all of them
  belong to the same transfer and the burst stays in one aligned block of 2 KiB.
\<close>
theorem transfer_init_adjacent:
  assumes "ring_ok e" and "req_left req" and "e_desc_max e < 2 ^ 32" and "Suc i < planned e req"
  shows "let d = e_desc (fst (transfer_init e req)) ! (e_desc_idx e + i); k = next_adj_field d in
    Suc i + k < planned e req \<and>
    (unat (d_next_lo d) + sizeof_xdma_desc * k) div 2048 = unat (d_next_lo d) div 2048"
proof -
  let ?j = "e_desc_idx e + i" and ?r = "of_nat (planned e req - i - 1) :: u32"
  note b = planned_bounds [OF assms(1,2)]
  have j: "?j < e_desc_max e" using b(3) assms(4) by simp
  have d: "e_desc (fst (transfer_init e req)) ! ?j = laid_desc e req i"
    using transfer_init_nth [OF assms(1,2) j] assms(4) by simp
  have r: "unat ?r = planned e req - i - 1"
    by (rule unat_of_nat_small) (use b(3) assms(3) in simp)
  have nl: "d_next_lo (laid_desc e req i) = PCI_DMA_L (next_bus e req i)" by (simp add: laid_desc_def)
  show ?thesis
  proof (cases "1 < unat ?r")
    case True
    then show ?thesis
      using adjacent_run_block [OF True, of "PCI_DMA_L (next_bus e req i)"] r assms(4)
      by (simp add: d laid_adj_field nl adjacent_of_def Let_def)
  next
    case False
    then have "adjacent_of e req i = 0" unfolding adjacent_of_def by (intro get_next_adj_small) simp
    then show ?thesis using assms(4) by (simp add: d laid_adj_field nl Let_def)
  qed
qed

lemma transfer_init_adjacent_witness:
  "next_adj_field (e_desc (fst (transfer_init sample_engine sample_request)) ! 0) \<le> 1"
  using transfer_init_adjacent [OF sample_request_facts(1,2), of 0] sample_request_facts(3)
  by (simp add: Let_def sample_engine_def)

end
