(* ===== verification/Xdma_Queue.thy ===== *)
theory Xdma_Queue
  imports Xdma_Transfer
begin

text \<open>
  The life of the transfers of one engine as a state machine: the steps the driver takes under
  the engine's lock (queue a transfer, service the engine, time out on a transfer), the states
  reachable by them, and the invariant they keep: a transfer is queued exactly while its state is
  "submitted", no transfer is queued twice, and a running engine has work.
\<close>

declare split_paired_All [simp del] split_paired_Ex [simp del]

section \<open>Effects of queueing and aborting\<close>

text \<open>The time-out branch of a submitter: dump the status, abort the transfer, stop the engine.\<close>

definition timeout_cleanup ::
  "('x) xenv_scheme \<Rightarrow> xid \<Rightarrow> ('c, 's) est_scheme \<Rightarrow> ('c, 's) est_scheme" where
  "timeout_cleanup E t st =
     (let (rv, st) = engine_status_read E False True st
      in if rv < 0 then st
         else if rv = 0 then
           (let (rv, st) = transfer_abort t st
            in if rv < 0 then st
               else if rv = 0 then snd (xdma_engine_stop E st) else st)
         else st)"

lemma transfer_queue_accepted:
  assumes "x_desc_num (xfers st t) \<noteq> 0" and "xdev_flags st AND XDEV_FLAG_OFFLINE = 0"
    and "e_shutdown (eng st) AND ENGINE_SHUTDOWN_REQUEST = 0"
  shows "fst (transfer_queue E t st) = 0"
    and "e_transfer_list (eng (snd (transfer_queue E t st))) = e_transfer_list (eng st) @ [t]"
    and "xfers (snd (transfer_queue E t st)) =
      (xfers st)(t := (xfers st t)\<lparr>x_state := TRANSFER_STATE_SUBMITTED\<rparr>)"
    and "e_running (eng (snd (transfer_queue E t st)))"
proof -
  let ?s = "set_xfer t ((xfers st t)\<lparr>x_state := TRANSFER_STATE_SUBMITTED\<rparr>) st"
  let ?s' = "?s\<lparr>eng := (eng ?s)\<lparr>e_transfer_list := e_transfer_list (eng ?s) @ [t]\<rparr>\<rparr>"
  have q: "transfer_queue E t st =
      (if \<not> e_running (eng st) then (0, snd (engine_start E ?s')) else (0, ?s'))"
    using assms by (simp add: transfer_queue_def xdma_device_flag_check_def Let_def)
  obtain h hs where h: "e_transfer_list (eng ?s') = h # hs"
    by (cases "e_transfer_list (eng st) @ [t]") auto
  show "fst (transfer_queue E t st) = 0"
    and "e_transfer_list (eng (snd (transfer_queue E t st))) = e_transfer_list (eng st) @ [t]"
    and "xfers (snd (transfer_queue E t st)) =
      (xfers st)(t := (xfers st t)\<lparr>x_state := TRANSFER_STATE_SUBMITTED\<rparr>)"
    unfolding q by simp_all
  show "e_running (eng (snd (transfer_queue E t st)))"
    unfolding q using engine_start_idle(2) [of ?s' h hs E] h by simp
qed

lemma transfer_queue_refused:
  assumes "x_desc_num (xfers st t) = 0 \<or> xdev_flags st AND XDEV_FLAG_OFFLINE \<noteq> 0 \<or>
    e_shutdown (eng st) AND ENGINE_SHUTDOWN_REQUEST \<noteq> 0"
  shows "snd (transfer_queue E t st) = st" and "fst (transfer_queue E t st) < 0"
  using assms by (auto simp: transfer_queue_def xdma_device_flag_check_def Let_def)

text \<open>
  Queueing a transfer either refuses it with an error and changes nothing (no
  descriptors, device offline, engine shutting down), or marks it submitted, appends it to the
  queue and leaves the engine running.
\<close>
theorem transfer_queue_result:
  "if x_desc_num (xfers st t) = 0 \<or> xdev_flags st AND XDEV_FLAG_OFFLINE \<noteq> 0 \<or>
      e_shutdown (eng st) AND ENGINE_SHUTDOWN_REQUEST \<noteq> 0
   then fst (transfer_queue E t st) < 0 \<and> snd (transfer_queue E t st) = st
   else fst (transfer_queue E t st) = 0 \<and>
     e_transfer_list (eng (snd (transfer_queue E t st))) = e_transfer_list (eng st) @ [t] \<and>
     xfers (snd (transfer_queue E t st)) =
       (xfers st)(t := (xfers st t)\<lparr>x_state := TRANSFER_STATE_SUBMITTED\<rparr>) \<and>
     e_running (eng (snd (transfer_queue E t st)))"
  using transfer_queue_accepted [of st t E] transfer_queue_refused [of st t E] by auto

lemma transfer_queue_result_witness:
  "e_transfer_list (eng (snd (transfer_queue (sample_env 0 0) (1, 0)
     (sample_est sample_engine 2)))) = [(1, 0)]"
  using transfer_queue_result [where E = "sample_env 0 0" and t = "(1, 0)" and st = "sample_est sample_engine 2"]
  by (simp add: sample_defs)

lemma del_head_frame [simp]:
  "e_transfer_list (eng (del_head st)) = tl (e_transfer_list (eng st))"
  "xfers (del_head st) = xfers st" "e_running (eng (del_head st)) = e_running (eng st)"
  by (simp_all add: del_head_def)

lemma timeout_head:
  assumes "e_transfer_list (eng st) = t # rest" and "x_desc_num (xfers st t) \<noteq> 0"
    and "0 \<le> fst (engine_status_read E False True st)"
  shows "e_transfer_list (eng (timeout_cleanup E t st)) = rest \<and>
    \<not> e_running (eng (timeout_cleanup E t st)) \<and>
    xfers (timeout_cleanup E t st) =
      (if x_state (xfers st t) = TRANSFER_STATE_SUBMITTED
       then (xfers st)(t := (xfers st t)\<lparr>x_state := TRANSFER_STATE_ABORTED\<rparr>) else xfers st)"
proof -
  let ?r = "engine_status_read E False True st"
  have rv: "fst ?r = 0" using assms(3)
    by (auto simp: engine_status_read_def engine_reg_dump_def split_beta Let_def split: if_splits)
  have h: "head_of (snd ?r) = Some t" using assms(1) by (simp add: head_of_def)
  show ?thesis
    using assms(1,2) rv h by (simp add: timeout_cleanup_def transfer_abort_def split_beta Let_def)
qed

text \<open>
  A transfer that times out while it is not at the head of the queue is marked
  aborted but stays queued: the submitter then frees the request that holds it, so the queue
  keeps a reference to freed memory.
\<close>
theorem timeout_not_head_stays:
  assumes "e_transfer_list (eng st) = h # rest" and "t \<noteq> h" and "t \<in> set rest"
    and "x_desc_num (xfers st t) \<noteq> 0" and "x_state (xfers st t) = TRANSFER_STATE_SUBMITTED"
    and "0 \<le> fst (engine_status_read E False True st)"
  shows "t \<in> set (e_transfer_list (eng (timeout_cleanup E t st))) \<and>
    x_state (xfers (timeout_cleanup E t st) t) = TRANSFER_STATE_ABORTED"
proof -
  let ?r = "engine_status_read E False True st"
  have rv: "fst ?r = 0" using assms(6)
    by (auto simp: engine_status_read_def engine_reg_dump_def split_beta Let_def split: if_splits)
  have h: "head_of (snd ?r) \<noteq> Some t" using assms(1,2) by (simp add: head_of_def)
  show ?thesis
    using assms(1,3,4,5) rv h by (simp add: timeout_cleanup_def transfer_abort_def split_beta Let_def)
qed

lemma timeout_not_head_stays_witness:
  "(1, 0) \<in> set (e_transfer_list (eng (timeout_cleanup (sample_env 0x1fc00000 0) (1, 0) running_sample)))"
  using timeout_not_head_stays [of running_sample "(0, 0)" "[(1, 0), (2, 0)]" "(1, 0)"
      "sample_env 0x1fc00000 0"]
  by (simp add: sample_defs engine_status_read_def engine_reg_dump_def split_beta Let_def
      read_ereg_def read_register_def ereg_def)

section \<open>The state machine\<close>

text \<open>
  One critical section of the driver on an engine. A transfer object is reused only while it is
  not queued; a time-out is taken for the transfer at the head.
\<close>

inductive engine_step :: "('c, 'x) kenv_scheme \<Rightarrow> ('c, 's) est_scheme \<Rightarrow> ('c, 's) est_scheme \<Rightarrow> bool"
  for E where
  build: "t \<notin> set (e_transfer_list (eng st)) \<Longrightarrow> x_state x = TRANSFER_STATE_NEW \<Longrightarrow>
    engine_step E st (set_xfer t x st)"
| submit: "t \<notin> set (e_transfer_list (eng st)) \<Longrightarrow> engine_step E st (snd (transfer_queue E t st))"
| service: "engine_step E st (snd (engine_service E wb st))"
| time_out: "head_of st = Some t \<Longrightarrow> x_desc_num (xfers st t) \<noteq> 0 \<Longrightarrow>
    0 \<le> fst (engine_status_read E False True st) \<Longrightarrow>
    engine_step E st (timeout_cleanup E t st)"

inductive_cases engine_stepE: "engine_step E st st'"

inductive reachable :: "('c, 'x) kenv_scheme \<Rightarrow> ('c, 's) est_scheme \<Rightarrow> ('c, 's) est_scheme \<Rightarrow> bool"
  for E st0 where
  start: "reachable E st0 st0"
| step: "reachable E st0 st \<Longrightarrow> engine_step E st st' \<Longrightarrow> reachable E st0 st'"

definition queue_inv :: "('c, 's) est_scheme \<Rightarrow> bool" where
  "queue_inv st \<longleftrightarrow>
     distinct (e_transfer_list (eng st)) \<and>
     (\<forall>t. t \<in> set (e_transfer_list (eng st)) \<longleftrightarrow> x_state (xfers st t) = TRANSFER_STATE_SUBMITTED) \<and>
     (e_running (eng st) \<longrightarrow> e_transfer_list (eng st) \<noteq> [])"

lemma queue_inv_serviced:
  assumes inv: "queue_inv st" and s: "serviced st st'"
    and run: "e_running (eng st') \<longrightarrow> e_transfer_list (eng st') \<noteq> []"
  shows "queue_inv st'"
proof -
  let ?q = "e_transfer_list (eng st)"
  from s obtain n where n: "e_transfer_list (eng st') = drop n ?q"
      "\<And>t. t \<in> set (take n ?q) \<Longrightarrow> finished (xfers st' t)"
      "\<And>t. t \<notin> set (take n ?q) \<Longrightarrow> x_state (xfers st' t) = x_state (xfers st t)"
    unfolding serviced_def by blast
  have d: "distinct ?q" and iff: "\<And>t. t \<in> set ?q \<longleftrightarrow> x_state (xfers st t) = TRANSFER_STATE_SUBMITTED"
    using inv by (simp_all add: queue_inv_def)
  have "t \<in> set (drop n ?q) \<longleftrightarrow> x_state (xfers st' t) = TRANSFER_STATE_SUBMITTED" for t
  proof (cases "t \<in> set (take n ?q)")
    case True
    then have "t \<notin> set (drop n ?q)" using set_take_disj_set_drop_if_distinct [OF d, of n n] by blast
    then show ?thesis using n(2) [OF True] by (auto simp: finished_def)
  next
    case False
    have "set ?q = set (take n ?q) \<union> set (drop n ?q)" by (metis append_take_drop_id set_append)
    then show ?thesis using False n(3) [OF False] iff [of t] by (metis Un_iff)
  qed
  then show ?thesis using run n(1) d by (simp add: queue_inv_def)
qed

lemma engine_step_inv:
  assumes "engine_step E st st'" and inv: "queue_inv st"
  shows "queue_inv st'"
  using assms(1)
proof cases
  case (build t x)
  then show ?thesis using inv by (auto simp: queue_inv_def)
next
  case (submit t)
  show ?thesis
  proof (cases "x_desc_num (xfers st t) = 0 \<or> xdev_flags st AND XDEV_FLAG_OFFLINE \<noteq> 0 \<or>
      e_shutdown (eng st) AND ENGINE_SHUTDOWN_REQUEST \<noteq> 0")
    case True
    then show ?thesis using inv submit transfer_queue_refused(1) by metis
  next
    case False
    then show ?thesis
      using inv submit transfer_queue_accepted [of st t E] by (simp add: queue_inv_def)
  qed
next
  case (service wb)
  have "distinct (e_transfer_list (eng st))" using inv by (simp add: queue_inv_def)
  then have "serviced st st'" unfolding service by (rule engine_service_serviced)
  moreover have "e_running (eng st') \<longrightarrow> e_transfer_list (eng st') \<noteq> []"
    unfolding service using inv by (intro engine_service_runs_queue) (simp add: queue_inv_def)
  ultimately show ?thesis using inv queue_inv_serviced by blast
next
  case (time_out t)
  then obtain rest where q: "e_transfer_list (eng st) = t # rest"
    by (auto simp: head_of_def split: list.splits)
  with inv have "x_state (xfers st t) = TRANSFER_STATE_SUBMITTED" by (auto simp: queue_inv_def)
  with timeout_head [OF q time_out(3,4)] inv q show ?thesis
    unfolding time_out(1) by (auto simp: queue_inv_def)
qed


definition idle_sample :: "nat est" where
  "idle_sample = \<lparr>eng = sample_engine, xfers = (\<lambda>_. zero_xfer\<lparr>x_desc_num := 2\<rparr>), io = [], wakes = [],
     client = 0, xdev_flags = 0, xdev_msix_enabled = False, xdev_cfg = IOM 1 0\<rparr>"


end
