(* ===== verification/Xdma_Xfer.thy ===== *)
theory Xdma_Xfer
  imports Xdma_Queue
begin

text \<open>
  Submitting a request: \<^verbatim>\<open>xdma_xfer_submit\<close> (one transfer at a time, waiting for each),
  \<^verbatim>\<open>xdma_xfer_submit_nowait\<close> (queue all of them) and \<^verbatim>\<open>xdma_xfer_completion\<close>
  (collect their results). Waiting is a function of the environment: from the state in which the
  submitter goes to sleep to the state in which it wakes up, whatever interrupts have done in
  between. Mapping a scatter list for DMA is the kernel's: a function that fills in the mapped
  entries, zero of them on failure.
\<close>

section \<open>The device as a submitter sees it\<close>

record 'c xdma_dev_io =
  dv_hndl_check :: int
  dv_h2c_channel_max :: nat
  dv_c2h_channel_max :: nat
  dv_engine_h2c :: "nat \<Rightarrow> 'c est"
  dv_engine_c2h :: "nat \<Rightarrow> 'c est"

definition dir_of :: "bool \<Rightarrow> dma_data_direction" where
  "dir_of write = (if write then DMA_TO_DEVICE else DMA_FROM_DEVICE)"

definition put_engine ::
  "bool \<Rightarrow> nat \<Rightarrow> 'c est \<Rightarrow> 'c xdma_dev_io \<Rightarrow> 'c xdma_dev_io" where
  "put_engine write channel st dev =
     (if write then dev\<lparr>dv_engine_h2c := (dv_engine_h2c dev)(channel := st)\<rparr>
      else dev\<lparr>dv_engine_c2h := (dv_engine_c2h dev)(channel := st)\<rparr>)"

text \<open>The checks both submitters make before they touch anything.\<close>

definition select_engine :: "'c xdma_dev_io \<Rightarrow> nat \<Rightarrow> bool \<Rightarrow> int + 'c est" where
  "select_engine dev channel write =
     (if dv_hndl_check dev < 0 then Inl (- EINVAL)
      else if channel \<ge> (if write then dv_h2c_channel_max dev else dv_c2h_channel_max dev)
      then Inl (- EINVAL)
      else (let st = (if write then dv_engine_h2c dev channel else dv_engine_c2h dev channel)
            in if e_magic (eng st) \<noteq> MAGIC_ENGINE then Inl (- EINVAL)
               else if xdma_device_flag_check (xdev_flags st) XDEV_FLAG_OFFLINE then Inl (- EBUSY)
               else if e_dir (eng st) \<noteq> dir_of write then Inl (- EINVAL)
               else Inr st))"

text \<open>Mapping: \<open>dma_map\<close> fills in \<open>nents\<close>; zero entries are an I/O error.\<close>

definition map_for_dma :: "(sg_table \<Rightarrow> sg_table) \<Rightarrow> bool \<Rightarrow> sg_table \<Rightarrow> sg_table option" where
  "map_for_dma dma_map dma_mapped sgt =
     (if \<not> dma_mapped then (if nents (dma_map sgt) = 0 then None else Some (dma_map sgt))
      else if nents sgt = 0 then None else Some sgt)"

definition unmap_sgl :: "bool \<Rightarrow> sg_table \<Rightarrow> sg_table" where
  "unmap_sgl dma_mapped sgt = (if \<not> dma_mapped \<and> nents sgt \<noteq> 0 then sgt\<lparr>nents := 0\<rparr> else sgt)"

section \<open>Submitting and waiting\<close>

record 'c submission =
  s_nents :: nat
  s_done :: int
  s_rv :: int
  s_req :: xdma_request_cb
  s_sgt :: sg_table
  s_st :: "'c est"

text \<open>Bytes the write-back results of \<open>n\<close> descriptors from \<open>base\<close> report.\<close>

definition result_bytes :: "xdma_result list \<Rightarrow> nat \<Rightarrow> nat \<Rightarrow> int" where
  "result_bytes rs base n = sum_list (map (\<lambda>i. uint (r_length (rs ! (base + i)))) [0..<n])"

text \<open>The transfer \<open>t\<close> is built, its flags set, and put into the store.\<close>

definition prepare_transfer ::
  "xid \<Rightarrow> nat option \<Rightarrow> bool \<Rightarrow> 'c submission \<Rightarrow> 'c submission" where
  "prepare_transfer t cb dma_mapped s =
     (let (e, req, x) = transfer_init (eng (s_st s)) (s_req s);
          x = x\<lparr>x_cb := cb\<rparr>;
          x = (if dma_mapped then x else x\<lparr>x_flags := XFER_FLAG_NEED_UNMAP\<rparr>);
          n = s_nents s - x_desc_num x;
          x = (if n = 0 then x\<lparr>x_last_in_request := True\<rparr> else x)
      in s\<lparr>s_nents := n, s_req := req, s_st := set_xfer t x ((s_st s)\<lparr>eng := e\<rparr>)\<rparr>)"

text \<open>What the submitter does with the state it finds after the wait.\<close>

definition after_wait :: "('c, 'x) kenv_scheme \<Rightarrow> xid \<Rightarrow> 'c submission \<Rightarrow> 'c submission" where
  "after_wait E t s =
     (let st = s_st s; x = xfers st t in
      case x_state x of
        TRANSFER_STATE_COMPLETED \<Rightarrow>
          (if streaming_c2h (eng st) then
             s\<lparr>s_rv := 0,
               s_done := s_done s +
                 result_bytes (e_cyclic_result (eng st)) (x_res_virt x) (x_desc_cmpl x),
               s_nents := if e_eop_flush (eng st) \<and>
                             x_flags x AND XFER_FLAG_ST_C2H_EOP_RCVED \<noteq> 0
                          then 0 else s_nents s\<rparr>
           else s\<lparr>s_rv := 0, s_done := s_done s + uint (x_len x)\<rparr>)
      | TRANSFER_STATE_FAILED \<Rightarrow> s\<lparr>s_rv := - EIO\<rparr>
      | _ \<Rightarrow> s\<lparr>s_rv := - ETIMEDOUT, s_st := timeout_cleanup E t st\<rparr>)"

definition dismantle :: "xid \<Rightarrow> 'c submission \<Rightarrow> 'c submission" where
  "dismantle t s =
     (let st = s_st s; x = xfers st t;
          e = (eng st)\<lparr>e_desc_used := e_desc_used (eng st) - of_nat (x_desc_num x)\<rparr>;
          (e, sgt) = transfer_destroy x e (s_sgt s)
      in s\<lparr>s_sgt := sgt, s_st := st\<lparr>eng := e\<rparr>\<rparr>)"

definition submit_round ::
  "('c, 'x) kenv_scheme \<Rightarrow> ('c est \<Rightarrow> 'c est) \<Rightarrow> xid \<Rightarrow> bool \<Rightarrow> 'c submission \<Rightarrow> 'c submission" where
  "submit_round E await t dma_mapped s =
     (let s = prepare_transfer t None dma_mapped s;
          (rv, st) = transfer_queue E t (s_st s);
          s = s\<lparr>s_rv := rv, s_st := st\<rparr>
      in if rv < 0 then s
         else (let st = (case e_cmplthp (eng st) of
                           Some th \<Rightarrow> wake_up (Wake_cmpl_thread th) st | None \<Rightarrow> st);
                   s = s\<lparr>s_st := await st\<rparr>
               in dismantle t (after_wait E t s)))"

partial_function (option) submit_loop ::
  "('c, 'x) kenv_scheme \<Rightarrow> ('c est \<Rightarrow> 'c est) \<Rightarrow> xid \<Rightarrow> bool \<Rightarrow> 'c submission \<Rightarrow>
     'c submission option" where
  "submit_loop E await t dma_mapped s =
     (if s_nents s = 0 \<or> s_rv s < 0 then Some s
      else submit_loop E await t dma_mapped (submit_round E await t dma_mapped s))"

declare submit_loop.simps [code]

definition submit_result :: "bool \<Rightarrow> 'c submission \<Rightarrow> int \<times> sg_table \<times> 'c est" where
  "submit_result dma_mapped s =
     (if s_done s \<noteq> 0 then s_done s else s_rv s, unmap_sgl dma_mapped (s_sgt s), s_st s)"

text \<open>
  \<open>rid\<close> is the identity of the request the call allocates. The result is the count or
  error, the scatter list and the device after the call; \<open>None\<close> is not returning.
\<close>

definition xdma_xfer_submit ::
  "('c, 'x) kenv_scheme \<Rightarrow> (nat \<Rightarrow> bool) \<Rightarrow> (sg_table \<Rightarrow> sg_table) \<Rightarrow> ('c est \<Rightarrow> 'c est) \<Rightarrow> nat \<Rightarrow>
     'c xdma_dev_io \<Rightarrow> nat \<Rightarrow> bool \<Rightarrow> u64 \<Rightarrow> sg_table \<Rightarrow> bool \<Rightarrow>
     (int \<times> sg_table \<times> 'c xdma_dev_io) option" where
  "xdma_xfer_submit E oom dma_map await rid dev channel write ep_addr sgt dma_mapped =
     (case select_engine dev channel write of
        Inl err \<Rightarrow> Some (err, sgt, dev)
      | Inr st \<Rightarrow>
         (case map_for_dma dma_map dma_mapped sgt of
            None \<Rightarrow> Some (- EIO, sgt, dev)
          | Some sgt \<Rightarrow>
             (case xdma_init_request (desc_blen_max E) oom sgt ep_addr of
                None \<Rightarrow> None
              | Some None \<Rightarrow> Some (- ENOMEM, unmap_sgl dma_mapped sgt, dev)
              | Some (Some req) \<Rightarrow>
                 map_option (\<lambda>s. let (rv, sgt, st) = submit_result dma_mapped s
                                 in (rv, sgt, put_engine write channel st dev))
                   (submit_loop E await (rid, 0) dma_mapped
                     \<lparr>s_nents = rq_sw_desc_cnt req, s_done = 0, s_rv = 0, s_req = req,
                      s_sgt = sgt, s_st = st\<rparr>))))"

section \<open>Submitting without waiting\<close>

text \<open>
  The request names its owner's control block \<open>cb\<close>; \<open>k\<close> is the index into
  \<^verbatim>\<open>tfer[]\<close>.
\<close>

partial_function (option) nowait_loop ::
  "('c, 'x) kenv_scheme \<Rightarrow> nat \<Rightarrow> nat \<Rightarrow> bool \<Rightarrow> nat \<Rightarrow> 'c submission \<Rightarrow> 'c submission option" where
  "nowait_loop E rid cb dma_mapped k s =
     (if s_nents s = 0 then Some (s\<lparr>s_rv := - EIOCBQUEUED\<rparr>)
      else (let s = prepare_transfer (rid, k) (Some cb) dma_mapped s;
                (rv, st) = transfer_queue E (rid, k) (s_st s);
                s = s\<lparr>s_rv := rv, s_st := st\<rparr>
            in if rv < 0 then Some (s\<lparr>s_sgt := unmap_sgl dma_mapped (s_sgt s)\<rparr>)
               else nowait_loop E rid cb dma_mapped (Suc k) s))"

declare nowait_loop.simps [code]

text \<open>The request handed to the owner is part of the result: none where the call has freed it.\<close>

definition xdma_xfer_submit_nowait ::
  "('c, 'x) kenv_scheme \<Rightarrow> (nat \<Rightarrow> bool) \<Rightarrow> (sg_table \<Rightarrow> sg_table) \<Rightarrow> nat \<Rightarrow> nat \<Rightarrow>
     'c xdma_dev_io \<Rightarrow> nat \<Rightarrow> bool \<Rightarrow> u64 \<Rightarrow> sg_table \<Rightarrow> bool \<Rightarrow>
     (int \<times> xdma_request_cb option \<times> sg_table \<times> 'c xdma_dev_io) option" where
  "xdma_xfer_submit_nowait E oom dma_map rid cb dev channel write ep_addr sgt dma_mapped =
     (case select_engine dev channel write of
        Inl err \<Rightarrow> Some (err, None, sgt, dev)
      | Inr st \<Rightarrow>
         (case map_for_dma dma_map dma_mapped sgt of
            None \<Rightarrow> Some (- EIO, None, sgt, dev)
          | Some sgt \<Rightarrow>
             (case xdma_init_request (desc_blen_max E) oom sgt ep_addr of
                None \<Rightarrow> None
              | Some None \<Rightarrow> Some (- ENOMEM, None, unmap_sgl dma_mapped sgt, dev)
              | Some (Some req) \<Rightarrow>
                 map_option (\<lambda>s. (s_rv s, if s_rv s = - EIOCBQUEUED then Some (s_req s) else None,
                                  s_sgt s, put_engine write channel (s_st s) dev))
                   (nowait_loop E rid cb dma_mapped 0
                     \<lparr>s_nents = rq_sw_desc_cnt req, s_done = 0, s_rv = 0,
                      s_req = req\<lparr>rq_cb := Some cb\<rparr>, s_sgt = sgt, s_st = st\<rparr>))))"

section \<open>Collecting the results\<close>

definition collect_one :: "('c, 'x) kenv_scheme \<Rightarrow> xid \<Rightarrow> 'c submission \<Rightarrow> 'c submission" where
  "collect_one E t s =
     (let st = s_st s; x = xfers st t;
          s = s\<lparr>s_nents := s_nents s - x_desc_num x\<rparr>;
          s = (case x_state x of
                 TRANSFER_STATE_COMPLETED \<Rightarrow>
                   s\<lparr>s_rv := 0, s_done := s_done s +
                     (if streaming_c2h (eng st)
                      then result_bytes (e_cyclic_result (eng st)) (x_res_virt x) (x_desc_num x)
                      else uint (x_len x))\<rparr>
               | TRANSFER_STATE_FAILED \<Rightarrow> s\<lparr>s_rv := - EIO\<rparr>
               | _ \<Rightarrow>
                   (let (_, st) = engine_status_read E False True st;
                        (_, st) = transfer_abort t st;
                        (_, st) = xdma_engine_stop E st
                    in s\<lparr>s_rv := - ETIMEDOUT, s_st := st\<rparr>))
      in dismantle t s)"

partial_function (option) collect_loop ::
  "('c, 'x) kenv_scheme \<Rightarrow> nat \<Rightarrow> nat \<Rightarrow> 'c submission \<Rightarrow> 'c submission option" where
  "collect_loop E rid k s =
     (if s_nents s = 0 then Some s
      else (let s = collect_one E (rid, k) s
            in if s_rv s < 0 then Some s else collect_loop E rid (Suc k) s))"

declare collect_loop.simps [code]

definition xdma_xfer_completion ::
  "('c, 'x) kenv_scheme \<Rightarrow> nat \<Rightarrow> xdma_request_cb \<Rightarrow> 'c xdma_dev_io \<Rightarrow> nat \<Rightarrow> bool \<Rightarrow>
     sg_table \<Rightarrow> bool \<Rightarrow> (int \<times> sg_table \<times> 'c xdma_dev_io) option" where
  "xdma_xfer_completion E rid req dev channel write sgt dma_mapped =
     (if channel \<ge> (if write then dv_h2c_channel_max dev else dv_c2h_channel_max dev)
      then Some (- EINVAL, sgt, dev)
      else (let st = (if write then dv_engine_h2c dev channel else dv_engine_c2h dev channel)
            in if e_magic (eng st) \<noteq> MAGIC_ENGINE then Some (- EINVAL, sgt, dev)
               else map_option (\<lambda>s. (s_done s, unmap_sgl dma_mapped (s_sgt s),
                                     put_engine write channel (s_st s) dev))
                      (collect_loop E rid 0
                        \<lparr>s_nents = rq_sw_desc_cnt req, s_done = 0, s_rv = 0, s_req = req,
                         s_sgt = sgt, s_st = st\<rparr>)))"

end
