(* ===== verification/Xdma_Xfer_Spec.thy ===== *)
theory Xdma_Xfer_Spec
  imports Xdma_Xfer
begin

text \<open>
  The properties of submission: a blocking submit returns whatever happens while it waits and
  leaves the scatter list unmapped; when every transfer completes it returns the number of bytes
  of the request; a submit without waiting queues its transfers in order, and collecting them
  adds up their lengths.
\<close>

section \<open>Sums of lengths\<close>

definition piece_bytes :: "sw_desc list \<Rightarrow> nat \<Rightarrow> nat \<Rightarrow> nat" where
  "piece_bytes sds lo n = sum_list (map (\<lambda>j. unat (sd_len (sds ! (lo + j)))) [0..<n])"

lemma piece_bytes_add: "piece_bytes sds lo (m + n) = piece_bytes sds lo m + piece_bytes sds (lo + m) n"
  by (induction n) (simp_all add: piece_bytes_def add.assoc)

lemma unat_sum_list:
  fixes f :: "'b \<Rightarrow> 'w::len word"
  shows "sum_list (map (\<lambda>x. unat (f x)) xs) < 2 ^ LENGTH('w) \<Longrightarrow>
    unat (sum_list (map f xs)) = sum_list (map (\<lambda>x. unat (f x)) xs)"
proof (induction xs)
  case (Cons x xs)
  then have "unat (sum_list (map f xs)) = sum_list (map (\<lambda>x. unat (f x)) xs)" by simp
  with Cons.prems show ?case by (simp add: unat_add_no_wrap)
qed simp

section \<open>One round of a submit\<close>

definition ready :: "'c submission \<Rightarrow> bool" where
  "ready s \<longleftrightarrow> ring_ok (eng (s_st s)) \<and> req_left (s_req s) \<and>
     s_nents s = rq_sw_desc_cnt (s_req s) - rq_sw_desc_idx (s_req s)"

lemma streaming_c2h_cong:
  "e_streaming e = e_streaming e' \<Longrightarrow> e_dir e = e_dir e' \<Longrightarrow> streaming_c2h e = streaming_c2h e'"
  by (simp add: streaming_c2h_def)

lemma set_xfer_flags [simp]: "xdev_flags (set_xfer t x st) = xdev_flags st"
  by (simp add: set_xfer_def)

lemma prepare_transfer_facts:
  assumes "ready s"
  defines "n \<equiv> planned (eng (s_st s)) (s_req s)"
  shows "s_nents (prepare_transfer t cb m s) = s_nents s - n" and "0 < n" and "n \<le> s_nents s"
    and "n \<le> e_desc_max (eng (s_st s))"
    and "rq_sw_desc_idx (s_req (prepare_transfer t cb m s)) = rq_sw_desc_idx (s_req s) + n"
    and "rq_sw_desc_cnt (s_req (prepare_transfer t cb m s)) = rq_sw_desc_cnt (s_req s)"
    and "rq_sdesc (s_req (prepare_transfer t cb m s)) = rq_sdesc (s_req s)"
    and "ring_ok (eng (s_st (prepare_transfer t cb m s)))"
    and "e_desc_max (eng (s_st (prepare_transfer t cb m s))) = e_desc_max (eng (s_st s))"
    and "e_transfer_list (eng (s_st (prepare_transfer t cb m s))) = e_transfer_list (eng (s_st s))"
    and "e_shutdown (eng (s_st (prepare_transfer t cb m s))) = e_shutdown (eng (s_st s))"
    and "e_streaming (eng (s_st (prepare_transfer t cb m s))) = e_streaming (eng (s_st s))"
    and "e_dir (eng (s_st (prepare_transfer t cb m s))) = e_dir (eng (s_st s))"
    and "xdev_flags (s_st (prepare_transfer t cb m s)) = xdev_flags (s_st s)"
    and "s_done (prepare_transfer t cb m s) = s_done s"
    and "s_sgt (prepare_transfer t cb m s) = s_sgt s"
    and "u \<noteq> t \<Longrightarrow> xfers (s_st (prepare_transfer t cb m s)) u = xfers (s_st s) u"
    and "x_desc_num (xfers (s_st (prepare_transfer t cb m s)) t) = n"
    and "x_cb (xfers (s_st (prepare_transfer t cb m s)) t) = cb"
    and "x_len (xfers (s_st (prepare_transfer t cb m s)) t) =
      sum_list (map (\<lambda>j. sd_len (rq_sdesc (s_req s) ! (rq_sw_desc_idx (s_req s) + j))) [0..<n])"
proof -
  have ok: "ring_ok (eng (s_st s))" "req_left (s_req s)" using assms(1) by (simp_all add: ready_def)
  note b = planned_bounds [OF ok] and eq = transfer_init_eq [OF ok(1), of "s_req s"]
  note bf = built_facts [OF ok]
  have "ring_ok (fst (transfer_init (eng (s_st s)) (s_req s)))"
    using ok bf(2) by (simp add: eq ring_ok_def)
  then show "ring_ok (eng (s_st (prepare_transfer t cb m s)))"
    by (simp add: prepare_transfer_def split_beta Let_def)
  show "0 < n" "n \<le> s_nents s" "n \<le> e_desc_max (eng (s_st s))"
    using b assms by (auto simp: ready_def)
  show "x_len (xfers (s_st (prepare_transfer t cb m s)) t) =
      sum_list (map (\<lambda>j. sd_len (rq_sdesc (s_req s) ! (rq_sw_desc_idx (s_req s) + j))) [0..<n])"
    using bf(3) by (simp add: prepare_transfer_def eq Let_def n_def next_sdesc_def)
qed (simp_all add: prepare_transfer_def transfer_init_eq assms(1) [unfolded ready_def] Let_def n_def
       zero_xfer_def)

text \<open>A wait that leaves the ring of the engine in shape.\<close>

definition keeps_ring :: "('c est \<Rightarrow> 'c est) \<Rightarrow> bool" where
  "keeps_ring await \<longleftrightarrow> (\<forall>st. ring_ok (eng st) \<longrightarrow> ring_ok (eng (await st)))"

lemma engine_start_ring [simp]:
  "e_desc (eng (snd (engine_start E st))) = e_desc (eng st)"
  "e_desc_idx (eng (snd (engine_start E st))) = e_desc_idx (eng st)"
  "e_desc_max (eng (snd (engine_start E st))) = e_desc_max (eng st)"
  "e_streaming (eng (snd (engine_start E st))) = e_streaming (eng st)"
  "e_dir (eng (snd (engine_start E st))) = e_dir (eng st)"
  by (simp_all add: engine_start_def split_beta Let_def split: list.splits)

lemma transfer_queue_ring [simp]:
  "e_desc (eng (snd (transfer_queue E t st))) = e_desc (eng st)"
  "e_desc_idx (eng (snd (transfer_queue E t st))) = e_desc_idx (eng st)"
  "e_desc_max (eng (snd (transfer_queue E t st))) = e_desc_max (eng st)"
  "e_streaming (eng (snd (transfer_queue E t st))) = e_streaming (eng st)"
  "e_dir (eng (snd (transfer_queue E t st))) = e_dir (eng st)"
  "xdev_flags (snd (transfer_queue E t st)) = xdev_flags st"
  by (simp_all add: transfer_queue_def Let_def set_xfer_def)

lemma transfer_queue_xfer [simp]:
  "x_desc_num (xfers (snd (transfer_queue E t st)) u) = x_desc_num (xfers st u)"
  "x_len (xfers (snd (transfer_queue E t st)) u) = x_len (xfers st u)"
  "x_cb (xfers (snd (transfer_queue E t st)) u) = x_cb (xfers st u)"
  by (simp_all add: transfer_queue_def Let_def)

lemma timeout_cleanup_ring [simp]:
  "e_desc (eng (timeout_cleanup E t st)) = e_desc (eng st)"
  "e_desc_idx (eng (timeout_cleanup E t st)) = e_desc_idx (eng st)"
  "e_desc_max (eng (timeout_cleanup E t st)) = e_desc_max (eng st)"
  by (simp_all add: timeout_cleanup_def transfer_abort_def engine_status_read_def
      engine_reg_dump_def del_head_def split_beta Let_def)

lemma ring_ok_cong:
  "e_desc_idx e' = e_desc_idx e \<Longrightarrow> e_desc_max e' = e_desc_max e \<Longrightarrow>
   length (e_desc e') = length (e_desc e) \<Longrightarrow> ring_ok e' = ring_ok e"
  by (simp add: ring_ok_def)

lemma timeout_cleanup_ring_ok [simp]: "ring_ok (eng (timeout_cleanup E t st)) = ring_ok (eng st)"
  by (rule ring_ok_cong) simp_all

lemma after_wait_facts:
  "s_req (after_wait E t s) = s_req s" "s_sgt (after_wait E t s) = s_sgt s"
  "ring_ok (eng (s_st (after_wait E t s))) = ring_ok (eng (s_st s))"
  "s_nents (after_wait E t s) = s_nents s \<or> s_nents (after_wait E t s) = 0"
  by (simp_all add: after_wait_def Let_def split: transfer_state.splits)

lemma dismantle_facts:
  "s_nents (dismantle t s) = s_nents s" "s_done (dismantle t s) = s_done s"
  "s_rv (dismantle t s) = s_rv s" "s_req (dismantle t s) = s_req s"
  "ring_ok (eng (s_st (dismantle t s))) = ring_ok (eng (s_st s))"
  "e_shutdown (eng (s_st (dismantle t s))) = e_shutdown (eng (s_st s))"
  "e_streaming (eng (s_st (dismantle t s))) = e_streaming (eng (s_st s))"
  "e_dir (eng (s_st (dismantle t s))) = e_dir (eng (s_st s))"
  "e_transfer_list (eng (s_st (dismantle t s))) = e_transfer_list (eng (s_st s))"
  "xdev_flags (s_st (dismantle t s)) = xdev_flags (s_st s)"
  "xfers (s_st (dismantle t s)) = xfers (s_st s)"
  by (simp_all add: dismantle_def transfer_destroy_def ring_ok_def Let_def)

section \<open>A submit returns\<close>

lemma submit_round_progress:
  fixes E :: "('c, 'x) kenv_scheme" and t :: xid and m :: bool
  assumes s: "ready s" and await: "keeps_ring await"
  defines "r \<equiv> submit_round E await t m s"
  shows "s_rv r < 0 \<or> s_nents r = 0 \<or> ready r" and "s_rv r < 0 \<or> s_nents r < s_nents s"
proof -
  note p = prepare_transfer_facts [OF s]
  let ?p = "prepare_transfer t None m s"
  let ?q = "transfer_queue E t (s_st ?p)"
  let ?w = "case e_cmplthp (eng (snd ?q)) of
      Some th \<Rightarrow> wake_up (Wake_cmpl_thread th) (snd ?q) | None \<Rightarrow> snd ?q"
  let ?s2 = "?p\<lparr>s_rv := fst ?q, s_st := await ?w\<rparr>"
  have rq: "ring_ok (eng (snd ?q))" using p(8) by (simp add: ring_ok_def)
  then have "ring_ok (eng ?w)" by (simp add: wake_up_def split: option.split)
  then have ra: "ring_ok (eng (await ?w))" using await by (simp add: keeps_ring_def)
  show "s_rv r < 0 \<or> s_nents r = 0 \<or> ready r" and "s_rv r < 0 \<or> s_nents r < s_nents s"
  proof (atomize (full), cases "fst ?q < 0")
    case True
    then show "(s_rv r < 0 \<or> s_nents r = 0 \<or> ready r) \<and> (s_rv r < 0 \<or> s_nents r < s_nents s)"
      by (simp add: r_def submit_round_def split_beta Let_def)
  next
    case False
    then have r: "r = dismantle t (after_wait E t ?s2)"
      by (simp add: r_def submit_round_def split_beta Let_def)
    have n: "s_nents r = s_nents ?p \<or> s_nents r = 0" using after_wait_facts(4) [of E t ?s2]
      by (simp add: r dismantle_facts)
    have req: "s_req r = s_req ?p" by (simp add: r dismantle_facts after_wait_facts)
    have ring: "ring_ok (eng (s_st r))" using ra by (simp add: r dismantle_facts after_wait_facts)
    have less: "s_nents r < s_nents s" using n p(1-3) by auto
    have "ready r" if "s_nents r \<noteq> 0"
    proof -
      have "s_nents r = s_nents ?p" using n that by simp
      then show ?thesis
        using that ring s p(1,5,6) by (simp add: ready_def req req_left_def)
    qed
    with less show "(s_rv r < 0 \<or> s_nents r = 0 \<or> ready r) \<and> (s_rv r < 0 \<or> s_nents r < s_nents s)"
      by blast
  qed
qed

lemma submit_loop_returns:
  assumes "keeps_ring await"
  shows "s_rv s < 0 \<or> s_nents s = 0 \<or> ready s \<Longrightarrow> \<exists>r. submit_loop E await t m s = Some r"
proof (induction "s_nents s" arbitrary: s rule: less_induct)
  case less
  show ?case
  proof (cases "s_nents s = 0 \<or> s_rv s < 0")
    case True
    then show ?thesis by (simp add: submit_loop.simps)
  next
    case False
    let ?r = "submit_round E await t m s"
    from False less.prems have "ready s" by simp
    note pr = submit_round_progress [OF this assms, where E = E and t = t and m = m]
    have "\<exists>r. submit_loop E await t m ?r = Some r"
    proof (cases "s_rv ?r < 0")
      case True
      then show ?thesis by (simp add: submit_loop.simps)
    next
      case False
      then show ?thesis using pr less.hyps [of ?r] by simp
    qed
    with False show ?thesis by (simp add: submit_loop.simps [of E await t m s])
  qed
qed

lemma init_request_cases:
  assumes "blen \<noteq> 0"
  obtains (none) "xdma_init_request blen oom sgt ep = Some None"
  | (req) req where "xdma_init_request blen oom sgt ep = Some (Some req)" "rq_sw_desc_idx req = 0"
proof -
  have "xdma_init_request blen oom sgt ep = Some None \<or>
      (\<exists>req. xdma_init_request blen oom sgt ep = Some (Some req) \<and> rq_sw_desc_idx req = 0)"
    by (auto simp: xdma_init_request_def xdma_request_alloc_def zero_request_def Let_def
        cut_entries_pieces [OF assms])
  then show ?thesis using none req by blast
qed

lemma unmap_sgl_nents: "\<not> m \<Longrightarrow> nents (unmap_sgl m sgt) = 0"
  by (simp add: unmap_sgl_def)



text \<open>A submit of the sample list: the wait does nothing, so the transfer times out.\<close>

definition sample_dev :: "nat xdma_dev_io" where
  "sample_dev = \<lparr>dv_hndl_check = 0, dv_h2c_channel_max = 1, dv_c2h_channel_max = 0,
     dv_engine_h2c = (\<lambda>_. idle_sample), dv_engine_c2h = (\<lambda>_. idle_sample)\<rparr>"

lemma select_sample: "select_engine sample_dev 0 True = Inr idle_sample"
  by (simp add: select_engine_def sample_dev_def idle_sample_def sample_engine_def dir_of_def
      xdma_device_flag_check_def)

lemma idle_sample_ring: "ring_ok (eng idle_sample)"
  by (simp add: idle_sample_def sample_engine_def ring_ok_def)


section \<open>A submit that succeeds\<close>

definition normal_io :: "('c, 's) est_scheme \<Rightarrow> bool" where
  "normal_io st \<longleftrightarrow> \<not> streaming_c2h (eng st) \<and>
     e_shutdown (eng st) AND ENGINE_SHUTDOWN_REQUEST = 0 \<and> xdev_flags st AND XDEV_FLAG_OFFLINE = 0"

text \<open>A wait in which the transfer \<open>t\<close> completes.\<close>

definition completes :: "xid \<Rightarrow> ('c est \<Rightarrow> 'c est) \<Rightarrow> bool" where
  "completes t await \<longleftrightarrow> keeps_ring await \<and>
     (\<forall>st. x_state (xfers (await st) t) = TRANSFER_STATE_COMPLETED \<and>
        x_len (xfers (await st) t) = x_len (xfers st t) \<and>
        (normal_io st \<longrightarrow> normal_io (await st)))"

lemma engine_start_shutdown:
  "e_shutdown (eng st) AND 1 = 0 \<Longrightarrow> e_shutdown (eng (snd (engine_start E st))) AND 1 = 0"
  by (simp add: engine_start_def split_beta Let_def split: list.splits)

lemma transfer_queue_normal: "normal_io st \<Longrightarrow> normal_io (snd (transfer_queue E t st))"
proof -
  assume n: "normal_io st"
  then have "e_shutdown (eng (snd (transfer_queue E t st))) AND 1 = 0"
    by (simp add: normal_io_def transfer_queue_def Let_def engine_start_shutdown)
  with n show ?thesis by (simp add: normal_io_def streaming_c2h_def)
qed

lemma submit_round_completes:
  fixes E :: "('c, 'x) kenv_scheme" and t :: xid and m :: bool
  assumes s: "ready s" and await: "completes t await" and n: "normal_io (s_st s)"
    and sum: "piece_bytes (rq_sdesc (s_req s)) (rq_sw_desc_idx (s_req s))
      (planned (eng (s_st s)) (s_req s)) < 2 ^ 32"
  defines "r \<equiv> submit_round E await t m s" and "k \<equiv> planned (eng (s_st s)) (s_req s)"
  shows "s_rv r = 0" and "s_nents r = s_nents s - k" and "normal_io (s_st r)"
    and "s_done r = s_done s +
      int (piece_bytes (rq_sdesc (s_req s)) (rq_sw_desc_idx (s_req s)) k)"
    and "rq_sw_desc_idx (s_req r) = rq_sw_desc_idx (s_req s) + k"
    and "rq_sdesc (s_req r) = rq_sdesc (s_req s)"
    and "rq_sw_desc_cnt (s_req r) = rq_sw_desc_cnt (s_req s)"
proof -
  note p = prepare_transfer_facts [OF s]
  let ?p = "prepare_transfer t None m s"
  let ?q = "transfer_queue E t (s_st ?p)"
  let ?w = "case e_cmplthp (eng (snd ?q)) of
      Some th \<Rightarrow> wake_up (Wake_cmpl_thread th) (snd ?q) | None \<Rightarrow> snd ?q"
  let ?s2 = "?p\<lparr>s_rv := fst ?q, s_st := await ?w\<rparr>"
  have np: "normal_io (s_st ?p)" using n p(11-14) by (simp add: normal_io_def streaming_c2h_def)
  have q0: "fst ?q = 0"
    using np p(2,18) by (intro transfer_queue_accepted(1)) (simp_all add: normal_io_def)
  have "normal_io ?w" using transfer_queue_normal [OF np, of E t]
    by (simp add: normal_io_def wake_up_def split: option.split)
  then have a: "normal_io (await ?w)" "x_state (xfers (await ?w) t) = TRANSFER_STATE_COMPLETED"
    using await by (simp_all add: completes_def)
  have "x_len (xfers ?w t) = x_len (xfers (s_st ?p) t)"
    by (simp add: wake_up_def split: option.split)
  then have "x_len (xfers (await ?w) t) = x_len (xfers (s_st ?p) t)"
    using await by (simp add: completes_def)
  then have "unat (x_len (xfers (await ?w) t)) =
      piece_bytes (rq_sdesc (s_req s)) (rq_sw_desc_idx (s_req s)) k"
    using sum unfolding p(20) k_def piece_bytes_def by (simp add: unat_sum_list)
  then have len: "uint (x_len (xfers (await ?w) t)) =
      int (piece_bytes (rq_sdesc (s_req s)) (rq_sw_desc_idx (s_req s)) k)"
    by (metis uint_nat)
  have "after_wait E t ?s2 = ?s2\<lparr>s_rv := 0, s_done := s_done s +
      int (piece_bytes (rq_sdesc (s_req s)) (rq_sw_desc_idx (s_req s)) k)\<rparr>"
    using a len p(15) by (simp add: after_wait_def normal_io_def Let_def)
  then have r: "r = dismantle t (?s2\<lparr>s_rv := 0, s_done := s_done s +
      int (piece_bytes (rq_sdesc (s_req s)) (rq_sw_desc_idx (s_req s)) k)\<rparr>)"
    using q0 by (simp add: r_def submit_round_def split_beta Let_def)
  show "s_rv r = 0" and "s_nents r = s_nents s - k"
    and "s_done r = s_done s + int (piece_bytes (rq_sdesc (s_req s)) (rq_sw_desc_idx (s_req s)) k)"
    and "rq_sw_desc_idx (s_req r) = rq_sw_desc_idx (s_req s) + k"
    and "rq_sdesc (s_req r) = rq_sdesc (s_req s)" and "rq_sw_desc_cnt (s_req r) = rq_sw_desc_cnt (s_req s)"
    using p(1,5,6,7) by (simp_all add: r k_def dismantle_facts)
  show "normal_io (s_st r)"
    using a(1) by (simp add: r normal_io_def dismantle_facts streaming_c2h_def)
qed

lemma piece_bytes_mono: "n \<le> m \<Longrightarrow> piece_bytes sds lo n \<le> piece_bytes sds lo m"
  using piece_bytes_add [of sds lo n "m - n"] by simp

lemma submit_loop_completes:
  assumes "completes t await"
  shows "(s_nents s = 0 \<or> ready s) \<Longrightarrow> s_rv s = 0 \<Longrightarrow> normal_io (s_st s) \<Longrightarrow>
    piece_bytes (rq_sdesc (s_req s)) (rq_sw_desc_idx (s_req s)) (s_nents s) < 2 ^ 32 \<Longrightarrow>
    \<exists>r. submit_loop E await t m s = Some r \<and> s_rv r = 0 \<and>
      s_done r = s_done s +
        int (piece_bytes (rq_sdesc (s_req s)) (rq_sw_desc_idx (s_req s)) (s_nents s))"
proof (induction "s_nents s" arbitrary: s rule: less_induct)
  case less
  show ?case
  proof (cases "s_nents s = 0")
    case True
    then show ?thesis using less.prems by (simp add: submit_loop.simps piece_bytes_def)
  next
    case False
    let ?r = "submit_round E await t m s" and ?k = "planned (eng (s_st s)) (s_req s)"
    let ?lo = "rq_sw_desc_idx (s_req s)" and ?sd = "rq_sdesc (s_req s)"
    from False less.prems have s: "ready s" by simp
    note p = prepare_transfer_facts(2,3) [OF s]
    have split: "piece_bytes ?sd ?lo (s_nents s) =
        piece_bytes ?sd ?lo ?k + piece_bytes ?sd (?lo + ?k) (s_nents s - ?k)"
      using piece_bytes_add [of ?sd ?lo ?k "s_nents s - ?k"] p by simp
    have small: "piece_bytes ?sd ?lo ?k < 2 ^ 32" using split less.prems(4) by simp
    note c = submit_round_completes [OF s assms less.prems(3) small, where E = E and m = m]
    have kr: "keeps_ring await" using assms by (simp add: completes_def)
    have step: "s_nents ?r < s_nents s" "s_nents ?r = 0 \<or> ready ?r"
      using submit_round_progress [OF s kr, where E = E and t = t and m = m] c(1) by auto
    have "\<exists>r. submit_loop E await t m ?r = Some r \<and> s_rv r = 0 \<and>
        s_done r = s_done ?r + int (piece_bytes ?sd (?lo + ?k) (s_nents s - ?k))"
      using less.hyps [OF step(1) step(2) c(1) c(3)] split less.prems(4) by (simp add: c(2,5,6))
    then show ?thesis
      using False less.prems(2) split c(4)
      by (simp add: submit_loop.simps [of E await t m s] add.assoc)
  qed
qed

text \<open>A submit whose waits all end well.\<close>

lemma submit_completed:
  assumes "select_engine dev channel write = Inr st" and "ring_ok (eng st)" and "normal_io st"
    and "map_for_dma dma_map m sgt = Some sgt1"
    and "xdma_init_request (desc_blen_max E) oom sgt1 ep = Some (Some req)"
    and "rq_sw_desc_idx req = 0" and "completes (rid, 0) await"
    and "piece_bytes (rq_sdesc req) 0 (rq_sw_desc_cnt req) < 2 ^ 32"
  shows "\<exists>sgt' dev'. xdma_xfer_submit E oom dma_map await rid dev channel write ep sgt m =
      Some (int (piece_bytes (rq_sdesc req) 0 (rq_sw_desc_cnt req)), sgt', dev') \<and>
    (\<not> m \<longrightarrow> nents sgt' = 0)"
proof -
  let ?s = "\<lparr>s_nents = rq_sw_desc_cnt req, s_done = 0, s_rv = 0, s_req = req,
      s_sgt = sgt1, s_st = st\<rparr>"
  have "s_nents ?s = 0 \<or> ready ?s"
    using assms(2,6) by (auto simp: ready_def req_left_def)
  then obtain r where r: "submit_loop E await (rid, 0) m ?s = Some r" "s_rv r = 0"
      "s_done r = int (piece_bytes (rq_sdesc req) 0 (rq_sw_desc_cnt req))"
    using submit_loop_completes [OF assms(7), of ?s E m] assms(3,6,8) by auto
  have "xdma_xfer_submit E oom dma_map await rid dev channel write ep sgt m =
      Some (if s_done r \<noteq> 0 then s_done r else s_rv r, unmap_sgl m (s_sgt r),
            put_engine write channel (s_st r) dev)"
    using assms(1,4,5) r(1) by (simp add: xdma_xfer_submit_def submit_result_def)
  then show ?thesis using r(2,3) by (auto simp: unmap_sgl_nents)
qed

text \<open>
  When each of its waits ends with the transfer completed, a blocking submit
  returns exactly the number of bytes of its request, however many passes through the descriptor
  ring it takes, and leaves the scatter list unmapped.
\<close>
theorem submit_all_bytes:
  assumes "select_engine dev channel write = Inr st" and "ring_ok (eng st)" and "normal_io st"
    and "map_for_dma dma_map m sgt = Some sgt1"
    and "xdma_init_request (desc_blen_max E) oom sgt1 ep = Some (Some req)"
    and "rq_sw_desc_idx req = 0" and "completes (rid, 0) await"
    and "piece_bytes (rq_sdesc req) 0 (rq_sw_desc_cnt req) < 2 ^ 32"
  shows "\<exists>sgt' dev'. xdma_xfer_submit E oom dma_map await rid dev channel write ep sgt m =
      Some (int (piece_bytes (rq_sdesc req) 0 (rq_sw_desc_cnt req)), sgt', dev') \<and>
    (\<not> m \<longrightarrow> nents sgt' = 0)"
  by (rule submit_completed [OF assms])

definition one_entry_sgt :: sg_table where
  "one_entry_sgt = \<lparr>sgl = [\<lparr>sg_dma_address = 0x1000, sg_dma_len = 0x800\<rparr>], nents = 1, orig_nents = 1\<rparr>"

definition one_entry_request :: xdma_request_cb where
  "one_entry_request = (zero_request 1)\<lparr>rq_sgt := one_entry_sgt, rq_total_len := 0x800,
     rq_sdesc := [\<lparr>sd_addr = 0x1000, sd_len = 0x800\<rparr>], rq_sw_desc_cnt := 1\<rparr>"

lemma one_entry_init:
  "xdma_init_request 0x1000 (\<lambda>_. False) one_entry_sgt 0 = Some (Some one_entry_request)"
  by (simp add: xdma_init_request_def xdma_request_alloc_def zero_request_def Let_def extra_of_def
      cut_entry_pieces pieces.simps one_entry_sgt_def one_entry_request_def)

definition finish_xfer :: "xid \<Rightarrow> nat est \<Rightarrow> nat est" where
  "finish_xfer t st = set_xfer t ((xfers st t)\<lparr>x_state := TRANSFER_STATE_COMPLETED\<rparr>) (del_head st)"

lemma finish_xfer_completes: "completes t (finish_xfer t)"
  by (simp add: completes_def keeps_ring_def finish_xfer_def normal_io_def del_head_def ring_ok_def
      streaming_c2h_def)

lemma submit_all_bytes_witness:
  "\<exists>sgt' dev'. xdma_xfer_submit (sample_env 0 0) (\<lambda>_. False) (\<lambda>s. s) (finish_xfer (7, 0)) 7
      sample_dev 0 True 0 one_entry_sgt False = Some (0x800, sgt', dev')"
proof -
  have b: "piece_bytes (rq_sdesc one_entry_request) 0 (rq_sw_desc_cnt one_entry_request) = 0x800"
    by (simp add: one_entry_request_def piece_bytes_def)
  have "normal_io idle_sample"
    by (simp add: normal_io_def streaming_c2h_def idle_sample_def sample_engine_def)
  moreover have "map_for_dma (\<lambda>s. s) False one_entry_sgt = Some one_entry_sgt"
    by (simp add: map_for_dma_def one_entry_sgt_def)
  moreover have "xdma_init_request (desc_blen_max (sample_env 0 0)) (\<lambda>_. False) one_entry_sgt 0 =
      Some (Some one_entry_request)"
    using one_entry_init by (simp add: sample_env_def)
  moreover have "rq_sw_desc_idx one_entry_request = 0"
    by (simp add: one_entry_request_def zero_request_def)
  ultimately show ?thesis
    using submit_all_bytes [OF select_sample idle_sample_ring, where E = "sample_env 0 0" and rid = 7]
      finish_xfer_completes b by fastforce
qed

section \<open>Submitting without waiting\<close>

lemma wake_of_queue: "fst (transfer_queue E t st) \<ge> 0 \<Longrightarrow>
    e_transfer_list (eng (snd (transfer_queue E t st))) = e_transfer_list (eng st) @ [t]"
  by (auto simp: transfer_queue_def Let_def split: if_splits)

lemma nowait_loop_queues:
  assumes "s_nents s = 0 \<or> ready s" and "e_desc_max (eng (s_st s)) = mx"
  shows "\<exists>r. nowait_loop E rid cb m k s = Some r \<and>
    (s_rv r = - EIOCBQUEUED \<longrightarrow>
      (\<exists>n. s_nents s \<le> n * mx \<and>
        e_transfer_list (eng (s_st r)) = e_transfer_list (eng (s_st s)) @ map (Pair rid) [k..<k + n]))"
  using assms
proof (induction "s_nents s" arbitrary: s k rule: less_induct)
  case less
  show ?case
  proof (cases "s_nents s = 0")
    case True
    then show ?thesis by (simp add: nowait_loop.simps) (rule exI [of _ 0], simp)
  next
    case False
    with less.prems have s: "ready s" by simp
    let ?p = "prepare_transfer (rid, k) (Some cb) m s"
    let ?q = "transfer_queue E (rid, k) (s_st ?p)"
    let ?s = "?p\<lparr>s_rv := fst ?q, s_st := snd ?q\<rparr>"
    note p = prepare_transfer_facts [OF s]
    have unroll: "nowait_loop E rid cb m k s =
        (if fst ?q < 0 then Some (?s\<lparr>s_sgt := unmap_sgl m (s_sgt ?s)\<rparr>)
         else nowait_loop E rid cb m (Suc k) ?s)"
      using False by (simp add: nowait_loop.simps [of E rid cb m k s] split_beta Let_def)
    show ?thesis
    proof (cases "fst ?q < 0")
      case True
      then have "fst ?q \<noteq> - EIOCBQUEUED" by (auto simp: transfer_queue_def Let_def split: if_splits)
      with True show ?thesis unfolding unroll by simp
    next
      case q: False
      have less': "s_nents ?s < s_nents s" using p(1-3) False by simp
      have ready': "s_nents ?s = 0 \<or> ready ?s"
        using p(1,5,6,8) s by (auto simp: ready_def req_left_def ring_ok_def)
      have mx: "e_desc_max (eng (s_st ?s)) = mx" using p(9) less.prems(2) by simp
      obtain r where r: "nowait_loop E rid cb m (Suc k) ?s = Some r"
        "s_rv r = - EIOCBQUEUED \<Longrightarrow> \<exists>n. s_nents ?s \<le> n * mx \<and>
          e_transfer_list (eng (s_st r)) =
            e_transfer_list (eng (s_st ?s)) @ map (Pair rid) [Suc k..<Suc k + n]"
        using less.hyps [OF less' ready' mx, of "Suc k"] by auto
      have q1: "e_transfer_list (eng (s_st ?s)) = e_transfer_list (eng (s_st s)) @ [(rid, k)]"
        using wake_of_queue [of E "(rid, k)" "s_st ?p"] q p(10) by simp
      have "\<exists>n. s_nents s \<le> n * mx \<and>
          e_transfer_list (eng (s_st r)) = e_transfer_list (eng (s_st s)) @ map (Pair rid) [k..<k + n]"
        if "s_rv r = - EIOCBQUEUED"
      proof -
        from r(2) [OF that] obtain n where n: "s_nents ?s \<le> n * mx"
          "e_transfer_list (eng (s_st r)) =
            e_transfer_list (eng (s_st s)) @ (rid, k) # map (Pair rid) [Suc k..<Suc k + n]"
          unfolding q1 by auto
        have "s_nents s \<le> Suc n * mx" using n(1) p(1,3,4) less.prems(2) by simp
        moreover have "[k..<k + Suc n] = k # [Suc k..<Suc k + n]" by (simp add: upt_conv_Cons)
        ultimately show ?thesis using n(2) by (intro exI [of _ "Suc n"]) simp
      qed
      with r(1) q show ?thesis unfolding unroll by simp
    qed
  qed
qed

text \<open>
  C24 (functional). A submit without waiting always returns. When it reports the request as
  queued, it has appended its transfers to the engine's queue in order, as many as the pieces
  need at \<open>desc_max\<close> per transfer. The array \<^verbatim>\<open>tfer[]\<close> of a request has two places,
  and nothing limits the number of transfers to two.
\<close>
theorem nowait_queues_in_order:
  assumes "select_engine dev channel write = Inr st" and "ring_ok (eng st)"
    and "map_for_dma dma_map m sgt = Some sgt1"
    and "xdma_init_request (desc_blen_max E) oom sgt1 ep = Some (Some req)"
    and "rq_sw_desc_idx req = 0"
  shows "\<exists>rv req' sgt' st'. xdma_xfer_submit_nowait E oom dma_map rid cb dev channel write ep sgt m =
      Some (rv, req', sgt', put_engine write channel st' dev) \<and>
    (rv = - EIOCBQUEUED \<longrightarrow>
      (\<exists>n. rq_sw_desc_cnt req \<le> n * e_desc_max (eng st) \<and>
        e_transfer_list (eng st') = e_transfer_list (eng st) @ map (Pair rid) [0..<n]))"
proof -
  let ?s = "\<lparr>s_nents = rq_sw_desc_cnt req, s_done = 0, s_rv = 0, s_req = req\<lparr>rq_cb := Some cb\<rparr>,
      s_sgt = sgt1, s_st = st\<rparr>"
  have "s_nents ?s = 0 \<or> ready ?s" using assms(2,5) by (auto simp: ready_def req_left_def)
  then obtain r where "nowait_loop E rid cb m 0 ?s = Some r"
      "s_rv r = - EIOCBQUEUED \<longrightarrow> (\<exists>n. rq_sw_desc_cnt req \<le> n * e_desc_max (eng st) \<and>
        e_transfer_list (eng (s_st r)) = e_transfer_list (eng st) @ map (Pair rid) [0..<0 + n])"
    using nowait_loop_queues [of ?s "e_desc_max (eng st)" E rid cb m 0] by auto
  then show ?thesis
    using assms(1,3,4) by (auto simp: xdma_xfer_submit_nowait_def)
qed

lemma nowait_queues_in_order_witness:
  "\<exists>rv req' sgt' st'. xdma_xfer_submit_nowait (sample_env 0 0) (\<lambda>_. False) (\<lambda>s. s) 7 3
      sample_dev 0 True 0 one_entry_sgt False = Some (rv, req', sgt', put_engine True 0 st' sample_dev)"
proof -
  have "map_for_dma (\<lambda>s. s) False one_entry_sgt = Some one_entry_sgt"
    by (simp add: map_for_dma_def one_entry_sgt_def)
  moreover have "xdma_init_request (desc_blen_max (sample_env 0 0)) (\<lambda>_. False) one_entry_sgt 0 =
      Some (Some one_entry_request)"
    using one_entry_init by (simp add: sample_env_def)
  moreover have "rq_sw_desc_idx one_entry_request = 0"
    by (simp add: one_entry_request_def zero_request_def)
  ultimately show ?thesis
    using nowait_queues_in_order [OF select_sample idle_sample_ring, where E = "sample_env 0 0"
        and rid = 7 and cb = 3] by blast
qed

section \<open>Collecting\<close>

lemma collect_loop_sum:
  assumes "\<not> streaming_c2h (eng (s_st s))"
    and "\<forall>i < n. x_state (xfers (s_st s) (rid, k + i)) = TRANSFER_STATE_COMPLETED \<and>
      0 < x_desc_num (xfers (s_st s) (rid, k + i))"
    and "s_nents s = (\<Sum>i<n. x_desc_num (xfers (s_st s) (rid, k + i)))"
  shows "\<exists>r. collect_loop E rid k s = Some r \<and>
    s_done r = s_done s + (\<Sum>i<n. uint (x_len (xfers (s_st s) (rid, k + i))))"
  using assms
proof (induction n arbitrary: s k)
  case 0
  then show ?case by (simp add: collect_loop.simps)
next
  case (Suc n)
  let ?t = "(rid, k)"
  let ?x = "xfers (s_st s) ?t"
  let ?r = "collect_one E ?t s"
  have x: "x_state ?x = TRANSFER_STATE_COMPLETED" "0 < x_desc_num ?x"
    using Suc.prems(2) by (metis add_0_right zero_less_Suc)+
  have nz: "s_nents s \<noteq> 0" using Suc.prems(3) x(2) by (simp add: sum.lessThan_Suc_shift del: sum.lessThan_Suc)
  have r: "?r = dismantle ?t (s\<lparr>s_nents := s_nents s - x_desc_num ?x, s_rv := 0,
      s_done := s_done s + uint (x_len ?x)\<rparr>)"
    using x(1) Suc.prems(1) by (simp add: collect_one_def Let_def)
  have f: "xfers (s_st ?r) = xfers (s_st s)" "s_rv ?r = 0" "s_done ?r = s_done s + uint (x_len ?x)"
    "\<not> streaming_c2h (eng (s_st ?r))" "s_nents ?r = s_nents s - x_desc_num ?x"
    using Suc.prems(1) unfolding r by (simp_all add: dismantle_facts streaming_c2h_def)
  have "\<exists>q. collect_loop E rid (Suc k) ?r = Some q \<and>
      s_done q = s_done ?r + (\<Sum>i<n. uint (x_len (xfers (s_st ?r) (rid, Suc k + i))))"
  proof (rule Suc.IH)
    show "\<forall>i<n. x_state (xfers (s_st ?r) (rid, Suc k + i)) = TRANSFER_STATE_COMPLETED \<and>
        0 < x_desc_num (xfers (s_st ?r) (rid, Suc k + i))"
      using Suc.prems(2) unfolding f by (metis Suc_less_eq add_Suc_shift)
    show "s_nents ?r = (\<Sum>i<n. x_desc_num (xfers (s_st ?r) (rid, Suc k + i)))"
      unfolding f using Suc.prems(3) by (simp add: sum.lessThan_Suc_shift del: sum.lessThan_Suc)
  qed (rule f)
  then show ?case
    using nz f(2,3) unfolding f(1)
    by (simp add: collect_loop.simps [of E rid k s] sum.lessThan_Suc_shift add.assoc
        del: sum.lessThan_Suc)
qed

text \<open>
  Collecting the results of a request whose transfers have all completed returns
  the sum of their lengths, on every engine but a receiving stream.
\<close>
theorem completion_sums_lengths:
  assumes "select_engine dev channel write = Inr st" and "\<not> streaming_c2h (eng st)"
    and "\<forall>i < n. x_state (xfers st (rid, i)) = TRANSFER_STATE_COMPLETED \<and>
      0 < x_desc_num (xfers st (rid, i))"
    and "rq_sw_desc_cnt req = (\<Sum>i<n. x_desc_num (xfers st (rid, i)))"
  shows "\<exists>sgt' dev'. xdma_xfer_completion E rid req dev channel write sgt m =
    Some (\<Sum>i<n. uint (x_len (xfers st (rid, i))), sgt', dev')"
proof -
  let ?s = "\<lparr>s_nents = rq_sw_desc_cnt req, s_done = 0, s_rv = 0, s_req = req, s_sgt = sgt, s_st = st\<rparr>"
  have sel: "\<not> channel \<ge> (if write then dv_h2c_channel_max dev else dv_c2h_channel_max dev)"
    "(if write then dv_engine_h2c dev channel else dv_engine_c2h dev channel) = st"
    "e_magic (eng st) = MAGIC_ENGINE"
    using assms(1) by (auto simp: select_engine_def Let_def split: if_splits)
  obtain r where "collect_loop E rid 0 ?s = Some r"
      "s_done r = (\<Sum>i<n. uint (x_len (xfers st (rid, i))))"
    using collect_loop_sum [of ?s n rid 0 E] assms(2-4) by auto
  then show ?thesis using sel by (simp add: xdma_xfer_completion_def Let_def)
qed

definition done_sample :: "nat xdma_dev_io" where
  "done_sample = sample_dev\<lparr>dv_engine_h2c := \<lambda>_. idle_sample\<lparr>xfers := \<lambda>_. zero_xfer
     \<lparr>x_desc_num := 2, x_len := 64, x_state := TRANSFER_STATE_COMPLETED\<rparr>\<rparr>\<rparr>"

lemma completion_sums_lengths_witness:
  "\<exists>sgt' dev'. xdma_xfer_completion (sample_env 0 0) 7 (one_entry_request\<lparr>rq_sw_desc_cnt := 4\<rparr>)
     done_sample 0 True one_entry_sgt True = Some (128, sgt', dev')"
  using completion_sums_lengths [of done_sample 0 True "dv_engine_h2c done_sample 0" 2 7
      "one_entry_request\<lparr>rq_sw_desc_cnt := 4\<rparr>" "sample_env 0 0" one_entry_sgt True]
  by (simp add: done_sample_def sample_dev_def select_engine_def idle_sample_def sample_engine_def
      dir_of_def xdma_device_flag_check_def streaming_c2h_def)

end
