(* ===== verification/Xdma_Aperture.thy ===== *)
theory Xdma_Aperture
  imports Xdma_Xfer_Spec
begin

text \<open>
  Transfers through an aperture (\<^verbatim>\<open>xdma_xfer_aperture\<close>): the bytes of a buffer go
  through a window of \<open>aperture\<close> bytes at an end-point address, wrapping to its start
  whenever its end is reached. Every descriptor stays inside the window.
\<close>

section \<open>Building the descriptors\<close>

text \<open>The running values of the building loop, and its constants.\<close>

record ap_state =
  ap_desc :: "xdma_desc list"
  ap_idx :: nat
  ap_cnt :: nat
  ap_sg_offset :: u32
  ap_offset :: u32
  ap_len :: u32
  ap_ep :: u64

record ap_const =
  apc_dir :: dma_data_direction
  apc_ep :: u64
  apc_ep_max :: u64
  apc_maxlen :: u32
  apc_desc_max :: nat

definition ap_step :: "ap_const \<Rightarrow> u64 \<Rightarrow> u32 \<Rightarrow> ap_state \<Rightarrow> u32 \<times> ap_state" where
  "ap_step c addr tlen a =
     (let len = min tlen (apc_maxlen c);
          ep = (if ap_ep a > apc_ep_max c then apc_ep c else ap_ep a);
          len = (if ep + ucast len > apc_ep_max c then ucast (apc_ep_max c - ep + 1) else len)
      in (len,
          a\<lparr>ap_desc := (ap_desc a)[ap_idx a :=
                xdma_desc_set (ap_desc a ! ap_idx a) addr ep len (apc_dir c)],
            ap_sg_offset := ap_sg_offset a + len, ap_offset := ap_offset a + len,
            ap_len := ap_len a + len, ap_ep := ep + ucast len,
            ap_idx := Suc (ap_idx a), ap_cnt := Suc (ap_cnt a)\<rparr>))"

text \<open>
  \<^verbatim>\<open>while (tlen)\<close> for one entry; the first argument is the room left in the ring, and
  the loop is left when there is none.
\<close>

fun ap_inner :: "ap_const \<Rightarrow> nat \<Rightarrow> u64 \<Rightarrow> u32 \<Rightarrow> ap_state \<Rightarrow> u32 \<times> ap_state" where
  "ap_inner c 0 addr tlen a = (tlen, a)"
| "ap_inner c (Suc room) addr tlen a =
     (if tlen = 0 then (tlen, a)
      else (let (len, a) = ap_step c addr tlen a
            in ap_inner c room (addr + ucast len) (tlen - len) a))"

text \<open>The loop over the entries: \<open>n\<close> of them are left, the pointer walks the list.\<close>

fun ap_outer :: "ap_const \<Rightarrow> nat \<Rightarrow> nat \<Rightarrow> scatterlist list \<Rightarrow> ap_state \<Rightarrow> nat \<times> ap_state" where
  "ap_outer c (Suc n) i (sg # sgs) a =
     (if ap_idx a \<ge> apc_desc_max c then (i, a)
      else (let (addr, tlen) =
                  (if ap_sg_offset a \<noteq> 0
                   then (sg_dma_address sg + ucast (ap_sg_offset a), sg_dma_len sg - ap_sg_offset a)
                   else (sg_dma_address sg, sg_dma_len sg));
                (tlen, a) = ap_inner c (apc_desc_max c - ap_idx a) addr tlen a
            in if tlen = 0 then ap_outer c n (Suc i) sgs (a\<lparr>ap_sg_offset := 0\<rparr>) else (i, a)))"
| "ap_outer c _ i _ a = (i, a)"

text \<open>Chaining \<open>n\<close> descriptors from \<open>base\<close> and marking the last.\<close>

definition ap_chain :: "nat \<Rightarrow> nat \<Rightarrow> u64 \<Rightarrow> xdma_desc list \<Rightarrow> xdma_desc list" where
  "ap_chain base n bus ds =
     (let ds = array_for base (n - 1)
                 (\<lambda>i d. let nxt = bus + of_nat (sizeof_xdma_desc * (i - base + 1))
                        in d\<lparr>d_next_lo := PCI_DMA_L nxt, d_next_hi := PCI_DMA_H nxt,
                             d_control := DESC_MAGIC\<rparr>) ds;
          k = base + (n - 1)
      in ds[k := (ds ! k)\<lparr>d_next_lo := 0, d_next_hi := 0,
                         d_control := DESC_MAGIC OR XDMA_DESC_STOPPED OR XDMA_DESC_EOP OR
                                      XDMA_DESC_COMPLETED\<rparr>])"

definition ap_consts :: "xdma_engine \<Rightarrow> u32 \<Rightarrow> xdma_request_cb \<Rightarrow> ap_const" where
  "ap_consts e blen_max req =
     \<lparr>apc_dir = e_dir e, apc_ep = rq_ep_addr req,
      apc_ep_max = rq_ep_addr req + ucast (rq_aperture req) - 1,
      apc_maxlen = min (rq_aperture req) blen_max, apc_desc_max = e_desc_max e\<rparr>"

definition ap_start :: "xdma_engine \<Rightarrow> xdma_request_cb \<Rightarrow> ap_state" where
  "ap_start e req =
     \<lparr>ap_desc = e_desc e, ap_idx = e_desc_idx e, ap_cnt = 0, ap_sg_offset = rq_sg_offset req,
      ap_offset = rq_offset req, ap_len = 0,
      ap_ep = rq_ep_addr req + ucast (rq_offset req AND (rq_aperture req - 1))\<rparr>"

definition ap_build :: "xdma_engine \<Rightarrow> u32 \<Rightarrow> xdma_request_cb \<Rightarrow> nat \<times> ap_state" where
  "ap_build e blen_max req =
     ap_outer (ap_consts e blen_max req) (nents (rq_sgt req) - rq_sg_idx req) (rq_sg_idx req)
       (drop (rq_sg req) (sgl (rq_sgt req))) (ap_start e req)"

text \<open>
  One transfer. Without a descriptor the chaining loop, whose bound \<^verbatim>\<open>desc_cnt - 1\<close> is
  unsigned, would run over all of memory: no result.
\<close>

definition ap_transfer ::
  "u32 \<Rightarrow> bool \<Rightarrow> xdma_engine \<Rightarrow> xdma_request_cb \<Rightarrow>
     (xdma_engine \<times> xdma_request_cb \<times> xdma_transfer) option" where
  "ap_transfer blen_max dma_mapped e req =
     (let x = zero_xfer\<lparr>x_dir := e_dir e, x_flags := if dma_mapped then 0 else XFER_FLAG_NEED_UNMAP,
                x_desc_virt := e_desc_idx e, x_res_virt := e_desc_idx e,
                x_desc_bus := e_desc_bus e + of_nat (sizeof_xdma_desc * e_desc_idx e),
                x_res_bus := e_cyclic_result_bus e + of_nat (sizeof_xdma_result * e_desc_idx e),
                x_desc_index := e_desc_idx e\<rparr>;
          (i, a) = ap_build e blen_max req;
          n = ap_cnt a
      in if n = 0 then None
         else (let req = req\<lparr>rq_offset := ap_offset a, rq_sg_offset := ap_sg_offset a, rq_sg_idx := i\<rparr>;
                   x = x\<lparr>x_len := ap_len a, x_desc_adjacent := n, x_desc_num := n, x_desc_cmpl_th := n\<rparr>;
                   ds = ap_chain (x_desc_virt x) n (x_desc_bus x) (ap_desc a);
                   e = e\<lparr>e_desc_used := e_desc_used e + of_nat n,
                         e_desc := set_adjacents (x_desc_virt x) n ds,
                         e_desc_idx := (e_desc_idx e + n) mod e_desc_max e\<rparr>;
                   x = (if rq_offset req = rq_total_len req
                        then x\<lparr>x_last_in_request := True\<rparr> else x)
               in Some (e, req, x)))"

section \<open>The whole request\<close>

definition ap_round ::
  "('c, 'x) kenv_scheme \<Rightarrow> ('c est \<Rightarrow> 'c est) \<Rightarrow> xid \<Rightarrow> bool \<Rightarrow> 'c submission \<Rightarrow>
     'c submission option" where
  "ap_round E await t dma_mapped s =
     (case ap_transfer (desc_blen_max E) dma_mapped (eng (s_st s)) (s_req s) of
        None \<Rightarrow> None
      | Some (e, req, x) \<Rightarrow>
          (let s = s\<lparr>s_req := req, s_st := set_xfer t x ((s_st s)\<lparr>eng := e\<rparr>)\<rparr>;
               (rv, st) = transfer_queue E t (s_st s);
               s = s\<lparr>s_rv := rv, s_st := st\<rparr>
           in Some (if rv < 0 then s
              else (let st = (case e_cmplthp (eng st) of
                                Some th \<Rightarrow> wake_up (Wake_cmpl_thread th) st | None \<Rightarrow> st);
                        s = s\<lparr>s_st := await st\<rparr>
                    in dismantle t (after_wait E t s)))))"

partial_function (option) ap_loop ::
  "('c, 'x) kenv_scheme \<Rightarrow> ('c est \<Rightarrow> 'c est) \<Rightarrow> xid \<Rightarrow> bool \<Rightarrow> 'c submission \<Rightarrow>
     'c submission option" where
  "ap_loop E await t dma_mapped s =
     (if \<not> rq_offset (s_req s) < rq_total_len (s_req s) \<or> s_rv s < 0 then Some s
      else (case ap_round E await t dma_mapped s of
              None \<Rightarrow> None
            | Some s \<Rightarrow> ap_loop E await t dma_mapped s))"

declare ap_loop.simps [code]

definition xdma_xfer_aperture ::
  "('c, 'x) kenv_scheme \<Rightarrow> bool \<Rightarrow> (sg_table \<Rightarrow> sg_table) \<Rightarrow> ('c est \<Rightarrow> 'c est) \<Rightarrow> nat \<Rightarrow>
     'c est \<Rightarrow> bool \<Rightarrow> u64 \<Rightarrow> u32 \<Rightarrow> sg_table \<Rightarrow> bool \<Rightarrow> (int \<times> sg_table \<times> 'c est) option" where
  "xdma_xfer_aperture E oom dma_map await rid st write ep_addr aperture sgt dma_mapped =
     (if e_magic (eng st) \<noteq> MAGIC_ENGINE then Some (- EINVAL, sgt, st)
      else if xdma_device_flag_check (xdev_flags st) XDEV_FLAG_OFFLINE then Some (- EBUSY, sgt, st)
      else if e_dir (eng st) \<noteq> dir_of write then Some (- EINVAL, sgt, st)
      else if e_streaming (eng st) then Some (- EINVAL, sgt, st)
      else (case map_for_dma dma_map dma_mapped sgt of
              None \<Rightarrow> Some (- EIO, if dma_mapped then sgt else sgt\<lparr>nents := 0\<rparr>, st)
            | Some sgt \<Rightarrow>
                if oom then Some (- ENOMEM, unmap_sgl dma_mapped sgt, st)
                else (let req = (zero_request 0)\<lparr>rq_sgt := sgt, rq_ep_addr := ep_addr,
                            rq_aperture := aperture, rq_sg := 0,
                            rq_total_len :=
                              sum_list (map sg_dma_len (take (nents sgt) (sgl sgt)))\<rparr>
                      in map_option (submit_result dma_mapped)
                           (ap_loop E await (rid, 0) dma_mapped
                             \<lparr>s_nents = 0, s_done = 0, s_rv = 0, s_req = req, s_sgt = sgt,
                              s_st = st\<rparr>))))"

section \<open>Every descriptor stays in the window\<close>

text \<open>The end-point address of a descriptor, and being inside the window of a request.\<close>

definition desc_ep :: "dma_data_direction \<Rightarrow> xdma_desc \<Rightarrow> u64" where
  "desc_ep dir d = (if dir = DMA_TO_DEVICE then addr_of (d_dst_addr_hi d) (d_dst_addr_lo d)
                    else addr_of (d_src_addr_hi d) (d_src_addr_lo d))"

definition in_window :: "dma_data_direction \<Rightarrow> u64 \<Rightarrow> u32 \<Rightarrow> xdma_desc \<Rightarrow> bool" where
  "in_window dir ep ap d \<longleftrightarrow>
     unat ep \<le> unat (desc_ep dir d) \<and> 0 < unat (d_bytes d) \<and>
     unat (desc_ep dir d) + unat (d_bytes d) \<le> unat ep + unat ap"

lemma desc_ep_set [simp]: "desc_ep dir (xdma_desc_set d a ep len dir) = ep"
  by (cases dir) (simp_all add: desc_ep_def xdma_desc_set_def Let_def)

lemma bytes_set [simp]: "d_bytes (xdma_desc_set d a ep len dir) = len"
  by (cases dir) (simp_all add: xdma_desc_set_def Let_def)

text \<open>What the loop keeps: the constants are those of a window, the next address is in it or at its end.\<close>

definition window_const :: "ap_const \<Rightarrow> u32 \<Rightarrow> bool" where
  "window_const c ap \<longleftrightarrow> 0 < unat ap \<and> 0 < unat (apc_maxlen c) \<and> apc_maxlen c \<le> ap \<and>
     unat (apc_ep_max c) = unat (apc_ep c) + unat ap - 1 \<and>
     unat (apc_ep c) + 2 * unat ap < 2 ^ 64"

definition ap_inv :: "ap_const \<Rightarrow> u32 \<Rightarrow> nat \<Rightarrow> ap_state \<Rightarrow> bool" where
  "ap_inv c ap base a \<longleftrightarrow>
     unat (apc_ep c) \<le> unat (ap_ep a) \<and> unat (ap_ep a) \<le> unat (apc_ep c) + unat ap \<and>
     apc_desc_max c \<le> length (ap_desc a) \<and> base \<le> ap_idx a \<and> ap_idx a = base + ap_cnt a \<and>
     (\<forall>j. base \<le> j \<longrightarrow> j < ap_idx a \<longrightarrow> in_window (apc_dir c) (apc_ep c) ap (ap_desc a ! j))"

lemma unat_ucast_64: "unat (ucast w :: u64) = unat (w :: u32)"
proof -
  have "unat w < 2 ^ 32" using unsigned_less [of w] by simp
  then have "unat w < 2 ^ 64" by simp
  then show ?thesis by (simp add: unsigned_ucast_eq take_bit_nat_eq_self)
qed

lemma ap_step_inv:
  assumes c: "window_const c ap" and a: "ap_inv c ap base a" and t: "tlen \<noteq> 0"
    and idx: "ap_idx a < apc_desc_max c"
  shows "ap_inv c ap base (snd (ap_step c addr tlen a))"
    and "0 < unat (fst (ap_step c addr tlen a))" and "fst (ap_step c addr tlen a) \<le> tlen"
    and "ap_idx (snd (ap_step c addr tlen a)) = Suc (ap_idx a)"
proof -
  let ?m = "min tlen (apc_maxlen c)"
  let ?ep = "if ap_ep a > apc_ep_max c then apc_ep c else ap_ep a"
  let ?len = "if ?ep + ucast ?m > apc_ep_max c then ucast (apc_ep_max c - ?ep + 1) else ?m"
  have mx: "unat (apc_ep_max c) = unat (apc_ep c) + unat ap - 1" "0 < unat ap"
    "unat (apc_ep c) + 2 * unat ap < 2 ^ 64" "unat (apc_maxlen c) \<le> unat ap" "0 < unat (apc_maxlen c)"
    using c by (simp_all add: window_const_def word_le_nat_alt)
  have ep: "unat (apc_ep c) \<le> unat ?ep" "unat ?ep \<le> unat (apc_ep_max c)"
    using a mx by (auto simp: ap_inv_def word_less_nat_alt)
  have m: "0 < unat ?m" "unat ?m \<le> unat tlen" "unat ?m \<le> unat ap"
    using t mx by (auto simp: min_def word_le_nat_alt unat_gt_0)
  have um: "unat (ucast ?m :: u64) = unat ?m" by (rule unat_ucast_64)
  have sum: "unat (?ep + ucast ?m) = unat ?ep + unat ?m"
    using ep mx m unfolding um [symmetric] by (intro unat_add_no_wrap) simp
  have len: "0 < unat ?len \<and> unat ?len \<le> unat ?m \<and> unat ?ep + unat ?len \<le> unat (apc_ep c) + unat ap"
  proof (cases "?ep + ucast ?m > apc_ep_max c")
    case True
    then have gt: "unat (apc_ep_max c) < unat ?ep + unat ?m" using sum by (simp only: word_less_nat_alt)
    have d: "unat (apc_ep_max c - ?ep) = unat (apc_ep_max c) - unat ?ep"
      using ep(2) by (simp add: unat_sub word_le_nat_alt)
    have d1: "unat (apc_ep_max c - ?ep + 1) = unat (apc_ep_max c) - unat ?ep + 1"
      unfolding d [symmetric] using mx(1,2,3) d unat_add_no_wrap [of "apc_ep_max c - ?ep" 1] by simp
    have "unat (apc_ep_max c) - unat ?ep + 1 \<le> unat ?m" using gt ep(2) by linarith
    moreover have "unat ?m < 2 ^ 32" using unsigned_less [of ?m] by simp
    ultimately have "unat (ucast (apc_ep_max c - ?ep + 1) :: u32) = unat (apc_ep_max c) - unat ?ep + 1"
      using d1 by (simp add: unsigned_ucast_eq unsigned_take_bit_eq take_bit_nat_eq_self)
    then have "unat ?len = unat (apc_ep_max c) - unat ?ep + 1" using True by (simp only: if_True)
    then show ?thesis using gt ep mx(1,2) by linarith
  next
    case False
    then have "unat ?ep + unat ?m \<le> unat (apc_ep_max c)" using sum by (simp only: word_less_nat_alt not_less)
    moreover have "unat ?len = unat ?m" using False by (simp only: if_False)
    ultimately show ?thesis using m(1) mx(1) by linarith
  qed
  have step: "ap_step c addr tlen a = (?len,
      a\<lparr>ap_desc := (ap_desc a)[ap_idx a :=
            xdma_desc_set (ap_desc a ! ap_idx a) addr ?ep ?len (apc_dir c)],
        ap_sg_offset := ap_sg_offset a + ?len, ap_offset := ap_offset a + ?len,
        ap_len := ap_len a + ?len, ap_ep := ?ep + ucast ?len,
        ap_idx := Suc (ap_idx a), ap_cnt := Suc (ap_cnt a)\<rparr>)"
    unfolding ap_step_def Let_def by (rule refl)
  have ul: "unat (ucast l :: u64) = unat l" for l :: u32 by (rule unat_ucast_64)
  have nep: "unat (?ep + ucast ?len) = unat ?ep + unat ?len"
    using len mx(2,3) unfolding ul [symmetric] by (intro unat_add_no_wrap) simp
  have w: "in_window (apc_dir c) (apc_ep c) ap
      (xdma_desc_set (ap_desc a ! ap_idx a) addr ?ep ?len (apc_dir c))"
    unfolding in_window_def desc_ep_set bytes_set using ep(1) len by blast
  have lt: "ap_idx a < length (ap_desc a)" using a idx by (simp add: ap_inv_def)
  have old: "\<forall>j. base \<le> j \<longrightarrow> j < ap_idx a \<longrightarrow> in_window (apc_dir c) (apc_ep c) ap (ap_desc a ! j)"
    using a by (simp add: ap_inv_def)
  have new: "in_window (apc_dir c) (apc_ep c) ap (((ap_desc a)[ap_idx a :=
      xdma_desc_set (ap_desc a ! ap_idx a) addr ?ep ?len (apc_dir c)]) ! j)"
    if "base \<le> j" "j < Suc (ap_idx a)" for j
    using that w old lt by (cases "j = ap_idx a") (simp_all add: nth_update_pick)
  show "ap_inv c ap base (snd (ap_step c addr tlen a))"
    unfolding step using a new nep len ep(1) by (simp add: ap_inv_def)
  show "0 < unat (fst (ap_step c addr tlen a))" unfolding step using len by (simp only: fst_conv)
  show "fst (ap_step c addr tlen a) \<le> tlen"
    unfolding step fst_conv word_le_nat_alt using len m(2) by linarith
  show "ap_idx (snd (ap_step c addr tlen a)) = Suc (ap_idx a)" by (simp add: ap_step_def Let_def)
qed

lemma ap_inner_inv:
  assumes c: "window_const c ap"
  shows "ap_inv c ap base a \<Longrightarrow> ap_idx a + room = apc_desc_max c \<Longrightarrow>
    ap_inv c ap base (snd (ap_inner c room addr tlen a)) \<and>
    ap_idx (snd (ap_inner c room addr tlen a)) \<le> apc_desc_max c"
proof (induction room arbitrary: addr tlen a)
  case 0
  then show ?case by simp
next
  case (Suc room)
  show ?case
  proof (cases "tlen = 0")
    case True
    with Suc.prems show ?thesis by simp
  next
    case False
    have "ap_idx a < apc_desc_max c" using Suc.prems(2) by simp
    note s = ap_step_inv [OF c Suc.prems(1) False this, of addr]
    have "ap_idx (snd (ap_step c addr tlen a)) + room = apc_desc_max c" using s(4) Suc.prems(2) by simp
    from Suc.IH [OF s(1) this] False show ?thesis by (simp add: split_beta)
  qed
qed

lemma ap_outer_inv:
  "window_const c ap \<Longrightarrow> ap_inv c ap base a \<Longrightarrow> ap_idx a \<le> apc_desc_max c \<Longrightarrow>
    ap_inv c ap base (snd (ap_outer c n i sgs a)) \<and>
    ap_idx (snd (ap_outer c n i sgs a)) \<le> apc_desc_max c"
proof (induction c n i sgs a rule: ap_outer.induct)
  case (1 c n i sg sgs a)
  show ?case
  proof (cases "ap_idx a \<ge> apc_desc_max c")
    case True
    with 1 show ?thesis by simp
  next
    case False
    then have room: "ap_idx a + (apc_desc_max c - ap_idx a) = apc_desc_max c" by simp
    obtain addr tl where p: "(if ap_sg_offset a \<noteq> 0
        then (sg_dma_address sg + ucast (ap_sg_offset a), sg_dma_len sg - ap_sg_offset a)
        else (sg_dma_address sg, sg_dma_len sg)) = (addr, tl)" by fastforce
    obtain t a' where r: "ap_inner c (apc_desc_max c - ap_idx a) addr tl a = (t, a')" by fastforce
    have inv: "ap_inv c ap base a' \<and> ap_idx a' \<le> apc_desc_max c"
      using ap_inner_inv [OF 1(2,3) room, of addr tl] r by simp
    show ?thesis
    proof (cases "t = 0")
      case True
      have "ap_inv c ap base (a'\<lparr>ap_sg_offset := 0\<rparr>)" using inv by (simp add: ap_inv_def)
      then show ?thesis
        using 1(1) [OF False p [symmetric] refl r [symmetric] refl True 1(2)] inv False p r True by simp
    next
      case nz: False
      then show ?thesis using inv False p r by simp
    qed
  qed
qed simp_all

lemma ap_inner_room:
  "0 < room \<Longrightarrow> ap_inner c room addr tlen a =
     (if tlen = 0 then (tlen, a)
      else (let (len, a) = ap_step c addr tlen a
            in ap_inner c (room - 1) (addr + ucast len) (tlen - len) a))"
  by (cases room) simp_all

text \<open>
  C37 (safety). Every descriptor a transfer through an aperture is built of moves at least one byte
  and stays inside the window: no access goes below the end-point address or past the end of the
  aperture, wherever the previous transfer of the request has stopped.
\<close>
theorem aperture_window:
  assumes "ring_ok e" and "0 < unat (rq_aperture req)" and "0 < unat blen"
    and "unat (rq_ep_addr req) + 2 * unat (rq_aperture req) < 2 ^ 64"
    and "e_desc_idx e \<le> j" and "j < e_desc_idx e + ap_cnt (snd (ap_build e blen req))"
  shows "in_window (e_dir e) (rq_ep_addr req) (rq_aperture req) (ap_desc (snd (ap_build e blen req)) ! j)"
proof -
  let ?c = "ap_consts e blen req" and ?ap = "rq_aperture req" and ?ep = "rq_ep_addr req"
  let ?a = "snd (ap_build e blen req)" and ?off = "rq_offset req AND (rq_aperture req - 1)"
  have "unat (?ep + ucast ?ap) = unat ?ep + unat ?ap"
    using assms(4) unfolding unat_ucast_64 [symmetric] by (intro unat_add_no_wrap) simp
  then have mx: "unat (?ep + ucast ?ap - 1) = unat ?ep + unat ?ap - 1"
    using assms(2) by (simp add: unat_sub word_le_nat_alt)
  have "unat (min ?ap blen) > 0" "min ?ap blen \<le> ?ap" using assms(2,3) by (auto simp: min_def)
  then have c: "window_const ?c ?ap"
    using mx assms(2,4) by (simp add: window_const_def ap_consts_def)
  have "?off \<le> ?ap - 1" by (rule word_and_le1)
  then have "unat ?off \<le> unat (?ap - 1)" by (simp only: word_le_nat_alt)
  also have "unat (?ap - 1) < unat ?ap" using assms(2) by (simp add: unat_sub word_le_nat_alt)
  finally have off: "unat ?off < unat ?ap" .
  then have start: "unat (?ep + ucast ?off) = unat ?ep + unat ?off"
    using assms(4) unfolding unat_ucast_64 [symmetric] by (intro unat_add_no_wrap) simp
  have "ap_inv ?c ?ap (e_desc_idx e) (ap_start e req)"
    using start off assms(1) by (simp add: ap_inv_def ap_start_def ap_consts_def ring_ok_def)
  moreover have "ap_idx (ap_start e req) \<le> apc_desc_max ?c"
    using assms(1) by (simp add: ap_start_def ap_consts_def ring_ok_def)
  ultimately have "ap_inv ?c ?ap (e_desc_idx e) ?a"
    unfolding ap_build_def using ap_outer_inv c by blast
  then show ?thesis using assms(5,6) by (simp add: ap_inv_def) (simp add: ap_consts_def)
qed

definition ap_sample_request :: xdma_request_cb where
  "ap_sample_request = (zero_request 0)\<lparr>rq_sgt := one_entry_sgt, rq_ep_addr := 0x4000,
     rq_aperture := 0x400, rq_total_len := 0x800\<rparr>"

lemma aperture_window_witness:
  "in_window DMA_TO_DEVICE 0x4000 0x400 (ap_desc (snd (ap_build sample_engine 0x1000 ap_sample_request)) ! 1)"
proof -
  have n: "ap_cnt (snd (ap_build sample_engine 0x1000 ap_sample_request)) = 2"
    by (simp add: ap_build_def ap_sample_request_def one_entry_sgt_def sample_engine_def ap_consts_def
        ap_start_def zero_request_def ap_inner_room ap_step_def min_def Let_def)
  show ?thesis
    using aperture_window [of sample_engine ap_sample_request "0x1000" 1] n
    by (simp add: ap_sample_request_def zero_request_def sample_engine_def ring_ok_def)
qed

text \<open>The host address of a descriptor.\<close>

definition desc_host :: "dma_data_direction \<Rightarrow> xdma_desc \<Rightarrow> u64" where
  "desc_host dir d = (if dir = DMA_TO_DEVICE then addr_of (d_src_addr_hi d) (d_src_addr_lo d)
                      else addr_of (d_dst_addr_hi d) (d_dst_addr_lo d))"

lemma desc_host_set [simp]: "desc_host dir (xdma_desc_set d a ep len dir) = a"
  by (cases dir) (simp_all add: desc_host_def xdma_desc_set_def Let_def)

lemma ap_step_keeps:
  "j < ap_idx a \<Longrightarrow> ap_desc (snd (ap_step c addr tlen a)) ! j = ap_desc a ! j"
  "ap_idx (snd (ap_step c addr tlen a)) = Suc (ap_idx a)"
  "length (ap_desc (snd (ap_step c addr tlen a))) = length (ap_desc a)"
  "ap_idx a < length (ap_desc a) \<Longrightarrow>
     desc_host (apc_dir c) (ap_desc (snd (ap_step c addr tlen a)) ! ap_idx a) = addr"
  by (simp_all add: ap_step_def Let_def)

lemma ap_inner_keeps:
  "j < ap_idx a \<Longrightarrow> ap_desc (snd (ap_inner c room addr tlen a)) ! j = ap_desc a ! j \<and>
     ap_idx a \<le> ap_idx (snd (ap_inner c room addr tlen a))"
proof (induction room arbitrary: addr tlen a)
  case (Suc room)
  have "j < ap_idx (snd (ap_step c addr tlen a))" using Suc.prems by (simp add: ap_step_keeps)
  from Suc.IH [OF this] Suc.prems show ?case
    by (auto simp: split_beta ap_step_keeps dest: Suc_leD)
qed simp

lemma ap_outer_keeps:
  "j < ap_idx a \<Longrightarrow> ap_desc (snd (ap_outer c n i sgs a)) ! j = ap_desc a ! j"
proof (induction c n i sgs a rule: ap_outer.induct)
  case (1 c n i sg sgs a)
  obtain addr tl where p: "(if ap_sg_offset a \<noteq> 0
      then (sg_dma_address sg + ucast (ap_sg_offset a), sg_dma_len sg - ap_sg_offset a)
      else (sg_dma_address sg, sg_dma_len sg)) = (addr, tl)" by fastforce
  obtain t a' where r: "ap_inner c (apc_desc_max c - ap_idx a) addr tl a = (t, a')" by fastforce
  have k: "ap_desc a' ! j = ap_desc a ! j" "ap_idx a \<le> ap_idx a'"
    using ap_inner_keeps [OF 1(2), of c "apc_desc_max c - ap_idx a" addr tl] r by simp_all
  show ?case
  proof (cases "apc_desc_max c \<le> ap_idx a \<or> t \<noteq> 0")
    case True
    then show ?thesis using p r k by auto
  next
    case False
    have "j < ap_idx (a'\<lparr>ap_sg_offset := 0\<rparr>)" using 1(2) k(2) by simp
    then show ?thesis
      using 1(1) [OF _ p [symmetric] refl r [symmetric] refl _] False p r k by simp
  qed
qed simp_all

text \<open>
  The pointer into the scatter list is never advanced: a transfer that continues a
  request at a later entry takes the host address of its first descriptor from the first entry of
  the list again, so a request that needs more than one pass through the ring moves the wrong
  data.
\<close>
theorem aperture_rewinds:
  assumes "ring_ok e" and "rq_sg_idx req < nents (rq_sgt req)"
    and "sgl (rq_sgt req) = sg # sgs" and "rq_sg req = 0"
    and "rq_sg_offset req = 0" and "sg_dma_len sg \<noteq> 0"
  shows "desc_host (e_dir e) (ap_desc (snd (ap_build e blen req)) ! e_desc_idx e) = sg_dma_address sg"
proof -
  let ?c = "ap_consts e blen req" and ?a = "ap_start e req"
  let ?s = "ap_step ?c (sg_dma_address sg) (sg_dma_len sg) ?a"
  obtain n where n: "nents (rq_sgt req) - rq_sg_idx req = Suc n"
    using assms(2) by (metis Suc_diff_Suc)
  have idx: "ap_idx ?a = e_desc_idx e" "apc_desc_max ?c = e_desc_max e" "ap_sg_offset ?a = 0"
    "ap_desc ?a = e_desc e" "apc_dir ?c = e_dir e"
    using assms(5) by (simp_all add: ap_start_def ap_consts_def)
  have ok: "e_desc_idx e < e_desc_max e" "length (e_desc e) = e_desc_max e"
    using assms(1) by (simp_all add: ring_ok_def)
  obtain room where room: "e_desc_max e - e_desc_idx e = Suc room"
    using ok(1) by (metis Suc_diff_Suc)
  let ?r = "ap_inner ?c room (sg_dma_address sg + ucast (fst ?s)) (sg_dma_len sg - fst ?s) (snd ?s)"
  have inner: "ap_inner ?c (Suc room) (sg_dma_address sg) (sg_dma_len sg) ?a = ?r"
    using assms(6) by (simp add: split_beta)
  have b: "ap_build e blen req =
      (if fst ?r = 0 then ap_outer ?c n (Suc (rq_sg_idx req)) sgs ((snd ?r)\<lparr>ap_sg_offset := 0\<rparr>)
       else (rq_sg_idx req, snd ?r))"
    unfolding ap_build_def n using idx ok(1) room assms(3,4,6) by (simp add: split_beta)
  have lt: "e_desc_idx e < ap_idx (snd ?s)" by (simp add: ap_step_keeps idx)
  note k = ap_inner_keeps [OF lt, of ?c room "sg_dma_address sg + ucast (fst ?s)" "sg_dma_len sg - fst ?s"]
  have lt2: "e_desc_idx e < ap_idx ((snd ?r)\<lparr>ap_sg_offset := 0\<rparr>)" using k lt by simp
  have "ap_desc (snd (ap_build e blen req)) ! e_desc_idx e = ap_desc (snd ?r) ! e_desc_idx e"
    unfolding b using ap_outer_keeps [OF lt2, of ?c n "Suc (rq_sg_idx req)" sgs] by simp
  also have "\<dots> = ap_desc (snd ?s) ! e_desc_idx e" using k by simp
  finally show ?thesis
    using ap_step_keeps(4) [of ?a ?c "sg_dma_address sg" "sg_dma_len sg"] ok by (simp add: idx)
qed

lemma aperture_rewinds_witness:
  "desc_host DMA_TO_DEVICE (ap_desc (snd (ap_build sample_engine 0x1000
     ((zero_request 0)\<lparr>rq_sgt := sample_sgt, rq_ep_addr := 0x4000, rq_aperture := 0x400,
        rq_total_len := 0x1900, rq_sg_idx := 1, rq_offset := 0x1800\<rparr>))) ! 0) = 0x1000"
  using aperture_rewinds [of sample_engine "(zero_request 0)\<lparr>rq_sgt := sample_sgt,
      rq_ep_addr := 0x4000, rq_aperture := 0x400, rq_total_len := 0x1900, rq_sg_idx := 1,
      rq_offset := 0x1800\<rparr>" "hd (sgl sample_sgt)" "tl (sgl sample_sgt)" "0x1000"]
  by (simp add: sample_sgt_def zero_request_def sample_engine_def ring_ok_def)

end
