(* ===== verification/Xdma_Setup.thy ===== *)
theory Xdma_Setup
  imports Xdma_Xfer_Spec
begin

text \<open>
  Setting an engine up and taking it down (\<^verbatim>\<open>engine_alignments\<close> to
  \<^verbatim>\<open>engine_init\<close>), and the performance run: a cyclic transfer over one buffer
  (\<^verbatim>\<open>xdma_performance_submit\<close>, \<^verbatim>\<open>engine_cyclic_stop\<close>, the
  performance and address-mode ioctls).
\<close>

section \<open>Alignments and registers\<close>

definition engine_alignments ::
  "('x) xenv_scheme \<Rightarrow> ('c, 's) est_scheme \<Rightarrow> ('c, 's) est_scheme" where
  "engine_alignments E st =
     (let (w, st) = read_ereg E ER_alignments st
      in st\<lparr>eng := (if w \<noteq> 0
           then (eng st)\<lparr>e_addr_align := ucast (drop_bit 16 (w AND 0x00ff0000)),
                        e_len_granularity := ucast (drop_bit 8 (w AND 0x0000ff00)),
                        e_addr_bits := ucast (w AND 0x000000ff)\<rparr>
           else (eng st)\<lparr>e_addr_align := 1, e_len_granularity := 1, e_addr_bits := 64\<rparr>)\<rparr>)"

definition engine_addrmode_set ::
  "('x) xenv_scheme \<Rightarrow> u64 option \<Rightarrow> ('c, 's) est_scheme \<Rightarrow> int \<times> ('c, 's) est_scheme" where
  "engine_addrmode_set E user_dst st =
     (let (rv, st) = (case user_dst of
            None \<Rightarrow> (- EFAULT, st)
          | Some dst \<Rightarrow>
              (let st = st\<lparr>eng := (eng st)\<lparr>e_non_incr_addr := dst \<noteq> 0\<rparr>\<rparr>
               in (0, if e_non_incr_addr (eng st)
                      then write_ereg XDMA_CTRL_NON_INCR_ADDR ER_control_w1s st
                      else write_ereg XDMA_CTRL_NON_INCR_ADDR ER_control_w1c st)))
      in (rv, engine_alignments E st))"

definition engine_writeback_setup :: "('c, 's) est_scheme \<Rightarrow> int \<times> ('c, 's) est_scheme" where
  "engine_writeback_setup st =
     (let st = st\<lparr>eng := (eng st)\<lparr>e_poll_mode_addr_virt :=
                    map_option (\<lambda>_. 0) (e_poll_mode_addr_virt (eng st))\<rparr>\<rparr>;
          st = write_ereg (PCI_DMA_L (e_poll_mode_bus (eng st))) ER_poll_mode_wb_lo st;
          st = write_ereg (PCI_DMA_H (e_poll_mode_bus (eng st))) ER_poll_mode_wb_hi st
      in (0, st))"

text \<open>The credit-mode register of the device, at BAR offset 0x6000.\<close>

definition credit_reg :: "iomem \<Rightarrow> sgdma_common_reg \<Rightarrow> iomem" where
  "credit_reg cfg r = io_plus (io_plus cfg (0x6 * TARGET_SPACING)) (sgdma_common_regs r)"

definition credit_bit :: "xdma_engine \<Rightarrow> u32" where
  "credit_bit e = push_bit 16 (push_bit (e_channel e) 1)"

definition engine_init_regs ::
  "('x) xenv_scheme \<Rightarrow> ('c, 's) est_scheme \<Rightarrow> int \<times> ('c, 's) est_scheme" where
  "engine_init_regs E st =
     (let st = write_ereg XDMA_CTRL_NON_INCR_ADDR ER_control_w1c st;
          st = engine_alignments E st;
          reg_value = XDMA_CTRL_IE_DESC_ALIGN_MISMATCH OR XDMA_CTRL_IE_MAGIC_STOPPED OR
                      XDMA_CTRL_IE_READ_ERROR OR XDMA_CTRL_IE_DESC_ERROR;
          (rv, reg_value, st) =
            (if poll_mode E then (let (rv, st) = engine_writeback_setup st in (rv, reg_value, st))
             else (0, reg_value OR XDMA_CTRL_IE_DESC_STOPPED OR XDMA_CTRL_IE_DESC_COMPLETED, st))
      in if rv \<noteq> 0 then (rv, st)
         else (let st = write_ereg reg_value ER_interrupt_enable_mask st;
                   st = st\<lparr>eng := (eng st)\<lparr>e_interrupt_enable_mask_value := reg_value\<rparr>\<rparr>
               in (0, if credit_engine E (eng st)
                      then st\<lparr>io := write_register (credit_bit (eng st))
                             (credit_reg (xdev_cfg st) CR_credit_mode_enable_w1s) (io st)\<rparr>
                      else st)))"

section \<open>Memory of an engine\<close>

text \<open>What coherent DMA memory the kernel has: a bus address for each buffer, or none.\<close>

record dma_mem =
  dm_desc :: "u64 option"
  dm_poll :: "u64 option"
  dm_result :: "u64 option"

definition engine_free_resource :: "xdma_engine \<Rightarrow> xdma_engine" where
  "engine_free_resource e =
     (let e = (if e_poll_mode_addr_virt e \<noteq> None then e\<lparr>e_poll_mode_addr_virt := None\<rparr> else e);
          e = (if e_desc e \<noteq> [] then e\<lparr>e_desc := []\<rparr> else e)
      in if e_cyclic_result e \<noteq> [] then e\<lparr>e_cyclic_result := []\<rparr> else e)"

definition engine_alloc_resource ::
  "('x) xenv_scheme \<Rightarrow> dma_mem \<Rightarrow> xdma_engine \<Rightarrow> int \<times> xdma_engine" where
  "engine_alloc_resource E m e =
     (case dm_desc m of
        None \<Rightarrow> (- ENOMEM, engine_free_resource (e\<lparr>e_desc := []\<rparr>))
      | Some bus \<Rightarrow>
         (let e = e\<lparr>e_desc := replicate (e_desc_max e) zero_desc, e_desc_bus := bus\<rparr>
          in if poll_mode E \<and> dm_poll m = None
             then (- ENOMEM, engine_free_resource (e\<lparr>e_poll_mode_addr_virt := None\<rparr>))
             else (let e = (if poll_mode E
                            then e\<lparr>e_poll_mode_addr_virt := Some 0, e_poll_mode_bus := the (dm_poll m)\<rparr>
                            else e)
                   in if streaming_c2h e then
                        (case dm_result m of
                           None \<Rightarrow> (- ENOMEM, engine_free_resource (e\<lparr>e_cyclic_result := []\<rparr>))
                         | Some rbus \<Rightarrow>
                             (0, e\<lparr>e_cyclic_result := replicate (e_desc_max e) zero_result,
                                   e_cyclic_result_bus := rbus\<rparr>))
                      else (0, e))))"

section \<open>Creating and destroying an engine\<close>

text \<open>What the device contributes: \<^verbatim>\<open>engines_num\<close>, the interrupt masks, its index.\<close>

record dev_counts =
  dc_idx :: nat
  dc_engines_num :: nat
  dc_mask_irq_h2c :: u32
  dc_mask_irq_c2h :: u32

text \<open>Decimal digits, as \<^verbatim>\<open>snprintf\<close> prints them.\<close>

fun dec_digits :: "nat \<Rightarrow> string" where
  "dec_digits n = (if n < 10 then [char_of (n + 48)] else dec_digits (n div 10) @ [char_of (n mod 10 + 48)])"

declare dec_digits.simps [simp del]

definition engine_name :: "nat \<Rightarrow> dma_data_direction \<Rightarrow> nat \<Rightarrow> bool \<Rightarrow> string" where
  "engine_name idx dir channel streaming =
     take 15 (dec_digits idx @ ''-'' @ (if dir = DMA_TO_DEVICE then ''H2C'' else ''C2H'') @
              dec_digits channel @ ''-'' @ (if streaming then ''ST'' else ''MM''))"

abbreviation (input) XDMA_ENGINE_XFER_MAX_DESC :: nat where "XDMA_ENGINE_XFER_MAX_DESC \<equiv> 0x800"
abbreviation (input) XDMA_ENGINE_CREDIT_XFER_MAX_DESC :: nat where
  "XDMA_ENGINE_CREDIT_XFER_MAX_DESC \<equiv> 0x3FF"

definition engine_init_ident ::
  "('x) xenv_scheme \<Rightarrow> nat \<Rightarrow> dma_data_direction \<Rightarrow> nat \<Rightarrow> dev_counts \<Rightarrow>
     ('c, 's) est_scheme \<Rightarrow> dev_counts \<times> ('c, 's) est_scheme" where
  "engine_init_ident E offset dir channel dc st =
     (let st = st\<lparr>eng := (eng st)\<lparr>e_magic := MAGIC_ENGINE, e_channel := channel,
                   e_irq_bitmask := push_bit (dc_engines_num dc) 1,
                   e_bypass_offset := of_nat (dc_engines_num dc * BYPASS_MODE_SPACING),
                   e_regs := io_plus (xdev_cfg st) offset,
                   e_sgdma_regs := io_plus (io_plus (xdev_cfg st) offset) SGDMA_OFFSET_FROM_CHANNEL\<rparr>\<rparr>;
          (val, st) = read_ereg E ER_identifier st;
          e = (eng st)\<lparr>e_streaming := (if val AND 0x8000 \<noteq> 0 then True else e_streaming (eng st)),
                       e_dir := dir\<rparr>;
          e = e\<lparr>e_name := engine_name (dc_idx dc) dir channel (e_streaming e),
                e_desc_max := (if credit_engine E e then XDMA_ENGINE_CREDIT_XFER_MAX_DESC
                               else XDMA_ENGINE_XFER_MAX_DESC)\<rparr>;
          dc = (if dir = DMA_TO_DEVICE
                then dc\<lparr>dc_mask_irq_h2c := dc_mask_irq_h2c dc OR e_irq_bitmask e\<rparr>
                else dc\<lparr>dc_mask_irq_c2h := dc_mask_irq_c2h dc OR e_irq_bitmask e\<rparr>)
      in (dc\<lparr>dc_engines_num := Suc (dc_engines_num dc)\<rparr>, st\<lparr>eng := e\<rparr>))"

text \<open>
  The engine's side of the assignment to a completion thread in poll mode; the thread's side is
  in \<^verbatim>\<open>Xdma_Thread\<close>, which also picks the thread \<open>thp\<close>.
\<close>

definition attach_thread :: "nat \<Rightarrow> xdma_engine \<Rightarrow> xdma_engine" where
  "attach_thread thp e = e\<lparr>e_intr_work_cpu := thp, e_cmplthp := Some thp\<rparr>"

definition engine_init ::
  "('x) xenv_scheme \<Rightarrow> dma_mem \<Rightarrow> nat \<Rightarrow> nat \<Rightarrow> dma_data_direction \<Rightarrow> nat \<Rightarrow> dev_counts \<Rightarrow>
     ('c, 's) est_scheme \<Rightarrow> int \<times> dev_counts \<times> ('c, 's) est_scheme" where
  "engine_init E m thp offset dir channel dc st =
     (let (dc, st) = engine_init_ident E offset dir channel dc st;
          (rv, e) = engine_alloc_resource E m (eng st);
          st = st\<lparr>eng := e\<rparr>
      in if rv \<noteq> 0 then (rv, dc, st)
         else (let (rv, st) = engine_init_regs E st
               in if rv \<noteq> 0 then (rv, dc, st)
                  else (0, dc, if poll_mode E then st\<lparr>eng := attach_thread thp (eng st)\<rparr> else st)))"

definition zero_engine :: xdma_engine where
  "zero_engine = \<lparr>e_magic = 0, e_name = [], e_regs = IOM 0 0, e_sgdma_regs = IOM 0 0,
     e_bypass_offset = 0, e_shutdown = 0, e_dir = DMA_TO_DEVICE, e_addr_align = 0,
     e_len_granularity = 0, e_addr_bits = 0, e_channel = 0, e_streaming = False,
     e_device_open = False, e_running = False, e_non_incr_addr = False, e_eop_flush = False,
     e_desc_dequeued = 0, e_desc_max = 0, e_status = 0, e_interrupt_enable_mask_value = 0,
     e_transfer_list = [], e_cyclic_result = [], e_cyclic_result_bus = 0,
     e_perf_buf_virt = False, e_perf_buf_bus = 0, e_poll_mode_addr_virt = None,
     e_poll_mode_bus = 0, e_msix_irq_line = 0, e_irq_bitmask = 0, e_desc_bus = 0, e_desc = [],
     e_desc_idx = 0, e_desc_used = 0, e_xdma_perf = None, e_cmplthp = None, e_intr_work_cpu = 0\<rparr>"

text \<open>The polling thread's part, \<^verbatim>\<open>xdma_thread_remove_work\<close>, is that of the threads.\<close>

definition engine_destroy ::
  "('x) xenv_scheme \<Rightarrow> dev_counts \<Rightarrow> ('c, 's) est_scheme \<Rightarrow> int \<times> dev_counts \<times> ('c, 's) est_scheme" where
  "engine_destroy E dc st =
     (let st = write_ereg 0 ER_interrupt_enable_mask st;
          st = (if credit_engine E (eng st)
                then st\<lparr>io := write_register (credit_bit (eng st))
                       (credit_reg (xdev_cfg st) CR_credit_mode_enable_w1c) (io st)\<rparr>
                else st);
          st = (if poll_mode E then st\<lparr>eng := (eng st)\<lparr>e_cmplthp := None\<rparr>\<rparr> else st);
          st = st\<lparr>eng := engine_free_resource (eng st)\<rparr>;
          st = st\<lparr>eng := zero_engine\<rparr>
      in (0, dc\<lparr>dc_engines_num := dc_engines_num dc - 1\<rparr>, st))"

section \<open>The performance run\<close>

abbreviation (input) XDMA_PERF_NUM_DESC :: nat where "XDMA_PERF_NUM_DESC \<equiv> 128"
abbreviation (input) PERF_MAX_SIZE :: nat where "PERF_MAX_SIZE \<equiv> 128 * 32 * 1024"
abbreviation (input) IOCTL_XDMA_PERF_V1 :: u32 where "IOCTL_XDMA_PERF_V1 \<equiv> 1"

text \<open>What the allocator gives: the buffer, the transfer object, a ring where the engine has none.\<close>

record perf_mem =
  pm_buf :: "u64 option"
  pm_transfer :: "xid option"
  pm_desc :: "u64 option"

definition perf_descriptors :: "nat \<Rightarrow> u64 \<Rightarrow> u64 \<Rightarrow> u32 \<Rightarrow> dma_data_direction \<Rightarrow>
    xdma_desc list \<Rightarrow> xdma_desc list" where
  "perf_descriptors n bus buf len dir ds =
     (let ds = transfer_desc_init 0 n bus ds;
          ds = array_for 0 n (\<lambda>_ d. xdma_desc_set d buf 0 len dir) ds;
          ds = ds[0 := snd (xdma_desc_control_set (ds ! 0) 0)]
      in ds[n - 1 := xdma_desc_link (ds ! (n - 1)) (Some bus)])"

definition drop_perf_buf :: "('c, 's) est_scheme \<Rightarrow> ('c, 's) est_scheme" where
  "drop_perf_buf st = st\<lparr>eng := (eng st)\<lparr>e_perf_buf_virt := False\<rparr>\<rparr>"

definition xdma_performance_submit ::
  "('x) xenv_scheme \<Rightarrow> perf_mem \<Rightarrow> xdma_performance_ioctl \<Rightarrow> ('c, 's) est_scheme \<Rightarrow>
     int \<times> ('c, 's) est_scheme" where
  "xdma_performance_submit E m p st =
     (let size_in_desc = unat (p_transfer_size p);
          n = (if size_in_desc * XDMA_PERF_NUM_DESC > PERF_MAX_SIZE
               then PERF_MAX_SIZE div size_in_desc else XDMA_PERF_NUM_DESC)
      in if size_in_desc > PERF_MAX_SIZE then (- EINVAL, st)
         else case pm_buf m of
           None \<Rightarrow> (- ENOMEM, drop_perf_buf st)
         | Some buf \<Rightarrow>
            (let st = st\<lparr>eng := (eng st)\<lparr>e_perf_buf_virt := True, e_perf_buf_bus := buf\<rparr>\<rparr>
             in case pm_transfer m of
                  None \<Rightarrow> (- ENOMEM, drop_perf_buf st)
                | Some t \<Rightarrow>
                   (case (if e_desc (eng st) = []
                          then map_option (\<lambda>bus. (eng st)\<lparr>e_desc := replicate n zero_desc,
                                                          e_desc_bus := bus\<rparr>) (pm_desc m)
                          else Some (eng st)) of
                      None \<Rightarrow> (- ENOMEM, drop_perf_buf st)
                    | Some e \<Rightarrow>
                       (let x = zero_xfer\<lparr>x_dir := e_dir e, x_desc_num := n, x_desc_virt := 0,
                                         x_desc_bus := e_desc_bus e, x_cyclic := True\<rparr>;
                            st = set_xfer t x (st\<lparr>eng := e\<lparr>e_desc :=
                                   perf_descriptors n (e_desc_bus e) (e_perf_buf_bus e)
                                     (p_transfer_size p) (e_dir e) (e_desc e)\<rparr>\<rparr>);
                            (rv, st) = transfer_queue E t st
                        in if rv < 0
                           then (rv, drop_perf_buf (st\<lparr>eng := (eng st)\<lparr>e_desc := []\<rparr>\<rparr>))
                           else (0, st)))))"

definition engine_cyclic_stop ::
  "('x) xenv_scheme \<Rightarrow> ('c, 's) est_scheme \<Rightarrow> xid option \<times> ('c, 's) est_scheme" where
  "engine_cyclic_stop E st =
     (case e_transfer_list (eng st) of
        [] \<Rightarrow> (None, st)
      | t # _ \<Rightarrow>
          (let (rv, st) = xdma_engine_stop E st
           in if rv < 0 then (None, st)
              else (Some t, if x_cyclic (xfers st t) then del_head (drop_perf_buf st) else st)))"

text \<open>
  \<open>user\<close> is the structure at the user's address; where it cannot be read the kernel's copy
  stays zero. A positive count of bytes not copied is no error to the code.
\<close>

definition zero_perf :: xdma_performance_ioctl where
  "zero_perf = \<lparr>p_version = 0, p_transfer_size = 0, p_stopped = 0, p_iterations = 0,
     p_clock_cycle_count = 0, p_data_cycle_count = 0, p_pending_count = 0\<rparr>"

definition ioctl_do_perf_start ::
  "('x) xenv_scheme \<Rightarrow> bool \<Rightarrow> perf_mem \<Rightarrow> xdma_performance_ioctl option \<Rightarrow>
     ('c, 's) est_scheme \<Rightarrow> int \<times> ('c, 's) est_scheme" where
  "ioctl_do_perf_start E oom m user st =
     (if e_xdma_perf (eng st) \<noteq> None then (- EBUSY, st)
      else if oom then (- ENOMEM, st)
      else (let p = (case user of Some p \<Rightarrow> p | None \<Rightarrow> zero_perf);
                st = st\<lparr>eng := (eng st)\<lparr>e_xdma_perf := Some p\<rparr>\<rparr>
            in if p_version p \<noteq> IOCTL_XDMA_PERF_V1 then (- EINVAL, st)
               else xdma_performance_submit E m p (enable_perf E st)))"

text \<open>The second component is what is copied to the user; \<open>left\<close> counts bytes not copied.\<close>

definition ioctl_do_perf_stop ::
  "('x) xenv_scheme \<Rightarrow> int \<Rightarrow> ('c, 's) est_scheme \<Rightarrow>
     int \<times> xdma_performance_ioctl option \<times> ('c, 's) est_scheme" where
  "ioctl_do_perf_stop E left st =
     (if e_xdma_perf (eng st) = None then (- EINVAL, None, st)
      else (let (t, st) = engine_cyclic_stop E st
            in if t = None then (- EINVAL, None, st)
               else (let st = get_perf_stats E st;
                         out = e_xdma_perf (eng st)
                     in if left \<noteq> 0 then (left, None, st)
                        else (0, out, st\<lparr>eng := (eng st)\<lparr>e_xdma_perf := None\<rparr>\<rparr>))))"

definition ioctl_do_perf_get ::
  "('x) xenv_scheme \<Rightarrow> int \<Rightarrow> ('c, 's) est_scheme \<Rightarrow>
     int \<times> xdma_performance_ioctl option \<times> ('c, 's) est_scheme" where
  "ioctl_do_perf_get E left st =
     (if e_xdma_perf (eng st) = None then (- EPROTO, None, st)
      else (let st = get_perf_stats E st
            in if left \<noteq> 0 then (left, None, st) else (0, e_xdma_perf (eng st), st)))"

section \<open>Properties\<close>

lemma engine_alignments_frame [simp]:
  "e_desc (eng (engine_alignments E st)) = e_desc (eng st)"
  "e_desc_idx (eng (engine_alignments E st)) = e_desc_idx (eng st)"
  "e_desc_max (eng (engine_alignments E st)) = e_desc_max (eng st)"
  "e_transfer_list (eng (engine_alignments E st)) = e_transfer_list (eng st)"
  "e_running (eng (engine_alignments E st)) = e_running (eng st)"
  "e_shutdown (eng (engine_alignments E st)) = e_shutdown (eng st)"
  "e_magic (eng (engine_alignments E st)) = e_magic (eng st)"
  "e_dir (eng (engine_alignments E st)) = e_dir (eng st)"
  "e_channel (eng (engine_alignments E st)) = e_channel (eng st)"
  "e_cyclic_result (eng (engine_alignments E st)) = e_cyclic_result (eng st)"
  "e_streaming (eng (engine_alignments E st)) = e_streaming (eng st)"
  by (simp_all add: engine_alignments_def split_beta Let_def)

lemma init_regs_frame:
  "fst (engine_init_regs E st) = 0"
  "e_desc (eng (snd (engine_init_regs E st))) = e_desc (eng st)"
  "e_desc_idx (eng (snd (engine_init_regs E st))) = e_desc_idx (eng st)"
  "e_desc_max (eng (snd (engine_init_regs E st))) = e_desc_max (eng st)"
  "e_transfer_list (eng (snd (engine_init_regs E st))) = e_transfer_list (eng st)"
  "e_running (eng (snd (engine_init_regs E st))) = e_running (eng st)"
  "e_magic (eng (snd (engine_init_regs E st))) = e_magic (eng st)"
  "e_dir (eng (snd (engine_init_regs E st))) = e_dir (eng st)"
  "e_channel (eng (snd (engine_init_regs E st))) = e_channel (eng st)"
  "e_cyclic_result (eng (snd (engine_init_regs E st))) = e_cyclic_result (eng st)"
  "e_streaming (eng (snd (engine_init_regs E st))) = e_streaming (eng st)"
  by (simp_all add: engine_init_regs_def engine_writeback_setup_def split_beta Let_def)

text \<open>The buffers an engine holds.\<close>

definition holds_nothing :: "xdma_engine \<Rightarrow> bool" where
  "holds_nothing e \<longleftrightarrow> e_desc e = [] \<and> e_cyclic_result e = [] \<and> e_poll_mode_addr_virt e = None"

lemma free_resource_holds: "holds_nothing (engine_free_resource e)"
  by (simp add: holds_nothing_def engine_free_resource_def Let_def)

lemma alloc_resource_cases:
  "fst (engine_alloc_resource E m e) = 0 \<and>
     e_desc (snd (engine_alloc_resource E m e)) = replicate (e_desc_max e) zero_desc \<and>
     (streaming_c2h e \<longrightarrow>
        e_cyclic_result (snd (engine_alloc_resource E m e)) = replicate (e_desc_max e) zero_result) \<and>
     e_desc_max (snd (engine_alloc_resource E m e)) = e_desc_max e \<and>
     e_desc_idx (snd (engine_alloc_resource E m e)) = e_desc_idx e \<and>
     e_transfer_list (snd (engine_alloc_resource E m e)) = e_transfer_list e \<and>
     e_running (snd (engine_alloc_resource E m e)) = e_running e \<and>
     e_magic (snd (engine_alloc_resource E m e)) = e_magic e \<and>
     e_streaming (snd (engine_alloc_resource E m e)) = e_streaming e \<and>
     e_dir (snd (engine_alloc_resource E m e)) = e_dir e \<and>
     e_channel (snd (engine_alloc_resource E m e)) = e_channel e \<or>
   fst (engine_alloc_resource E m e) = - ENOMEM \<and> holds_nothing (snd (engine_alloc_resource E m e))"
  by (auto simp: engine_alloc_resource_def free_resource_holds streaming_c2h_def Let_def
      split: option.splits)

lemma init_ident_facts:
  assumes "eng st = zero_engine"
    and "engine_init_ident E offset dir channel dc st = (dc', st')"
  shows "dc_engines_num dc' = Suc (dc_engines_num dc)" "e_desc_idx (eng st') = 0"
    "e_transfer_list (eng st') = []" "\<not> e_running (eng st')" "e_magic (eng st') = MAGIC_ENGINE"
    "e_dir (eng st') = dir" "e_desc_max (eng st') \<in> {0x3FF, 0x800}" "e_channel (eng st') = channel"
proof -
  have e: "dc' = fst (engine_init_ident E offset dir channel dc st)"
    "st' = snd (engine_init_ident E offset dir channel dc st)"
    using assms(2) by simp_all
  show "dc_engines_num dc' = Suc (dc_engines_num dc)" "e_magic (eng st') = MAGIC_ENGINE"
    "e_dir (eng st') = dir" "e_desc_max (eng st') \<in> {0x3FF, 0x800}" "e_channel (eng st') = channel"
    unfolding e engine_init_ident_def Let_def split_beta by simp_all
  show "e_desc_idx (eng st') = 0" "e_transfer_list (eng st') = []" "\<not> e_running (eng st')"
    unfolding e engine_init_ident_def Let_def split_beta assms(1) by (simp_all add: zero_engine_def)
qed

lemma engine_init_facts:
  assumes "eng st = zero_engine"
  shows "case engine_init E m thp offset dir channel dc st of (rv, dc', st') \<Rightarrow>
    dc_engines_num dc' = Suc (dc_engines_num dc) \<and>
    (if rv = 0
     then ring_ok (eng st') \<and> e_desc_max (eng st') \<in> {0x3FF, 0x800} \<and>
       e_magic (eng st') = MAGIC_ENGINE \<and> e_dir (eng st') = dir \<and> e_channel (eng st') = channel \<and>
       e_transfer_list (eng st') = [] \<and> \<not> e_running (eng st') \<and>
       (streaming_c2h (eng st') \<longrightarrow> length (e_cyclic_result (eng st')) = e_desc_max (eng st'))
     else rv = - ENOMEM \<and> holds_nothing (eng st'))"
proof -
  obtain dc1 st1 where i: "engine_init_ident E offset dir channel dc st = (dc1, st1)" by fastforce
  obtain rv e where al: "engine_alloc_resource E m (eng st1) = (rv, e)" by fastforce
  note c = alloc_resource_cases [of E m "eng st1", unfolded al fst_conv snd_conv]
  note id = init_ident_facts [OF assms i]
  have s: "eng (st1\<lparr>eng := e\<rparr>) = e" by simp
  note f = init_regs_frame [of E "st1\<lparr>eng := e\<rparr>", unfolded s]
  let ?st = "snd (engine_init_regs E (st1\<lparr>eng := e\<rparr>))"
  have run: "engine_init E m thp offset dir channel dc st = (if rv \<noteq> 0 then (rv, dc1, st1\<lparr>eng := e\<rparr>)
      else (0, dc1, if poll_mode E then ?st\<lparr>eng := attach_thread thp (eng ?st)\<rparr> else ?st))"
    using f(1) by (simp add: engine_init_def i al split_beta Let_def)
  have st: "streaming_c2h (eng ?st) = streaming_c2h e"
    "streaming_c2h (attach_thread thp (eng ?st)) = streaming_c2h e"
    using f by (simp_all add: streaming_c2h_def attach_thread_def)
  show ?thesis
    using c
  proof
    assume a: "rv = - ENOMEM \<and> holds_nothing e"
    then show ?thesis unfolding run using id(1) by simp
  next
    let ?ok = "rv = 0 \<and> e_desc e = replicate (e_desc_max (eng st1)) zero_desc \<and>
      (streaming_c2h (eng st1) \<longrightarrow> e_cyclic_result e = replicate (e_desc_max (eng st1)) zero_result) \<and>
      e_desc_max e = e_desc_max (eng st1) \<and> e_desc_idx e = e_desc_idx (eng st1) \<and>
      e_transfer_list e = e_transfer_list (eng st1) \<and> e_running e = e_running (eng st1) \<and>
      e_magic e = e_magic (eng st1) \<and> e_streaming e = e_streaming (eng st1) \<and> e_dir e = e_dir (eng st1) \<and>
      e_channel e = e_channel (eng st1)"
    assume a: ?ok
    moreover have "streaming_c2h e = streaming_c2h (eng st1)" using a by (simp add: streaming_c2h_def)
    moreover have "0 < e_desc_max (eng st1)" using id(7) by auto
    ultimately show ?thesis unfolding run using f st id by (simp add: ring_ok_def attach_thread_def)
  qed
qed

text \<open>
  C40 (functional). Creating an engine on zeroed memory either succeeds and establishes what the
  transfer code relies on: a valid index into a ring of exactly \<open>desc_max\<close> descriptors
  (1023 with credits, else 2048), write-back results for a receiving stream, the magic number,
  the channel's number, an empty queue; or it fails for lack of memory, and then the engine holds no buffer.
\<close>
theorem engine_init_establishes:
  assumes "eng st = zero_engine"
  shows "case engine_init E m thp offset dir channel dc st of (rv, dc', st') \<Rightarrow>
    dc_engines_num dc' = Suc (dc_engines_num dc) \<and>
    (if rv = 0
     then ring_ok (eng st') \<and> e_desc_max (eng st') \<in> {0x3FF, 0x800} \<and>
       e_magic (eng st') = MAGIC_ENGINE \<and> e_dir (eng st') = dir \<and> e_channel (eng st') = channel \<and>
       e_transfer_list (eng st') = [] \<and> \<not> e_running (eng st') \<and>
       (streaming_c2h (eng st') \<longrightarrow> length (e_cyclic_result (eng st')) = e_desc_max (eng st'))
     else rv = - ENOMEM \<and> holds_nothing (eng st'))"
  using assms by (rule engine_init_facts)

definition fresh_sample :: "nat est" where
  "fresh_sample = (sample_est zero_engine 0)\<lparr>xdev_cfg := IOM 1 0\<rparr>"

lemma engine_init_establishes_witness:
  "case engine_init (sample_env 0x8000 0) \<lparr>dm_desc = Some 0x10000, dm_poll = None, dm_result = None\<rparr> 0
     0 DMA_TO_DEVICE 2 \<lparr>dc_idx = 0, dc_engines_num = 3, dc_mask_irq_h2c = 0, dc_mask_irq_c2h = 0\<rparr>
     fresh_sample of (rv, dc', st') \<Rightarrow> dc_engines_num dc' = 4"
  using engine_init_establishes [where st = fresh_sample and E = "sample_env 0x8000 0"
      and m = "\<lparr>dm_desc = Some 0x10000, dm_poll = None, dm_result = None\<rparr>" and thp = 0 and offset = 0
      and dir = DMA_TO_DEVICE and channel = 2
      and dc = "\<lparr>dc_idx = 0, dc_engines_num = 3, dc_mask_irq_h2c = 0, dc_mask_irq_c2h = 0\<rparr>"]
  by (auto simp: fresh_sample_def sample_est_def split: prod.splits)

lemma length_perf_descriptors [simp]: "length (perf_descriptors n bus buf len dir ds) = length ds"
  by (simp add: perf_descriptors_def Let_def)

lemma perf_descriptors_nth:
  assumes "0 < n" and "n \<le> length ds" and "i < n"
  shows "addr_of (d_next_hi (perf_descriptors n bus buf len dir ds ! i))
      (d_next_lo (perf_descriptors n bus buf len dir ds ! i)) = desc_addr bus (Suc i mod n)"
    and "d_bytes (perf_descriptors n bus buf len dir ds ! i) = len"
    and "d_control (perf_descriptors n bus buf len dir ds ! i) = DESC_MAGIC"
proof -
  let ?d0 = "transfer_desc_init 0 n bus ds"
  let ?d1 = "array_for 0 n (\<lambda>_ d. xdma_desc_set d buf 0 len dir) ?d0"
  let ?d2 = "?d1[0 := snd (xdma_desc_control_set (?d1 ! 0) 0)]"
  have eq: "perf_descriptors n bus buf len dir ds =
      ?d2[n - 1 := xdma_desc_link (?d2 ! (n - 1)) (Some bus)]"
    by (simp add: perf_descriptors_def Let_def)
  have set: "d_next_lo (xdma_desc_set d a ep l dr) = d_next_lo d"
    "d_next_hi (xdma_desc_set d a ep l dr) = d_next_hi d"
    "d_control (xdma_desc_set d a ep l dr) = d_control d" "d_bytes (xdma_desc_set d a ep l dr) = l"
    for d a ep l dr
    by (simp_all add: xdma_desc_set_def Let_def split: dma_data_direction.splits)
  have d1: "?d1 ! j = xdma_desc_set (?d0 ! j) buf 0 len dir" if "j < n" for j
    using that assms by (simp add: nth_array_for)
  have d0: "d_control (?d0 ! j) = DESC_MAGIC"
    "Suc j < n \<Longrightarrow> d_next_lo (?d0 ! j) = PCI_DMA_L (desc_addr bus (Suc j))"
    "Suc j < n \<Longrightarrow> d_next_hi (?d0 ! j) = PCI_DMA_H (desc_addr bus (Suc j))" if "j < n" for j
    using that assms by (simp_all add: nth_transfer_desc_init)
  have cs: "snd (xdma_desc_control_set d 0) = d\<lparr>d_control := d_control d AND NOT 0xFF\<rparr>" for d
    by (simp add: xdma_desc_control_set_def)
  have len1: "0 < length ?d1" using assms(1,2) by (simp only: length_array_for length_transfer_desc_init)
  have pick: "?d2 ! j = (if j = 0 then (?d1 ! 0)\<lparr>d_control := d_control (?d1 ! 0) AND NOT 0xFF\<rparr>
      else ?d1 ! j)" for j
    unfolding nth_update_pick [OF len1] cs by (rule refl)
  have c1: "d_control (?d1 ! j) = DESC_MAGIC" if "j < n" for j
    unfolding d1 [OF that] set by (rule d0(1) [OF that])
  have d2: "d_next_lo (?d2 ! j) = d_next_lo (?d0 ! j) \<and> d_next_hi (?d2 ! j) = d_next_hi (?d0 ! j) \<and>
    d_control (?d2 ! j) = DESC_MAGIC \<and> d_bytes (?d2 ! j) = len" if "j < n" for j
  proof (cases "j = 0")
    case True
    have "?d2 ! j = (?d1 ! j)\<lparr>d_control := d_control (?d1 ! j) AND NOT 0xFF\<rparr>"
      unfolding pick True if_P [OF refl] by (rule refl)
    then show ?thesis using c1 [OF that] d1 [OF that] set by simp
  next
    case False
    have "?d2 ! j = ?d1 ! j" unfolding pick using False by (simp only: if_False)
    then show ?thesis using c1 [OF that] d1 [OF that] set by simp
  qed
  let ?p = "perf_descriptors n bus buf len dir ds ! i"
  have "addr_of (d_next_hi ?p) (d_next_lo ?p) = desc_addr bus (Suc i mod n) \<and>
      d_bytes ?p = len \<and> d_control ?p = DESC_MAGIC"
  proof (cases "Suc i = n")
    case True
    then have p: "?p = xdma_desc_link (?d2 ! i) (Some bus)" unfolding eq using assms by auto
    show ?thesis
      unfolding p using True d2 [OF assms(3)] by (simp add: xdma_desc_link_def desc_addr_def Let_def)
  next
    case False
    then have p: "?p = ?d2 ! i" unfolding eq using assms by auto
    show ?thesis
      unfolding p using False assms(3) d2 [OF assms(3)] d0 [OF assms(3)] by simp
  qed
  then show "addr_of (d_next_hi ?p) (d_next_lo ?p) = desc_addr bus (Suc i mod n)"
    and "d_bytes ?p = len" and "d_control ?p = DESC_MAGIC" by blast+
qed

text \<open>
  The descriptors of a performance run form a closed loop of \<open>n\<close>: each leads
  to the next and the last to the first, each moves the buffer's size, and none of them stops the
  engine, so the run goes on until it is stopped from outside.
\<close>
theorem perf_ring_cycle:
  "0 < n \<Longrightarrow> n \<le> length ds \<Longrightarrow> i < n \<Longrightarrow>
   addr_of (d_next_hi (perf_descriptors n bus buf len dir ds ! i))
     (d_next_lo (perf_descriptors n bus buf len dir ds ! i)) = desc_addr bus (Suc i mod n) \<and>
   d_bytes (perf_descriptors n bus buf len dir ds ! i) = len \<and>
   d_control (perf_descriptors n bus buf len dir ds ! i) AND XDMA_DESC_STOPPED = 0"
  by (simp add: perf_descriptors_nth)

lemma perf_ring_cycle_witness:
  "addr_of (d_next_hi (perf_descriptors 4 0x1000 0 64 DMA_TO_DEVICE (replicate 4 zero_desc) ! 3))
     (d_next_lo (perf_descriptors 4 0x1000 0 64 DMA_TO_DEVICE (replicate 4 zero_desc) ! 3)) = 0x1000"
  using perf_ring_cycle [of 4 "replicate 4 zero_desc" 3 "0x1000" 0 64 DMA_TO_DEVICE]
  by (simp add: desc_addr_def)

text \<open>
  A performance run that cannot be queued (the device is offline) loses the engine's
  descriptor ring: the pointer to the preallocated ring is cleared although the ring is not freed,
  and the measurement stays marked as running, so that no other can be started.
\<close>
theorem perf_submit_failure_loses_ring:
  fixes st :: "('c, 's) est_scheme"
  assumes "e_desc (eng st) \<noteq> []" and "xdev_flags st AND XDEV_FLAG_OFFLINE \<noteq> 0"
    and "pm_buf m \<noteq> None" and "pm_transfer m \<noteq> None" and "e_xdma_perf (eng st) = None"
    and "p_version p = IOCTL_XDMA_PERF_V1" and "unat (p_transfer_size p) \<le> PERF_MAX_SIZE"
  shows "fst (ioctl_do_perf_start E False m (Some p) st) < 0 \<and>
    e_desc (eng (snd (ioctl_do_perf_start E False m (Some p) st))) = [] \<and>
    e_xdma_perf (eng (snd (ioctl_do_perf_start E False m (Some p) st))) = Some p \<and>
    fst (ioctl_do_perf_start E False m' user (snd (ioctl_do_perf_start E False m (Some p) st))) = - EBUSY"
proof -
  let ?s = "enable_perf E (st\<lparr>eng := (eng st)\<lparr>e_xdma_perf := Some p\<rparr>\<rparr>)"
  let ?r = "xdma_performance_submit E m p ?s"
  have s: "eng ?s = (eng st)\<lparr>e_xdma_perf := Some p\<rparr>" "xdev_flags ?s = xdev_flags st"
    by (simp_all add: enable_perf_def split_beta Let_def)
  have start: "ioctl_do_perf_start E False m (Some p) st = ?r"
    using assms(5,6) by (simp add: ioctl_do_perf_start_def Let_def)
  have q: "fst (transfer_queue E t s') < 0" "snd (transfer_queue E t s') = s'"
    if "xdev_flags s' = xdev_flags st" for t and s' :: "('c, 's) est_scheme"
    using transfer_queue_refused [of s' t E] that assms(2) by simp_all
  have r: "fst ?r < 0 \<and> e_desc (eng (snd ?r)) = [] \<and> e_xdma_perf (eng (snd ?r)) = Some p"
    using assms(1,3,4,7) s q
    by (auto simp: xdma_performance_submit_def split_beta Let_def drop_perf_buf_def)
  then have "fst (ioctl_do_perf_start E False m' user (snd ?r)) = - EBUSY"
    by (simp add: ioctl_do_perf_start_def)
  with r show ?thesis unfolding start by blast
qed

lemma perf_submit_failure_loses_ring_witness:
  "e_desc (eng (snd (ioctl_do_perf_start (sample_env 0 0) False
     \<lparr>pm_buf = Some 0x8000, pm_transfer = Some (9, 0), pm_desc = None\<rparr>
     (Some (zero_perf\<lparr>p_version := 1, p_transfer_size := 64\<rparr>))
     ((sample_est sample_engine 2)\<lparr>xdev_flags := XDEV_FLAG_OFFLINE\<rparr>)))) = []"
  using perf_submit_failure_loses_ring [of "(sample_est sample_engine 2)\<lparr>xdev_flags := XDEV_FLAG_OFFLINE\<rparr>"
      "\<lparr>pm_buf = Some 0x8000, pm_transfer = Some (9, 0), pm_desc = None\<rparr>"
      "zero_perf\<lparr>p_version := 1, p_transfer_size := 64\<rparr>" "sample_env 0 0"]
  by (simp add: sample_est_def sample_engine_def zero_perf_def)

end
