(* ===== verification/Xdma_Dev.thy ===== *)
theory Xdma_Dev
  imports Xdma_Setup
begin

text \<open>
  The device (\<^verbatim>\<open>struct xdma_dev\<close>) and its BARs: mapping them, finding the
  configuration BAR by its identifiers and telling the user and bypass BARs from their place.
\<close>

section \<open>The device\<close>

record xdma_user_irq =
  ui_user_idx :: nat
  ui_events_irq :: bool
  ui_handler :: "nat option"
  ui_dev :: nat

text \<open>
  Who a granted interrupt line belongs to: \<open>dev_id\<close> of \<^verbatim>\<open>request_irq\<close>. The lines
  held, the work scheduled and the handlers called are part of the state, so that properties
  can speak of them.
\<close>

datatype irq_owner = Owner_h2c nat | Owner_c2h nat | Owner_user nat | Owner_dev

record xdma_dev =
  xd_magic :: u64
  xd_idx :: nat
  xd_flags :: u32
  xd_bar :: "nat option list"
  xd_user_bar_idx :: int
  xd_config_bar_idx :: int
  xd_bypass_bar_idx :: int
  xd_regions_in_use :: bool
  xd_got_regions :: bool
  xd_user_max :: nat
  xd_c2h_channel_max :: nat
  xd_h2c_channel_max :: nat
  xd_irq_count :: nat
  xd_irq_line :: int
  xd_msi_enabled :: bool
  xd_msix_enabled :: bool
  xd_user_irq :: "xdma_user_irq list"
  xd_mask_irq_user :: u32
  xd_engines_num :: nat
  xd_mask_irq_h2c :: u32
  xd_mask_irq_c2h :: u32
  xd_engine_h2c :: "xdma_engine list"
  xd_engine_c2h :: "xdma_engine list"
  xd_io :: iolog
  xd_irqs :: "(nat \<times> irq_owner) list"
  xd_works :: "(bool \<times> nat) list"
  xd_calls :: "(nat \<times> nat \<times> nat) list"
  xd_event_wakes :: "nat list"

abbreviation (input) XDMA_BAR_NUM :: nat where "XDMA_BAR_NUM \<equiv> 6"
abbreviation (input) XDMA_BAR_SIZE :: nat where "XDMA_BAR_SIZE \<equiv> 0x8000"
abbreviation (input) IRQ_BLOCK_ID :: u32 where "IRQ_BLOCK_ID \<equiv> 0x1fc20000"
abbreviation (input) CONFIG_BLOCK_ID :: u32 where "CONFIG_BLOCK_ID \<equiv> 0x1fc30000"
abbreviation (input) INT_MAX :: nat where "INT_MAX \<equiv> 0x7fffffff"

definition cfg_of :: "xdma_dev \<Rightarrow> iomem" where
  "cfg_of d = IOM (nat (xd_config_bar_idx d)) 0"

section \<open>BARs\<close>

definition unmap_bars :: "xdma_dev \<Rightarrow> xdma_dev" where
  "unmap_bars d = d\<lparr>xd_bar := map (\<lambda>b. case b of Some _ \<Rightarrow> None | None \<Rightarrow> None) (xd_bar d)\<rparr>"

text \<open>\<open>len i\<close> is the size of the PCI resource, \<open>maps i\<close> whether \<^verbatim>\<open>pci_iomap\<close> succeeds.\<close>

definition map_single_bar :: "(nat \<Rightarrow> nat) \<Rightarrow> (nat \<Rightarrow> bool) \<Rightarrow> nat \<Rightarrow> xdma_dev \<Rightarrow> int \<times> xdma_dev" where
  "map_single_bar len maps i d =
     (let bar_len = len i;
          d = d\<lparr>xd_bar := (xd_bar d)[i := None]\<rparr>
      in if bar_len = 0 then (0, d)
         else (let map_len = (if bar_len > INT_MAX then INT_MAX else bar_len)
               in if maps i then (int map_len, d\<lparr>xd_bar := (xd_bar d)[i := Some map_len]\<rparr>)
                  else (- 1, d)))"

definition is_config_bar :: "('x) xenv_scheme \<Rightarrow> nat \<Rightarrow> xdma_dev \<Rightarrow> bool \<times> xdma_dev" where
  "is_config_bar E i d =
     (let (irq_id, log) = read_register E (io_plus (io_plus (IOM i 0) XDMA_OFS_INT_CTRL)
                            (interrupt_regs IR_identifier)) (xd_io d);
          (cfg_id, log) = read_register E (io_plus (IOM i 0) XDMA_OFS_CONFIG) log
      in (irq_id AND 0xffff0000 = IRQ_BLOCK_ID \<and> cfg_id AND 0xffff0000 = CONFIG_BLOCK_ID,
          d\<lparr>xd_io := log\<rparr>))"

definition identify_bars :: "nat list \<Rightarrow> nat \<Rightarrow> xdma_dev \<Rightarrow> int \<times> xdma_dev" where
  "identify_bars ids config_bar_pos d =
     (let n = length ids in
      (0, if n = 2 then
            (if config_bar_pos = 0 then d\<lparr>xd_bypass_bar_idx := int (ids ! 1)\<rparr>
             else if config_bar_pos = 1 then d\<lparr>xd_user_bar_idx := int (ids ! 0)\<rparr> else d)
          else if n = 3 \<or> n = 4 then
            (if config_bar_pos = 1 \<or> config_bar_pos = 2
             then d\<lparr>xd_user_bar_idx := int (ids ! 0), xd_bypass_bar_idx := int (ids ! (n - 1))\<rparr>
             else d)
          else d))"

text \<open>The scan of the BARs from \<open>i\<close> on: the identifiers found so far, the place of the config BAR.\<close>

fun scan_bars ::
  "('x) xenv_scheme \<Rightarrow> (nat \<Rightarrow> nat) \<Rightarrow> (nat \<Rightarrow> bool) \<Rightarrow> nat \<Rightarrow> nat \<Rightarrow> nat list \<Rightarrow> nat \<Rightarrow> xdma_dev \<Rightarrow>
     int \<times> nat list \<times> nat \<times> xdma_dev" where
  "scan_bars E len maps 0 i ids pos d = (0, ids, pos, d)"
| "scan_bars E len maps (Suc n) i ids pos d =
     (let (bar_len, d) = map_single_bar len maps i d
      in if bar_len = 0 then scan_bars E len maps n (Suc i) ids pos d
         else if bar_len < 0 then (- EINVAL, ids, pos, d)
         else (let (found, d) = (if bar_len \<ge> int XDMA_BAR_SIZE \<and> xd_config_bar_idx d < 0
                                 then is_config_bar E i d else (False, d));
                   (pos, d) = (if found then (length ids, d\<lparr>xd_config_bar_idx := int i\<rparr>) else (pos, d))
               in scan_bars E len maps n (Suc i) (ids @ [i]) pos d))"

definition map_bars ::
  "('x) xenv_scheme \<Rightarrow> (nat \<Rightarrow> nat) \<Rightarrow> (nat \<Rightarrow> bool) \<Rightarrow> xdma_dev \<Rightarrow> int \<times> xdma_dev" where
  "map_bars E len maps d =
     (let (rv, ids, pos, d) = scan_bars E len maps XDMA_BAR_NUM 0 [] 0 d
      in if rv < 0 then (rv, unmap_bars d)
         else if xd_config_bar_idx d < 0 then (- EINVAL, unmap_bars d)
         else identify_bars ids pos d)"

section \<open>Properties\<close>

lemma unmap_bars_none: "\<forall>b \<in> set (xd_bar (unmap_bars d)). b = None"
  by (auto simp: unmap_bars_def split: option.splits)

lemma map_single_bar_frame:
  "xd_user_bar_idx (snd (map_single_bar len maps i d)) = xd_user_bar_idx d"
  "xd_bypass_bar_idx (snd (map_single_bar len maps i d)) = xd_bypass_bar_idx d"
  "xd_config_bar_idx (snd (map_single_bar len maps i d)) = xd_config_bar_idx d"
  "length (xd_bar (snd (map_single_bar len maps i d))) = length (xd_bar d)"
  "j \<noteq> i \<Longrightarrow> xd_bar (snd (map_single_bar len maps i d)) ! j = xd_bar d ! j"
  "i < length (xd_bar d) \<Longrightarrow> 0 < fst (map_single_bar len maps i d) \<Longrightarrow>
     xd_bar (snd (map_single_bar len maps i d)) ! i = Some (nat (fst (map_single_bar len maps i d)))"
  by (auto simp: map_single_bar_def Let_def split: if_splits)

lemma is_config_bar_frame [simp]:
  "xd_config_bar_idx (snd (is_config_bar E i d)) = xd_config_bar_idx d"
  "xd_bar (snd (is_config_bar E i d)) = xd_bar d"
  "xd_user_bar_idx (snd (is_config_bar E i d)) = xd_user_bar_idx d"
  "xd_bypass_bar_idx (snd (is_config_bar E i d)) = xd_bypass_bar_idx d"
  by (simp_all add: is_config_bar_def split_beta Let_def)

text \<open>What the scan keeps: the list is the mapped BARs in order, the config BAR is at its place.\<close>

definition scan_inv :: "nat \<Rightarrow> nat list \<Rightarrow> nat \<Rightarrow> xdma_dev \<Rightarrow> bool" where
  "scan_inv i ids pos d \<longleftrightarrow>
     length (xd_bar d) = XDMA_BAR_NUM \<and> distinct ids \<and>
     xd_user_bar_idx d = - 1 \<and> xd_bypass_bar_idx d = - 1 \<and>
     (\<forall>j \<in> set ids. j < i \<and> xd_bar d ! j \<noteq> None) \<and>
     (xd_config_bar_idx d < 0 \<or>
      pos < length ids \<and> xd_config_bar_idx d = int (ids ! pos) \<and>
      (\<exists>l. xd_bar d ! (ids ! pos) = Some l \<and> XDMA_BAR_SIZE \<le> l))"

lemma scan_bars_inv:
  "scan_inv i ids pos d \<Longrightarrow> i + n \<le> XDMA_BAR_NUM \<Longrightarrow>
   scan_bars E len maps n i ids pos d = (rv, ids', pos', d') \<Longrightarrow> 0 \<le> rv \<Longrightarrow>
   scan_inv (i + n) ids' pos' d'"
proof (induction E len maps n i ids pos d arbitrary: rv ids' pos' d' rule: scan_bars.induct)
  case (1 E len maps i ids pos d)
  then show ?case by simp
next
  case (2 E len maps n i ids pos d)
  obtain bl d1 where m: "map_single_bar len maps i d = (bl, d1)" by fastforce
  note f = map_single_bar_frame [where len = len and maps = maps and i = i and d = d, unfolded m,
      simplified]
  have no: "xd_user_bar_idx d = - 1" "xd_bypass_bar_idx d = - 1"
    using "2.prems"(1) by (simp_all add: scan_inv_def)
  have inv: "length (xd_bar d) = XDMA_BAR_NUM" "distinct ids"
    "\<And>j. j \<in> set ids \<Longrightarrow> j < i \<and> xd_bar d ! j \<noteq> None"
    "xd_config_bar_idx d < 0 \<or> pos < length ids \<and> xd_config_bar_idx d = int (ids ! pos) \<and>
      (\<exists>l. xd_bar d ! (ids ! pos) = Some l \<and> XDMA_BAR_SIZE \<le> l)"
    using "2.prems"(1) by (auto simp: scan_inv_def)
  have old: "xd_bar d1 ! j = xd_bar d ! j" if "j \<in> set ids" for j
    using f(5) inv(3) [OF that] by (metis less_irrefl)
  have cfg1: "xd_config_bar_idx d1 < 0 \<or> pos < length ids \<and> xd_config_bar_idx d1 = int (ids ! pos) \<and>
      (\<exists>l. xd_bar d1 ! (ids ! pos) = Some l \<and> XDMA_BAR_SIZE \<le> l)"
    using inv(4) f(3) old by (metis nth_mem)
  have i: "i < XDMA_BAR_NUM" "Suc i + n \<le> XDMA_BAR_NUM" using "2.prems"(2) by simp_all
  consider "bl = 0" | "bl < 0" | "0 < bl" by linarith
  then show ?case
  proof cases
    case 1
    have "scan_inv (Suc i) ids pos d1"
      using inv(1,2,3) no f(1,2,4) old cfg1 by (auto simp: scan_inv_def less_Suc_eq)
    then show ?thesis using "2.IH"(1) [OF m [symmetric] refl 1 _ i(2)] "2.prems"(3,4) m 1 by simp
  next
    case 2
    then show ?thesis using "2.prems"(3,4) m by simp
  next
    case 3
    let ?cand = "bl \<ge> int XDMA_BAR_SIZE \<and> xd_config_bar_idx d1 < 0"
    obtain found d2 where c: "(if ?cand then is_config_bar E i d1 else (False, d1)) = (found, d2)"
      by fastforce
    have d2e: "d2 = (if ?cand then snd (is_config_bar E i d1) else d1)"
      using c by (metis (full_types) snd_conv)
    have d2: "xd_config_bar_idx d2 = xd_config_bar_idx d1" "xd_bar d2 = xd_bar d1"
      "xd_user_bar_idx d2 = - 1" "xd_bypass_bar_idx d2 = - 1"
      unfolding d2e using no f(1,2) by simp_all
    have large: "?cand" if found using c that by (auto split: if_splits)
    have b: "xd_bar d1 ! i = Some (nat bl)" using f(6) i(1) inv(1) 3 by simp
    obtain p3 d3 where p: "(if found then (length ids, d2\<lparr>xd_config_bar_idx := int i\<rparr>) else (pos, d2)) =
        (p3, d3)" by fastforce
    have "scan_inv (Suc i) (ids @ [i]) p3 d3"
    proof (cases found)
      case True
      then have "p3 = length ids" "xd_config_bar_idx d3 = int i" "xd_bar d3 = xd_bar d1"
        "xd_user_bar_idx d3 = - 1" "xd_bypass_bar_idx d3 = - 1"
        using p d2 by auto
      then show ?thesis using inv(1,2,3) f(4) old b large True
        by (auto simp: scan_inv_def less_Suc_eq nth_append)
    next
      case False
      then have "p3 = pos" "d3 = d2" using p by auto
      then show ?thesis using inv(1,2,3) f(4) old b d2 cfg1
        by (auto simp: scan_inv_def less_Suc_eq nth_append)
    qed
    then show ?thesis
      using "2.IH"(2) [OF m [symmetric] refl _ _ c [symmetric] refl p [symmetric] refl _ i(2)]
        "2.prems"(3,4) m c p 3 by simp
  qed
qed

text \<open>
  Mapping the BARs of a device whose configuration BAR is not yet known either
  succeeds, with a mapped configuration BAR of at least 32 KiB, a user BAR (if any) that is mapped
  and is not the configuration BAR, and a bypass BAR (if any) that is mapped; or it fails and
  leaves no BAR mapped.
\<close>
theorem map_bars_result:
  assumes "length (xd_bar d) = XDMA_BAR_NUM" and "xd_config_bar_idx d = - 1"
    and "xd_user_bar_idx d = - 1" and "xd_bypass_bar_idx d = - 1"
  shows "case map_bars E len maps d of (rv, d') \<Rightarrow>
    if rv < 0 then (\<forall>b \<in> set (xd_bar d'). b = None)
    else 0 \<le> xd_config_bar_idx d' \<and>
      (\<exists>l. xd_bar d' ! nat (xd_config_bar_idx d') = Some l \<and> XDMA_BAR_SIZE \<le> l) \<and>
      (xd_user_bar_idx d' = - 1 \<or> xd_user_bar_idx d' \<noteq> xd_config_bar_idx d' \<and>
        xd_bar d' ! nat (xd_user_bar_idx d') \<noteq> None) \<and>
      (xd_bypass_bar_idx d' = - 1 \<or> xd_bar d' ! nat (xd_bypass_bar_idx d') \<noteq> None)"
proof -
  obtain rv ids pos d1 where sc: "scan_bars E len maps XDMA_BAR_NUM 0 [] 0 d = (rv, ids, pos, d1)"
    by (metis prod_cases4)
  have start: "scan_inv 0 [] 0 d" using assms by (simp add: scan_inv_def)
  show ?thesis
  proof (cases "rv < 0 \<or> xd_config_bar_idx d1 < 0")
    case True
    then show ?thesis using unmap_bars_none [of d1] sc by (auto simp: map_bars_def)
  next
    case False
    then have inv: "scan_inv XDMA_BAR_NUM ids pos d1"
      using scan_bars_inv [OF start _ sc] by simp
    then have ids: "distinct ids" "\<And>j. j \<in> set ids \<Longrightarrow> xd_bar d1 ! j \<noteq> None" "pos < length ids"
      "xd_config_bar_idx d1 = int (ids ! pos)" "xd_user_bar_idx d1 = - 1" "xd_bypass_bar_idx d1 = - 1"
      "\<exists>l. xd_bar d1 ! (ids ! pos) = Some l \<and> XDMA_BAR_SIZE \<le> l"
      using False by (auto simp: scan_inv_def)
    have mb: "map_bars E len maps d = identify_bars ids pos d1"
      using False sc by (simp add: map_bars_def)
    have ne: "ids ! 0 \<noteq> ids ! pos" if "pos \<noteq> 0"
      using that ids(1,3) by (metis gr_implies_not0 neq0_conv nth_eq_iff_index_eq)
    have mem: "xd_bar d1 ! (ids ! k) \<noteq> None" if "k < length ids" for k
      using ids(2) that by simp
    show ?thesis
      unfolding mb identify_bars_def Let_def
      using ids ne mem by (auto simp del: nth_mem)
  qed
qed

definition blank_dev :: xdma_dev where
  "blank_dev = \<lparr>xd_magic = MAGIC_DEVICE, xd_idx = 0, xd_flags = 0, xd_bar = replicate 6 None,
     xd_user_bar_idx = - 1, xd_config_bar_idx = - 1, xd_bypass_bar_idx = - 1,
     xd_regions_in_use = False, xd_got_regions = False, xd_user_max = 2, xd_c2h_channel_max = 1,
     xd_h2c_channel_max = 1, xd_irq_count = 0, xd_irq_line = - 1, xd_msi_enabled = False,
     xd_msix_enabled = True, xd_user_irq = map (\<lambda>i. \<lparr>ui_user_idx = i, ui_events_irq = False,
       ui_handler = None, ui_dev = 0\<rparr>) [0..<16], xd_mask_irq_user = 0, xd_engines_num = 0,
     xd_mask_irq_h2c = 0, xd_mask_irq_c2h = 0, xd_engine_h2c = replicate 4 zero_engine,
     xd_engine_c2h = replicate 4 zero_engine, xd_io = [], xd_irqs = [], xd_works = [],
     xd_calls = [], xd_event_wakes = []\<rparr>"

lemma map_bars_result_witness:
  "case map_bars (sample_env 0 0) (\<lambda>i. 0) (\<lambda>i. True) blank_dev of (rv, d') \<Rightarrow>
    rv < 0 \<longrightarrow> (\<forall>b \<in> set (xd_bar d'). b = None)"
  using map_bars_result [of blank_dev "sample_env 0 0" "\<lambda>i. 0" "\<lambda>i. True"]
  by (auto simp: blank_dev_def split: prod.splits if_splits)

text \<open>
  With three BARs the last of which is the configuration BAR, the bypass BAR is
  identified as the configuration BAR itself; in every other arrangement of distinct BARs the two
  differ.
\<close>
theorem identify_bars_bypass:
  assumes "distinct ids" and "pos < length ids" and "xd_config_bar_idx d = int (ids ! pos)"
    and "xd_bypass_bar_idx d = - 1"
  shows "xd_bypass_bar_idx (snd (identify_bars ids pos d)) = xd_config_bar_idx (snd (identify_bars ids pos d))
    \<longleftrightarrow> length ids = 3 \<and> pos = 2"
proof -
  have ne: "ids ! j = ids ! pos \<longleftrightarrow> j = pos" if "j < length ids" for j
    using that assms(1,2) nth_eq_iff_index_eq by blast
  show ?thesis
    using assms ne by (auto simp: identify_bars_def Let_def)
qed

lemma identify_bars_bypass_witness:
  "xd_bypass_bar_idx (snd (identify_bars [0, 1, 2] 2 (blank_dev\<lparr>xd_config_bar_idx := 2\<rparr>))) = 2"
  using identify_bars_bypass [of "[0, 1, 2]" 2 "blank_dev\<lparr>xd_config_bar_idx := 2\<rparr>"]
  by (simp add: blank_dev_def identify_bars_def)

end
