(* ===== verification/Xdma_Irq.thy ===== *)
theory Xdma_Irq
  imports Xdma_Dev
begin

text \<open>
  Interrupts: the handlers (\<^verbatim>\<open>user_irq_service\<close>, \<^verbatim>\<open>xdma_isr\<close>,
  \<^verbatim>\<open>xdma_user_irq\<close>, \<^verbatim>\<open>xdma_channel_irq\<close>), enabling MSI and MSI-X,
  programming the vector registers, requesting and releasing the interrupt lines, and the
  registration of user handlers. The kernel's answers are functions of the environment:
  \<open>grant v\<close> is what \<^verbatim>\<open>request_irq\<close> returns for vector \<open>v\<close>, \<open>vec i\<close> the
  vector of entry \<open>i\<close>.
\<close>

section \<open>Handlers\<close>

text \<open>The handler's own return value is \<open>ret\<close>; IRQ_NONE is 0 and IRQ_HANDLED 1.\<close>

abbreviation (input) IRQ_HANDLED :: int where "IRQ_HANDLED \<equiv> 1"

definition user_irq_service :: "(nat \<Rightarrow> int) \<Rightarrow> nat \<Rightarrow> xdma_dev \<Rightarrow> int \<times> xdma_dev" where
  "user_irq_service ret user d =
     (let u = xd_user_irq d ! user
      in case ui_handler u of
           Some h \<Rightarrow> (ret h, d\<lparr>xd_calls := (h, ui_user_idx u, ui_dev u) # xd_calls d\<rparr>)
         | None \<Rightarrow>
             (IRQ_HANDLED,
              if \<not> ui_events_irq u
              then d\<lparr>xd_user_irq := (xd_user_irq d)[user := u\<lparr>ui_events_irq := True\<rparr>],
                     xd_event_wakes := user # xd_event_wakes d\<rparr>
              else d))"

text \<open>The loop over the user interrupts: \<open>n\<close> of them left.\<close>

fun isr_users :: "(nat \<Rightarrow> int) \<Rightarrow> nat \<Rightarrow> nat \<Rightarrow> u32 \<Rightarrow> u32 \<Rightarrow> xdma_dev \<Rightarrow> xdma_dev" where
  "isr_users ret 0 user msk user_irq d = d"
| "isr_users ret (Suc n) user msk user_irq d =
     (if user_irq = 0 then d
      else if user_irq AND msk \<noteq> 0
      then isr_users ret n (Suc user) (push_bit 1 msk) (user_irq AND NOT msk)
             (snd (user_irq_service ret user d))
      else isr_users ret n (Suc user) (push_bit 1 msk) user_irq d)"

text \<open>The channels whose work the loop over the engines schedules.\<close>

fun isr_engines :: "xdma_engine list \<Rightarrow> nat \<Rightarrow> nat \<Rightarrow> u32 \<Rightarrow> nat list" where
  "isr_engines es 0 channel msk = []"
| "isr_engines es (Suc n) channel msk =
     (if msk = 0 then []
      else let e = es ! channel
           in if e_irq_bitmask e AND msk \<noteq> 0 \<and> e_magic e = MAGIC_ENGINE
              then channel # isr_engines es n (Suc channel) (msk AND NOT (e_irq_bitmask e))
              else isr_engines es n (Suc channel) msk)"

definition xdma_isr :: "('x) xenv_scheme \<Rightarrow> (nat \<Rightarrow> int) \<Rightarrow> xdma_dev \<Rightarrow> int \<times> xdma_dev" where
  "xdma_isr E ret d =
     (let cfg = cfg_of d;
          (ch_irq, log) = read_register E (int_reg cfg IR_channel_int_request) (xd_io d);
          log = (if ch_irq \<noteq> 0 then channel_interrupts_disable cfg ch_irq log else log);
          (user_irq, log) = read_register E (int_reg cfg IR_user_int_request) log;
          d = d\<lparr>xd_io := log\<rparr>;
          d = (if user_irq \<noteq> 0 then isr_users ret (xd_user_max d) 0 1 user_irq d else d);
          h2c = isr_engines (xd_engine_h2c d) (xd_h2c_channel_max d) 0 (ch_irq AND xd_mask_irq_h2c d);
          c2h = isr_engines (xd_engine_c2h d) (xd_c2h_channel_max d) 0 (ch_irq AND xd_mask_irq_c2h d)
      in (IRQ_HANDLED,
          d\<lparr>xd_works := xd_works d @ map (Pair True) h2c @ map (Pair False) c2h,
            xd_irq_count := Suc (xd_irq_count d)\<rparr>))"

definition xdma_user_irq_handler :: "(nat \<Rightarrow> int) \<Rightarrow> nat \<Rightarrow> xdma_dev \<Rightarrow> int \<times> xdma_dev" where
  "xdma_user_irq_handler ret user d = user_irq_service ret user d"

definition xdma_channel_irq ::
  "('x) xenv_scheme \<Rightarrow> bool \<Rightarrow> nat \<Rightarrow> xdma_dev \<Rightarrow> int \<times> xdma_dev" where
  "xdma_channel_irq E h2c channel d =
     (let e = (if h2c then xd_engine_h2c d else xd_engine_c2h d) ! channel;
          log = write_register (e_interrupt_enable_mask_value e)
                  (io_plus (e_regs e) (engine_regs ER_interrupt_enable_mask_w1c)) (xd_io d);
          (_, log) = read_register E (int_reg (cfg_of d) IR_channel_int_pending) log
      in (IRQ_HANDLED,
          d\<lparr>xd_io := log, xd_works := xd_works d @ [(h2c, channel)],
            xd_irq_count := Suc (xd_irq_count d)\<rparr>))"

section \<open>Enabling message signalled interrupts\<close>

text \<open>
  \<open>no_msi\<close> and the bus flags of the path to the root, the answer of the architecture's check
  and of the capability search.
\<close>

record pci_msi =
  pm_no_msi :: bool
  pm_bus_no_msi :: "bool list"
  pm_arch_check :: int
  pm_has_msix :: bool
  pm_has_msi :: bool
  pm_alloc_vectors :: int
  pm_enable_msi :: int

definition msi_msix_capable :: "pci_msi \<Rightarrow> bool \<Rightarrow> bool" where
  "msi_msix_capable p has_cap \<longleftrightarrow>
     \<not> pm_no_msi p \<and> \<not> list_ex id (pm_bus_no_msi p) \<and> pm_arch_check p = 0 \<and> has_cap"

definition enable_msi_msix :: "('x) xenv_scheme \<Rightarrow> pci_msi \<Rightarrow> xdma_dev \<Rightarrow> int \<times> xdma_dev" where
  "enable_msi_msix E p d =
     (if (interrupt_mode E = 3 \<or> interrupt_mode E = 0) \<and> msi_msix_capable p (pm_has_msix p)
      then (pm_alloc_vectors p, d\<lparr>xd_msix_enabled := True\<rparr>)
      else if (interrupt_mode E = 1 \<or> interrupt_mode E = 0) \<and> msi_msix_capable p (pm_has_msi p)
      then (pm_enable_msi p, d\<lparr>xd_msi_enabled := True\<rparr>)
      else (0, d))"

definition disable_msi_msix :: "xdma_dev \<Rightarrow> xdma_dev" where
  "disable_msi_msix d =
     (if xd_msix_enabled d then d\<lparr>xd_msix_enabled := False\<rparr>
      else if xd_msi_enabled d then d\<lparr>xd_msi_enabled := False\<rparr> else d)"

section \<open>Programming the vectors\<close>

text \<open>Up to \<open>k\<close> vector numbers from \<open>i\<close> on, a byte each.\<close>

fun fill_vector :: "nat \<Rightarrow> nat \<Rightarrow> nat \<Rightarrow> nat \<Rightarrow> u32 \<Rightarrow> nat \<times> u32" where
  "fill_vector 0 i mx shift val = (i, val)"
| "fill_vector (Suc k) i mx shift val =
     (if i < mx then fill_vector k (Suc i) mx (shift + 8) (val OR push_bit shift (of_nat i AND 0x1f))
      else (i, val))"

lemma fill_vector_fst: "i \<le> mx \<Longrightarrow> fst (fill_vector k i mx shift val) = min (i + k) mx"
  by (induction k arbitrary: i shift val) auto

function prog_vectors ::
  "iomem \<Rightarrow> (nat \<Rightarrow> interrupt_reg) \<Rightarrow> bool \<Rightarrow> nat \<Rightarrow> nat \<Rightarrow> nat \<Rightarrow> iolog \<Rightarrow> iolog" where
  "prog_vectors cfg reg clear i mx j log =
     (if i < mx
      then (let (i', val) = (if clear then (i + 4, 0) else fill_vector 4 i mx 0 0)
            in prog_vectors cfg reg clear i' mx (Suc j)
                 (write_register val (int_reg cfg (reg j)) log))
      else log)"
  by pat_completeness auto
termination
  by (relation "measure (\<lambda>(cfg, reg, clear, i, mx, j, log). mx - i)")
     (auto split: if_splits dest!: arg_cong [where f = fst] simp: fill_vector_fst)

declare prog_vectors.simps [simp del]

definition prog_irq_msix_user :: "bool \<Rightarrow> xdma_dev \<Rightarrow> xdma_dev" where
  "prog_irq_msix_user clear d =
     (let i = xd_c2h_channel_max d + xd_h2c_channel_max d
      in d\<lparr>xd_io := prog_vectors (cfg_of d) IR_user_msi_vector clear i (i + xd_user_max d) 0 (xd_io d)\<rparr>)"

definition prog_irq_msix_channel :: "bool \<Rightarrow> xdma_dev \<Rightarrow> xdma_dev" where
  "prog_irq_msix_channel clear d =
     d\<lparr>xd_io := prog_vectors (cfg_of d) IR_channel_msi_vector clear 0
                 (xd_c2h_channel_max d + xd_h2c_channel_max d) 0 (xd_io d)\<rparr>"

section \<open>Requesting and releasing the lines\<close>

definition request_irq :: "(nat \<Rightarrow> int) \<Rightarrow> nat \<Rightarrow> irq_owner \<Rightarrow> xdma_dev \<Rightarrow> int \<times> xdma_dev" where
  "request_irq grant v owner d =
     (if grant v \<noteq> 0 then (grant v, d) else (0, d\<lparr>xd_irqs := (v, owner) # xd_irqs d\<rparr>))"

definition free_irq :: "nat \<Rightarrow> irq_owner \<Rightarrow> xdma_dev \<Rightarrow> xdma_dev" where
  "free_irq v owner d = d\<lparr>xd_irqs := remove1 (v, owner) (xd_irqs d)\<rparr>"

definition set_irq_line :: "bool \<Rightarrow> nat \<Rightarrow> nat \<Rightarrow> xdma_dev \<Rightarrow> xdma_dev" where
  "set_irq_line h2c i v d =
     (if h2c then d\<lparr>xd_engine_h2c := (xd_engine_h2c d)[i := (xd_engine_h2c d ! i)\<lparr>e_msix_irq_line := of_nat v\<rparr>]\<rparr>
      else d\<lparr>xd_engine_c2h := (xd_engine_c2h d)[i := (xd_engine_c2h d ! i)\<lparr>e_msix_irq_line := of_nat v\<rparr>]\<rparr>)"

definition chan_owner :: "bool \<Rightarrow> nat \<Rightarrow> irq_owner" where
  "chan_owner h2c i = (if h2c then Owner_h2c i else Owner_c2h i)"

text \<open>One of the two loops of the channel setup: entry \<open>j\<close> of the vectors for channel \<open>i\<close>.\<close>

fun setup_channels ::
  "(nat \<Rightarrow> int) \<Rightarrow> (nat \<Rightarrow> nat) \<Rightarrow> bool \<Rightarrow> nat \<Rightarrow> nat \<Rightarrow> nat \<Rightarrow> xdma_dev \<Rightarrow> int \<times> xdma_dev" where
  "setup_channels grant vec h2c 0 i j d = (0, d)"
| "setup_channels grant vec h2c (Suc n) i j d =
     (let (rv, d) = request_irq grant (vec j) (chan_owner h2c i) d
      in if rv \<noteq> 0 then (rv, d)
         else setup_channels grant vec h2c n (Suc i) (Suc j) (set_irq_line h2c i (vec j) d))"

definition irq_msix_channel_setup ::
  "(nat \<Rightarrow> int) \<Rightarrow> (nat \<Rightarrow> nat) \<Rightarrow> xdma_dev \<Rightarrow> int \<times> xdma_dev" where
  "irq_msix_channel_setup grant vec d =
     (if \<not> xd_msix_enabled d then (0, d)
      else (let (rv, d) = setup_channels grant vec True (xd_h2c_channel_max d) 0 0 d
            in if rv \<noteq> 0 then (rv, d)
               else setup_channels grant vec False (xd_c2h_channel_max d) 0 (xd_h2c_channel_max d) d))"

fun teardown_channels :: "bool \<Rightarrow> nat \<Rightarrow> nat \<Rightarrow> xdma_dev \<Rightarrow> xdma_dev" where
  "teardown_channels h2c 0 i d = d"
| "teardown_channels h2c (Suc n) i d =
     (let line = e_msix_irq_line ((if h2c then xd_engine_h2c d else xd_engine_c2h d) ! i)
      in if line = 0 then d
         else teardown_channels h2c n (Suc i) (free_irq (unat line) (chan_owner h2c i) d))"

definition irq_msix_channel_teardown :: "xdma_dev \<Rightarrow> xdma_dev" where
  "irq_msix_channel_teardown d =
     (if \<not> xd_msix_enabled d then d
      else (let d = prog_irq_msix_channel True d;
                d = teardown_channels True (xd_h2c_channel_max d) 0 d
            in teardown_channels False (xd_c2h_channel_max d) 0 d))"

text \<open>The user lines: \<open>i\<close> of them are held when the request for the next one fails.\<close>

fun setup_users ::
  "(nat \<Rightarrow> int) \<Rightarrow> (nat \<Rightarrow> nat) \<Rightarrow> nat \<Rightarrow> nat \<Rightarrow> nat \<Rightarrow> xdma_dev \<Rightarrow> int \<times> nat \<times> xdma_dev" where
  "setup_users grant vec base 0 i d = (0, i, d)"
| "setup_users grant vec base (Suc n) i d =
     (let (rv, d) = request_irq grant (vec (base + i)) (Owner_user i) d
      in if rv \<noteq> 0 then (rv, i, d) else setup_users grant vec base n (Suc i) d)"

fun free_users_down :: "(nat \<Rightarrow> nat) \<Rightarrow> nat \<Rightarrow> nat \<Rightarrow> xdma_dev \<Rightarrow> xdma_dev" where
  "free_users_down vec base 0 d = d"
| "free_users_down vec base (Suc i) d =
     free_users_down vec base i (free_irq (vec (base + i)) (Owner_user i) d)"

definition irq_msix_user_setup ::
  "(nat \<Rightarrow> int) \<Rightarrow> (nat \<Rightarrow> nat) \<Rightarrow> xdma_dev \<Rightarrow> int \<times> xdma_dev" where
  "irq_msix_user_setup grant vec d =
     (let base = xd_h2c_channel_max d + xd_c2h_channel_max d;
          (rv, i, d) = setup_users grant vec base (xd_user_max d) 0 d
      in if rv \<noteq> 0 then (rv, free_users_down vec base i d) else (rv, d))"

definition irq_msix_user_teardown :: "(nat \<Rightarrow> nat) \<Rightarrow> xdma_dev \<Rightarrow> xdma_dev" where
  "irq_msix_user_teardown vec d =
     (if \<not> xd_msix_enabled d then d
      else (let base = xd_h2c_channel_max d + xd_c2h_channel_max d;
                d = prog_irq_msix_user True d
            in fold (\<lambda>i d. free_irq (vec (base + i)) (Owner_user i) d) [0..<xd_user_max d] d))"

text \<open>\<open>line\<close> is \<^verbatim>\<open>pdev->irq\<close>, \<open>pin\<close> the interrupt pin of the configuration space.\<close>

definition irq_msi_setup :: "(nat \<Rightarrow> int) \<Rightarrow> nat \<Rightarrow> xdma_dev \<Rightarrow> int \<times> xdma_dev" where
  "irq_msi_setup grant line d = request_irq grant line Owner_dev (d\<lparr>xd_irq_line := int line\<rparr>)"

definition irq_legacy_setup :: "(nat \<Rightarrow> int) \<Rightarrow> nat \<Rightarrow> u8 \<Rightarrow> xdma_dev \<Rightarrow> int \<times> xdma_dev" where
  "irq_legacy_setup grant line pin d =
     (if pin = 0 then (- EINVAL, d)
      else (let v = ucast (pin - 1) :: u32;
                w = push_bit 24 v OR push_bit 16 v OR push_bit 8 v OR v;
                bar = cfg_of d;
                d = (if pin > 1
                     then d\<lparr>xd_io := fold (\<lambda>off log. write_register w (io_plus bar off) log)
                             [0x2080, 0x2084, 0x2088, 0x208C, 0x20A0, 0x20A4] (xd_io d)\<rparr>
                     else d)
            in request_irq grant line Owner_dev (d\<lparr>xd_irq_line := int line\<rparr>)))"

definition irq_teardown :: "(nat \<Rightarrow> nat) \<Rightarrow> xdma_dev \<Rightarrow> xdma_dev" where
  "irq_teardown vec d =
     (if xd_msix_enabled d then irq_msix_user_teardown vec (irq_msix_channel_teardown d)
      else if xd_irq_line d \<noteq> - 1 then free_irq (nat (xd_irq_line d)) Owner_dev d else d)"

text \<open>\<^verbatim>\<open>pci_keep_intx_enabled\<close> only touches PCI configuration space.\<close>

definition irq_setup ::
  "(nat \<Rightarrow> int) \<Rightarrow> (nat \<Rightarrow> nat) \<Rightarrow> nat \<Rightarrow> u8 \<Rightarrow> xdma_dev \<Rightarrow> int \<times> xdma_dev" where
  "irq_setup grant vec line pin d =
     (if xd_msix_enabled d then
        (let (rv, d) = irq_msix_channel_setup grant vec d
         in if rv \<noteq> 0 then (rv, d)
            else (let (rv, d) = irq_msix_user_setup grant vec d
                  in if rv \<noteq> 0 then (rv, d)
                     else (0, prog_irq_msix_user False (prog_irq_msix_channel False d))))
      else if xd_msi_enabled d then irq_msi_setup grant line d
      else irq_legacy_setup grant line pin d)"

section \<open>User handlers\<close>

fun register_users :: "nat \<Rightarrow> nat \<Rightarrow> u32 \<Rightarrow> nat option \<Rightarrow> nat \<Rightarrow> xdma_dev \<Rightarrow> xdma_dev" where
  "register_users 0 i msk handler dev d = d"
| "register_users (Suc n) i msk handler dev d =
     (if msk = 0 then d
      else if push_bit i 1 AND msk = 0 then register_users n (Suc i) msk handler dev d
      else register_users n (Suc i) (msk AND NOT (push_bit i 1)) handler dev
             (d\<lparr>xd_user_irq := (xd_user_irq d)[i := (xd_user_irq d ! i)
                 \<lparr>ui_handler := handler, ui_dev := dev\<rparr>]\<rparr>))"

text \<open>\<open>chk\<close> is what \<^verbatim>\<open>debug_check_dev_hndl\<close> returns.\<close>

definition xdma_user_isr_register :: "int \<Rightarrow> u32 \<Rightarrow> nat option \<Rightarrow> nat \<Rightarrow> xdma_dev \<Rightarrow> int \<times> xdma_dev" where
  "xdma_user_isr_register chk msk handler dev d =
     (if chk < 0 then (- EINVAL, d) else (0, register_users (xd_user_max d) 0 msk handler dev d))"

definition xdma_user_isr_enable :: "('x) xenv_scheme \<Rightarrow> int \<Rightarrow> u32 \<Rightarrow> xdma_dev \<Rightarrow> int \<times> xdma_dev" where
  "xdma_user_isr_enable E chk msk d =
     (if chk < 0 then (- EINVAL, d)
      else (let d = d\<lparr>xd_mask_irq_user := xd_mask_irq_user d OR msk\<rparr>;
                log = user_interrupts_enable (cfg_of d) msk (xd_io d)
            in (0, d\<lparr>xd_io := snd (read_interrupts E (cfg_of d) log)\<rparr>)))"

definition xdma_user_isr_disable :: "('x) xenv_scheme \<Rightarrow> int \<Rightarrow> u32 \<Rightarrow> xdma_dev \<Rightarrow> int \<times> xdma_dev" where
  "xdma_user_isr_disable E chk msk d =
     (if chk < 0 then (- EINVAL, d)
      else (let d = d\<lparr>xd_mask_irq_user := xd_mask_irq_user d AND NOT msk\<rparr>;
                log = user_interrupts_disable (cfg_of d) msk (xd_io d)
            in (0, d\<lparr>xd_io := snd (read_interrupts E (cfg_of d) log)\<rparr>)))"

end
