(* ===== verification/Xdma_Irq_Spec.thy ===== *)
theory Xdma_Irq_Spec
  imports Xdma_Irq "HOL-Library.Multiset"
begin

text \<open>
  The properties of interrupt handling: the handler serves exactly the sources that fired, what
  is requested is released again, and what a failed setup leaves behind.
\<close>

section \<open>The handler\<close>

definition disjoint_masks :: "xdma_engine list \<Rightarrow> nat \<Rightarrow> bool" where
  "disjoint_masks es n \<longleftrightarrow>
     (\<forall>i < n. \<forall>j < n. i \<noteq> j \<longrightarrow> e_irq_bitmask (es ! i) AND e_irq_bitmask (es ! j) = 0)"

definition fired :: "xdma_engine list \<Rightarrow> u32 \<Rightarrow> nat \<Rightarrow> bool" where
  "fired es msk c \<longleftrightarrow> e_irq_bitmask (es ! c) AND msk \<noteq> 0 \<and> e_magic (es ! c) = MAGIC_ENGINE"

lemma and_not_disjoint:
  fixes a b m :: "'w::len word"
  assumes "a AND b = 0"
  shows "a AND (m AND NOT b) = a AND m"
proof (rule bit_word_eqI)
  fix k
  assume "k < LENGTH('w)"
  have "\<not> (bit a k \<and> bit b k)" using assms by (metis bit_and_iff bit_0_eq bot_apply bot_bool_def)
  then show "bit (a AND (m AND NOT b)) k = bit (a AND m) k"
    using \<open>k < LENGTH('w)\<close> by (auto simp: bit_simps)
qed

lemma isr_engines_filter:
  "disjoint_masks es mx \<Longrightarrow> ch + n \<le> mx \<Longrightarrow> isr_engines es n ch msk = filter (fired es msk) [ch..<ch + n]"
proof (induction n arbitrary: ch msk)
  case 0
  then show ?case by simp
next
  case (Suc n)
  have upt: "[ch..<ch + Suc n] = ch # [Suc ch..<Suc ch + n]" by (simp add: upt_conv_Cons)
  have le: "Suc ch + n \<le> mx" using Suc.prems(2) by simp
  show ?case
  proof (cases "fired es msk ch")
    case True
    let ?m = "msk AND NOT (e_irq_bitmask (es ! ch))"
    have "fired es ?m c = fired es msk c" if "c \<in> set [Suc ch..<Suc ch + n]" for c
    proof -
      have "e_irq_bitmask (es ! c) AND e_irq_bitmask (es ! ch) = 0"
      proof -
        have "c < mx" "ch < mx" "c \<noteq> ch" using Suc.prems(2) that by auto
        then show ?thesis using Suc.prems(1) unfolding disjoint_masks_def by blast
      qed
      then show ?thesis by (simp add: fired_def and_not_disjoint)
    qed
    then have "filter (fired es ?m) [Suc ch..<Suc ch + n] = filter (fired es msk) [Suc ch..<Suc ch + n]"
      by (rule filter_cong [OF refl])
    then have "isr_engines es n (Suc ch) ?m = filter (fired es msk) [Suc ch..<Suc ch + n]"
      using Suc.IH [OF Suc.prems(1) le, of ?m] by (rule trans [rotated])
    moreover have "isr_engines es (Suc n) ch msk = ch # isr_engines es n (Suc ch) ?m"
      using True by (auto simp: fired_def Let_def)
    ultimately show ?thesis unfolding upt using True by simp
  next
    case False
    have "filter (fired es 0) xs = []" for xs by (simp add: fired_def filter_empty_conv)
    then show ?thesis
      using False Suc.IH [OF Suc.prems(1) le, of msk] unfolding upt
      by (cases "msk = 0") (auto simp: fired_def Let_def simp del: upt_Suc)
  qed
qed

definition serve_users :: "(nat \<Rightarrow> int) \<Rightarrow> nat list \<Rightarrow> xdma_dev \<Rightarrow> xdma_dev" where
  "serve_users ret us d = fold (\<lambda>u d. snd (user_irq_service ret u d)) us d"

lemma and_push_one: "(w :: u32) AND push_bit u 1 \<noteq> 0 \<longleftrightarrow> bit w u"
  by (simp add: push_bit_eq_mult and_exp_eq_0_iff_not_bit)

lemma isr_users_step:
  "w \<noteq> 0 \<Longrightarrow> isr_users ret (Suc n) user (push_bit user 1) w d =
     (if bit w user
      then isr_users ret n (Suc user) (push_bit (Suc user) 1) (w AND NOT (push_bit user 1))
             (snd (user_irq_service ret user d))
      else isr_users ret n (Suc user) (push_bit (Suc user) 1) w d)"
proof -
  assume "w \<noteq> 0"
  have "push_bit 1 (push_bit user 1) = (push_bit (Suc user) 1 :: u32)"
    by (simp only: push_bit_push_bit plus_1_eq_Suc)
  then show ?thesis
    using \<open>w \<noteq> 0\<close> by (simp only: isr_users.simps and_push_one if_False)
qed

lemma isr_users_zero: "isr_users ret n user msk 0 d = d"
  by (cases n) simp_all

lemma isr_users_serve:
  "user + n \<le> 32 \<Longrightarrow> isr_users ret n user (push_bit user 1) w d =
     serve_users ret (filter (bit w) [user..<user + n]) d"
proof (induction n arbitrary: user w d)
  case 0
  then show ?case by (simp add: serve_users_def)
next
  case (Suc n)
  have upt: "[user..<user + Suc n] = user # [Suc user..<Suc user + n]" by (simp add: upt_conv_Cons)
  have le: "Suc user + n \<le> 32" "user < 32" using Suc.prems by simp_all
  show ?case
  proof (cases "w = 0")
    case True
    then show ?thesis by (simp add: serve_users_def isr_users_zero)
  next
    case nz: False
    let ?w = "w AND NOT (push_bit user 1)"
    have same: "filter (bit ?w) [Suc user..<Suc user + n] = filter (bit w) [Suc user..<Suc user + n]"
      by (rule filter_cong [OF refl]) (use le in \<open>auto simp: bit_simps\<close>)
    show ?thesis
      unfolding upt isr_users_step [OF nz] Suc.IH [OF le(1)] same
      by (cases "bit w user") (simp_all add: serve_users_def del: upt_Suc)
  qed
qed

definition user_calls :: "xdma_dev \<Rightarrow> nat list \<Rightarrow> (nat \<times> nat \<times> nat) list" where
  "user_calls d us = concat (map (\<lambda>u. case ui_handler (xd_user_irq d ! u) of
     Some h \<Rightarrow> [(h, ui_user_idx (xd_user_irq d ! u), ui_dev (xd_user_irq d ! u))] | None \<Rightarrow> []) us)"

definition user_after :: "nat list \<Rightarrow> nat \<Rightarrow> xdma_user_irq \<Rightarrow> xdma_user_irq" where
  "user_after us u x = (if u \<in> set us \<and> ui_handler x = None then x\<lparr>ui_events_irq := True\<rparr> else x)"

lemma service_frame [xdma_frame]:
  "xd_io (snd (user_irq_service ret u d)) = xd_io d"
  "xd_works (snd (user_irq_service ret u d)) = xd_works d"
  "xd_engine_h2c (snd (user_irq_service ret u d)) = xd_engine_h2c d"
  "xd_engine_c2h (snd (user_irq_service ret u d)) = xd_engine_c2h d"
  "xd_h2c_channel_max (snd (user_irq_service ret u d)) = xd_h2c_channel_max d"
  "xd_c2h_channel_max (snd (user_irq_service ret u d)) = xd_c2h_channel_max d"
  "xd_mask_irq_h2c (snd (user_irq_service ret u d)) = xd_mask_irq_h2c d"
  "xd_mask_irq_c2h (snd (user_irq_service ret u d)) = xd_mask_irq_c2h d"
  "length (xd_user_irq (snd (user_irq_service ret u d))) = length (xd_user_irq d)"
  by (auto simp: user_irq_service_def Let_def split: option.splits)

lemma serve_users_frame [xdma_frame]:
  "xd_io (serve_users ret us d) = xd_io d"
  "xd_works (serve_users ret us d) = xd_works d"
  "xd_engine_h2c (serve_users ret us d) = xd_engine_h2c d"
  "xd_engine_c2h (serve_users ret us d) = xd_engine_c2h d"
  "xd_h2c_channel_max (serve_users ret us d) = xd_h2c_channel_max d"
  "xd_c2h_channel_max (serve_users ret us d) = xd_c2h_channel_max d"
  "xd_mask_irq_h2c (serve_users ret us d) = xd_mask_irq_h2c d"
  "xd_mask_irq_c2h (serve_users ret us d) = xd_mask_irq_c2h d"
  by (induction us arbitrary: d) (simp_all add: serve_users_def xdma_frame)

lemma service_user_irq:
  assumes "v < length (xd_user_irq d)"
  shows "xd_user_irq (snd (user_irq_service ret u d)) ! v = user_after [u] v (xd_user_irq d ! v)"
  using assms
  by (cases "v = u") (auto simp: user_irq_service_def user_after_def Let_def split: option.splits)

lemma serve_users_user_irq:
  "v < length (xd_user_irq d) \<Longrightarrow>
     xd_user_irq (serve_users ret us d) ! v = user_after us v (xd_user_irq d ! v)"
proof (induction us arbitrary: d)
  case Nil
  then show ?case by (simp add: serve_users_def user_after_def)
next
  case (Cons u us)
  have "serve_users ret (u # us) d = serve_users ret us (snd (user_irq_service ret u d))"
    by (simp add: serve_users_def)
  then show ?case
    using Cons by (simp add: xdma_frame service_user_irq) (auto simp: user_after_def)
qed

lemma service_calls:
  "xd_calls (snd (user_irq_service ret u d)) = rev (user_calls d [u]) @ xd_calls d"
  by (auto simp: user_irq_service_def user_calls_def Let_def split: option.splits)

lemma user_calls_service:
  "\<forall>v \<in> set us. v < length (xd_user_irq d) \<Longrightarrow>
     user_calls (snd (user_irq_service ret u d)) us = user_calls d us"
  unfolding user_calls_def
  by (rule arg_cong [where f = concat], rule map_cong [OF refl])
     (auto simp: service_user_irq user_after_def split: option.splits)

lemma serve_users_calls:
  "\<forall>v \<in> set us. v < length (xd_user_irq d) \<Longrightarrow>
     xd_calls (serve_users ret us d) = rev (user_calls d us) @ xd_calls d"
proof (induction us arbitrary: d)
  case Nil
  then show ?case by (simp add: serve_users_def user_calls_def)
next
  case (Cons u us)
  have "serve_users ret (u # us) d = serve_users ret us (snd (user_irq_service ret u d))"
    by (simp add: serve_users_def)
  moreover have "user_calls d (u # us) = user_calls d [u] @ user_calls d us"
    by (simp add: user_calls_def)
  ultimately show ?case
    using Cons by (simp add: xdma_frame service_calls user_calls_service)
qed

lemma xdma_isr_run:
  assumes "disjoint_masks (xd_engine_h2c d) (xd_h2c_channel_max d)"
    and "disjoint_masks (xd_engine_c2h d) (xd_c2h_channel_max d)"
    and "xd_user_max d \<le> 32"
    and "ch = hw E (xd_io d) (int_reg (cfg_of d) IR_channel_int_request)"
    and "log1 = (if ch = 0 then [] else [Wr (int_reg (cfg_of d) IR_channel_int_enable_w1c) ch])
                  @ Rd (int_reg (cfg_of d) IR_channel_int_request) # xd_io d"
    and "us = filter (bit (hw E log1 (int_reg (cfg_of d) IR_user_int_request))) [0..<xd_user_max d]"
    and "ds = serve_users ret us (d\<lparr>xd_io := Rd (int_reg (cfg_of d) IR_user_int_request) # log1\<rparr>)"
  shows "xdma_isr E ret d =
      (IRQ_HANDLED, ds\<lparr>xd_works := xd_works d
         @ map (Pair True) (filter (fired (xd_engine_h2c d) (ch AND xd_mask_irq_h2c d)) [0..<xd_h2c_channel_max d])
         @ map (Pair False) (filter (fired (xd_engine_c2h d) (ch AND xd_mask_irq_c2h d)) [0..<xd_c2h_channel_max d]),
         xd_irq_count := Suc (xd_irq_count ds)\<rparr>)"
proof -
  let ?w = "hw E log1 (int_reg (cfg_of d) IR_user_int_request)"
  let ?d = "d\<lparr>xd_io := Rd (int_reg (cfg_of d) IR_user_int_request) # log1\<rparr>"
  have "isr_users ret (xd_user_max d) 0 1 ?w ?d = serve_users ret us ?d"
    using isr_users_serve [of 0 "xd_user_max d" ret ?w ?d] assms(3) unfolding assms(6) by simp
  then have users: "(if ?w \<noteq> 0 then isr_users ret (xd_user_max ?d) 0 1 ?w ?d else ?d) = ds"
    unfolding assms(7) by (cases "?w = 0") (simp_all add: isr_users_zero)
  have h2c: "isr_engines (xd_engine_h2c d) (xd_h2c_channel_max d) 0 m =
      filter (fired (xd_engine_h2c d) m) [0..<xd_h2c_channel_max d]" for m
    using isr_engines_filter [OF assms(1), of 0 "xd_h2c_channel_max d" m] by simp
  have c2h: "isr_engines (xd_engine_c2h d) (xd_c2h_channel_max d) 0 m =
      filter (fired (xd_engine_c2h d) m) [0..<xd_c2h_channel_max d]" for m
    using isr_engines_filter [OF assms(2), of 0 "xd_c2h_channel_max d" m] by simp
  have log: "(if ch \<noteq> 0 then channel_interrupts_disable (cfg_of d) ch
      (Rd (int_reg (cfg_of d) IR_channel_int_request) # xd_io d)
      else Rd (int_reg (cfg_of d) IR_channel_int_request) # xd_io d) = log1"
    unfolding assms(5) by (simp add: channel_interrupts_disable_def write_register_def)
  have frame: "xd_works ds = xd_works d" "xd_engine_h2c ds = xd_engine_h2c d"
    "xd_engine_c2h ds = xd_engine_c2h d" "xd_h2c_channel_max ds = xd_h2c_channel_max d"
    "xd_c2h_channel_max ds = xd_c2h_channel_max d" "xd_mask_irq_h2c ds = xd_mask_irq_h2c d"
    "xd_mask_irq_c2h ds = xd_mask_irq_c2h d"
    unfolding assms(7) by (simp_all add: xdma_frame)
  show ?thesis
    unfolding xdma_isr_def read_register_def Let_def prod.case assms(4) [symmetric] log users
      frame h2c c2h by (rule refl)
qed

text \<open>
  C38 (functional). One run of the legacy and MSI handler, where the engines of a direction have
  disjoint interrupt bits and there are at most 32 user interrupts: the channel request register
  is read first and, where it is not zero, exactly its bits are disabled before the user request
  register is read; the work of exactly the engines whose bit is in the request register, in
  the direction's mask and whose magic is set is scheduled, each once and in channel order;
  exactly the user interrupts whose bit is set are served, each once and in order, calling the
  handler of the ones that have one and flagging the event of the others.
\<close>
theorem xdma_isr_serves:
  assumes "disjoint_masks (xd_engine_h2c d) (xd_h2c_channel_max d)"
    and "disjoint_masks (xd_engine_c2h d) (xd_c2h_channel_max d)"
    and "xd_user_max d \<le> 32" and "xd_user_max d \<le> length (xd_user_irq d)"
    and "ch = hw E (xd_io d) (int_reg (cfg_of d) IR_channel_int_request)"
    and "log1 = (if ch = 0 then [] else [Wr (int_reg (cfg_of d) IR_channel_int_enable_w1c) ch])
                  @ Rd (int_reg (cfg_of d) IR_channel_int_request) # xd_io d"
    and "us = filter (bit (hw E log1 (int_reg (cfg_of d) IR_user_int_request))) [0..<xd_user_max d]"
    and "xdma_isr E ret d = (r, d')"
  shows "r = IRQ_HANDLED \<and>
    xd_io d' = Rd (int_reg (cfg_of d) IR_user_int_request) # log1 \<and>
    xd_works d' = xd_works d
      @ map (Pair True) (filter (fired (xd_engine_h2c d) (ch AND xd_mask_irq_h2c d)) [0..<xd_h2c_channel_max d])
      @ map (Pair False) (filter (fired (xd_engine_c2h d) (ch AND xd_mask_irq_c2h d)) [0..<xd_c2h_channel_max d]) \<and>
    xd_calls d' = rev (user_calls d us) @ xd_calls d \<and>
    (\<forall>u < length (xd_user_irq d). xd_user_irq d' ! u = user_after us u (xd_user_irq d ! u))"
proof -
  let ?d = "d\<lparr>xd_io := Rd (int_reg (cfg_of d) IR_user_int_request) # log1\<rparr>"
  have us: "\<forall>v \<in> set us. v < length (xd_user_irq ?d)"
    unfolding assms(7) using assms(4) by auto
  have "user_calls ?d us = user_calls d us" by (simp add: user_calls_def cong: option.case_cong)
  then have calls: "xd_calls (serve_users ret us ?d) = rev (user_calls d us) @ xd_calls d"
    using serve_users_calls [OF us, of ret] by simp
  have d': "(r, d') = xdma_isr E ret d" by (simp only: assms(8))
  show ?thesis
    using d' unfolding xdma_isr_run [OF assms(1-3,5-7) refl]
    by (simp add: xdma_frame calls serve_users_user_irq)
qed

definition isr_dev :: xdma_dev where
  "isr_dev = blank_dev\<lparr>xd_engine_h2c := [zero_engine\<lparr>e_magic := MAGIC_ENGINE, e_irq_bitmask := 1\<rparr>],
     xd_engine_c2h := [zero_engine\<lparr>e_magic := MAGIC_ENGINE, e_irq_bitmask := 2\<rparr>],
     xd_mask_irq_h2c := 1, xd_mask_irq_c2h := 2\<rparr>"

lemma xdma_isr_serves_witness:
  "xd_works (snd (xdma_isr (sample_env 3 0) (\<lambda>_. 1) isr_dev)) = [(True, 0), (False, 0)]"
proof -
  have "disjoint_masks (xd_engine_h2c isr_dev) (xd_h2c_channel_max isr_dev)"
    "disjoint_masks (xd_engine_c2h isr_dev) (xd_c2h_channel_max isr_dev)"
    "xd_user_max isr_dev \<le> 32" "xd_user_max isr_dev \<le> length (xd_user_irq isr_dev)"
    by (simp_all add: isr_dev_def blank_dev_def disjoint_masks_def)
  from xdma_isr_serves [OF this refl refl refl surjective_pairing, of "sample_env 3 0" "\<lambda>_. 1"]
  show ?thesis
    by (simp add: isr_dev_def blank_dev_def sample_env_def fired_def int_reg_def io_plus_def cfg_of_def
        upt_rec)
qed

section \<open>Setup and teardown\<close>

definition line_of :: "xdma_dev \<Rightarrow> bool \<Rightarrow> nat \<Rightarrow> u32" where
  "line_of d h2c c = e_msix_irq_line ((if h2c then xd_engine_h2c d else xd_engine_c2h d) ! c)"

definition chan_num :: "xdma_dev \<Rightarrow> bool \<Rightarrow> nat" where
  "chan_num d h2c = length (if h2c then xd_engine_h2c d else xd_engine_c2h d)"

text \<open>The part of the device that requesting and releasing lines leaves alone.\<close>

definition irq_shape :: "xdma_dev \<Rightarrow> bool \<times> bool \<times> nat \<times> nat \<times> nat \<times> nat \<times> nat \<times> int" where
  "irq_shape d = (xd_msix_enabled d, xd_msi_enabled d, xd_h2c_channel_max d, xd_c2h_channel_max d,
     xd_user_max d, chan_num d True, chan_num d False, xd_config_bar_idx d)"

lemma irq_shape_eqD:
  assumes "irq_shape d' = irq_shape d"
  shows "xd_msix_enabled d' = xd_msix_enabled d" "xd_msi_enabled d' = xd_msi_enabled d"
    "xd_h2c_channel_max d' = xd_h2c_channel_max d" "xd_c2h_channel_max d' = xd_c2h_channel_max d"
    "xd_user_max d' = xd_user_max d" "chan_num d' b = chan_num d b"
  using assms by (cases b; simp add: irq_shape_def)+

lemma request_irq_ok:
  "request_irq grant v ow d = (0, d') \<Longrightarrow> d' = d\<lparr>xd_irqs := (v, ow) # xd_irqs d\<rparr>"
  by (auto simp: request_irq_def split: if_splits)

lemma set_irq_line_line:
  "i < chan_num d h2c \<Longrightarrow> line_of (set_irq_line h2c i v d) b c =
     (if b = h2c \<and> c = i then of_nat v else line_of d b c)"
  by (auto simp: set_irq_line_def line_of_def chan_num_def nth_list_update)

lemma set_irq_line_frame [simp]:
  "irq_shape (set_irq_line h2c i v d) = irq_shape d"
  "xd_irqs (set_irq_line h2c i v d) = xd_irqs d"
  by (auto simp: set_irq_line_def irq_shape_def chan_num_def)

lemma shape_xd_irqs [simp]:
  "irq_shape (d\<lparr>xd_irqs := r\<rparr>) = irq_shape d" "line_of (d\<lparr>xd_irqs := r\<rparr>) = line_of d"
  "chan_num (d\<lparr>xd_irqs := r\<rparr>) = chan_num d"
  by (auto simp: irq_shape_def line_of_def chan_num_def fun_eq_iff)

text \<open>The lines \<open>n\<close> channels from \<open>i\<close> on hold, from entry \<open>j\<close> of the vectors.\<close>

definition held :: "(nat \<Rightarrow> nat) \<Rightarrow> bool \<Rightarrow> nat \<Rightarrow> nat \<Rightarrow> nat \<Rightarrow> (nat \<times> irq_owner) multiset" where
  "held vec h2c n i j = mset (map (\<lambda>k. (vec (j + k), chan_owner h2c (i + k))) [0..<n])"

lemma held_0 [simp]: "held vec h2c 0 i j = {#}"
  by (simp add: held_def)

lemma held_Suc: "held vec h2c (Suc n) i j = add_mset (vec j, chan_owner h2c i) (held vec h2c n (Suc i) (Suc j))"
  by (simp add: held_def upt_conv_Cons map_Suc_upt [symmetric] comp_def del: upt_Suc)

lemma setup_channels_ok:
  "setup_channels grant vec h2c n i j d = (0, d') \<Longrightarrow> i + n \<le> chan_num d h2c \<Longrightarrow>
     mset (xd_irqs d') = mset (xd_irqs d) + held vec h2c n i j \<and> irq_shape d' = irq_shape d \<and>
     (\<forall>b c. line_of d' b c =
        (if b = h2c \<and> i \<le> c \<and> c < i + n then of_nat (vec (j + (c - i))) else line_of d b c))"
proof (induction n arbitrary: i j d)
  case 0
  then show ?case by auto
next
  case (Suc n)
  obtain rv d1 where rq: "request_irq grant (vec j) (chan_owner h2c i) d = (rv, d1)" by fastforce
  with Suc.prems(1) have "rv = 0" by (auto split: if_splits)
  with rq have d1: "d1 = d\<lparr>xd_irqs := (vec j, chan_owner h2c i) # xd_irqs d\<rparr>"
    by (simp add: request_irq_ok)
  let ?d = "set_irq_line h2c i (vec j) d1"
  have sh: "irq_shape ?d = irq_shape d" by (simp add: d1)
  have run: "setup_channels grant vec h2c n (Suc i) (Suc j) ?d = (0, d')"
    using Suc.prems(1) rq \<open>rv = 0\<close> by simp
  have le: "Suc i + n \<le> chan_num ?d h2c"
    using Suc.prems(2) irq_shape_eqD(6) [OF sh] by simp
  have line: "line_of ?d b c = (if b = h2c \<and> c = i then of_nat (vec j) else line_of d b c)" for b c
    using Suc.prems(2) by (simp add: d1 set_irq_line_line)
  have "xd_irqs ?d = (vec j, chan_owner h2c i) # xd_irqs d" by (simp add: d1)
  moreover have "(if b = h2c \<and> Suc i \<le> c \<and> c < Suc i + n then of_nat (vec (Suc j + (c - Suc i)))
        else line_of ?d b c) =
      (if b = h2c \<and> i \<le> c \<and> c < i + Suc n then of_nat (vec (j + (c - i))) else line_of d b c)" for b c
  proof (cases "b = h2c \<and> Suc i \<le> c \<and> c < Suc i + n")
    case True
    then have "Suc i \<le> c" by simp
    then have "Suc j + (c - Suc i) = j + (c - i)" by arith
    with True show ?thesis by simp
  next
    case False
    then show ?thesis by (auto simp: line)
  qed
  ultimately show ?case
    using Suc.IH [OF run le] sh by (simp add: held_Suc)
qed

lemma mset_free_irq: "mset (xd_irqs (free_irq v ow d)) = mset (xd_irqs d) - {#(v, ow)#}"
  by (simp add: free_irq_def)

lemma free_irq_frame [simp]:
  "irq_shape (free_irq v ow d) = irq_shape d" "line_of (free_irq v ow d) = line_of d"
  by (simp_all add: free_irq_def)

lemma teardown_channels_frees:
  "(\<And>c. i \<le> c \<Longrightarrow> c < i + n \<Longrightarrow> line_of d h2c c = of_nat (vec (j + (c - i))) \<and>
       0 < vec (j + (c - i)) \<and> vec (j + (c - i)) < 2 ^ 32) \<Longrightarrow>
     mset (xd_irqs (teardown_channels h2c n i d)) = mset (xd_irqs d) - held vec h2c n i j \<and>
     irq_shape (teardown_channels h2c n i d) = irq_shape d \<and>
     line_of (teardown_channels h2c n i d) = line_of d"
proof (induction n arbitrary: i j d)
  case 0
  then show ?case by simp
next
  case (Suc n)
  have here: "line_of d h2c i = of_nat (vec j)" "0 < vec j" "vec j < 2 ^ 32"
    using Suc.prems [of i] by simp_all
  then have un: "unat (line_of d h2c i) = vec j" by (simp add: unat_of_nat_small)
  then have nz: "line_of d h2c i \<noteq> 0" using here(2) by auto
  let ?d = "free_irq (vec j) (chan_owner h2c i) d"
  have run: "teardown_channels h2c (Suc n) i d = teardown_channels h2c n (Suc i) ?d"
    using nz un by (simp add: line_of_def Let_def)
  have "line_of ?d h2c c = of_nat (vec (Suc j + (c - Suc i))) \<and> 0 < vec (Suc j + (c - Suc i)) \<and>
      vec (Suc j + (c - Suc i)) < 2 ^ 32" if "Suc i \<le> c" "c < Suc i + n" for c
    using Suc.prems [of c] that by (simp add: Suc_diff_Suc)
  from Suc.IH [OF this] show ?case
    unfolding run by (simp add: mset_free_irq held_Suc)
qed

definition users_held :: "(nat \<Rightarrow> nat) \<Rightarrow> nat \<Rightarrow> nat \<Rightarrow> nat \<Rightarrow> (nat \<times> irq_owner) multiset" where
  "users_held vec base i n = mset (map (\<lambda>k. (vec (base + k), Owner_user k)) [i..<i + n])"

lemma users_held_Suc:
  "users_held vec base i (Suc n) = add_mset (vec (base + i), Owner_user i) (users_held vec base (Suc i) n)"
  by (simp add: users_held_def upt_conv_Cons del: upt_Suc)

lemma setup_users_ok:
  "setup_users grant vec base n i d = (0, i', d') \<Longrightarrow>
     mset (xd_irqs d') = mset (xd_irqs d) + users_held vec base i n \<and>
     irq_shape d' = irq_shape d \<and> line_of d' = line_of d"
proof (induction n arbitrary: i d)
  case 0
  then show ?case by (simp add: users_held_def)
next
  case (Suc n)
  obtain rv d1 where rq: "request_irq grant (vec (base + i)) (Owner_user i) d = (rv, d1)" by fastforce
  with Suc.prems have "rv = 0" by (auto split: if_splits)
  with rq have d1: "d1 = d\<lparr>xd_irqs := (vec (base + i), Owner_user i) # xd_irqs d\<rparr>"
    by (simp add: request_irq_ok)
  then show ?case
    using Suc.IH [of "Suc i" d1] Suc.prems rq \<open>rv = 0\<close> by (simp add: users_held_Suc)
qed

lemma fold_free_users:
  "mset (xd_irqs (fold (\<lambda>i. free_irq (vec (base + i)) (Owner_user i)) [i..<i + n] d)) =
     mset (xd_irqs d) - users_held vec base i n"
proof (induction n arbitrary: i d)
  case 0
  then show ?case by (simp add: users_held_def)
next
  case (Suc n)
  then show ?case
    using Suc.IH [of "Suc i" "free_irq (vec (base + i)) (Owner_user i) d"]
    by (simp add: upt_conv_Cons users_held_Suc mset_free_irq del: upt_Suc)
qed

lemma prog_frame [simp]:
  "irq_shape (prog_irq_msix_user c d) = irq_shape d"
  "xd_irqs (prog_irq_msix_user c d) = xd_irqs d"
  "line_of (prog_irq_msix_user c d) = line_of d"
  "irq_shape (prog_irq_msix_channel c d) = irq_shape d"
  "xd_irqs (prog_irq_msix_channel c d) = xd_irqs d"
  "line_of (prog_irq_msix_channel c d) = line_of d"
  by (simp_all add: prog_irq_msix_user_def prog_irq_msix_channel_def Let_def irq_shape_def
      chan_num_def line_of_def fun_eq_iff)

lemma channel_setup_ok:
  assumes "irq_msix_channel_setup grant vec d = (0, d')" and "xd_msix_enabled d"
    and "xd_h2c_channel_max d \<le> chan_num d True" and "xd_c2h_channel_max d \<le> chan_num d False"
  shows "mset (xd_irqs d') = mset (xd_irqs d) + held vec True (xd_h2c_channel_max d) 0 0
           + held vec False (xd_c2h_channel_max d) 0 (xd_h2c_channel_max d) \<and>
         irq_shape d' = irq_shape d \<and>
         (\<forall>c < xd_h2c_channel_max d. line_of d' True c = of_nat (vec c)) \<and>
         (\<forall>c < xd_c2h_channel_max d. line_of d' False c = of_nat (vec (xd_h2c_channel_max d + c)))"
proof -
  obtain rv d1 where s1: "setup_channels grant vec True (xd_h2c_channel_max d) 0 0 d = (rv, d1)" by fastforce
  with assms(1,2) have "rv = 0" by (auto simp: irq_msix_channel_setup_def split: if_splits)
  with s1 have ok1: "mset (xd_irqs d1) = mset (xd_irqs d) + held vec True (xd_h2c_channel_max d) 0 0"
    "irq_shape d1 = irq_shape d" "\<forall>b c. line_of d1 b c =
       (if b = True \<and> c < xd_h2c_channel_max d then of_nat (vec c) else line_of d b c)"
    using setup_channels_ok [of grant vec True "xd_h2c_channel_max d" 0 0 d d1] assms(3) by auto
  note sh = irq_shape_eqD [OF ok1(2)]
  have s2: "setup_channels grant vec False (xd_c2h_channel_max d) 0 (xd_h2c_channel_max d) d1 = (0, d')"
    using assms(1,2) s1 \<open>rv = 0\<close> sh by (simp add: irq_msix_channel_setup_def)
  from setup_channels_ok [OF s2] assms(4) ok1 sh show ?thesis by auto
qed

lemma channel_teardown_frees:
  assumes "xd_msix_enabled d"
    and "\<forall>c < xd_h2c_channel_max d. line_of d True c = of_nat (vec c)"
    and "\<forall>c < xd_c2h_channel_max d. line_of d False c = of_nat (vec (xd_h2c_channel_max d + c))"
    and "\<And>j. j < xd_h2c_channel_max d + xd_c2h_channel_max d \<Longrightarrow> 0 < vec j \<and> vec j < 2 ^ 32"
  shows "mset (xd_irqs (irq_msix_channel_teardown d)) = mset (xd_irqs d)
           - held vec True (xd_h2c_channel_max d) 0 0
           - held vec False (xd_c2h_channel_max d) 0 (xd_h2c_channel_max d) \<and>
         irq_shape (irq_msix_channel_teardown d) = irq_shape d"
proof -
  let ?n = "xd_h2c_channel_max d" and ?m = "xd_c2h_channel_max d"
  let ?d = "prog_irq_msix_channel True d"
  let ?d1 = "teardown_channels True ?n 0 ?d"
  have t1: "mset (xd_irqs ?d1) = mset (xd_irqs d) - held vec True ?n 0 0 \<and>
      irq_shape ?d1 = irq_shape d \<and> line_of ?d1 = line_of d"
    using teardown_channels_frees [of 0 ?n ?d True vec 0] assms(2,4) by simp
  have t2: "mset (xd_irqs (teardown_channels False ?m 0 ?d1)) =
        mset (xd_irqs ?d1) - held vec False ?m 0 ?n \<and>
      irq_shape (teardown_channels False ?m 0 ?d1) = irq_shape ?d1"
    using teardown_channels_frees [of 0 ?m ?d1 False vec ?n] assms(3,4) t1 by simp
  have "xd_h2c_channel_max ?d = ?n" "xd_c2h_channel_max ?d1 = ?m"
    using t1 irq_shape_eqD(3) [OF prog_frame(4) [of True d]] by (simp_all add: irq_shape_def)
  with t1 t2 assms(1) show ?thesis
    by (simp add: irq_msix_channel_teardown_def Let_def)
qed

lemma irq_setup_msix_ok:
  fixes vec :: "nat \<Rightarrow> nat" and d :: xdma_dev
  defines "n \<equiv> xd_h2c_channel_max d" and "m \<equiv> xd_c2h_channel_max d"
  assumes "irq_setup grant vec line pin d = (0, d')" and "xd_msix_enabled d"
    and "n \<le> chan_num d True" and "m \<le> chan_num d False"
  shows "mset (xd_irqs d') = mset (xd_irqs d) + held vec True n 0 0 + held vec False m 0 n
            + users_held vec (n + m) 0 (xd_user_max d)"
    and "irq_shape d' = irq_shape d" and "\<forall>c < n. line_of d' True c = of_nat (vec c)"
    and "\<forall>c < m. line_of d' False c = of_nat (vec (n + c))"
proof -
  obtain r1 d1 where c: "irq_msix_channel_setup grant vec d = (r1, d1)" by fastforce
  obtain r2 i d2 where u: "setup_users grant vec (n + m) (xd_user_max d) 0 d1 = (r2, i, d2)"
    using prod_cases3 by blast
  have "r1 = 0" using assms(3,4) c by (auto simp: irq_setup_def split: if_splits)
  with c assms have ok1: "mset (xd_irqs d1) = mset (xd_irqs d) + held vec True n 0 0 + held vec False m 0 n"
    "irq_shape d1 = irq_shape d" "\<forall>c < n. line_of d1 True c = of_nat (vec c)"
    "\<forall>c < m. line_of d1 False c = of_nat (vec (n + c))"
    using channel_setup_ok [of grant vec d d1] by simp_all
  note sh1 = irq_shape_eqD [OF ok1(2)]
  have "r2 = 0"
    using assms(3,4) c u \<open>r1 = 0\<close> sh1
    by (auto simp: irq_setup_def irq_msix_user_setup_def Let_def n_def m_def split: if_splits)
  with u have ok2: "mset (xd_irqs d2) = mset (xd_irqs d1) + users_held vec (n + m) 0 (xd_user_max d)"
    "irq_shape d2 = irq_shape d1" "line_of d2 = line_of d1"
    using setup_users_ok [of grant vec "n + m" "xd_user_max d" 0 d1 i d2] by simp_all
  have d': "d' = prog_irq_msix_user False (prog_irq_msix_channel False d2)"
    using assms(3,4) c u \<open>r1 = 0\<close> \<open>r2 = 0\<close> sh1
    by (auto simp: irq_setup_def irq_msix_user_setup_def Let_def n_def m_def split: if_splits)
  show "mset (xd_irqs d') = mset (xd_irqs d) + held vec True n 0 0 + held vec False m 0 n
            + users_held vec (n + m) 0 (xd_user_max d)"
    by (simp add: d' ok2(1) ok1(1))
  show "irq_shape d' = irq_shape d" by (simp add: d' ok2(2) ok1(2))
  show "\<forall>c < n. line_of d' True c = of_nat (vec c)" using ok1(3) by (simp add: d' ok2(3))
  show "\<forall>c < m. line_of d' False c = of_nat (vec (n + c))" using ok1(4) by (simp add: d' ok2(3))
qed

lemma irq_teardown_msix:
  fixes vec :: "nat \<Rightarrow> nat" and d :: xdma_dev
  defines "n \<equiv> xd_h2c_channel_max d" and "m \<equiv> xd_c2h_channel_max d"
  assumes "xd_msix_enabled d" and "\<forall>c < n. line_of d True c = of_nat (vec c)"
    and "\<forall>c < m. line_of d False c = of_nat (vec (n + c))"
    and "\<And>j. j < n + m \<Longrightarrow> 0 < vec j \<and> vec j < 2 ^ 32"
  shows "mset (xd_irqs (irq_teardown vec d)) = mset (xd_irqs d) - held vec True n 0 0
           - held vec False m 0 n - users_held vec (n + m) 0 (xd_user_max d)"
proof -
  let ?d = "irq_msix_channel_teardown d"
  let ?u = "prog_irq_msix_user True ?d"
  have td: "mset (xd_irqs ?d) = mset (xd_irqs d) - held vec True n 0 0 - held vec False m 0 n"
    "irq_shape ?d = irq_shape d"
    using channel_teardown_frees [of d vec] assms by simp_all
  note sh = irq_shape_eqD [OF td(2)]
  have "xd_user_max ?u = xd_user_max d"
    using irq_shape_eqD(5) [OF prog_frame(1)] sh by simp
  then have "irq_teardown vec d =
      fold (\<lambda>i. free_irq (vec (n + m + i)) (Owner_user i)) [0..<xd_user_max d] ?u"
    using assms(3) sh by (simp add: irq_teardown_def irq_msix_user_teardown_def Let_def n_def m_def)
  then show ?thesis
    using fold_free_users [of vec "n + m" 0 "xd_user_max d" ?u] td(1) by simp
qed

text \<open>
  Releasing what a successful setup requested gives back exactly the interrupt
  lines held before, with MSI-X, with MSI and with the legacy line: no line is released twice and none
  is forgotten. With MSI-X the channels' vectors have to be nonzero and fit the engine's 32-bit
  field, because the teardown stops at the first engine whose line is 0.
\<close>
theorem irq_setup_teardown:
  assumes "irq_setup grant vec line pin d = (0, d')"
    and "xd_h2c_channel_max d \<le> length (xd_engine_h2c d)"
    and "xd_c2h_channel_max d \<le> length (xd_engine_c2h d)"
    and "\<And>j. j < xd_h2c_channel_max d + xd_c2h_channel_max d \<Longrightarrow> 0 < vec j \<and> vec j < 2 ^ 32"
  shows "mset (xd_irqs (irq_teardown vec d')) = mset (xd_irqs d)"
proof (cases "xd_msix_enabled d")
  case False
  then show ?thesis
    using assms(1) by (auto simp: irq_setup_def irq_msi_setup_def irq_legacy_setup_def Let_def
        request_irq_def irq_teardown_def free_irq_def split: if_splits)
next
  case True
  note ok = irq_setup_msix_ok [OF assms(1) True]
  note sh = irq_shape_eqD [OF ok(2)]
  show ?thesis
    using irq_teardown_msix [of d' vec] ok True sh assms(2-4) by (simp add: chan_num_def)
qed

definition irq_sample :: xdma_dev where
  "irq_sample = blank_dev\<lparr>xd_engine_h2c := replicate 4 zero_engine\<rparr>"

lemma irq_setup_teardown_witness:
  "fst (irq_setup (\<lambda>_. 0) (\<lambda>i. 40 + i) 9 1 irq_sample) = 0 \<and>
   mset (xd_irqs (irq_teardown (\<lambda>i. 40 + i) (snd (irq_setup (\<lambda>_. 0) (\<lambda>i. 40 + i) 9 1 irq_sample)))) = {#}"
proof -
  have run: "irq_setup (\<lambda>_. 0) (\<lambda>i. 40 + i) 9 1 irq_sample =
      (0, snd (irq_setup (\<lambda>_. 0) (\<lambda>i. 40 + i) 9 1 irq_sample))"
    by (simp add: irq_sample_def blank_dev_def irq_setup_def irq_msix_channel_setup_def
        irq_msix_user_setup_def request_irq_def set_irq_line_def numeral_2_eq_2)
  have "xd_h2c_channel_max irq_sample = 1" "xd_c2h_channel_max irq_sample = 1"
    "length (xd_engine_h2c irq_sample) = 4" "length (xd_engine_c2h irq_sample) = 4"
    "xd_irqs irq_sample = []"
    by (simp_all add: irq_sample_def blank_dev_def)
  then have "mset (xd_irqs (irq_teardown (\<lambda>i. 40 + i)
      (snd (irq_setup (\<lambda>_. 0) (\<lambda>i. 40 + i) 9 1 irq_sample)))) = {#}"
    using irq_setup_teardown [OF run] by simp
  with run show ?thesis by (metis fst_conv)
qed

text \<open>
  When the request for a channel's line fails after the first channel's was granted,
  the setup returns the error and the first channel's line stays requested: nothing releases it, as the
  failing probe calls no teardown.
\<close>
theorem irq_setup_failure_leaks:
  assumes "xd_msix_enabled d" and "2 \<le> xd_h2c_channel_max d"
    and "grant (vec 0) = 0" and "grant (vec 1) < 0" and "xd_irqs d = []"
  shows "case irq_setup grant vec line pin d of (rv, d') \<Rightarrow>
    rv = grant (vec 1) \<and> xd_irqs d' = [(vec 0, Owner_h2c 0)]"
proof -
  obtain k where "xd_h2c_channel_max d = Suc (Suc k)"
    using assms(2) by (metis Suc_le_D numeral_2_eq_2 Suc_le_mono)
  with assms show ?thesis
    by (simp add: irq_setup_def irq_msix_channel_setup_def request_irq_def set_irq_line_def chan_owner_def)
qed

lemma irq_setup_failure_leaks_witness:
  "xd_irqs (snd (irq_setup (\<lambda>v. if v = 40 then 0 else - 16) (\<lambda>i. 40 + i) 9 1
     (irq_sample\<lparr>xd_h2c_channel_max := 2\<rparr>))) = [(40, Owner_h2c 0)]"
  using irq_setup_failure_leaks [of "irq_sample\<lparr>xd_h2c_channel_max := 2\<rparr>"
      "\<lambda>v. if v = 40 then 0 else - 16" "\<lambda>i. 40 + i" 9 1]
  by (simp add: irq_sample_def blank_dev_def split: prod.splits)

end
