(* ===== verification/Xdma_Notify.thy ===== *)
theory Xdma_Notify
  imports Xdma_Xfer_Spec
begin

text \<open>
  What the owner of asynchronous requests observes of the engine: a service calls
  \<^verbatim>\<open>io_done\<close> for the requests whose last transfer it retires, in the order of the queue,
  and for no other.
\<close>

definition notify ::
  "('c, 'x) kenv_scheme \<Rightarrow> (xid \<Rightarrow> xdma_transfer) \<Rightarrow> xid \<Rightarrow> 'c \<Rightarrow> 'c" where
  "notify E xs t c =
     (case x_cb (xs t) of
        Some cb \<Rightarrow> if x_last_in_request (xs t) then io_done E cb 0 c else c
      | None \<Rightarrow> c)"

definition same_owner :: "(xid \<Rightarrow> xdma_transfer) \<Rightarrow> (xid \<Rightarrow> xdma_transfer) \<Rightarrow> bool" where
  "same_owner xs ys \<longleftrightarrow>
     (\<forall>t. x_cb (ys t) = x_cb (xs t) \<and> x_last_in_request (ys t) = x_last_in_request (xs t))"

definition notified ::
  "('c, 'x) kenv_scheme \<Rightarrow> ('c, 's) est_scheme \<Rightarrow> ('c, 's) est_scheme \<Rightarrow> bool" where
  "notified E st st' \<longleftrightarrow> same_owner (xfers st) (xfers st') \<and>
     (\<exists>n. e_transfer_list (eng st') = drop n (e_transfer_list (eng st)) \<and>
       client st' = fold (notify E (xfers st)) (take n (e_transfer_list (eng st))) (client st))"

lemma same_owner_refl [simp]: "same_owner xs xs"
  by (simp add: same_owner_def)

lemma same_owner_trans: "same_owner xs ys \<Longrightarrow> same_owner ys zs \<Longrightarrow> same_owner xs zs"
  by (simp add: same_owner_def)

lemma same_owner_update [simp]:
  "x_cb x = x_cb (xs t) \<Longrightarrow> x_last_in_request x = x_last_in_request (xs t) \<Longrightarrow>
     same_owner xs (xs(t := x))"
  by (simp add: same_owner_def)

lemma notify_same: "same_owner xs ys \<Longrightarrow> notify E ys = notify E xs"
  by (simp add: fun_eq_iff notify_def same_owner_def cong: option.case_cong)

lemma notified_frame:
  assumes "e_transfer_list (eng st') = e_transfer_list (eng st)"
    and "same_owner (xfers st) (xfers st')" and "client st' = client st"
  shows "notified E st st'"
  unfolding notified_def using assms by (intro conjI exI [of _ 0]) simp_all

lemma notified_head:
  assumes "e_transfer_list (eng st) = t # rest" and "e_transfer_list (eng st') = rest"
    and "same_owner (xfers st) (xfers st')" and "client st' = notify E (xfers st) t (client st)"
  shows "notified E st st'"
  unfolding notified_def using assms by (intro conjI exI [of _ 1]) simp_all

lemma notified_trans [trans]:
  assumes "notified E st st'" and "notified E st' st''"
  shows "notified E st st''"
proof -
  from assms(1) obtain n where n: "same_owner (xfers st) (xfers st')"
      "e_transfer_list (eng st') = drop n (e_transfer_list (eng st))"
      "client st' = fold (notify E (xfers st)) (take n (e_transfer_list (eng st))) (client st)"
    unfolding notified_def by blast
  from assms(2) obtain m where m: "same_owner (xfers st') (xfers st'')"
      "e_transfer_list (eng st'') = drop m (e_transfer_list (eng st'))"
      "client st'' = fold (notify E (xfers st')) (take m (e_transfer_list (eng st'))) (client st')"
    unfolding notified_def by blast
  have "e_transfer_list (eng st'') = drop (n + m) (e_transfer_list (eng st))"
    unfolding m(2) n(2) by (simp add: add.commute)
  moreover have "client st'' = fold (notify E (xfers st)) (take (n + m) (e_transfer_list (eng st))) (client st)"
    unfolding m(3) n(2,3) notify_same [OF n(1), of E] by (simp add: take_add)
  ultimately show ?thesis
    unfolding notified_def using same_owner_trans [OF n(1) m(1)] by blast
qed

lemma completion_client:
  "client (snd (engine_transfer_completion E (Some t) st)) = notify E (xfers st) t (client st)"
  "xfers (snd (engine_transfer_completion E tr st)) = xfers st"
  by (auto simp: engine_transfer_completion_def notify_def wake_up_def Let_def split: option.splits)

lemma client_set_xfer [simp]: "client (set_xfer t x st) = client st"
  by (simp add: set_xfer_def)

lemma client_del_head [simp]: "client (del_head st) = client st"
  by (simp add: del_head_def)

lemma client_add_dequeued [simp]: "client (add_dequeued n st) = client st"
  by (simp add: add_dequeued_def)

lemma retire_one_notified:
  "e_transfer_list (eng st) = t # rest \<Longrightarrow> notified E st (retire_one E t st)"
  by (rule notified_head)
     (auto simp: retire_one_def completion_client notify_def Let_def del_head_def set_xfer_def
       cong: option.case_cong)

lemma service_list_notified:
  assumes "head_of st = tr"
    and "engine_service_transfer_list E tr pc st = (tr', pc', st')"
  shows "notified E st st' \<and> tr' = head_of st'"
  using assms
proof (induction E tr pc st arbitrary: tr' pc' st' rule: engine_service_transfer_list.induct)
  case (1 E pc st)
  then show ?case by (auto simp: engine_service_transfer_list.simps intro: notified_frame)
next
  case (2 E t pc st)
  from "2.prems"(1) obtain rest where q: "e_transfer_list (eng st) = t # rest"
    by (auto simp: head_of_def split: list.splits)
  note unfold = engine_service_transfer_list.simps(2) [of E t pc st]
  let ?st = "retire_one E t st" and ?pc = "pc - of_nat (x_desc_num (xfers st t))"
  have r: "notified E st ?st" by (rule retire_one_notified [OF q])
  consider (stop) "\<not> (\<not> x_cyclic (xfers st t) \<and> unat pc > x_desc_num (xfers st t))"
    | (last) "\<not> x_cyclic (xfers st t) \<and> unat pc > x_desc_num (xfers st t)" "rest = []"
    | (go) h l where "\<not> x_cyclic (xfers st t) \<and> unat pc > x_desc_num (xfers st t)" "rest = h # l"
    by (cases rest) blast+
  then show ?case
  proof cases
    case stop
    then have "st' = st" "tr' = Some t" using unfold "2.prems"(2) by auto
    then show ?thesis using "2.prems"(1) by (auto intro: notified_frame)
  next
    case last
    then have "tr' = None" "st' = ?st" using unfold q "2.prems"(2) by auto
    with r last q show ?thesis by (simp add: head_of_def)
  next
    case go
    then have "engine_service_transfer_list E (Some h) ?pc ?st = (tr', pc', st')"
      using unfold q "2.prems"(2) by simp
    then have "notified E ?st st' \<and> tr' = head_of st'"
      using "2.IH" [OF refl go(1) refl refl] q go(2) by (simp add: head_of_def)
    with r notified_trans show ?thesis by blast
  qed
qed

lemma transfer_del_notified:
  assumes "e_transfer_list (eng st) = t # rest" and "e_transfer_list (eng st') = t # rest"
    and "same_owner (xfers st) (xfers st')" and "client st' = client st"
  shows "notified E st (snd (transfer_del E t st'))"
  by (rule notified_head [OF assms(1)])
     (use assms notify_same [OF assms(3), of E] in
       \<open>simp_all add: transfer_del_def completion_client\<close>)

lemma err_handle_client [simp]: "client (snd (engine_err_handle E t st)) = client st"
  by (simp add: engine_err_handle_def Let_def)

lemma final_transfer_notified:
  assumes "tr = head_of st"
  shows "notified E st (snd (engine_service_final_transfer E tr pc st))"
proof (cases tr)
  case None
  then show ?thesis by (auto simp: engine_service_final_transfer_def intro: notified_frame)
next
  case (Some t)
  with assms obtain rest where q: "e_transfer_list (eng st) = t # rest"
    by (auto simp: head_of_def split: list.splits)
  note del = transfer_del_notified [OF q, where E = E]
  consider (err) "status_error (eng st)"
    | (short) "\<not> status_error (eng st)" "unat pc < x_desc_num (xfers st t)"
        "\<not> e_eop_flush (eng st)"
    | (flush) "\<not> status_error (eng st)" "unat pc < x_desc_num (xfers st t)" "e_eop_flush (eng st)"
    | (all) "\<not> status_error (eng st)" "\<not> unat pc < x_desc_num (xfers st t)"
    by blast
  then show ?thesis
  proof cases
    case err
    then show ?thesis unfolding Some
      by (simp add: engine_service_final_transfer_def del: fun_upd_apply) (rule del, simp_all add: q)
  next
    case short
    then show ?thesis unfolding Some
      by (simp add: engine_service_final_transfer_def Let_def del: fun_upd_apply)
         (rule del, simp_all add: q)
  next
    case flush
    then show ?thesis unfolding Some
      by (simp add: engine_service_final_transfer_def Let_def split_beta del: fun_upd_apply)
         (intro conjI impI notified_frame del; simp add: q)
  next
    case all
    then show ?thesis unfolding Some
      by (simp add: engine_service_final_transfer_def Let_def del: fun_upd_apply)
         (rule del, simp_all add: q)
  qed
qed

lemma resume_client [simp]: "client (snd (engine_service_resume E st)) = client st"
  by (auto simp: engine_service_resume_def wake_up_def split_beta Let_def)

lemma perf_client [simp]: "client (snd (engine_service_perf n st)) = client st"
  by (auto simp: engine_service_perf_def wake_up_def Let_def split: option.splits)

lemma service_queue_notified: "notified E st (service_queue E pc st)"
proof -
  let ?s1 = "if head_of st = None then st else snd (engine_service_perf pc st)"
  let ?n = "pc - e_desc_dequeued (eng ?s1)"
  obtain tr n s2 where loop: "engine_service_transfer_list E (head_of st) ?n ?s1 = (tr, n, s2)"
    by (cases "engine_service_transfer_list E (head_of st) ?n ?s1") auto
  let ?s3 = "snd (engine_service_final_transfer E tr n s2)"
  have 1: "notified E st ?s1" by (rule notified_frame) simp_all
  have h: "head_of ?s1 = head_of st" by (simp add: head_of_def)
  have 2: "notified E ?s1 s2" "tr = head_of s2"
    using service_list_notified [OF h loop] by simp_all
  have 3: "notified E s2 ?s3" by (rule final_transfer_notified [OF 2(2)])
  have 4: "notified E ?s3 (snd (engine_service_resume E ?s3))" by (rule notified_frame) simp_all
  have "service_queue E pc st = snd (engine_service_resume E ?s3)"
    using loop by (simp add: service_queue_def Let_def split_beta)
  then show ?thesis
    using notified_trans [OF 1 notified_trans [OF 2(1) notified_trans [OF 3 4]]] by simp
qed

lemma service_notified: "notified E st (snd (engine_service E wb st))"
proof (cases rule: engine_service_cases [where st = st and E = E and wb = wb])
  case idle
  then show ?thesis by (simp add: notified_frame)
next
  case (zero s)
  then show ?thesis by (simp add: notified_frame)
next
  case (queue s n)
  then have "notified E st s" by (simp add: notified_frame)
  with queue(5) service_queue_notified notified_trans show ?thesis by metis
qed

section \<open>The ring is left alone\<close>

definition ring_of :: "xdma_engine \<Rightarrow> xdma_desc list \<times> nat \<times> nat" where
  "ring_of e = (e_desc e, e_desc_idx e, e_desc_max e)"

lemma ring_of_ok: "ring_of e' = ring_of e \<Longrightarrow> ring_ok e' = ring_ok e"
  by (simp add: ring_of_def ring_ok_def)

lemma ring_of_update [simp]:
  "ring_of (e\<lparr>e_status := a\<rparr>) = ring_of e" "ring_of (e\<lparr>e_running := b\<rparr>) = ring_of e"
  "ring_of (e\<lparr>e_shutdown := c\<rparr>) = ring_of e" "ring_of (e\<lparr>e_desc_dequeued := a\<rparr>) = ring_of e"
  "ring_of (e\<lparr>e_transfer_list := q\<rparr>) = ring_of e" "ring_of (e\<lparr>e_xdma_perf := p\<rparr>) = ring_of e"
  by (simp_all add: ring_of_def)

lemma retire_one_ring [simp]: "ring_of (eng (retire_one E t st)) = ring_of (eng st)"
  by (simp add: retire_one_def del_head_def set_xfer_def ring_of_def Let_def)

lemma service_list_ring:
  "ring_of (eng (snd (snd (engine_service_transfer_list E tr pc st)))) = ring_of (eng st)"
proof (induction E tr pc st rule: engine_service_transfer_list.induct)
  case (1 E pc st)
  then show ?case by (simp add: engine_service_transfer_list.simps)
next
  case (2 E t pc st)
  then show ?case
    by (auto simp: engine_service_transfer_list.simps(2) [of E t pc st] Let_def simp del: transfer_list_retire_one
        split: list.split)
qed

lemma start_ring [simp]: "ring_of (eng (snd (engine_start E st))) = ring_of (eng st)"
  by (simp add: ring_of_def)

lemma transfer_del_ring [simp]: "ring_of (eng (snd (transfer_del E t st))) = ring_of (eng st)"
  by (simp add: transfer_del_def del_head_def ring_of_def)

lemma service_queue_ring [simp]:
  fixes st :: "('c, 's) est_scheme"
  shows "ring_of (eng (service_queue E pc st)) = ring_of (eng st)"
proof -
  have perf: "ring_of (eng (snd (engine_service_perf pc s))) = ring_of (eng s)" for s :: "('c, 's) est_scheme"
    by (auto simp: engine_service_perf_def wake_up_def ring_of_def Let_def split: option.splits)
  have final: "ring_of (eng (snd (engine_service_final_transfer E tr n s))) = ring_of (eng s)"
    for tr n and s :: "('c, 's) est_scheme"
    by (auto simp: engine_service_final_transfer_def engine_err_handle_def add_dequeued_def ring_of_def
        transfer_del_def del_head_def Let_def split_beta split: option.splits)
  have resume: "ring_of (eng (snd (engine_service_resume E s))) = ring_of (eng s)"
    for s :: "('c, 's) est_scheme"
    by (auto simp: engine_service_resume_def wake_up_def Let_def split_beta ring_of_def)
  show ?thesis
    by (simp add: service_queue_def Let_def split_beta final resume service_list_ring perf)
qed

lemma service_ring [simp]:
  fixes st :: "('c, 's) est_scheme"
  shows "ring_of (eng (snd (engine_service E wb st))) = ring_of (eng st)"
  by (cases rule: engine_service_cases [where st = st and E = E and wb = wb]) auto

section \<open>What a submission without waiting queues\<close>

lemma queue_owner [simp]:
  "client (snd (transfer_queue E t st)) = client st"
  "x_last_in_request (xfers (snd (transfer_queue E t st)) u) = x_last_in_request (xfers st u)"
  "u \<noteq> t \<Longrightarrow> xfers (snd (transfer_queue E t st)) u = xfers st u"
  by (simp_all add: transfer_queue_def engine_start_def engine_start_mode_config_def Let_def split_beta
      split: list.splits)

lemma prepare_owner:
  assumes "ready s"
  shows "client (s_st (prepare_transfer t cb m s)) = client (s_st s)"
    and "x_last_in_request (xfers (s_st (prepare_transfer t cb m s)) t) \<longleftrightarrow>
      s_nents (prepare_transfer t cb m s) = 0"
  using assms by (simp_all add: prepare_transfer_def transfer_init_eq ready_def Let_def zero_xfer_def)

text \<open>
  \<open>queued_by\<close>: the state after the transfers of one request were appended; only the last of them is
  marked as such, and nothing else has changed for the owners.
\<close>

definition queued_by ::
  "nat \<Rightarrow> nat \<Rightarrow> nat \<Rightarrow> nat \<Rightarrow> ('c, 's) est_scheme \<Rightarrow> ('c, 's) est_scheme \<Rightarrow> bool" where
  "queued_by rid cb k n st st' \<longleftrightarrow>
     e_transfer_list (eng st') = e_transfer_list (eng st) @ map (Pair rid) [k..<k + n] \<and>
     client st' = client st \<and> ring_ok (eng st') \<and>
     e_desc_max (eng st') = e_desc_max (eng st) \<and>
     (\<forall>t. fst t \<noteq> rid \<or> snd t < k \<longrightarrow> xfers st' t = xfers st t) \<and>
     (\<forall>j. k \<le> j \<and> j < k + n \<longrightarrow> x_cb (xfers st' (rid, j)) = Some cb \<and>
        (x_last_in_request (xfers st' (rid, j)) \<longleftrightarrow> Suc j = k + n))"

lemma nowait_loop_owner:
  assumes "ready s"
  shows "\<exists>r. nowait_loop E rid cb m k s = Some r \<and> s_rv r < 0 \<and>
    (s_rv r = - EIOCBQUEUED \<longrightarrow>
      s_sgt r = s_sgt s \<and> (\<exists>n. 0 < n \<and> queued_by rid cb k n (s_st s) (s_st r)))"
  using assms
proof (induction "s_nents s" arbitrary: s k rule: less_induct)
  case less
  let ?p = "prepare_transfer (rid, k) (Some cb) m s"
  let ?q = "transfer_queue E (rid, k) (s_st ?p)"
  let ?s = "?p\<lparr>s_rv := fst ?q, s_st := snd ?q\<rparr>"
  note p = prepare_transfer_facts [OF less.prems] and po = prepare_owner [OF less.prems]
  have "s_nents s \<noteq> 0" using less.prems by (simp add: ready_def req_left_def)
  then have unroll: "nowait_loop E rid cb m k s =
      (if fst ?q < 0 then Some (?s\<lparr>s_sgt := unmap_sgl m (s_sgt ?s)\<rparr>)
       else nowait_loop E rid cb m (Suc k) ?s)"
    by (simp add: nowait_loop.simps [of E rid cb m k s] split_beta Let_def)
  show ?case
  proof (cases "fst ?q < 0")
    case True
    then have "fst ?q \<noteq> - EIOCBQUEUED" by (auto simp: transfer_queue_def Let_def split: if_splits)
    with True show ?thesis unfolding unroll by simp
  next
    case q: False
    have tl: "e_transfer_list (eng (s_st ?s)) = e_transfer_list (eng (s_st s)) @ [(rid, k)]"
      using wake_of_queue [of E "(rid, k)" "s_st ?p"] q p(10) by simp
    have one: "client (s_st ?s) = client (s_st s)" "ring_ok (eng (s_st ?s))"
      "e_desc_max (eng (s_st ?s)) = e_desc_max (eng (s_st s))"
      "\<And>t. t \<noteq> (rid, k) \<Longrightarrow> xfers (s_st ?s) t = xfers (s_st s) t"
      "x_cb (xfers (s_st ?s) (rid, k)) = Some cb"
      "x_last_in_request (xfers (s_st ?s) (rid, k)) \<longleftrightarrow> s_nents ?s = 0"
      using po p(8,9,17,19) by (simp_all add: ring_ok_def)
    show ?thesis
    proof (cases "s_nents ?s = 0")
      case True
      then have "nowait_loop E rid cb m (Suc k) ?s = Some (?s\<lparr>s_rv := - EIOCBQUEUED\<rparr>)"
        by (simp add: nowait_loop.simps)
      moreover have "queued_by rid cb k 1 (s_st s) (s_st ?s)"
        unfolding queued_by_def using tl one True by (auto dest: le_less_Suc_eq)
      ultimately show ?thesis
        unfolding unroll using q p(16) by (auto intro!: exI [of _ 1])
    next
      case more: False
      have less': "s_nents ?s < s_nents s" using p(1-3) by simp
      have ready': "ready ?s"
        using p(1,5,6) one(2) less.prems more by (auto simp: ready_def req_left_def)
      obtain r where r: "nowait_loop E rid cb m (Suc k) ?s = Some r" "s_rv r < 0"
        "s_rv r = - EIOCBQUEUED \<Longrightarrow> s_sgt r = s_sgt ?s \<and>
          (\<exists>n. 0 < n \<and> queued_by rid cb (Suc k) n (s_st ?s) (s_st r))"
        using less.hyps [OF less' ready', of "Suc k"] by auto
      have "s_sgt r = s_sgt s \<and> (\<exists>n. 0 < n \<and> queued_by rid cb k n (s_st s) (s_st r))"
        if "s_rv r = - EIOCBQUEUED"
      proof -
        from r(3) [OF that] obtain n where n: "s_sgt r = s_sgt s" "0 < n"
          "queued_by rid cb (Suc k) n (s_st ?s) (s_st r)"
          using p(16) by auto
        have "queued_by rid cb k (Suc n) (s_st s) (s_st r)"
          unfolding queued_by_def
        proof (intro conjI allI impI)
          have "[k..<k + Suc n] = k # [Suc k..<Suc k + n]" by (simp add: upt_conv_Cons)
          then show "e_transfer_list (eng (s_st r)) =
              e_transfer_list (eng (s_st s)) @ map (Pair rid) [k..<k + Suc n]"
            using n(3) tl by (simp add: queued_by_def)
          show "client (s_st r) = client (s_st s)" "ring_ok (eng (s_st r))"
            "e_desc_max (eng (s_st r)) = e_desc_max (eng (s_st s))"
            using n(3) one(1,3) by (simp_all add: queued_by_def)
          fix t
          assume "fst t \<noteq> rid \<or> snd t < k"
          then have "fst t \<noteq> rid \<or> snd t < Suc k" "t \<noteq> (rid, k)" by auto
          then show "xfers (s_st r) t = xfers (s_st s) t"
            using n(3) one(4) by (simp add: queued_by_def)
        next
          fix j
          assume j: "k \<le> j \<and> j < k + Suc n"
          have kept: "xfers (s_st r) (rid, k) = xfers (s_st ?s) (rid, k)"
            using n(3) by (simp add: queued_by_def)
          show "x_cb (xfers (s_st r) (rid, j)) = Some cb"
            using j n(3) kept one(5) by (cases "j = k") (auto simp: queued_by_def)
          show "x_last_in_request (xfers (s_st r) (rid, j)) \<longleftrightarrow> Suc j = k + Suc n"
            using j n(2,3) kept one(6) more by (cases "j = k") (auto simp: queued_by_def)
        qed
        with n(1) show ?thesis by blast
      qed
      with r(1,2) q show ?thesis unfolding unroll by simp
    qed
  qed
qed

end
