(* ===== verification/Cdev_Dbuf.thy ===== *)
theory Cdev_Dbuf
  imports Xdma_Notify
begin

text \<open>
  The double buffer of a receiving channel (\<^verbatim>\<open>dbuf_io_done\<close> to
  \<^verbatim>\<open>ioctl_do_dbuf_stop\<close> and the double-buffer path of
  \<^verbatim>\<open>char_sgdma_read\<close> in \<^verbatim>\<open>cdev_sgdma.c\<close>): two slots are given to the
  engine in turn, the completion callback marks a slot filled, a read waits for the slot whose
  turn it is, copies it out and gives it to the engine again.

  The double buffer is the \<open>client\<close> of the engine's state, so that the engine's
  service calls \<open>dbuf_io_done\<close> through \<open>io_done\<close>. The control block of slot \<open>i\<close> has
  the number \<open>i\<close>.
\<close>

section \<open>Control blocks\<close>

text \<open>The callbacks a control block can name.\<close>

datatype io_done_fn = No_io_done | Fn_async_io_handler | Fn_dbuf_io_done

text \<open>
  User memory is an address; \<open>cb_pages\<close> is the array of page pointers, the empty list where there is
  no array, with the number of the page where the pointer is set; \<open>cb_req\<close> names the request the block
  was submitted with.
\<close>

record xdma_io_cb =
  cb_buf :: u64
  cb_len :: nat
  cb_private :: "nat option"
  cb_pages_nr :: nat
  cb_sgt :: sg_table
  cb_pages :: "nat option list"
  cb_ep_addr :: u64
  cb_req :: "nat option"
  cb_write :: bool
  cb_io_done :: io_done_fn

definition zero_cb :: xdma_io_cb where
  "zero_cb = \<lparr>cb_buf = 0, cb_len = 0, cb_private = None, cb_pages_nr = 0, cb_sgt = empty_sgt,
     cb_pages = [], cb_ep_addr = 0, cb_req = None, cb_write = False, cb_io_done = No_io_done\<rparr>"

section \<open>The double buffer of a character device\<close>

text \<open>
  \<open>sl_virt\<close>: the slot has memory. \<open>db_coherent\<close> is the coherent memory the device holds, by bus
  address and size; \<open>db_wakes\<close> counts the wake-ups of \<^verbatim>\<open>dbuf_wq\<close>.
\<close>

record dbuf_slot =
  sl_virt :: bool
  sl_bus :: u64
  sl_size :: nat
  sl_sgt :: sg_table
  sl_cb :: xdma_io_cb
  sl_filled :: bool

record dbuf =
  db_slots :: "dbuf_slot list"
  db_size :: nat
  db_ep_addr :: u64
  db_read_idx :: nat
  db_active :: bool
  db_wakes :: nat
  db_coherent :: "(u64 \<times> nat) list"

record xdma_dbuf_ioctl =
  di_version :: u32
  di_buf_size :: u32
  di_ep_addr :: u64

abbreviation (input) XDMA_DBUF_NUM :: nat where "XDMA_DBUF_NUM \<equiv> 2"
abbreviation (input) XDMA_DBUF_V1 :: u32 where "XDMA_DBUF_V1 \<equiv> 1"

definition upd_slot :: "nat \<Rightarrow> (dbuf_slot \<Rightarrow> dbuf_slot) \<Rightarrow> dbuf \<Rightarrow> dbuf" where
  "upd_slot i f db = db\<lparr>db_slots := (db_slots db)[i := f (db_slots db ! i)]\<rparr>"

definition dbuf_wake :: "dbuf \<Rightarrow> dbuf" where
  "dbuf_wake db = db\<lparr>db_wakes := Suc (db_wakes db)\<rparr>"

text \<open>The callback of the engine's service. Any control block but slot 1's is taken for slot 0's.\<close>

definition dbuf_io_done :: "nat \<Rightarrow> int \<Rightarrow> dbuf \<Rightarrow> dbuf" where
  "dbuf_io_done cb err db =
     (let idx = (if cb = 1 then 1 else 0)
      in if cb_private (sl_cb (db_slots db ! idx)) = None \<or> \<not> db_active db then db
         else if err \<noteq> 0 then dbuf_wake (db\<lparr>db_active := False\<rparr>)
         else dbuf_wake (upd_slot idx (\<lambda>s. s\<lparr>sl_filled := True\<rparr>) db))"

text \<open>\<open>rv\<close> is what \<^verbatim>\<open>sg_alloc_table\<close> returns.\<close>

definition dbuf_slot_init_sgt :: "int \<Rightarrow> dbuf_slot \<Rightarrow> int \<times> dbuf_slot" where
  "dbuf_slot_init_sgt rv s =
     (if rv \<noteq> 0 then (rv, s)
      else (0, s\<lparr>sl_sgt := \<lparr>sgl = [\<lparr>sg_dma_address = sl_bus s, sg_dma_len = of_nat (sl_size s)\<rparr>],
                           nents = 1, orig_nents = 1\<rparr>\<rparr>))"

section \<open>Submitting a slot\<close>

definition dbuf_of :: "nat \<Rightarrow> dbuf xdma_dev_io \<Rightarrow> dbuf" where
  "dbuf_of ch dev = client (dv_engine_c2h dev ch)"

definition map_dbuf :: "nat \<Rightarrow> (dbuf \<Rightarrow> dbuf) \<Rightarrow> dbuf xdma_dev_io \<Rightarrow> dbuf xdma_dev_io" where
  "map_dbuf ch f dev =
     put_engine False ch ((dv_engine_c2h dev ch)\<lparr>client := f (dbuf_of ch dev)\<rparr>) dev"

text \<open>
  \<open>ch\<close> is the channel of the device's engine, \<open>rid\<close> the request the submission allocates;
  \<open>None\<close> would be a submission that does not return.
\<close>

definition dbuf_prepare :: "dbuf \<Rightarrow> dbuf_slot \<Rightarrow> dbuf_slot" where
  "dbuf_prepare db s =
     s\<lparr>sl_filled := False,
       sl_cb := (sl_cb s)\<lparr>cb_buf := 0, cb_len := sl_size s, cb_ep_addr := db_ep_addr db,
                          cb_write := False, cb_private := Some 0, cb_io_done := Fn_dbuf_io_done\<rparr>\<rparr>"

definition dbuf_submit_slot ::
  "(dbuf, 'x) kenv_scheme \<Rightarrow> (nat \<Rightarrow> bool) \<Rightarrow> nat \<Rightarrow> nat \<Rightarrow> nat \<Rightarrow> dbuf xdma_dev_io \<Rightarrow>
     (int \<times> dbuf xdma_dev_io) option" where
  "dbuf_submit_slot E oom rid ch idx dev =
     (let dev = map_dbuf ch (\<lambda>db. upd_slot idx (dbuf_prepare db) db) dev;
          db = dbuf_of ch dev
      in case xdma_xfer_submit_nowait E oom (\<lambda>sgt. sgt) rid idx dev ch False (db_ep_addr db)
                (sl_sgt (db_slots db ! idx)) True of
           None \<Rightarrow> None
         | Some (rv, req, sgt, dev) \<Rightarrow>
             (let dev = map_dbuf ch (upd_slot idx (\<lambda>s. s\<lparr>sl_sgt := sgt,
                          sl_cb := (sl_cb s)\<lparr>cb_req := if req = None then cb_req (sl_cb s) else Some rid\<rparr>\<rparr>)) dev
              in Some (if rv = - EIOCBQUEUED then 0 else rv, dev)))"

section \<open>Starting and stopping\<close>

text \<open>Coherent memory is given back with the address and size it is freed with.\<close>

definition dma_free_coherent :: "nat \<Rightarrow> nat \<Rightarrow> dbuf \<Rightarrow> dbuf" where
  "dma_free_coherent i len db =
     upd_slot i (\<lambda>s. s\<lparr>sl_virt := False\<rparr>)
       (db\<lparr>db_coherent := remove1 (sl_bus (db_slots db ! i), len) (db_coherent db)\<rparr>)"

definition dbuf_free_slot :: "nat \<Rightarrow> dbuf \<Rightarrow> dbuf" where
  "dbuf_free_slot i db =
     (if sl_virt (db_slots db ! i)
      then dma_free_coherent i (sl_size (db_slots db ! i) + 64) db else db)"

definition dbuf_free_slots :: "dbuf \<Rightarrow> dbuf" where
  "dbuf_free_slots db = fold dbuf_free_slot [0..<XDMA_DBUF_NUM] db"

definition dbuf_free_sgt :: "nat \<Rightarrow> dbuf \<Rightarrow> dbuf" where
  "dbuf_free_sgt i = upd_slot i (\<lambda>s. s\<lparr>sl_sgt := empty_sgt\<rparr>)"

text \<open>
  Allocating the slots from \<open>i\<close> on: \<open>alloc i\<close> is the bus address \<^verbatim>\<open>dma_alloc_coherent\<close>
  gives, \<open>sgrv i\<close> the result of \<^verbatim>\<open>sg_alloc_table\<close>. Memory whose table cannot be allocated
  is freed with the size without the padding.
\<close>

fun dbuf_alloc_slots ::
  "(nat \<Rightarrow> u64 option) \<Rightarrow> (nat \<Rightarrow> int) \<Rightarrow> nat \<Rightarrow> nat \<Rightarrow> nat \<Rightarrow> dbuf \<Rightarrow> int \<times> dbuf" where
  "dbuf_alloc_slots alloc sgrv len 0 i db = (0, db)"
| "dbuf_alloc_slots alloc sgrv len (Suc n) i db =
     (case alloc i of
        None \<Rightarrow> (- ENOMEM, upd_slot i (\<lambda>s. s\<lparr>sl_size := len, sl_virt := False\<rparr>) db)
      | Some bus \<Rightarrow>
          (let db = upd_slot i (\<lambda>s. s\<lparr>sl_size := len, sl_virt := True, sl_bus := bus\<rparr>)
                      (db\<lparr>db_coherent := (bus, len + 64) # db_coherent db\<rparr>);
               (rv, s) = dbuf_slot_init_sgt (sgrv i) (db_slots db ! i)
           in if rv \<noteq> 0 then (rv, dma_free_coherent i len db)
              else dbuf_alloc_slots alloc sgrv len n (Suc i) (upd_slot i (\<lambda>_. s) db)))"

text \<open>Submitting the slots from \<open>i\<close> on; on failure everything is given back.\<close>

fun dbuf_submit_all ::
  "(dbuf, 'x) kenv_scheme \<Rightarrow> (nat \<Rightarrow> bool) \<Rightarrow> (nat \<Rightarrow> nat) \<Rightarrow> nat \<Rightarrow> nat \<Rightarrow> nat \<Rightarrow>
     dbuf xdma_dev_io \<Rightarrow> (int \<times> dbuf xdma_dev_io) option" where
  "dbuf_submit_all E oom rid ch 0 i dev = Some (0, dev)"
| "dbuf_submit_all E oom rid ch (Suc n) i dev =
     (case dbuf_submit_slot E oom (rid i) ch i dev of
        None \<Rightarrow> None
      | Some (rv, dev) \<Rightarrow>
          if rv < 0
          then Some (rv, map_dbuf ch (\<lambda>db. dbuf_free_slots
                 (fold dbuf_free_sgt [0..<XDMA_DBUF_NUM] (db\<lparr>db_active := False\<rparr>))) dev)
          else dbuf_submit_all E oom rid ch n (Suc i) dev)"

definition ioctl_do_dbuf_start ::
  "(dbuf, 'x) kenv_scheme \<Rightarrow> (nat \<Rightarrow> bool) \<Rightarrow> (nat \<Rightarrow> u64 option) \<Rightarrow> (nat \<Rightarrow> int) \<Rightarrow> (nat \<Rightarrow> nat) \<Rightarrow>
     nat \<Rightarrow> xdma_dbuf_ioctl option \<Rightarrow> dbuf xdma_dev_io \<Rightarrow> (int \<times> dbuf xdma_dev_io) option" where
  "ioctl_do_dbuf_start E oom alloc sgrv rid ch user dev =
     (if db_active (dbuf_of ch dev) then Some (- EBUSY, dev)
      else case user of
        None \<Rightarrow> Some (- EFAULT, dev)
      | Some arg \<Rightarrow>
         if di_version arg \<noteq> XDMA_DBUF_V1 then Some (- EINVAL, dev)
         else if di_buf_size arg = 0 \<or> di_buf_size arg AND 0xfff \<noteq> 0 then Some (- EINVAL, dev)
         else (let db = (dbuf_of ch dev)\<lparr>db_size := unat (di_buf_size arg),
                          db_ep_addr := di_ep_addr arg, db_read_idx := 0\<rparr>;
                   (rv, db) = dbuf_alloc_slots alloc sgrv (unat (di_buf_size arg)) XDMA_DBUF_NUM 0 db
               in if rv \<noteq> 0 then Some (rv, map_dbuf ch (\<lambda>_. dbuf_free_slots db) dev)
                  else dbuf_submit_all E oom rid ch XDMA_DBUF_NUM 0
                         (map_dbuf ch (\<lambda>_. db\<lparr>db_active := True\<rparr>) dev)))"

definition dbuf_stop_slot :: "nat \<Rightarrow> dbuf \<Rightarrow> dbuf" where
  "dbuf_stop_slot i db = dbuf_free_slot i (dbuf_free_sgt i db)"

definition ioctl_do_dbuf_stop :: "nat \<Rightarrow> dbuf xdma_dev_io \<Rightarrow> int \<times> dbuf xdma_dev_io" where
  "ioctl_do_dbuf_stop ch dev =
     (if \<not> db_active (dbuf_of ch dev) then (0, dev)
      else (0, map_dbuf ch (\<lambda>db. fold dbuf_stop_slot [0..<XDMA_DBUF_NUM]
                  (dbuf_wake (db\<lparr>db_active := False\<rparr>))) dev))"

section \<open>Reading a slot\<close>

text \<open>
  \<open>await\<close> is the interruptible wait, its result and the device when it is over; where the
  condition holds already there is no wait. \<open>copied\<close> says whether the user's memory could be
  written. The result names the slot whose bytes went to the user.
\<close>

definition dbuf_ready :: "nat \<Rightarrow> dbuf \<Rightarrow> bool" where
  "dbuf_ready idx db \<longleftrightarrow> sl_filled (db_slots db ! idx) \<or> \<not> db_active db"

text \<open>\<^verbatim>\<open>dbuf_read_idx ^= 1\<close> on an index that is 0 or 1.\<close>

definition dbuf_flip :: "nat \<Rightarrow> dbuf xdma_dev_io \<Rightarrow> dbuf xdma_dev_io" where
  "dbuf_flip ch = map_dbuf ch (\<lambda>db. db\<lparr>db_read_idx := if db_read_idx db = 0 then 1 else 0\<rparr>)"

definition char_sgdma_read_dbuf ::
  "(dbuf, 'x) kenv_scheme \<Rightarrow> (nat \<Rightarrow> bool) \<Rightarrow> (dbuf xdma_dev_io \<Rightarrow> int \<times> dbuf xdma_dev_io) \<Rightarrow>
     bool \<Rightarrow> nat \<Rightarrow> nat \<Rightarrow> nat \<Rightarrow> dbuf xdma_dev_io \<Rightarrow>
     (int \<times> nat option \<times> dbuf xdma_dev_io) option" where
  "char_sgdma_read_dbuf E oom await copied rid ch count dev =
     (let db = dbuf_of ch dev; idx = db_read_idx db
      in if count > db_size db then Some (- EINVAL, None, dev)
         else (let (rv, dev) = (if dbuf_ready idx db then (0, dev) else await dev)
               in if rv \<noteq> 0 then Some (- ERESTARTSYS, None, dev)
                  else if \<not> db_active (dbuf_of ch dev) then Some (- EIO, None, dev)
                  else if \<not> copied then Some (- EFAULT, None, dev)
                  else (case dbuf_submit_slot E oom rid ch idx dev of
                          None \<Rightarrow> None
                        | Some (rv, dev) \<Rightarrow>
                            if rv < 0 then Some (rv, Some idx, dev)
                            else Some (int count, Some idx, dbuf_flip ch dev))))"

end
