(* ===== verification/Cdev_Pipe.thy ===== *)
theory Cdev_Pipe
  imports Main
begin

text \<open>
  What the double buffer promises, without the driver: a pipe of two slots. The producer fills
  the slots in the order they were handed to it, the consumer takes the slots in turn and hands
  each back. The blocks the producer makes are numbered; the consumer gets them in that order,
  none twice, none left out. The interface of an engine that makes an implementation simulate the
  pipe is the locale \<open>async_engine\<close>.
\<close>

section \<open>The pipe\<close>

record pipe =
  pp_pending :: "nat list"
  pp_filled :: "nat set"
  pp_mem :: "nat \<Rightarrow> nat"
  pp_made :: nat
  pp_out :: "nat list"
  pp_turn :: nat

definition other :: "nat \<Rightarrow> nat" where
  "other i = (if i = 0 then 1 else 0)"

inductive pipe_step :: "pipe \<Rightarrow> pipe \<Rightarrow> bool" where
  fill: "pp_pending p = i # rest \<Longrightarrow>
    pipe_step p (p\<lparr>pp_pending := rest, pp_filled := insert i (pp_filled p),
                   pp_mem := (pp_mem p)(i := pp_made p), pp_made := Suc (pp_made p)\<rparr>)"
| take: "pp_turn p \<in> pp_filled p \<Longrightarrow>
    pipe_step p (p\<lparr>pp_out := pp_out p @ [pp_mem p (pp_turn p)],
                   pp_pending := pp_pending p @ [pp_turn p],
                   pp_filled := pp_filled p - {pp_turn p}, pp_turn := other (pp_turn p)\<rparr>)"

inductive_cases pipe_stepE: "pipe_step p p'"

text \<open>
  With \<open>r\<close> blocks taken and \<open>c\<close> made: the slots of the blocks \<open>c\<close> to \<open>r + 1\<close> are
  with the producer, those of the blocks \<open>r\<close> to \<open>c - 1\<close> are filled with them.
\<close>

definition slot_of :: "nat \<Rightarrow> nat" where
  "slot_of k = k mod 2"

definition pipe_inv :: "pipe \<Rightarrow> bool" where
  "pipe_inv p \<longleftrightarrow>
     (let r = length (pp_out p); c = pp_made p in
      r \<le> c \<and> c \<le> r + 2 \<and> pp_out p = [0..<r] \<and> pp_turn p = slot_of r \<and>
      pp_pending p = map slot_of [c..<r + 2] \<and> pp_filled p = slot_of ` {r..<c} \<and>
      (\<forall>k \<in> {r..<c}. pp_mem p (slot_of k) = k))"

lemma slot_of_two [simp]: "slot_of (Suc (Suc k)) = slot_of k"
  by (simp add: slot_of_def)

lemma slot_of_near: "k < k' \<Longrightarrow> k' < k + 2 \<Longrightarrow> slot_of k \<noteq> slot_of k'"
proof -
  assume "k < k'" "k' < k + 2"
  then have "k' = Suc k" by simp
  then show ?thesis by (simp add: slot_of_def) presburger
qed

lemma other_slot: "other (slot_of k) = slot_of (Suc k)"
  unfolding other_def slot_of_def by presburger

lemma pipe_inv_fill:
  assumes inv: "pipe_inv p" and pend: "pp_pending p = i # rest"
  shows "pipe_inv (p\<lparr>pp_pending := rest, pp_filled := insert i (pp_filled p),
                   pp_mem := (pp_mem p)(i := pp_made p), pp_made := Suc (pp_made p)\<rparr>)"
proof -
  let ?r = "length (pp_out p)" and ?c = "pp_made p"
  have c: "?r \<le> ?c" "?c < ?r + 2"
    using inv pend by (auto simp: pipe_inv_def Let_def intro: ccontr)
  then have "[?c..<?r + 2] = ?c # [Suc ?c..<?r + 2]" by (simp add: upt_conv_Cons)
  then have i: "i = slot_of ?c" "rest = map slot_of [Suc ?c..<?r + 2]"
    using inv pend by (auto simp: pipe_inv_def Let_def simp del: upt_Suc)
  have set: "{?r..<Suc ?c} = insert ?c {?r..<?c}" using c by auto
  have "slot_of k \<noteq> slot_of ?c" if "k \<in> {?r..<?c}" for k
    using that c by (intro slot_of_near) auto
  then show ?thesis
    using inv c by (simp add: pipe_inv_def Let_def i set del: upt_Suc)
qed

lemma pipe_inv_take:
  assumes inv: "pipe_inv p" and turn: "pp_turn p \<in> pp_filled p"
  shows "pipe_inv (p\<lparr>pp_out := pp_out p @ [pp_mem p (pp_turn p)],
                   pp_pending := pp_pending p @ [pp_turn p],
                   pp_filled := pp_filled p - {pp_turn p}, pp_turn := other (pp_turn p)\<rparr>)"
proof -
  let ?r = "length (pp_out p)" and ?c = "pp_made p"
  have c: "?r < ?c" "?c \<le> ?r + 2"
    using inv turn by (auto simp: pipe_inv_def Let_def)
  have t: "pp_turn p = slot_of ?r" using inv by (simp add: pipe_inv_def Let_def)
  have mem: "pp_mem p (slot_of ?r) = ?r" using inv c by (simp add: pipe_inv_def Let_def)
  have "{?r..<?c} = insert ?r {Suc ?r..<?c}" using c by auto
  moreover have "slot_of ?r \<notin> slot_of ` {Suc ?r..<?c}"
  proof
    assume "slot_of ?r \<in> slot_of ` {Suc ?r..<?c}"
    then obtain k where "Suc ?r \<le> k" "k < ?c" "slot_of ?r = slot_of k" by auto
    then show False using slot_of_near [of ?r k] c by simp
  qed
  ultimately have filled: "slot_of ` {?r..<?c} - {slot_of ?r} = slot_of ` {Suc ?r..<?c}" by simp
  have "[?c..<Suc ?r + 2] = [?c..<?r + 2] @ [?r + 2]" using c by simp
  then have "map slot_of [?c..<?r + 2] @ [slot_of ?r] = map slot_of [?c..<Suc ?r + 2]" by simp
  then show ?thesis
    using inv c by (simp add: pipe_inv_def Let_def t mem filled other_slot del: upt_Suc)
       (simp add: upt_Suc_append)
qed

lemma pipe_step_inv: "pipe_step p p' \<Longrightarrow> pipe_inv p \<Longrightarrow> pipe_inv p'"
  by (erule pipe_stepE) (simp_all add: pipe_inv_fill pipe_inv_take)

lemma pipe_steps_inv: "pipe_step\<^sup>*\<^sup>* p p' \<Longrightarrow> pipe_inv p \<Longrightarrow> pipe_inv p'"
  by (induction rule: rtranclp_induct) (auto intro: pipe_step_inv)

section \<open>Filling several slots\<close>

definition land :: "nat list \<Rightarrow> (nat \<Rightarrow> nat) \<times> nat \<Rightarrow> (nat \<Rightarrow> nat) \<times> nat" where
  "land is mc = fold (\<lambda>i (m, c). (m(i := c), Suc c)) is mc"

lemma fills:
  "pp_pending p = is @ rest \<Longrightarrow>
     pipe_step\<^sup>*\<^sup>* p (p\<lparr>pp_pending := rest, pp_filled := pp_filled p \<union> set is,
        pp_mem := fst (land is (pp_mem p, pp_made p)), pp_made := snd (land is (pp_mem p, pp_made p))\<rparr>)"
proof (induction "is" arbitrary: p)
  case Nil
  then have "p\<lparr>pp_pending := rest, pp_filled := pp_filled p \<union> set [],
        pp_mem := fst (land [] (pp_mem p, pp_made p)), pp_made := snd (land [] (pp_mem p, pp_made p))\<rparr> = p"
    by (simp add: land_def)
  then show ?case by simp
next
  case (Cons i "is")
  let ?p = "p\<lparr>pp_pending := is @ rest, pp_filled := insert i (pp_filled p),
                   pp_mem := (pp_mem p)(i := pp_made p), pp_made := Suc (pp_made p)\<rparr>"
  have "pipe_step p ?p" using Cons.prems by (intro pipe_step.fill) simp
  moreover have "pipe_step\<^sup>*\<^sup>* ?p (?p\<lparr>pp_pending := rest, pp_filled := pp_filled ?p \<union> set is,
      pp_mem := fst (land is (pp_mem ?p, pp_made ?p)), pp_made := snd (land is (pp_mem ?p, pp_made ?p))\<rparr>)"
    by (rule Cons.IH) simp
  ultimately have "pipe_step\<^sup>*\<^sup>* p (?p\<lparr>pp_pending := rest, pp_filled := pp_filled ?p \<union> set is,
      pp_mem := fst (land is (pp_mem ?p, pp_made ?p)), pp_made := snd (land is (pp_mem ?p, pp_made ?p))\<rparr>)"
    by (rule converse_rtranclp_into_rtranclp)
  then show ?case by (simp add: land_def)
qed

section \<open>The engine's interface\<close>

text \<open>
  An engine that takes slots and fills them: \<open>submit rid i s\<close> hands over slot \<open>i\<close> as
  request \<open>rid\<close>, \<open>service\<close> is one run of the interrupt handler. \<open>turn\<close> and \<open>flip\<close>
  are the reader's.
\<close>

locale async_engine =
  fixes submit :: "nat \<Rightarrow> nat \<Rightarrow> 's \<Rightarrow> (int \<times> 's) option"
    and service :: "'s \<Rightarrow> 's \<Rightarrow> bool"
    and pending :: "'s \<Rightarrow> nat list"
    and filled :: "'s \<Rightarrow> nat set"
    and turn :: "'s \<Rightarrow> nat"
    and flip :: "'s \<Rightarrow> 's"
    and invar :: "'s \<Rightarrow> bool"
    and fresh :: "nat \<Rightarrow> 's \<Rightarrow> bool"
  assumes submit_queues: "invar s \<Longrightarrow> fresh rid s \<Longrightarrow> i < 2 \<Longrightarrow> submit rid i s = Some (rv, s') \<Longrightarrow> 0 \<le> rv \<Longrightarrow>
      invar s' \<and> pending s' = pending s @ [i] \<and> filled s' = filled s - {i} \<and> turn s' = turn s"
    and service_completes: "invar s \<Longrightarrow> service s s' \<Longrightarrow>
      invar s' \<and> turn s' = turn s \<and> (\<exists>is. pending s = is @ pending s' \<and> filled s' = filled s \<union> set is)"
    and flip_turns: "invar s \<Longrightarrow> invar (flip s) \<and> pending (flip s) = pending s \<and> filled (flip s) = filled s \<and>
      turn (flip s) = other (turn s)"
    and turn_bound: "invar s \<Longrightarrow> turn s < 2"
begin

definition pipe_of :: "'s \<Rightarrow> (nat \<Rightarrow> nat) \<times> nat \<Rightarrow> nat list \<Rightarrow> pipe" where
  "pipe_of s mc out = \<lparr>pp_pending = pending s, pp_filled = filled s, pp_mem = fst mc, pp_made = snd mc,
     pp_out = out, pp_turn = turn s\<rparr>"

text \<open>The slots a service has filled are those no longer pending.\<close>

definition gone :: "'s \<Rightarrow> 's \<Rightarrow> nat list" where
  "gone s s' = take (length (pending s) - length (pending s')) (pending s)"

lemma service_simulates:
  assumes "invar s" and "service s s'"
  shows "invar s' \<and> pipe_step\<^sup>*\<^sup>* (pipe_of s mc out) (pipe_of s' (land (gone s s') mc) out)"
proof -
  from service_completes [OF assms] obtain "is" where
    l: "invar s'" "turn s' = turn s" "pending s = is @ pending s'" "filled s' = filled s \<union> set is"
    by blast
  have "gone s s' = is" using l(3) by (simp add: gone_def)
  with fills [of "pipe_of s mc out" "is" "pending s'"] l show ?thesis by (simp add: pipe_of_def)
qed

lemma read_simulates:
  assumes "invar s" and "fresh rid s" and "turn s \<in> filled s"
    and "submit rid (turn s) s = Some (rv, s')" and "0 \<le> rv"
  shows "invar (flip s') \<and>
    pipe_step (pipe_of s mc out) (pipe_of (flip s') mc (out @ [fst mc (turn s)]))"
proof -
  note q = submit_queues [OF assms(1,2) turn_bound [OF assms(1)] assms(4,5)]
  with flip_turns have f: "invar (flip s')" "pending (flip s') = pending s @ [turn s]"
    "filled (flip s') = filled s - {turn s}" "turn (flip s') = other (turn s)"
    by auto
  then show ?thesis
    using pipe_step.take [of "pipe_of s mc out"] assms(3) by (simp add: pipe_of_def)
qed

end

end
