(* ===== verification/Cdev_Dbuf_Spec.thy ===== *)
theory Cdev_Dbuf_Spec
  imports Cdev_Dbuf Cdev_Pipe
begin

text \<open>
  The double buffer implements the pipe of two slots: the engine with its callbacks is an
  \<open>async_engine\<close>, so that every run of interrupts and reads is a run of the pipe.
\<close>

declare split_paired_All [simp del] split_paired_Ex [simp del]

section \<open>What the callbacks do\<close>

text \<open>The double buffer without the flags the callbacks change.\<close>

definition dbuf_shape :: "dbuf \<Rightarrow> dbuf" where
  "dbuf_shape db = db\<lparr>db_slots := map (\<lambda>s. s\<lparr>sl_filled := False\<rparr>) (db_slots db), db_wakes := 0\<rparr>"

definition dbuf_filled :: "dbuf \<Rightarrow> nat set" where
  "dbuf_filled db = {i. i < length (db_slots db) \<and> sl_filled (db_slots db ! i)}"

lemma shape_eqD:
  assumes "dbuf_shape db' = dbuf_shape db"
  shows "length (db_slots db') = length (db_slots db)" "db_active db' = db_active db"
    "db_read_idx db' = db_read_idx db" "db_size db' = db_size db" "db_ep_addr db' = db_ep_addr db"
    "i < length (db_slots db) \<Longrightarrow>
       (db_slots db' ! i)\<lparr>sl_filled := False\<rparr> = (db_slots db ! i)\<lparr>sl_filled := False\<rparr>"
proof -
  have m: "map (\<lambda>s. s\<lparr>sl_filled := False\<rparr>) (db_slots db') = map (\<lambda>s. s\<lparr>sl_filled := False\<rparr>) (db_slots db)"
    using arg_cong [OF assms, of db_slots] by (simp add: dbuf_shape_def)
  then show l: "length (db_slots db') = length (db_slots db)" by (rule map_eq_imp_length_eq)
  show "db_active db' = db_active db" "db_read_idx db' = db_read_idx db" "db_size db' = db_size db"
    "db_ep_addr db' = db_ep_addr db"
    using arg_cong [OF assms, of db_active] arg_cong [OF assms, of db_read_idx]
      arg_cong [OF assms, of db_size] arg_cong [OF assms, of db_ep_addr]
    by (simp_all add: dbuf_shape_def)
  show "(db_slots db' ! i)\<lparr>sl_filled := False\<rparr> = (db_slots db ! i)\<lparr>sl_filled := False\<rparr>"
    if "i < length (db_slots db)"
    using arg_cong [OF m, of "\<lambda>xs. xs ! i"] that l by simp
qed

lemma slot_fields:
  assumes "(s' :: dbuf_slot)\<lparr>sl_filled := False\<rparr> = s\<lparr>sl_filled := False\<rparr>"
  shows "sl_cb s' = sl_cb s" "sl_sgt s' = sl_sgt s" "sl_size s' = sl_size s"
  using arg_cong [OF assms, of sl_cb] arg_cong [OF assms, of sl_sgt] arg_cong [OF assms, of sl_size]
  by simp_all

text \<open>The slot a control block number stands for, and when its callback is live.\<close>

definition live_slot :: "dbuf \<Rightarrow> nat \<Rightarrow> bool" where
  "live_slot db i \<longleftrightarrow> i < 2 \<and> cb_private (sl_cb (db_slots db ! i)) \<noteq> None"

lemma io_done_effect:
  assumes "length (db_slots db) = 2" and "db_active db" and "live_slot db i"
  shows "dbuf_shape (dbuf_io_done i 0 db) = dbuf_shape db"
    and "dbuf_filled (dbuf_io_done i 0 db) = insert i (dbuf_filled db)"
proof -
  have i: "i = 0 \<or> i = 1" using assms(3) by (auto simp: live_slot_def)
  then have d: "dbuf_io_done i 0 db = dbuf_wake (upd_slot i (\<lambda>s. s\<lparr>sl_filled := True\<rparr>) db)"
    using assms(2,3) by (auto simp: dbuf_io_done_def live_slot_def)
  show "dbuf_shape (dbuf_io_done i 0 db) = dbuf_shape db"
    unfolding d using assms(1) i
    by (auto simp: dbuf_shape_def dbuf_wake_def upd_slot_def map_update list_eq_iff_nth_eq nth_list_update)
  show "dbuf_filled (dbuf_io_done i 0 db) = insert i (dbuf_filled db)"
    unfolding d using assms(1) i
    by (auto simp: dbuf_filled_def dbuf_wake_def upd_slot_def nth_list_update)
qed

lemma live_slot_shape:
  assumes "dbuf_shape db' = dbuf_shape db" and "length (db_slots db) = 2"
  shows "live_slot db' i = live_slot db i"
proof (cases "i < 2")
  case True
  then have "sl_cb (db_slots db' ! i) = sl_cb (db_slots db ! i)"
    using slot_fields(1) [OF shape_eqD(6) [OF assms(1), of i]] assms(2) by simp
  then show ?thesis by (simp add: live_slot_def)
qed (simp add: live_slot_def)

text \<open>The slots of the requests whose last transfer is among \<open>ts\<close>.\<close>

definition owners :: "(xid \<Rightarrow> xdma_transfer) \<Rightarrow> xid list \<Rightarrow> nat list" where
  "owners xs ts = map (\<lambda>t. the (x_cb (xs t))) (filter (\<lambda>t. x_last_in_request (xs t)) ts)"

definition owned :: "(xid \<Rightarrow> xdma_transfer) \<Rightarrow> dbuf \<Rightarrow> xid list \<Rightarrow> bool" where
  "owned xs db ts \<longleftrightarrow> (\<forall>t \<in> set ts. \<exists>i. x_cb (xs t) = Some i \<and> live_slot db i)"

lemma owners_same: "(\<And>t. t \<in> set ts \<Longrightarrow> xs t = ys t) \<Longrightarrow> owners xs ts = owners ys ts"
  by (induction ts) (auto simp: owners_def)

lemma owners_append: "owners xs (ts @ us) = owners xs ts @ owners xs us"
  by (simp add: owners_def)

lemma fold_notify:
  assumes io: "io_done E = dbuf_io_done"
  shows "length (db_slots db) = 2 \<Longrightarrow> db_active db \<Longrightarrow> owned xs db ts \<Longrightarrow>
    dbuf_shape (fold (notify E xs) ts db) = dbuf_shape db \<and>
    dbuf_filled (fold (notify E xs) ts db) = dbuf_filled db \<union> set (owners xs ts)"
proof (induction ts arbitrary: db)
  case Nil
  then show ?case by (simp add: owners_def)
next
  case (Cons t ts)
  then obtain i where i: "x_cb (xs t) = Some i" "live_slot db i" by (auto simp: owned_def)
  show ?case
  proof (cases "x_last_in_request (xs t)")
    case False
    then have "notify E xs t db = db" using i by (simp add: notify_def)
    with Cons False show ?thesis by (simp add: owned_def owners_def)
  next
    case True
    let ?db = "dbuf_io_done i 0 db"
    have n: "notify E xs t db = ?db" using i True io by (simp add: notify_def)
    note e = io_done_effect [OF Cons.prems(1,2) i(2)]
    have "owned xs ?db ts"
      using Cons.prems(3) live_slot_shape [OF e(1) Cons.prems(1)] by (simp add: owned_def)
    with Cons.IH [of ?db] e n Cons.prems shape_eqD(1,2) [OF e(1)] i True show ?thesis
      by (simp add: owners_def)
  qed
qed

section \<open>The state of a running double buffer\<close>

text \<open>
  A slot's table has the one entry of the slot's memory, of at most \<open>desc_max\<close> descriptors, so
  that a request needs no more than the two transfers it has room for.
\<close>

definition slot_fits :: "('x) xenv_scheme \<Rightarrow> xdma_engine \<Rightarrow> dbuf_slot \<Rightarrow> bool" where
  "slot_fits E e s \<longleftrightarrow> nents (sl_sgt s) = 1 \<and> length (sgl (sl_sgt s)) = 1 \<and>
     0 < unat (sg_dma_len (hd (sgl (sl_sgt s)))) \<and>
     unat (sg_dma_len (hd (sgl (sl_sgt s)))) \<le> unat (desc_blen_max E) * e_desc_max e"

definition dbuf_ok :: "(dbuf, 'x) kenv_scheme \<Rightarrow> nat \<Rightarrow> dbuf xdma_dev_io \<Rightarrow> bool" where
  "dbuf_ok E ch dev \<longleftrightarrow>
     (let st = dv_engine_c2h dev ch; db = client st in
      io_done E = dbuf_io_done \<and> desc_blen_max E \<noteq> 0 \<and> ring_ok (eng st) \<and>
      length (db_slots db) = 2 \<and> db_active db \<and> db_read_idx db < 2 \<and>
      (\<forall>i < 2. slot_fits E (eng st) (db_slots db ! i)) \<and>
      owned (xfers st) db (e_transfer_list (eng st)))"

definition dbuf_pending :: "nat \<Rightarrow> dbuf xdma_dev_io \<Rightarrow> nat list" where
  "dbuf_pending ch dev =
     (let st = dv_engine_c2h dev ch in owners (xfers st) (e_transfer_list (eng st)))"

definition dbuf_fresh :: "nat \<Rightarrow> nat \<Rightarrow> dbuf xdma_dev_io \<Rightarrow> bool" where
  "dbuf_fresh ch rid dev \<longleftrightarrow> rid \<notin> fst ` set (e_transfer_list (eng (dv_engine_c2h dev ch)))"

definition dbuf_service ::
  "(dbuf, 'x) kenv_scheme \<Rightarrow> nat \<Rightarrow> dbuf xdma_dev_io \<Rightarrow> dbuf xdma_dev_io \<Rightarrow> bool" where
  "dbuf_service E ch dev dev' \<longleftrightarrow>
     (\<exists>wb. dev' = put_engine False ch (snd (engine_service E wb (dv_engine_c2h dev ch))) dev)"

definition dbuf_turn :: "nat \<Rightarrow> dbuf xdma_dev_io \<Rightarrow> nat" where
  "dbuf_turn ch dev = db_read_idx (dbuf_of ch dev)"

lemma put_engine_c2h [simp]: "dv_engine_c2h (put_engine False ch st dev) ch = st"
  by (simp add: put_engine_def)

lemma map_dbuf_c2h [simp]:
  "dv_engine_c2h (map_dbuf ch f dev) ch = (dv_engine_c2h dev ch)\<lparr>client := f (dbuf_of ch dev)\<rparr>"
  "dbuf_of ch (map_dbuf ch f dev) = f (dbuf_of ch dev)"
  by (simp_all add: map_dbuf_def dbuf_of_def)

lemma slot_fits_cong:
  "sl_sgt s' = sl_sgt s \<Longrightarrow> e_desc_max e' = e_desc_max e \<Longrightarrow> slot_fits E e' s' = slot_fits E e s"
  by (simp add: slot_fits_def)

lemma owned_cong:
  assumes "same_owner xs ys" and "dbuf_shape db' = dbuf_shape db" and "length (db_slots db) = 2"
    and "set us \<subseteq> set ts"
  shows "owned xs db ts \<Longrightarrow> owned ys db' us"
  using assms(1,4) live_slot_shape [OF assms(2,3)] by (auto simp: owned_def same_owner_def)

lemma owners_cong: "same_owner xs ys \<Longrightarrow> owners ys ts = owners xs ts"
  by (simp add: owners_def same_owner_def)

lemma dbuf_service_law:
  assumes ok: "dbuf_ok E ch dev" and s: "dbuf_service E ch dev dev'"
  shows "dbuf_ok E ch dev' \<and> dbuf_turn ch dev' = dbuf_turn ch dev \<and>
    (\<exists>is. dbuf_pending ch dev = is @ dbuf_pending ch dev' \<and>
       dbuf_filled (dbuf_of ch dev') = dbuf_filled (dbuf_of ch dev) \<union> set is)"
proof -
  let ?st = "dv_engine_c2h dev ch"
  from s obtain wb where dev': "dev' = put_engine False ch (snd (engine_service E wb ?st)) dev"
    unfolding dbuf_service_def by blast
  let ?st' = "snd (engine_service E wb ?st)" and ?q = "e_transfer_list (eng ?st)"
  from service_notified [of E ?st wb] obtain n where
    n: "same_owner (xfers ?st) (xfers ?st')" "e_transfer_list (eng ?st') = drop n ?q"
      "client ?st' = fold (notify E (xfers ?st)) (take n ?q) (client ?st)"
    unfolding notified_def by blast
  have io: "io_done E = dbuf_io_done" and len: "length (db_slots (client ?st)) = 2"
    and act: "db_active (client ?st)" and own: "owned (xfers ?st) (client ?st) ?q"
    using ok by (simp_all add: dbuf_ok_def Let_def)
  have own_n: "owned (xfers ?st) (client ?st) (take n ?q)"
    using own set_take_subset [of n ?q] by (auto simp: owned_def)
  note f = fold_notify [OF io len act own_n]
  then have sh: "dbuf_shape (client ?st') = dbuf_shape (client ?st)"
    and fi: "dbuf_filled (client ?st') = dbuf_filled (client ?st) \<union> set (owners (xfers ?st) (take n ?q))"
    unfolding n(3) by simp_all
  note e = shape_eqD [OF sh]
  have ring: "e_desc_max (eng ?st') = e_desc_max (eng ?st)"
    using service_ring [of E wb ?st] by (simp add: ring_of_def)
  have "slot_fits E (eng ?st') (db_slots (client ?st') ! i)" if "i < 2" for i
    using ok that slot_fits_cong [OF slot_fields(2) [OF e(6) [of i]] ring, where E = E] len
    by (simp add: dbuf_ok_def Let_def)
  moreover have "owned (xfers ?st') (client ?st') (drop n ?q)"
    by (rule owned_cong [OF n(1) sh len _ own]) (rule set_drop_subset)
  ultimately have "dbuf_ok E ch dev'"
    using ok ring_of_ok [OF service_ring, of E wb ?st] e n(2)
    by (simp add: dbuf_ok_def Let_def dev')
  moreover have "dbuf_pending ch dev = owners (xfers ?st) (take n ?q) @ dbuf_pending ch dev'"
    using owners_append [of "xfers ?st" "take n ?q" "drop n ?q"] owners_cong [OF n(1)] n(2)
    by (simp add: dbuf_pending_def Let_def dev')
  ultimately show ?thesis
    using e(3) fi by (auto simp: dbuf_turn_def dbuf_of_def dev')
qed

section \<open>Submitting a slot\<close>

lemma slot_request:
  assumes "slot_fits E e s" and "desc_blen_max E \<noteq> 0"
    and "xdma_init_request (desc_blen_max E) oom (sl_sgt s) ep = Some (Some req)"
  shows "rq_sw_desc_idx req = 0" and "0 < rq_sw_desc_cnt req"
proof -
  obtain sg where sg: "sgl (sl_sgt s) = [sg]" using assms(1)
    by (auto simp: slot_fits_def length_Suc_conv)
  have b: "0 < unat (desc_blen_max E)" using assms(2) by (simp add: unat_gt_0)
  have l: "0 < unat (sg_dma_len sg)" using assms(1) sg by (simp add: slot_fits_def)
  have ne: "all_pieces (unat (desc_blen_max E)) [sg] \<noteq> []"
    using b l by (auto simp: pieces.simps)
  have "take (nents (sl_sgt s)) (sgl (sl_sgt s)) = [sg]" using sg assms(1) by (simp add: slot_fits_def)
  then show "rq_sw_desc_idx req = 0" "0 < rq_sw_desc_cnt req"
    using assms(3) ne by (auto simp: xdma_init_request_def xdma_request_alloc_def zero_request_def Let_def
        cut_entries_pieces [OF assms(2)] split: if_splits simp del: cut_entries.simps all_pieces.simps)
qed

text \<open>What a submission of one slot's table does, whether or not it is accepted.\<close>

lemma nowait_slot:
  assumes fits: "slot_fits E e s" and blen: "desc_blen_max E \<noteq> 0"
    and ring: "ring_ok (eng (dv_engine_c2h dev ch))"
    and run: "xdma_xfer_submit_nowait E oom f rid cb dev ch False ep (sl_sgt s) True =
      Some (rv, req, sgt', dev')"
  shows "rv < 0 \<and> (rv = - EIOCBQUEUED \<longrightarrow> req \<noteq> None \<and> sgt' = sl_sgt s \<and>
    (\<exists>n st'. 0 < n \<and> queued_by rid cb 0 n (dv_engine_c2h dev ch) st' \<and> dev' = put_engine False ch st' dev))"
proof -
  let ?st = "dv_engine_c2h dev ch"
  show ?thesis
  proof (cases "select_engine dev ch False")
    case (Inl err)
    then have "err = rv" using run by (simp add: xdma_xfer_submit_nowait_def)
    moreover have "err = - EINVAL \<or> err = - EBUSY"
      using Inl by (auto simp: select_engine_def Let_def split: if_splits)
    ultimately show ?thesis by auto
  next
    case (Inr st)
    then have st: "st = ?st" by (auto simp: select_engine_def Let_def split: if_splits)
    have m: "map_for_dma f True (sl_sgt s) = Some (sl_sgt s)"
      using fits by (simp add: map_for_dma_def slot_fits_def)
    show ?thesis
    proof (rule init_request_cases [OF blen, of oom "sl_sgt s" ep])
      assume "xdma_init_request (desc_blen_max E) oom (sl_sgt s) ep = Some None"
      then show ?thesis using run Inr m by (simp add: xdma_xfer_submit_nowait_def)
    next
      fix r
      assume r: "xdma_init_request (desc_blen_max E) oom (sl_sgt s) ep = Some (Some r)"
      note rq = slot_request [OF fits blen r]
      let ?s = "\<lparr>s_nents = rq_sw_desc_cnt r, s_done = 0, s_rv = 0, s_req = r\<lparr>rq_cb := Some cb\<rparr>,
          s_sgt = sl_sgt s, s_st = ?st\<rparr>"
      have "ready ?s" using ring rq by (simp add: ready_def req_left_def)
      from nowait_loop_owner [OF this, of E rid cb True 0] obtain z where
        z: "nowait_loop E rid cb True 0 ?s = Some z" "s_rv z < 0"
          "s_rv z = - EIOCBQUEUED \<longrightarrow> s_sgt z = sl_sgt s \<and> (\<exists>n. 0 < n \<and> queued_by rid cb 0 n ?st (s_st z))"
        by auto
      have "rv = s_rv z" "sgt' = s_sgt z" "dev' = put_engine False ch (s_st z) dev"
        "req = (if s_rv z = - EIOCBQUEUED then Some (s_req z) else None)"
        using run Inr m r z(1) st by (auto simp: xdma_xfer_submit_nowait_def)
      with z show ?thesis by auto
    qed
  qed
qed

lemma dbuf_submit_law:
  assumes ok: "dbuf_ok E ch dev" and fresh: "dbuf_fresh ch rid dev" and i: "i < 2"
    and run: "dbuf_submit_slot E oom rid ch i dev = Some (rv, dev')" and rv: "0 \<le> rv"
  shows "dbuf_ok E ch dev' \<and> dbuf_pending ch dev' = dbuf_pending ch dev @ [i] \<and>
    dbuf_filled (dbuf_of ch dev') = dbuf_filled (dbuf_of ch dev) - {i} \<and> dbuf_turn ch dev' = dbuf_turn ch dev \<and>
    fst ` set (e_transfer_list (eng (dv_engine_c2h dev' ch))) \<subseteq>
      insert rid (fst ` set (e_transfer_list (eng (dv_engine_c2h dev ch))))"
proof -
  let ?st = "dv_engine_c2h dev ch" and ?db = "dbuf_of ch dev"
  let ?db1 = "upd_slot i (dbuf_prepare ?db) ?db"
  let ?dev1 = "map_dbuf ch (\<lambda>db. upd_slot i (dbuf_prepare db) db) dev"
  let ?s = "db_slots ?db1 ! i"
  have len: "length (db_slots ?db) = 2" using ok by (simp add: dbuf_ok_def dbuf_of_def Let_def)
  have s: "?s = dbuf_prepare ?db (db_slots ?db ! i)" using len i by (simp add: upd_slot_def)
  have fits: "slot_fits E (eng ?st) ?s"
    using ok i unfolding s by (simp add: dbuf_ok_def dbuf_of_def Let_def slot_fits_def dbuf_prepare_def)
  obtain rv1 req sgt dev2 where sub: "xdma_xfer_submit_nowait E oom (\<lambda>sgt. sgt) rid i ?dev1 ch False
      (db_ep_addr ?db1) (sl_sgt ?s) True = Some (rv1, req, sgt, dev2)"
    using run by (auto simp: dbuf_submit_slot_def Let_def split: option.splits)
  have fits1: "slot_fits E (eng (dv_engine_c2h ?dev1 ch)) ?s" using fits by simp
  have ring1: "ring_ok (eng (dv_engine_c2h ?dev1 ch))" and blen: "desc_blen_max E \<noteq> 0"
    using ok by (simp_all add: dbuf_ok_def Let_def)
  note nw = nowait_slot [OF fits1 blen ring1 sub]
  have dev': "dev' = map_dbuf ch (upd_slot i (\<lambda>s. s\<lparr>sl_sgt := sgt,
      sl_cb := (sl_cb s)\<lparr>cb_req := if req = None then cb_req (sl_cb s) else Some rid\<rparr>\<rparr>)) dev2"
    and "rv = (if rv1 = - EIOCBQUEUED then 0 else rv1)"
    using run sub by (simp_all add: dbuf_submit_slot_def Let_def)
  with rv nw have q: "rv1 = - EIOCBQUEUED" by (auto split: if_splits)
  with nw obtain n st' where n: "0 < n" "queued_by rid i 0 n (dv_engine_c2h ?dev1 ch) st'"
    "dev2 = put_engine False ch st' ?dev1" "sgt = sl_sgt ?s" "req \<noteq> None" by blast
  let ?new = "map (Pair rid) [0..<n]"
  let ?f = "\<lambda>s. s\<lparr>sl_sgt := sgt, sl_cb := (sl_cb s)\<lparr>cb_req := Some rid\<rparr>\<rparr>"
  have st': "e_transfer_list (eng st') = e_transfer_list (eng ?st) @ ?new" "client st' = ?db1"
    "ring_ok (eng st')" "e_desc_max (eng st') = e_desc_max (eng ?st)"
    "\<And>t. fst t \<noteq> rid \<Longrightarrow> xfers st' t = xfers ?st t"
    "\<And>j. j < n \<Longrightarrow> x_cb (xfers st' (rid, j)) = Some i \<and> (x_last_in_request (xfers st' (rid, j)) \<longleftrightarrow> Suc j = n)"
    using n(2) by (auto simp: queued_by_def)
  have fin: "dv_engine_c2h dev' ch = st'\<lparr>client := upd_slot i ?f ?db1\<rparr>"
  proof -
    obtain y where "req = Some y" using n(5) by blast
    with n(3) st'(2) show ?thesis by (simp add: dev' dbuf_of_def)
  qed
  let ?db2 = "upd_slot i ?f ?db1"
  have old: "fst t \<noteq> rid" if "t \<in> set (e_transfer_list (eng ?st))" for t
    using fresh that by (auto simp: dbuf_fresh_def)
  have slots: "db_slots ?db2 ! j = (if j = i then ?f (dbuf_prepare ?db (db_slots ?db ! i)) else db_slots ?db ! j)"
    if "j < 2" for j
    using that len i by (simp add: upd_slot_def nth_list_update)
  have live: "live_slot ?db2 j" if "live_slot ?db j \<or> j = i" for j
    using that slots [of j] i by (auto simp: live_slot_def dbuf_prepare_def)
  have own: "owned (xfers ?st) ?db (e_transfer_list (eng ?st))"
    using ok by (simp add: dbuf_ok_def dbuf_of_def Let_def)
  have "owned (xfers st') ?db2 (e_transfer_list (eng ?st) @ ?new)"
    using own st'(5,6) old live by (auto simp: owned_def)
  moreover have "slot_fits E (eng st') (db_slots ?db2 ! j)" if "j < 2" for j
    using ok fits that slots [OF that] st'(4) n(4)
    by (auto simp: dbuf_ok_def dbuf_of_def Let_def slot_fits_def dbuf_prepare_def s)
  ultimately have "dbuf_ok E ch dev'"
    using ok st'(1,3) by (simp add: dbuf_ok_def Let_def fin upd_slot_def dbuf_of_def)
  moreover have "dbuf_pending ch dev' = dbuf_pending ch dev @ [i]"
  proof -
    have "owners (xfers st') (e_transfer_list (eng ?st)) = owners (xfers ?st) (e_transfer_list (eng ?st))"
      using st'(5) old by (intro owners_same) simp
    moreover have "owners (xfers st') ?new = [i]"
    proof -
      obtain k where k: "n = Suc k" using n(1) gr0_conv_Suc by blast
      then have "owners (xfers st') (map (Pair rid) [0..<k]) = []"
        using st'(6) by (auto simp: owners_def filter_empty_conv)
      moreover have "owners (xfers st') [(rid, k)] = [i]"
        using st'(6) [of k] k by (simp add: owners_def)
      ultimately show ?thesis by (simp add: k owners_append)
    qed
    ultimately show ?thesis
      by (simp add: dbuf_pending_def Let_def fin st'(1) owners_append)
  qed
  moreover have "dbuf_filled ?db2 = dbuf_filled ?db - {i}"
  proof -
    have l2: "length (db_slots ?db2) = 2" using len by (simp add: upd_slot_def)
    have "sl_filled (db_slots ?db2 ! j) \<longleftrightarrow> j \<noteq> i \<and> sl_filled (db_slots ?db ! j)" if "j < 2" for j
      unfolding slots [OF that] by (simp add: dbuf_prepare_def)
    then show ?thesis unfolding dbuf_filled_def l2 len by auto
  qed
  moreover have "fst ` set (e_transfer_list (eng (dv_engine_c2h dev' ch))) \<subseteq>
      insert rid (fst ` set (e_transfer_list (eng ?st)))"
    by (auto simp: fin st'(1))
  ultimately show ?thesis
    by (simp add: dbuf_of_def dbuf_turn_def fin upd_slot_def)
qed

section \<open>The double buffer is such an engine\<close>

lemma dbuf_flip_law:
  assumes "dbuf_ok E ch dev"
  shows "dbuf_ok E ch (dbuf_flip ch dev) \<and> dbuf_pending ch (dbuf_flip ch dev) = dbuf_pending ch dev \<and>
    dbuf_filled (dbuf_of ch (dbuf_flip ch dev)) = dbuf_filled (dbuf_of ch dev) \<and>
    dbuf_turn ch (dbuf_flip ch dev) = other (dbuf_turn ch dev)"
  using assms
  by (simp add: dbuf_ok_def dbuf_flip_def dbuf_pending_def dbuf_filled_def dbuf_turn_def other_def
      owned_def live_slot_def dbuf_of_def Let_def)

interpretation dbuf_engine: async_engine
  "\<lambda>rid i. dbuf_submit_slot E oom rid ch i" "dbuf_service E ch" "dbuf_pending ch"
  "\<lambda>dev. dbuf_filled (dbuf_of ch dev)" "dbuf_turn ch" "dbuf_flip ch" "dbuf_ok E ch" "dbuf_fresh ch"
proof (unfold_locales, goal_cases)
  case (1 s rid i rv s')
  from dbuf_submit_law [OF this] show ?case by blast
next
  case (2 s s')
  then show ?case by (rule dbuf_service_law)
next
  case (3 s)
  then show ?case by (rule dbuf_flip_law)
next
  case (4 s)
  then show ?case by (simp add: dbuf_ok_def dbuf_turn_def dbuf_of_def Let_def)
qed

text \<open>
  A run: services of the engine and reads that find their slot filled, with the blocks the
  hardware has put into the slots, the number of blocks made, and the blocks the reads returned.
\<close>

record dbuf_run =
  rn_dev :: "dbuf xdma_dev_io"
  rn_mem :: "nat \<Rightarrow> nat"
  rn_made :: nat
  rn_out :: "nat list"

definition completed_slots :: "nat \<Rightarrow> dbuf xdma_dev_io \<Rightarrow> dbuf xdma_dev_io \<Rightarrow> nat list" where
  "completed_slots ch dev dev' =
     take (length (dbuf_pending ch dev) - length (dbuf_pending ch dev')) (dbuf_pending ch dev)"

inductive dbuf_run_step ::
  "(dbuf, 'x) kenv_scheme \<Rightarrow> (nat \<Rightarrow> bool) \<Rightarrow> nat \<Rightarrow> dbuf_run \<Rightarrow> dbuf_run \<Rightarrow> bool" for E oom ch where
  interrupt: "dev' = put_engine False ch (snd (engine_service E wb (dv_engine_c2h (rn_dev r) ch))) (rn_dev r) \<Longrightarrow>
    (m, c) = land (completed_slots ch (rn_dev r) dev') (rn_mem r, rn_made r) \<Longrightarrow>
    dbuf_run_step E oom ch r (r\<lparr>rn_dev := dev', rn_mem := m, rn_made := c\<rparr>)"
| read: "char_sgdma_read_dbuf E oom await True rid ch count (rn_dev r) = Some (rv, Some i, dev') \<Longrightarrow> 0 \<le> rv \<Longrightarrow>
    i \<in> dbuf_filled (dbuf_of ch (rn_dev r)) \<Longrightarrow> dbuf_fresh ch rid (rn_dev r) \<Longrightarrow>
    dbuf_run_step E oom ch r (r\<lparr>rn_dev := dev', rn_out := rn_out r @ [rn_mem r i]\<rparr>)"

inductive_cases dbuf_run_stepE: "dbuf_run_step E oom ch r r'"

definition run_pipe :: "nat \<Rightarrow> dbuf_run \<Rightarrow> pipe" where
  "run_pipe ch r = \<lparr>pp_pending = dbuf_pending ch (rn_dev r), pp_filled = dbuf_filled (dbuf_of ch (rn_dev r)),
     pp_mem = rn_mem r, pp_made = rn_made r, pp_out = rn_out r, pp_turn = dbuf_turn ch (rn_dev r)\<rparr>"

lemma run_pipe_of:
  "run_pipe ch r = dbuf_engine.pipe_of ch (rn_dev r) (rn_mem r, rn_made r) (rn_out r)"
  by (simp add: run_pipe_def dbuf_engine.pipe_of_def)

lemma read_names_turn:
  "char_sgdma_read_dbuf E oom await True rid ch count dev = Some (rv, Some i, dev') \<Longrightarrow> i = dbuf_turn ch dev"
  by (cases "await dev")
     (auto simp: char_sgdma_read_dbuf_def dbuf_turn_def Let_def split: prod.splits if_split_asm option.split_asm)

text \<open>A read that found its slot filled and succeeded has submitted that slot and passed on the turn.\<close>

lemma read_submits:
  assumes "char_sgdma_read_dbuf E oom await True rid ch count dev = Some (rv, Some i, dev')" and "0 \<le> rv"
    and "i \<in> dbuf_filled (dbuf_of ch dev)" and "dbuf_ok E ch dev"
  shows "\<exists>rv1 dev1. dbuf_submit_slot E oom rid ch i dev = Some (rv1, dev1) \<and> 0 \<le> rv1 \<and> dev' = dbuf_flip ch dev1"
proof -
  have i: "i = db_read_idx (dbuf_of ch dev)" using read_names_turn [OF assms(1)] by (simp add: dbuf_turn_def)
  have "dbuf_ready i (dbuf_of ch dev)" using assms(3) by (simp add: dbuf_ready_def dbuf_filled_def)
  moreover have "db_active (dbuf_of ch dev)" using assms(4) by (simp add: dbuf_ok_def dbuf_of_def Let_def)
  ultimately show ?thesis
    using assms(1,2) by (simp add: char_sgdma_read_dbuf_def Let_def i split: if_split_asm option.split_asm prod.split_asm)
qed

lemma run_step_simulates:
  assumes "dbuf_run_step E oom ch r r'" and "dbuf_ok E ch (rn_dev r)"
  shows "dbuf_ok E ch (rn_dev r') \<and> pipe_step\<^sup>*\<^sup>* (run_pipe ch r) (run_pipe ch r')"
  using assms(1)
proof cases
  case (interrupt dev' wb m c)
  have s: "dbuf_service E ch (rn_dev r) dev'" using interrupt(2) by (auto simp: dbuf_service_def)
  have "(m, c) = land (dbuf_engine.gone ch (rn_dev r) dev') (rn_mem r, rn_made r)"
    using interrupt(3) by (simp add: completed_slots_def dbuf_engine.gone_def)
  with dbuf_engine.service_simulates [OF assms(2) s, of "(rn_mem r, rn_made r)" "rn_out r"] interrupt(1)
  show ?thesis by (simp add: run_pipe_of)
next
  case (read await rid count rv i dev')
  note rs = read_names_turn [OF read(2)]
  with read_submits [OF read(2,3,4) assms(2)] obtain rv1 dev1 where "dbuf_submit_slot E oom rid ch (dbuf_turn ch (rn_dev r)) (rn_dev r) = Some (rv1, dev1)"
    "0 \<le> rv1" "dev' = dbuf_flip ch dev1" by auto
  then show ?thesis
    using dbuf_engine.read_simulates [OF assms(2) read(5), where mc = "(rn_mem r, rn_made r)" and out = "rn_out r"]
      read(1,4) rs by (auto simp: run_pipe_of)
qed

end
