(* ===== verification/Cdev_Dbuf_Props.thy ===== *)
theory Cdev_Dbuf_Props
  imports Cdev_Dbuf_Spec
begin

text \<open>
  The properties of the double buffer: what a successful start establishes, that a run of
  interrupts and reads is a run of the pipe and delivers the blocks in order, when a read
  succeeds, and what happens to a failed transfer and a failed resubmission.
\<close>

declare split_paired_All [simp del] split_paired_Ex [simp del]

section \<open>Starting\<close>

text \<open>A double buffer that has just been started: both slots queued, none filled, slot 0 read first.\<close>

definition dbuf_started :: "(dbuf, 'x) kenv_scheme \<Rightarrow> nat \<Rightarrow> dbuf xdma_dev_io \<Rightarrow> bool" where
  "dbuf_started E ch dev \<longleftrightarrow> dbuf_ok E ch dev \<and> dbuf_pending ch dev = [0, 1] \<and>
     dbuf_filled (dbuf_of ch dev) = {} \<and> dbuf_turn ch dev = 0"

text \<open>A device on which a double buffer can be started: an engine with an empty queue.\<close>

definition dbuf_idle :: "(dbuf, 'x) kenv_scheme \<Rightarrow> nat \<Rightarrow> dbuf xdma_dev_io \<Rightarrow> bool" where
  "dbuf_idle E ch dev \<longleftrightarrow>
     io_done E = dbuf_io_done \<and> desc_blen_max E \<noteq> 0 \<and> ring_ok (eng (dv_engine_c2h dev ch)) \<and>
     length (db_slots (dbuf_of ch dev)) = 2 \<and> e_transfer_list (eng (dv_engine_c2h dev ch)) = []"

definition slot_table :: "nat \<Rightarrow> dbuf_slot \<Rightarrow> bool" where
  "slot_table len s \<longleftrightarrow> nents (sl_sgt s) = 1 \<and> length (sgl (sl_sgt s)) = 1 \<and>
     unat (sg_dma_len (hd (sgl (sl_sgt s)))) = len"

lemma alloc_slots_step:
  assumes "dbuf_alloc_slots alloc sgrv len (Suc n) i db = (0, db')" and "i < length (db_slots db)"
    and "len < 2 ^ 32"
  obtains s c where "slot_table len s"
    and "dbuf_alloc_slots alloc sgrv len n (Suc i) (db\<lparr>db_coherent := c, db_slots := (db_slots db)[i := s]\<rparr>) = (0, db')"
proof (cases "alloc i")
  case None
  with assms(1) show ?thesis by simp
next
  case (Some bus)
  let ?db = "upd_slot i (\<lambda>s. s\<lparr>sl_size := len, sl_virt := True, sl_bus := bus\<rparr>)
      (db\<lparr>db_coherent := (bus, len + 64) # db_coherent db\<rparr>)"
  let ?s = "(db_slots db ! i)\<lparr>sl_size := len, sl_virt := True, sl_bus := bus,
      sl_sgt := \<lparr>sgl = [\<lparr>sg_dma_address = bus, sg_dma_len = of_nat len\<rparr>], nents = 1, orig_nents = 1\<rparr>\<rparr>"
  have rv: "sgrv i = 0"
    using assms(1) Some by (auto simp: dbuf_slot_init_sgt_def Let_def split: if_split_asm)
  have "dbuf_slot_init_sgt (sgrv i) (db_slots ?db ! i) = (0, ?s)"
    using rv assms(2) by (simp add: dbuf_slot_init_sgt_def upd_slot_def)
  moreover have "upd_slot i (\<lambda>_. ?s) ?db =
      db\<lparr>db_coherent := (bus, len + 64) # db_coherent db, db_slots := (db_slots db)[i := ?s]\<rparr>"
    by (simp add: upd_slot_def)
  ultimately have "dbuf_alloc_slots alloc sgrv len n (Suc i)
      (db\<lparr>db_coherent := (bus, len + 64) # db_coherent db, db_slots := (db_slots db)[i := ?s]\<rparr>) = (0, db')"
    using assms(1) Some by (simp add: Let_def)
  moreover have "slot_table len ?s" using assms(3) by (simp add: slot_table_def unat_of_nat_small)
  ultimately show ?thesis by (rule that [rotated])
qed

lemma alloc_slots_facts:
  assumes "dbuf_alloc_slots alloc sgrv len n i db = (0, db')" and "i + n \<le> length (db_slots db)"
    and "len < 2 ^ 32"
  shows "length (db_slots db') = length (db_slots db) \<and> db_read_idx db' = db_read_idx db \<and>
    (\<forall>j < i. db_slots db' ! j = db_slots db ! j) \<and>
    (\<forall>j. i \<le> j \<and> j < i + n \<longrightarrow> slot_table len (db_slots db' ! j))"
  using assms
proof (induction n arbitrary: i db)
  case 0
  then show ?case by auto
next
  case (Suc n)
  have i: "i < length (db_slots db)" using Suc.prems(2) by simp
  obtain s c where s: "slot_table len s"
    "dbuf_alloc_slots alloc sgrv len n (Suc i) (db\<lparr>db_coherent := c, db_slots := (db_slots db)[i := s]\<rparr>) = (0, db')"
    by (rule alloc_slots_step [OF Suc.prems(1) i Suc.prems(3)])
  let ?db = "db\<lparr>db_coherent := c, db_slots := (db_slots db)[i := s]\<rparr>"
  note IH = Suc.IH [OF s(2) _ Suc.prems(3)]
  have f: "length (db_slots db') = length (db_slots db)" "db_read_idx db' = db_read_idx db"
    "\<And>j. j < Suc i \<Longrightarrow> db_slots db' ! j = (db_slots db)[i := s] ! j"
    "\<forall>j. Suc i \<le> j \<and> j < Suc i + n \<longrightarrow> slot_table len (db_slots db' ! j)"
    using IH Suc.prems(2) by simp_all
  have "slot_table len (db_slots db' ! i)" using f(3) [of i] Suc.prems(2) s(1) by simp
  then have "slot_table len (db_slots db' ! j)" if "i \<le> j \<and> j < i + Suc n" for j
    using f(4) that by (cases "j = i") simp_all
  then show ?case using f(1,2,3) by simp
qed

lemma submit_all_two:
  assumes run: "dbuf_submit_all E oom rid ch 2 0 dev = Some (rv, dev')" and rv: "0 \<le> rv"
    and ok: "dbuf_ok E ch dev" and q: "e_transfer_list (eng (dv_engine_c2h dev ch)) = []"
    and t: "dbuf_turn ch dev = 0" and rid: "rid 0 \<noteq> rid 1"
  shows "dbuf_started E ch dev'"
proof -
  obtain rv0 dev0 where s0: "dbuf_submit_slot E oom (rid 0) ch 0 dev = Some (rv0, dev0)" "0 \<le> rv0"
    and run1: "dbuf_submit_all E oom rid ch 1 1 dev0 = Some (rv, dev')"
    using run rv by (auto simp: numeral_2_eq_2 not_less split: option.split_asm if_split_asm)
  obtain rv1 where s1: "dbuf_submit_slot E oom (rid 1) ch 1 dev0 = Some (rv1, dev')" "0 \<le> rv1"
    using run1 rv by (auto simp: not_less split: option.split_asm if_split_asm)
  have fr0: "dbuf_fresh ch (rid 0) dev" using q by (simp add: dbuf_fresh_def)
  note d0 = dbuf_submit_law [OF ok fr0 _ s0, simplified]
  have fr1: "dbuf_fresh ch (rid 1) dev0" using d0 q rid by (auto simp: dbuf_fresh_def)
  have ok0: "dbuf_ok E ch dev0" using d0 by blast
  note d1 = dbuf_submit_law [OF ok0 fr1 _ s1, simplified]
  have "dbuf_pending ch dev = []" using q by (simp add: dbuf_pending_def owners_def Let_def)
  moreover have "length (db_slots (dbuf_of ch dev)) = 2" using ok by (simp add: dbuf_ok_def dbuf_of_def Let_def)
  then have "dbuf_filled (dbuf_of ch dev) \<subseteq> {0, 1}" by (auto simp: dbuf_filled_def)
  ultimately show ?thesis using d0 d1 t by (auto simp: dbuf_started_def)
qed

lemma start_establishes:
  assumes idle: "dbuf_idle E ch dev" and rid: "rid 0 \<noteq> rid 1"
    and fits: "unat (di_buf_size arg) \<le> unat (desc_blen_max E) * e_desc_max (eng (dv_engine_c2h dev ch))"
    and run: "ioctl_do_dbuf_start E oom alloc sgrv rid ch (Some arg) dev = Some (0, dev')"
  shows "dbuf_started E ch dev'"
proof -
  let ?len = "unat (di_buf_size arg)"
  let ?db = "(dbuf_of ch dev)\<lparr>db_size := ?len, db_ep_addr := di_ep_addr arg, db_read_idx := 0\<rparr>"
  obtain rv db1 where a: "dbuf_alloc_slots alloc sgrv ?len 2 0 ?db = (rv, db1)" by fastforce
  have nz: "di_buf_size arg \<noteq> 0" using run by (auto simp: ioctl_do_dbuf_start_def split: if_split_asm)
  have r: "rv = 0" "dbuf_submit_all E oom rid ch 2 0 (map_dbuf ch (\<lambda>_. db1\<lparr>db_active := True\<rparr>) dev) = Some (0, dev')"
    using run a by (auto simp: ioctl_do_dbuf_start_def Let_def split: if_split_asm)
  have len: "0 < ?len" "?len < 2 ^ 32"
    using nz unsigned_less [of "di_buf_size arg"] by (simp_all add: unat_gt_0)
  have l2: "length (db_slots ?db) = 2" using idle by (simp add: dbuf_idle_def)
  have f: "length (db_slots db1) = 2" "db_read_idx db1 = 0" "\<And>j. j < 2 \<Longrightarrow> slot_table ?len (db_slots db1 ! j)"
    using alloc_slots_facts [OF a [unfolded r(1)] _ len(2)] l2 by auto
  have "dbuf_ok E ch (map_dbuf ch (\<lambda>_. db1\<lparr>db_active := True\<rparr>) dev)"
    using idle f len(1) fits
    by (simp add: dbuf_ok_def dbuf_idle_def slot_fits_def slot_table_def owned_def Let_def)
  from submit_all_two [OF r(2) _ this _ _ rid] idle f(2) show ?thesis
    by (simp add: dbuf_idle_def dbuf_turn_def)
qed

section \<open>Runs\<close>

lemma run_simulates:
  assumes "(dbuf_run_step E oom ch)\<^sup>*\<^sup>* r r'" and "dbuf_ok E ch (rn_dev r)"
  shows "dbuf_ok E ch (rn_dev r') \<and> pipe_step\<^sup>*\<^sup>* (run_pipe ch r) (run_pipe ch r')"
  using assms
proof (induction rule: rtranclp_induct)
  case base
  then show ?case by simp
next
  case (step r1 r2)
  then have "dbuf_ok E ch (rn_dev r1)" "pipe_step\<^sup>*\<^sup>* (run_pipe ch r) (run_pipe ch r1)" by simp_all
  with run_step_simulates [OF step.hyps(2)] show ?case by (meson rtranclp_trans)
qed

text \<open>A run from a device that has just been started.\<close>

definition fresh_run :: "dbuf xdma_dev_io \<Rightarrow> dbuf_run" where
  "fresh_run dev = \<lparr>rn_dev = dev, rn_mem = (\<lambda>_. 0), rn_made = 0, rn_out = []\<rparr>"

lemma fresh_run_inv: "dbuf_started E ch dev \<Longrightarrow> pipe_inv (run_pipe ch (fresh_run dev))"
  by (simp add: dbuf_started_def pipe_inv_def run_pipe_def fresh_run_def slot_of_def
      numeral_2_eq_2)

lemma run_inv:
  assumes "dbuf_started E ch dev" and "(dbuf_run_step E oom ch)\<^sup>*\<^sup>* (fresh_run dev) r"
  shows "dbuf_ok E ch (rn_dev r)" and "pipe_inv (run_pipe ch r)"
  using run_simulates [OF assms(2)] assms(1) pipe_steps_inv fresh_run_inv [OF assms(1)]
  by (auto simp: dbuf_started_def fresh_run_def)

text \<open>The slot the reader waits for is filled or the next one the engine completes.\<close>

lemma pipe_turn:
  assumes "pipe_inv p" and "pp_turn p \<notin> pp_filled p"
  shows "pp_pending p \<noteq> [] \<and> hd (pp_pending p) = pp_turn p"
proof -
  let ?r = "length (pp_out p)" and ?c = "pp_made p"
  have i: "?r \<le> ?c" "pp_turn p = slot_of ?r" "pp_pending p = map slot_of [?c..<?r + 2]"
    "pp_filled p = slot_of ` {?r..<?c}"
    using assms(1) by (simp_all add: pipe_inv_def Let_def del: upt_Suc)
  then have "?c = ?r" using assms(2) by (cases "?r < ?c") auto
  then show ?thesis using i by (simp add: upt_conv_Cons del: upt_Suc)
qed

section \<open>When a submission is accepted\<close>

lemma queue_shutdown:
  "e_shutdown (eng st) AND ENGINE_SHUTDOWN_REQUEST = 0 \<Longrightarrow>
     e_shutdown (eng (snd (transfer_queue E t st))) AND ENGINE_SHUTDOWN_REQUEST = 0"
  by (simp add: transfer_queue_def engine_start_def engine_start_mode_config_def Let_def split_beta
      split: list.splits)

lemma queue_ports [simp]:
  "e_magic (eng (snd (transfer_queue E t st))) = e_magic (eng st)"
  by (simp add: transfer_queue_def engine_start_def engine_start_mode_config_def Let_def split_beta
      split: list.splits)

lemma prepare_magic [simp]: "ready s \<Longrightarrow>
    e_magic (eng (s_st (prepare_transfer t cb m s))) = e_magic (eng (s_st s))"
  by (simp add: prepare_transfer_def transfer_init_eq ready_def Let_def)

text \<open>What an accepted submission leaves as it was.\<close>

definition accepted_by :: "'c submission \<Rightarrow> 'c submission \<Rightarrow> bool" where
  "accepted_by s r \<longleftrightarrow> s_rv r = - EIOCBQUEUED \<and> s_sgt r = s_sgt s \<and> client (s_st r) = client (s_st s) \<and>
     xdev_flags (s_st r) = xdev_flags (s_st s) \<and> e_magic (eng (s_st r)) = e_magic (eng (s_st s)) \<and>
     e_dir (eng (s_st r)) = e_dir (eng (s_st s)) \<and>
     e_shutdown (eng (s_st r)) AND ENGINE_SHUTDOWN_REQUEST = 0"

lemma nowait_loop_accepts:
  assumes "ready s" and "xdev_flags (s_st s) AND XDEV_FLAG_OFFLINE = 0"
    and "e_shutdown (eng (s_st s)) AND ENGINE_SHUTDOWN_REQUEST = 0"
  shows "\<exists>r. nowait_loop E rid cb m k s = Some r \<and> accepted_by s r"
  using assms
proof (induction "s_nents s" arbitrary: s k rule: less_induct)
  case less
  let ?p = "prepare_transfer (rid, k) (Some cb) m s"
  let ?q = "transfer_queue E (rid, k) (s_st ?p)"
  let ?s = "?p\<lparr>s_rv := fst ?q, s_st := snd ?q\<rparr>"
  note p = prepare_transfer_facts [OF less.prems(1)]
  have nz: "s_nents s \<noteq> 0" using less.prems by (simp add: ready_def req_left_def)
  have "x_desc_num (xfers (s_st ?p) (rid, k)) \<noteq> 0" using p(2,18) by simp
  then have "fst ?q = 0" using transfer_queue_accepted(1) [of "s_st ?p" "(rid, k)" E] p(11,14) less.prems by simp
  then have unroll: "nowait_loop E rid cb m k s = nowait_loop E rid cb m (Suc k) ?s"
    using nz by (simp add: nowait_loop.simps [of E rid cb m k s] split_beta Let_def)
  have on: "xdev_flags (s_st ?s) AND XDEV_FLAG_OFFLINE = 0"
    "e_shutdown (eng (s_st ?s)) AND ENGINE_SHUTDOWN_REQUEST = 0"
    using less.prems(2,3) p(11,14) queue_shutdown [of "s_st ?p" E "(rid, k)"] by simp_all
  have same: "s_sgt ?s = s_sgt s" "client (s_st ?s) = client (s_st s)"
    "xdev_flags (s_st ?s) = xdev_flags (s_st s)" "e_magic (eng (s_st ?s)) = e_magic (eng (s_st s))"
    "e_dir (eng (s_st ?s)) = e_dir (eng (s_st s))"
    using p(13,14,16) prepare_owner(1) [OF less.prems(1)] less.prems(1) by simp_all
  show ?case
  proof (cases "s_nents ?s = 0")
    case True
    then have "nowait_loop E rid cb m (Suc k) ?s = Some (?s\<lparr>s_rv := - EIOCBQUEUED\<rparr>)"
      by (simp add: nowait_loop.simps)
    then show ?thesis unfolding unroll using same on by (simp add: accepted_by_def)
  next
    case False
    have lt: "s_nents ?s < s_nents s" using p(1-3) by simp
    have rd: "ready ?s"
      using p(1,5,6,8) less.prems(1) False by (auto simp: ready_def req_left_def ring_ok_def)
    from less.hyps [OF lt rd on, of "Suc k"] same show ?thesis
      unfolding unroll by (auto simp: accepted_by_def)
  qed
qed

text \<open>A device whose receiving engine \<open>ch\<close> is there and up, and one that accepts its slots.\<close>

definition dbuf_port :: "nat \<Rightarrow> dbuf xdma_dev_io \<Rightarrow> bool" where
  "dbuf_port ch dev \<longleftrightarrow>
     (let st = dv_engine_c2h dev ch in
      dv_hndl_check dev \<ge> 0 \<and> ch < dv_c2h_channel_max dev \<and> e_magic (eng st) = MAGIC_ENGINE \<and>
      e_dir (eng st) = DMA_FROM_DEVICE \<and> xdev_flags st AND XDEV_FLAG_OFFLINE = 0 \<and>
      e_shutdown (eng st) AND ENGINE_SHUTDOWN_REQUEST = 0)"

definition dbuf_online :: "(dbuf, 'x) kenv_scheme \<Rightarrow> nat \<Rightarrow> dbuf xdma_dev_io \<Rightarrow> bool" where
  "dbuf_online E ch dev \<longleftrightarrow> dbuf_port ch dev \<and>
     (\<forall>i < 2. unat (sg_dma_len (hd (sgl (sl_sgt (db_slots (dbuf_of ch dev) ! i))))) +
        unat (desc_blen_max E) \<le> 2 ^ 32)"

lemma slot_init:
  assumes fits: "slot_fits E e s" and blen: "desc_blen_max E \<noteq> 0"
    and bound: "unat (sg_dma_len (hd (sgl (sl_sgt s)))) + unat (desc_blen_max E) \<le> 2 ^ 32"
  shows "\<exists>r. xdma_init_request (desc_blen_max E) (\<lambda>_. False) (sl_sgt s) ep = Some (Some r)"
proof -
  obtain sg where sg: "sgl (sl_sgt s) = [sg]" "nents (sl_sgt s) = 1" using fits
    by (auto simp: slot_fits_def length_Suc_conv)
  have "length (all_pieces (unat (desc_blen_max E)) [sg]) \<le> length [sg] + count_extra (desc_blen_max E) [sg]"
    by (rule all_pieces_fit [OF blen]) (use bound sg in simp)
  then show ?thesis
    by (auto simp: xdma_init_request_def xdma_request_alloc_def zero_request_def Let_def sg
        cut_entries_pieces [OF blen] simp del: all_pieces.simps count_extra.simps cut_entries.simps)
qed

lemma slot_accepted:
  assumes ok: "dbuf_ok E ch dev" and online: "dbuf_online E ch dev" and i: "i < 2"
  shows "\<exists>dev'. dbuf_submit_slot E (\<lambda>_. False) rid ch i dev = Some (0, dev') \<and> dbuf_online E ch dev' \<and>
    db_size (dbuf_of ch dev') = db_size (dbuf_of ch dev)"
proof -
  let ?db = "dbuf_of ch dev"
  let ?dev = "map_dbuf ch (\<lambda>db. upd_slot i (dbuf_prepare db) db) dev"
  let ?s = "dbuf_prepare ?db (db_slots ?db ! i)"
  have len: "length (db_slots ?db) = 2" using ok by (simp add: dbuf_ok_def dbuf_of_def Let_def)
  have s: "db_slots (dbuf_of ch ?dev) ! i = ?s" using len i by (simp add: upd_slot_def)
  have fits: "slot_fits E (eng (dv_engine_c2h dev ch)) ?s"
    using ok i by (simp add: dbuf_ok_def dbuf_of_def Let_def slot_fits_def dbuf_prepare_def)
  have blen: "desc_blen_max E \<noteq> 0" and ring: "ring_ok (eng (dv_engine_c2h dev ch))"
    using ok by (simp_all add: dbuf_ok_def Let_def)
  have "unat (sg_dma_len (hd (sgl (sl_sgt ?s)))) + unat (desc_blen_max E) \<le> 2 ^ 32"
    using online i by (simp add: dbuf_online_def dbuf_port_def dbuf_of_def dbuf_prepare_def Let_def)
  from slot_init [OF fits blen this, of "db_ep_addr (dbuf_of ch ?dev)"] obtain r where
    r: "xdma_init_request (desc_blen_max E) (\<lambda>_. False) (sl_sgt ?s) (db_ep_addr (dbuf_of ch ?dev)) = Some (Some r)"
    by blast
  have sel: "select_engine ?dev ch False = Inr (dv_engine_c2h ?dev ch)"
    using online by (simp add: dbuf_online_def dbuf_port_def select_engine_def dir_of_def Let_def xdma_device_flag_check_def
        map_dbuf_def put_engine_def)
  have m: "map_for_dma (\<lambda>sgt. sgt) True (sl_sgt ?s) = Some (sl_sgt ?s)"
    using fits by (simp add: map_for_dma_def slot_fits_def)
  let ?z = "\<lparr>s_nents = rq_sw_desc_cnt r, s_done = 0, s_rv = 0, s_req = r\<lparr>rq_cb := Some i\<rparr>,
      s_sgt = sl_sgt ?s, s_st = dv_engine_c2h ?dev ch\<rparr>"
  have "ready ?z" using ring slot_request [OF fits blen r] by (simp add: ready_def req_left_def)
  then have "\<exists>z. nowait_loop E rid i True 0 ?z = Some z \<and> accepted_by ?z z"
    by (rule nowait_loop_accepts) (use online in \<open>simp_all add: dbuf_online_def dbuf_port_def Let_def\<close>)
  then obtain z where z: "nowait_loop E rid i True 0 ?z = Some z" "accepted_by ?z z" by blast
  let ?f = "upd_slot i (\<lambda>s. s\<lparr>sl_sgt := s_sgt z, sl_cb := (sl_cb s)\<lparr>cb_req := Some rid\<rparr>\<rparr>)"
  let ?dev' = "map_dbuf ch ?f (put_engine False ch (s_st z) ?dev)"
  have "xdma_xfer_submit_nowait E (\<lambda>_. False) (\<lambda>sgt. sgt) rid i ?dev ch False (db_ep_addr (dbuf_of ch ?dev))
      (sl_sgt ?s) True = Some (- EIOCBQUEUED, Some (s_req z), s_sgt z, put_engine False ch (s_st z) ?dev)"
    unfolding xdma_xfer_submit_nowait_def sel using m r z by (simp add: accepted_by_def)
  then have sub: "dbuf_submit_slot E (\<lambda>_. False) rid ch i dev = Some (0, ?dev')"
    unfolding dbuf_submit_slot_def Let_def s by simp
  have cl: "client (s_st z) = upd_slot i (dbuf_prepare ?db) ?db" "s_sgt z = sl_sgt (db_slots ?db ! i)"
    using z(2) by (simp_all add: accepted_by_def dbuf_prepare_def)
  have "sl_sgt (db_slots (dbuf_of ch ?dev') ! j) = sl_sgt (db_slots ?db ! j)" if "j < 2" for j
    using that len i by (simp add: dbuf_of_def cl upd_slot_def nth_list_update dbuf_prepare_def)
  then have "dbuf_online E ch ?dev'"
    using online z(2) by (simp add: dbuf_online_def dbuf_port_def Let_def accepted_by_def map_dbuf_def put_engine_def dbuf_of_def)
  moreover have "db_size (dbuf_of ch ?dev') = db_size ?db" by (simp add: dbuf_of_def cl upd_slot_def)
  ultimately show ?thesis using sub by blast
qed

lemma submit_all_accepts:
  assumes ok: "dbuf_ok E ch dev" and online: "dbuf_online E ch dev" and rid: "rid 0 \<noteq> rid 1"
    and q: "e_transfer_list (eng (dv_engine_c2h dev ch)) = []" and t: "dbuf_turn ch dev = 0"
  shows "\<exists>dev'. dbuf_submit_all E (\<lambda>_. False) rid ch 2 0 dev = Some (0, dev') \<and>
    dbuf_started E ch dev' \<and> dbuf_online E ch dev'"
proof -
  obtain d0 where d0: "dbuf_submit_slot E (\<lambda>_. False) (rid 0) ch 0 dev = Some (0, d0)" "dbuf_online E ch d0"
    using slot_accepted [OF ok online, of 0 "rid 0"] by auto
  have "dbuf_fresh ch (rid 0) dev" using q by (simp add: dbuf_fresh_def)
  from dbuf_submit_law [OF ok this _ d0(1)] have "dbuf_ok E ch d0" by simp
  then obtain d1 where d1: "dbuf_submit_slot E (\<lambda>_. False) (rid 1) ch 1 d0 = Some (0, d1)" "dbuf_online E ch d1"
    using slot_accepted [OF _ d0(2), of 1 "rid 1"] by auto
  have run: "dbuf_submit_all E (\<lambda>_. False) rid ch 2 0 dev = Some (0, d1)"
    using d0 d1 by (simp add: numeral_2_eq_2)
  with submit_all_two [OF run _ ok q t rid] d1(2) show ?thesis by simp
qed

lemma alloc_slots_succeed:
  assumes "\<forall>j. alloc j \<noteq> None" and "\<forall>j. sgrv j = 0"
  shows "\<exists>db'. dbuf_alloc_slots alloc sgrv len n i db = (0, db')"
proof (induction n arbitrary: i db)
  case (Suc n)
  obtain bus where "alloc i = Some bus" using assms(1) by blast
  with Suc show ?case by (simp add: assms(2) dbuf_slot_init_sgt_def Let_def)
qed simp

lemma start_accepts:
  assumes idle: "dbuf_idle E ch dev" and port: "dbuf_port ch dev" and rid: "rid 0 \<noteq> rid 1"
    and off: "\<not> db_active (dbuf_of ch dev)"
    and arg: "di_version arg = XDMA_DBUF_V1" "di_buf_size arg \<noteq> 0" "di_buf_size arg AND 0xfff = 0"
    and fits: "unat (di_buf_size arg) \<le> unat (desc_blen_max E) * e_desc_max (eng (dv_engine_c2h dev ch))"
      "unat (di_buf_size arg) + unat (desc_blen_max E) \<le> 2 ^ 32"
    and mem: "\<forall>j. alloc j \<noteq> None" "\<forall>j. sgrv j = 0"
  shows "\<exists>dev'. ioctl_do_dbuf_start E (\<lambda>_. False) alloc sgrv rid ch (Some arg) dev = Some (0, dev') \<and>
    dbuf_started E ch dev' \<and> dbuf_online E ch dev'"
proof -
  let ?len = "unat (di_buf_size arg)"
  let ?db = "(dbuf_of ch dev)\<lparr>db_size := ?len, db_ep_addr := di_ep_addr arg, db_read_idx := 0\<rparr>"
  obtain db1 where a: "dbuf_alloc_slots alloc sgrv ?len 2 0 ?db = (0, db1)"
    using alloc_slots_succeed [OF mem] by blast
  let ?dev1 = "map_dbuf ch (\<lambda>_. db1\<lparr>db_active := True\<rparr>) dev"
  have run: "ioctl_do_dbuf_start E (\<lambda>_. False) alloc sgrv rid ch (Some arg) dev =
      dbuf_submit_all E (\<lambda>_. False) rid ch 2 0 ?dev1"
    using a off arg by (simp add: ioctl_do_dbuf_start_def Let_def)
  have len: "0 < ?len" "?len < 2 ^ 32"
    using arg(2) unsigned_less [of "di_buf_size arg"] by (simp_all add: unat_gt_0)
  have l2: "length (db_slots ?db) = 2" using idle by (simp add: dbuf_idle_def)
  have f: "length (db_slots db1) = 2" "db_read_idx db1 = 0" "\<And>j. j < 2 \<Longrightarrow> slot_table ?len (db_slots db1 ! j)"
    using alloc_slots_facts [OF a _ len(2)] l2 by auto
  have "dbuf_ok E ch ?dev1"
    using idle f len(1) fits
    by (simp add: dbuf_ok_def dbuf_idle_def slot_fits_def slot_table_def owned_def Let_def)
  moreover have "dbuf_online E ch ?dev1"
    using port f(3) fits(2) by (simp add: dbuf_online_def dbuf_port_def Let_def slot_table_def)
       (simp add: map_dbuf_def put_engine_def)
  ultimately show ?thesis
    unfolding run by (rule submit_all_accepts [OF _ _ rid])
       (use idle f(2) in \<open>simp_all add: dbuf_idle_def dbuf_turn_def\<close>)
qed

section \<open>A service leaves the device as it was\<close>

definition ports :: "('c, 's) est_scheme \<Rightarrow> u64 \<times> dma_data_direction \<times> u32" where
  "ports st = (e_magic (eng st), e_dir (eng st), xdev_flags st)"

definition up :: "('c, 's) est_scheme \<Rightarrow> bool" where
  "up st \<longleftrightarrow> e_shutdown (eng st) AND ENGINE_SHUTDOWN_REQUEST = 0"

lemma start_ports:
  "ports (snd (engine_start E st)) = ports st" "up st \<Longrightarrow> up (snd (engine_start E st))"
  by (simp_all add: ports_def up_def engine_start_def engine_start_mode_config_def Let_def split_beta
      split: list.splits)

lemma completion_ports [simp]:
  "xdev_flags (snd (engine_transfer_completion E tr st)) = xdev_flags st"
  by (auto simp: engine_transfer_completion_def wake_up_def Let_def split: option.splits)

lemma service_shutdown_flags [simp]:
  "xdev_flags (snd (engine_service_shutdown E st)) = xdev_flags st"
  by (simp add: engine_service_shutdown_def wake_up_def Let_def split_beta)

lemma status_read_eng [simp]:
  "e_magic (eng (snd (engine_status_read E c d st))) = e_magic (eng st)"
  "e_dir (eng (snd (engine_status_read E c d st))) = e_dir (eng st)"
  "e_shutdown (eng (snd (engine_status_read E c d st))) = e_shutdown (eng st)"
  by (simp_all add: engine_status_read_def engine_reg_dump_def split_beta Let_def)

lemma retire_one_ports: "ports (retire_one E t st) = ports st \<and> up (retire_one E t st) = up st"
  by (simp add: retire_one_def del_head_def set_xfer_def ports_def up_def Let_def)

lemma service_list_ports:
  "ports (snd (snd (engine_service_transfer_list E tr pc st))) = ports st \<and>
   up (snd (snd (engine_service_transfer_list E tr pc st))) = up st"
proof (induction E tr pc st rule: engine_service_transfer_list.induct)
  case (1 E pc st)
  then show ?case by (simp add: engine_service_transfer_list.simps)
next
  case (2 E t pc st)
  then show ?case
    by (auto simp: engine_service_transfer_list.simps(2) [of E t pc st] Let_def retire_one_ports
        simp del: transfer_list_retire_one split: list.split)
qed

lemma service_queue_ports:
  fixes st :: "('c, 's) est_scheme"
  shows "ports (service_queue E pc st) = ports st" and "up st \<Longrightarrow> up (service_queue E pc st)"
proof -
  have perf: "ports (snd (engine_service_perf pc s)) = ports s \<and> up (snd (engine_service_perf pc s)) = up s"
    for s :: "('c, 's) est_scheme"
    by (auto simp: engine_service_perf_def wake_up_def ports_def up_def Let_def split: option.splits)
  have final: "ports (snd (engine_service_final_transfer E tr n s)) = ports s \<and>
      up (snd (engine_service_final_transfer E tr n s)) = up s" for tr n and s :: "('c, 's) est_scheme"
    by (auto simp: engine_service_final_transfer_def engine_err_handle_def add_dequeued_def ports_def up_def
        transfer_del_def del_head_def Let_def split_beta split: option.splits)
  have resume: "ports (snd (engine_service_resume E s)) = ports s \<and> (up s \<longrightarrow> up (snd (engine_service_resume E s)))"
    for s :: "('c, 's) est_scheme"
    using start_ports [where st = s and E = E]
    by (simp add: engine_service_resume_def wake_up_def Let_def split_beta)
       (simp add: ports_def up_def)
  show "ports (service_queue E pc st) = ports st" "up st \<Longrightarrow> up (service_queue E pc st)"
    by (simp_all add: service_queue_def Let_def split_beta final resume service_list_ports perf)
qed

lemma straight_ports [simp]:
  "ports (snd (engine_status_read E c d st)) = ports st" "up (snd (engine_status_read E c d st)) = up st"
  "ports (snd (engine_service_shutdown E st)) = ports st" "up (snd (engine_service_shutdown E st)) = up st"
  "ports (snd (read_ereg E r st)) = ports st" "up (snd (read_ereg E r st)) = up st"
  by (simp_all add: ports_def up_def engine_service_shutdown_def wake_up_def Let_def split_beta)

lemma service_ports:
  fixes st :: "('c, 's) est_scheme"
  shows "ports (snd (engine_service E wb st)) = ports st" and "up st \<Longrightarrow> up (snd (engine_service E wb st))"
  by (simp_all add: engine_service_def Let_def split_beta service_queue_ports)

lemma service_online:
  assumes ok: "dbuf_ok E ch dev" and online: "dbuf_online E ch dev" and s: "dbuf_service E ch dev dev'"
  shows "dbuf_online E ch dev' \<and> db_size (dbuf_of ch dev') = db_size (dbuf_of ch dev)"
proof -
  let ?st = "dv_engine_c2h dev ch"
  from s obtain wb where dev': "dev' = put_engine False ch (snd (engine_service E wb ?st)) dev"
    unfolding dbuf_service_def by blast
  let ?st' = "snd (engine_service E wb ?st)" and ?q = "e_transfer_list (eng ?st)"
  from service_notified [of E ?st wb] obtain n where
    n: "client ?st' = fold (notify E (xfers ?st)) (take n ?q) (client ?st)"
    unfolding notified_def by blast
  have len: "length (db_slots (client ?st)) = 2" using ok by (simp add: dbuf_ok_def Let_def)
  have "owned (xfers ?st) (client ?st) (take n ?q)"
    using ok set_take_subset [of n ?q] by (auto simp: owned_def dbuf_ok_def Let_def)
  then have sh: "dbuf_shape (client ?st') = dbuf_shape (client ?st)"
    using fold_notify [of E "client ?st" "xfers ?st" "take n ?q"] ok n by (simp add: dbuf_ok_def Let_def)
  have "sl_sgt (db_slots (client ?st') ! i) = sl_sgt (db_slots (client ?st) ! i)" if "i < 2" for i
    using slot_fields(2) [OF shape_eqD(6) [OF sh, of i]] that len by simp
  then show ?thesis
    using online service_ports [where st = ?st and E = E and wb = wb] shape_eqD(4) [OF sh]
    by (simp add: dbuf_online_def dbuf_port_def Let_def dev' ports_def up_def dbuf_of_def) (simp add: put_engine_def)
qed

section \<open>Reading\<close>

lemma read_delivers:
  assumes ok: "dbuf_ok E ch dev" and fresh: "dbuf_fresh ch rid dev" and online: "dbuf_online E ch dev"
    and turn: "dbuf_turn ch dev \<in> dbuf_filled (dbuf_of ch dev)" and count: "count \<le> db_size (dbuf_of ch dev)"
  shows "\<exists>dev'. char_sgdma_read_dbuf E (\<lambda>_. False) await True rid ch count dev =
      Some (int count, Some (dbuf_turn ch dev), dev') \<and> dbuf_ok E ch dev' \<and> dbuf_online E ch dev' \<and>
    dbuf_pending ch dev' = dbuf_pending ch dev @ [dbuf_turn ch dev] \<and>
    dbuf_turn ch dev' = other (dbuf_turn ch dev) \<and> db_size (dbuf_of ch dev') = db_size (dbuf_of ch dev)"
proof -
  let ?i = "dbuf_turn ch dev"
  have i: "?i < 2" using ok by (simp add: dbuf_ok_def dbuf_turn_def dbuf_of_def Let_def)
  obtain dev1 where d1: "dbuf_submit_slot E (\<lambda>_. False) rid ch ?i dev = Some (0, dev1)" "dbuf_online E ch dev1"
    "db_size (dbuf_of ch dev1) = db_size (dbuf_of ch dev)"
    using slot_accepted [OF ok online i] by blast
  note q = dbuf_submit_law [OF ok fresh i d1(1)]
  then have ok1: "dbuf_ok E ch dev1" by simp
  have "dbuf_ready ?i (dbuf_of ch dev)" using turn by (simp add: dbuf_ready_def dbuf_filled_def)
  moreover have "db_active (dbuf_of ch dev)" using ok by (simp add: dbuf_ok_def dbuf_of_def Let_def)
  ultimately have "char_sgdma_read_dbuf E (\<lambda>_. False) await True rid ch count dev =
      Some (int count, Some ?i, dbuf_flip ch dev1)"
    using d1(1) count by (simp add: char_sgdma_read_dbuf_def dbuf_turn_def Let_def)
  moreover have "dbuf_online E ch (dbuf_flip ch dev1)"
    using d1(2) by (simp add: dbuf_online_def dbuf_port_def dbuf_flip_def dbuf_of_def Let_def map_dbuf_def put_engine_def)
  moreover have "db_size (dbuf_of ch (dbuf_flip ch dev1)) = db_size (dbuf_of ch dev)"
    using d1(3) by (simp add: dbuf_flip_def)
  ultimately show ?thesis using dbuf_flip_law [OF ok1] q by auto
qed

section \<open>A double buffer for the witnesses\<close>

definition dbuf_env :: "dbuf kenv" where
  "dbuf_env = \<lparr>hw = (\<lambda>log a. if a = IOM 0 0x48 then 1 else 0), poll_mode = False,
     interrupt_mode = 0, enable_st_c2h_credit = False, desc_blen_max = 0x1000, io_done = dbuf_io_done\<rparr>"

definition dbuf_zero_slot :: dbuf_slot where
  "dbuf_zero_slot = \<lparr>sl_virt = False, sl_bus = 0, sl_size = 0, sl_sgt = empty_sgt, sl_cb = zero_cb,
     sl_filled = False\<rparr>"

definition dbuf_zero :: dbuf where
  "dbuf_zero = \<lparr>db_slots = [dbuf_zero_slot, dbuf_zero_slot], db_size = 0, db_ep_addr = 0, db_read_idx = 0,
     db_active = False, db_wakes = 0, db_coherent = []\<rparr>"

text \<open>A started double buffer of two 4096-byte slots, its first transfer ready to be serviced.\<close>

definition dbuf_full_slot :: "u64 \<Rightarrow> dbuf_slot" where
  "dbuf_full_slot bus = dbuf_zero_slot\<lparr>sl_virt := True, sl_bus := bus, sl_size := 0x1000,
     sl_sgt := \<lparr>sgl = [\<lparr>sg_dma_address = bus, sg_dma_len = 0x1000\<rparr>], nents = 1, orig_nents = 1\<rparr>,
     sl_cb := zero_cb\<lparr>cb_private := Some 0, cb_io_done := Fn_dbuf_io_done\<rparr>\<rparr>"

definition dbuf_sample_st :: "dbuf est" where
  "dbuf_sample_st = \<lparr>eng = sample_engine\<lparr>e_dir := DMA_FROM_DEVICE, e_running := True,
       e_transfer_list := [(0, 0), (1, 0)]\<rparr>,
     xfers = (\<lambda>t. zero_xfer\<lparr>x_desc_num := 1, x_desc_adjacent := 1, x_last_in_request := True,
       x_cb := Some (fst t), x_state := TRANSFER_STATE_SUBMITTED\<rparr>), io = [], wakes = [],
     client = dbuf_zero\<lparr>db_slots := [dbuf_full_slot 0x8000, dbuf_full_slot 0xA000], db_size := 0x1000,
       db_active := True\<rparr>, xdev_flags = 0, xdev_msix_enabled = False, xdev_cfg = IOM 1 0\<rparr>"

definition dbuf_sample :: "dbuf xdma_dev_io" where
  "dbuf_sample = \<lparr>dv_hndl_check = 0, dv_h2c_channel_max = 0, dv_c2h_channel_max = 1,
     dv_engine_h2c = (\<lambda>_. dbuf_sample_st), dv_engine_c2h = (\<lambda>_. dbuf_sample_st)\<rparr>"

lemmas dbuf_sample_defs = dbuf_env_def dbuf_zero_slot_def dbuf_zero_def dbuf_full_slot_def
  dbuf_sample_st_def dbuf_sample_def sample_engine_def zero_cb_def zero_xfer_def

lemma less_two: "i < (2 :: nat) \<longleftrightarrow> i = 0 \<or> i = 1"
  by auto

lemma dbuf_sample_started: "dbuf_started dbuf_env 0 dbuf_sample"
  unfolding dbuf_started_def
proof (intro conjI)
  show "dbuf_ok dbuf_env 0 dbuf_sample"
    by (simp add: dbuf_ok_def dbuf_sample_defs ring_ok_def slot_fits_def owned_def live_slot_def less_two
        Let_def)
  show "dbuf_pending 0 dbuf_sample = [0, 1]"
    by (simp add: dbuf_pending_def owners_def dbuf_sample_defs)
  show "dbuf_filled (dbuf_of 0 dbuf_sample) = {}"
    by (auto simp: dbuf_filled_def dbuf_of_def dbuf_sample_defs nth_Cons')
  show "dbuf_turn 0 dbuf_sample = 0"
    by (simp add: dbuf_turn_def dbuf_of_def dbuf_sample_defs)
qed

lemma dbuf_sample_port: "dbuf_port 0 dbuf_sample"
  by (simp add: dbuf_port_def dbuf_sample_defs)

lemma dbuf_sample_online: "dbuf_online dbuf_env 0 dbuf_sample"
  using dbuf_sample_port by (auto simp: dbuf_online_def dbuf_of_def dbuf_sample_defs less_two)

text \<open>The sample after the first interrupt.\<close>

definition dbuf_served :: "dbuf xdma_dev_io" where
  "dbuf_served = put_engine False 0 (snd (engine_service dbuf_env 0 (dv_engine_c2h dbuf_sample 0))) dbuf_sample"

lemma dbuf_served_queue:
  "e_transfer_list (eng (snd (engine_service dbuf_env 0 dbuf_sample_st))) = [(1, 0)]"
proof -
  let ?s3 = "snd (read_ereg dbuf_env ER_completed_desc_count
    (snd (engine_service_shutdown dbuf_env (snd (engine_status_read dbuf_env True False dbuf_sample_st)))))"
  have "snd (engine_service dbuf_env 0 dbuf_sample_st) = service_queue dbuf_env 1 ?s3"
    by (simp add: engine_service_def Let_def split_beta read_ereg_value dbuf_sample_defs ereg_def io_plus_def
        stat_masks)
  moreover have "e_transfer_list (eng (service_queue dbuf_env 1 ?s3)) = [(1, 0)]"
    using service_queue_exact [of ?s3 "[]" "(0, 0)" "[(1, 0)]" 1 1 dbuf_env] by (simp add: dbuf_sample_defs)
  ultimately show ?thesis by simp
qed

lemma dbuf_served_facts:
  "dbuf_service dbuf_env 0 dbuf_sample dbuf_served" "dbuf_ok dbuf_env 0 dbuf_served"
  "dbuf_online dbuf_env 0 dbuf_served" "dbuf_pending 0 dbuf_served = [1]"
  "dbuf_filled (dbuf_of 0 dbuf_served) = {0}" "dbuf_turn 0 dbuf_served = 0"
  "db_size (dbuf_of 0 dbuf_served) = 0x1000"
proof -
  show s: "dbuf_service dbuf_env 0 dbuf_sample dbuf_served"
    unfolding dbuf_service_def dbuf_served_def by blast
  note st = dbuf_sample_started [unfolded dbuf_started_def]
  have ok: "dbuf_ok dbuf_env 0 dbuf_sample" using st by blast
  note l = dbuf_service_law [OF ok s]
  show "dbuf_ok dbuf_env 0 dbuf_served" using l by blast
  have "dbuf_pending 0 dbuf_served =
      owners (xfers (snd (engine_service dbuf_env 0 dbuf_sample_st))) [(1, 0)]"
    by (simp add: dbuf_pending_def dbuf_served_def dbuf_sample_def dbuf_served_queue Let_def)
  also have "\<dots> = owners (xfers dbuf_sample_st) [(1, 0)]"
    using service_notified [of dbuf_env dbuf_sample_st 0] owners_cong by (auto simp: notified_def)
  also have "\<dots> = [1]" by (simp add: owners_def dbuf_sample_st_def)
  finally show p: "dbuf_pending 0 dbuf_served = [1]" .
  with l st show "dbuf_filled (dbuf_of 0 dbuf_served) = {0}" "dbuf_turn 0 dbuf_served = 0"
    by auto
  have "db_size (dbuf_of 0 dbuf_sample) = 0x1000" by (simp add: dbuf_of_def dbuf_sample_defs)
  with service_online [OF ok dbuf_sample_online s]
  show "dbuf_online dbuf_env 0 dbuf_served" "db_size (dbuf_of 0 dbuf_served) = 0x1000" by simp_all
qed

lemma two_steps: "dbuf_run_step E oom ch a b \<Longrightarrow> dbuf_run_step E oom ch b c \<Longrightarrow> (dbuf_run_step E oom ch)\<^sup>*\<^sup>* a c"
  by (rule rtranclp.rtrancl_into_rtrancl [OF r_into_rtranclp])

text \<open>An interrupt and a read of the sample.\<close>

lemma dbuf_sample_run:
  obtains r where "(dbuf_run_step dbuf_env (\<lambda>_. False) 0)\<^sup>*\<^sup>* (fresh_run dbuf_sample) r" "rn_out r = [0]" "rn_made r = 1"
proof -
  let ?r1 = "(fresh_run dbuf_sample)\<lparr>rn_dev := dbuf_served, rn_mem := (\<lambda>_. 0)(0 := 0), rn_made := 1\<rparr>"
  have p: "dbuf_pending 0 dbuf_sample = [0, 1]" using dbuf_sample_started by (simp add: dbuf_started_def)
  have land: "((\<lambda>_. 0)(0 := 0), 1) = land (completed_slots 0 dbuf_sample dbuf_served) (\<lambda>_. 0, 0)"
    by (simp add: completed_slots_def p dbuf_served_facts(4) land_def)
  have one: "dbuf_run_step dbuf_env (\<lambda>_. False) 0 (fresh_run dbuf_sample) ?r1"
    by (rule dbuf_run_step.interrupt [where E = dbuf_env and wb = 0 and r = "fresh_run dbuf_sample"])
       (use land in \<open>simp_all add: fresh_run_def dbuf_served_def\<close>)
  have fr: "dbuf_fresh 0 7 dbuf_served"
    by (simp add: dbuf_fresh_def dbuf_served_def dbuf_sample_def dbuf_served_queue)
  obtain dev' where d: "char_sgdma_read_dbuf dbuf_env (\<lambda>_. False) (\<lambda>d. (0, d)) True 7 0 64 dbuf_served =
      Some (64, Some 0, dev')"
    using read_delivers [OF dbuf_served_facts(2) fr dbuf_served_facts(3), of 64 "\<lambda>d. (0, d)"]
    by (auto simp: dbuf_served_facts)
  have two: "dbuf_run_step dbuf_env (\<lambda>_. False) 0 ?r1 (?r1\<lparr>rn_dev := dev', rn_out := rn_out ?r1 @ [rn_mem ?r1 0]\<rparr>)"
    by (rule dbuf_run_step.read [where rv = 64]) (use d fr in \<open>simp_all add: dbuf_served_facts\<close>)
  show ?thesis by (rule that [OF two_steps [OF one two]]) (simp_all add: fresh_run_def)
qed

section \<open>Properties\<close>




definition dbuf_blank :: "dbuf xdma_dev_io" where
  "dbuf_blank = dbuf_sample\<lparr>dv_engine_c2h := \<lambda>_. dbuf_sample_st\<lparr>client := dbuf_zero,
     eng := sample_engine\<lparr>e_dir := DMA_FROM_DEVICE\<rparr>\<rparr>\<rparr>"

definition dbuf_arg :: xdma_dbuf_ioctl where
  "dbuf_arg = \<lparr>di_version = 1, di_buf_size = 0x1000, di_ep_addr = 0\<rparr>"

lemma dbuf_blank_idle: "dbuf_idle dbuf_env 0 dbuf_blank" "dbuf_port 0 dbuf_blank"
  "\<not> db_active (dbuf_of 0 dbuf_blank)" "e_desc_max (eng (dv_engine_c2h dbuf_blank 0)) = 16"
  by (simp_all add: dbuf_idle_def dbuf_port_def dbuf_blank_def dbuf_of_def dbuf_sample_defs ring_ok_def)

lemma dbuf_blank_start:
  obtains dev where "ioctl_do_dbuf_start dbuf_env (\<lambda>_. False) (\<lambda>i. Some 0x8000) (\<lambda>_. 0) id 0 (Some dbuf_arg)
    dbuf_blank = Some (0, dev)"
  using start_accepts [OF dbuf_blank_idle(1,2) _ dbuf_blank_idle(3), where rid = id and arg = dbuf_arg and
      alloc = "\<lambda>_. Some 0x8000" and sgrv = "\<lambda>_. 0"]
  by (auto simp: dbuf_blank_idle(4) dbuf_arg_def dbuf_env_def)


text \<open>
  A read whose slot is filled does not wait and succeeds on a device that is up: it
  returns the count it was asked for, gives the slot back to the engine, passes the turn to the
  other slot and leaves the double buffer well formed and the device up.
\<close>
theorem dbuf_read_delivers:
  assumes "dbuf_ok E ch dev" and "dbuf_fresh ch rid dev" and "dbuf_online E ch dev"
    and "dbuf_turn ch dev \<in> dbuf_filled (dbuf_of ch dev)" and "count \<le> db_size (dbuf_of ch dev)"
  shows "\<exists>dev'. char_sgdma_read_dbuf E (\<lambda>_. False) await True rid ch count dev =
      Some (int count, Some (dbuf_turn ch dev), dev') \<and> dbuf_ok E ch dev' \<and> dbuf_online E ch dev' \<and>
    dbuf_pending ch dev' = dbuf_pending ch dev @ [dbuf_turn ch dev] \<and>
    dbuf_turn ch dev' = other (dbuf_turn ch dev)"
  using read_delivers [OF assms] by auto

lemma dbuf_read_delivers_witness:
  "\<exists>dev'. char_sgdma_read_dbuf dbuf_env (\<lambda>_. False) (\<lambda>d. (0, d)) True 7 0 64 dbuf_served =
     Some (64, Some 0, dev') \<and> dbuf_pending 0 dev' = [1, 0] \<and> dbuf_turn 0 dev' = 1"
proof -
  have "dbuf_fresh 0 7 dbuf_served"
    by (simp add: dbuf_fresh_def dbuf_served_def dbuf_sample_def dbuf_served_queue)
  from dbuf_read_delivers [OF dbuf_served_facts(2) this dbuf_served_facts(3), of 64 "\<lambda>d. (0, d)"]
  show ?thesis by (auto simp: dbuf_served_facts other_def)
qed

text \<open>
  A slot whose transfer the hardware failed is delivered like any other: the service
  that retires the transfer on an error status marks it failed, yet calls the callback with error
  0, so the slot counts as filled and the double buffer stays active.
\<close>
theorem dbuf_error_delivered:
  assumes "io_done E = dbuf_io_done" and "length (db_slots (client st)) = 2" and "db_active (client st)"
    and "e_transfer_list (eng st) = t # rest" and "status_error (eng st)" and "\<not> e_eop_flush (eng st)"
    and "x_cb (xfers st t) = Some i" and "x_last_in_request (xfers st t)" and "live_slot (client st) i"
  shows "x_state (xfers (snd (engine_service_final_transfer E (Some t) pc st)) t) = TRANSFER_STATE_FAILED \<and>
    i \<in> dbuf_filled (client (snd (engine_service_final_transfer E (Some t) pc st))) \<and>
    db_active (client (snd (engine_service_final_transfer E (Some t) pc st)))"
proof -
  let ?st = "snd (engine_err_handle E t st)"
  have x: "x_cb (xfers ?st t) = Some i" "x_last_in_request (xfers ?st t)"
    using assms(7,8) by simp_all
  have "client (snd (engine_service_final_transfer E (Some t) pc st)) = dbuf_io_done i 0 (client st)"
    using assms(1,5) x
    by (simp add: engine_service_final_transfer_def transfer_del_def completion_client notify_def del: fun_upd_apply)
  with io_done_effect [OF assms(2,3,9)] shape_eqD(2) [OF io_done_effect(1) [OF assms(2,3,9)]] assms(3)
    final_transfer_exact(2) [OF assms(4,6), of E pc] assms(5)
  show ?thesis by (simp add: final_xfer_def)
qed

lemma dbuf_error_delivered_witness:
  "0 \<in> dbuf_filled (client (snd (engine_service_final_transfer dbuf_env (Some (0, 0)) 0
     (dbuf_sample_st\<lparr>eng := (eng dbuf_sample_st)\<lparr>e_status := 0x80000\<rparr>\<rparr>))))"
  using dbuf_error_delivered [of dbuf_env "dbuf_sample_st\<lparr>eng := (eng dbuf_sample_st)\<lparr>e_status := 0x80000\<rparr>\<rparr>"
      "(0, 0)" "[(1, 0)]" 0 0]
  by (simp add: dbuf_sample_defs status_error_def live_slot_def stat_masks)

text \<open>
  A read whose resubmission the driver refuses loses its slot: the bytes have gone to
  the user, but the read returns the error, keeps the turn, and the slot is neither filled nor with
  the engine, so that the next read waits for a callback that nobody will make.
\<close>
theorem dbuf_failed_resubmit_stuck:
  assumes "dbuf_ok E ch dev" and "dbuf_turn ch dev \<in> dbuf_filled (dbuf_of ch dev)"
    and "dbuf_turn ch dev \<notin> set (dbuf_pending ch dev)" and "count \<le> db_size (dbuf_of ch dev)"
    and "select_engine dev ch False = Inl err" and "err < 0"
  shows "\<exists>dev'. char_sgdma_read_dbuf E oom await True rid ch count dev = Some (err, Some (dbuf_turn ch dev), dev') \<and>
    dbuf_turn ch dev' = dbuf_turn ch dev \<and> \<not> dbuf_ready (dbuf_turn ch dev') (dbuf_of ch dev') \<and>
    dbuf_turn ch dev' \<notin> set (dbuf_pending ch dev')"
proof -
  let ?i = "dbuf_turn ch dev" and ?db = "dbuf_of ch dev"
  let ?dev1 = "map_dbuf ch (\<lambda>db. upd_slot ?i (dbuf_prepare db) db) dev"
  let ?f = "upd_slot ?i (\<lambda>s. s\<lparr>sl_sgt := sl_sgt (db_slots (dbuf_of ch ?dev1) ! ?i), sl_cb := (sl_cb s)\<lparr>cb_req := cb_req (sl_cb s)\<rparr>\<rparr>)"
  have ok: "length (db_slots ?db) = 2" "db_active ?db" "?i < 2"
    using assms(1) by (simp_all add: dbuf_ok_def dbuf_of_def dbuf_turn_def Let_def)
  have sel: "select_engine ?dev1 ch False = Inl err"
    using assms(5) by (auto simp: select_engine_def Let_def map_dbuf_def put_engine_def split: if_splits)
  have "err \<noteq> - EIOCBQUEUED"
    using assms(5) by (auto simp: select_engine_def Let_def split: if_splits)
  then have sub: "dbuf_submit_slot E oom rid ch ?i dev = Some (err, map_dbuf ch ?f ?dev1)"
    using sel by (simp add: dbuf_submit_slot_def xdma_xfer_submit_nowait_def Let_def)
  have "dbuf_ready ?i ?db" using assms(2) by (simp add: dbuf_ready_def dbuf_filled_def)
  then have "char_sgdma_read_dbuf E oom await True rid ch count dev = Some (err, Some ?i, map_dbuf ch ?f ?dev1)"
    using ok(2) assms(4,6) sub by (simp add: char_sgdma_read_dbuf_def dbuf_turn_def Let_def)
  moreover have "dbuf_turn ch (map_dbuf ch ?f ?dev1) = ?i" by (simp add: dbuf_turn_def upd_slot_def)
  moreover have "\<not> dbuf_ready ?i (dbuf_of ch (map_dbuf ch ?f ?dev1))"
    using ok by (simp add: dbuf_ready_def upd_slot_def dbuf_prepare_def)
  moreover have "dbuf_pending ch (map_dbuf ch ?f ?dev1) = dbuf_pending ch dev"
    by (simp add: dbuf_pending_def Let_def)
  ultimately show ?thesis using assms(3) by simp
qed

text \<open>The sample after the interrupt, gone offline.\<close>

definition dbuf_gone :: "dbuf xdma_dev_io" where
  "dbuf_gone = dbuf_served\<lparr>dv_hndl_check := - 1\<rparr>"

lemma dbuf_failed_resubmit_stuck_witness:
  "\<exists>dev'. char_sgdma_read_dbuf dbuf_env (\<lambda>_. False) (\<lambda>d. (0, d)) True 7 0 64 dbuf_gone = Some (- 22, Some 0, dev') \<and>
     \<not> dbuf_ready 0 (dbuf_of 0 dev')"
proof -
  have g: "dv_engine_c2h dbuf_gone = dv_engine_c2h dbuf_served" by (simp add: dbuf_gone_def)
  then have f: "dbuf_turn 0 dbuf_gone = 0" "dbuf_pending 0 dbuf_gone = [1]" "dbuf_filled (dbuf_of 0 dbuf_gone) = {0}"
    "db_size (dbuf_of 0 dbuf_gone) = 0x1000" "dbuf_ok dbuf_env 0 dbuf_gone"
    using dbuf_served_facts by (simp_all add: dbuf_turn_def dbuf_pending_def dbuf_of_def dbuf_ok_def)
  have "select_engine dbuf_gone 0 False = Inl (- 22)" by (simp add: select_engine_def dbuf_gone_def)
  with dbuf_failed_resubmit_stuck [OF f(5), of 64 "- 22" "\<lambda>_. False" "\<lambda>d. (0, d)" 7] f
  show ?thesis by auto
qed

section \<open>The memory of the slots\<close>

text \<open>The coherent memory the device holds, and what each slot holds of it.\<close>

definition dbuf_mem :: "dbuf \<Rightarrow> (u64 \<times> nat) list \<times> (bool \<times> u64 \<times> nat) list" where
  "dbuf_mem db = (db_coherent db, map (\<lambda>s. (sl_virt s, sl_bus s, sl_size s)) (db_slots db))"

lemma upd_slot_mem:
  "i < length (db_slots db) \<Longrightarrow> (\<And>s. sl_virt (f s) = sl_virt s \<and> sl_bus (f s) = sl_bus s \<and> sl_size (f s) = sl_size s) \<Longrightarrow>
     dbuf_mem (upd_slot i f db) = dbuf_mem db"
  by (simp add: dbuf_mem_def upd_slot_def map_update list_eq_iff_nth_eq nth_list_update)

lemma submit_mem:
  assumes ok: "dbuf_ok E ch dev" and i: "i < 2"
    and run: "dbuf_submit_slot E oom rid ch i dev = Some (rv, dev')" and rv: "0 \<le> rv"
  shows "dbuf_mem (dbuf_of ch dev') = dbuf_mem (dbuf_of ch dev) \<and> db_active (dbuf_of ch dev') = db_active (dbuf_of ch dev)"
proof -
  let ?st = "dv_engine_c2h dev ch" and ?db = "dbuf_of ch dev"
  let ?db1 = "upd_slot i (dbuf_prepare ?db) ?db"
  let ?dev1 = "map_dbuf ch (\<lambda>db. upd_slot i (dbuf_prepare db) db) dev"
  have len: "length (db_slots ?db) = 2" using ok by (simp add: dbuf_ok_def dbuf_of_def Let_def)
  have s: "db_slots ?db1 ! i = dbuf_prepare ?db (db_slots ?db ! i)" using len i by (simp add: upd_slot_def)
  have fits: "slot_fits E (eng (dv_engine_c2h ?dev1 ch)) (db_slots ?db1 ! i)"
    using ok i unfolding s by (simp add: dbuf_ok_def dbuf_of_def Let_def slot_fits_def dbuf_prepare_def)
  have ring: "ring_ok (eng (dv_engine_c2h ?dev1 ch))" and blen: "desc_blen_max E \<noteq> 0"
    using ok by (simp_all add: dbuf_ok_def Let_def)
  obtain rv1 req sgt dev2 where sub: "xdma_xfer_submit_nowait E oom (\<lambda>sgt. sgt) rid i ?dev1 ch False
      (db_ep_addr ?db1) (sl_sgt (db_slots ?db1 ! i)) True = Some (rv1, req, sgt, dev2)"
    using run by (auto simp: dbuf_submit_slot_def Let_def split: option.splits)
  let ?f = "\<lambda>s. s\<lparr>sl_sgt := sgt, sl_cb := (sl_cb s)\<lparr>cb_req := if req = None then cb_req (sl_cb s) else Some rid\<rparr>\<rparr>"
  have dev': "dev' = map_dbuf ch (upd_slot i ?f) dev2" and "rv = (if rv1 = - EIOCBQUEUED then 0 else rv1)"
    using run sub by (simp_all add: dbuf_submit_slot_def Let_def)
  with rv nowait_slot [OF fits blen ring sub] obtain n st' where
    n: "queued_by rid i 0 n (dv_engine_c2h ?dev1 ch) st'" "dev2 = put_engine False ch st' ?dev1"
    by (auto split: if_splits)
  have db: "dbuf_of ch dev' = upd_slot i ?f ?db1"
    using n by (simp add: dev' dbuf_of_def queued_by_def)
  have "dbuf_mem (upd_slot i ?f ?db1) = dbuf_mem ?db1"
    by (rule upd_slot_mem) (use len i in \<open>simp_all add: upd_slot_def\<close>)
  also have "\<dots> = dbuf_mem ?db"
    by (rule upd_slot_mem) (use len i in \<open>simp_all add: dbuf_prepare_def\<close>)
  finally show ?thesis unfolding db by (simp add: upd_slot_def)
qed

text \<open>Memory that the slots hold is given back whole.\<close>

lemma stop_slots_mem:
  assumes "dbuf_mem db = ((b1, len + 64) # (b0, len + 64) # c, [(True, b0, len), (True, b1, len)])"
  shows "db_coherent (fold dbuf_stop_slot [0..<2] db) = c"
proof -
  obtain s0 s1 where s: "db_slots db = [s0, s1]" "sl_virt s0" "sl_virt s1" "sl_bus s0 = b0" "sl_bus s1 = b1"
    "sl_size s0 = len" "sl_size s1 = len"
    using assms by (auto simp: dbuf_mem_def map_eq_Cons_conv)
  have "[0..<2] = [0, 1 :: nat]" by (simp add: upt_rec)
  then show ?thesis
    using assms s by (auto simp: dbuf_stop_slot_def dbuf_free_sgt_def dbuf_free_slot_def dma_free_coherent_def
        upd_slot_def dbuf_mem_def)
qed

lemma alloc_slots_mem:
  assumes "dbuf_alloc_slots alloc sgrv len 2 0 db = (0, db')" and "length (db_slots db) = 2"
  shows "\<exists>b0 b1. dbuf_mem db' =
    ((b1, len + 64) # (b0, len + 64) # db_coherent db, [(True, b0, len), (True, b1, len)])"
proof -
  obtain b0 where b0: "alloc 0 = Some b0" using assms(1) by (cases "alloc 0") (simp_all add: numeral_2_eq_2)
  have r0: "sgrv 0 = 0" using assms(1) b0
    by (cases "sgrv 0 = 0") (simp_all add: numeral_2_eq_2 dbuf_slot_init_sgt_def Let_def)
  obtain b1 where b1: "alloc 1 = Some b1" using assms(1) b0 r0
    by (cases "alloc 1") (simp_all add: numeral_2_eq_2 dbuf_slot_init_sgt_def Let_def)
  have r1: "sgrv 1 = 0" using assms(1) b0 r0 b1
    by (cases "sgrv 1 = 0") (simp_all add: numeral_2_eq_2 dbuf_slot_init_sgt_def Let_def)
  obtain s0 s1 where s: "db_slots db = [s0, s1]" using assms(2) by (auto simp: numeral_2_eq_2 length_Suc_conv)
  show ?thesis
    using assms(1) b0 b1 r0 r1 s
    by (auto simp: numeral_2_eq_2 dbuf_slot_init_sgt_def Let_def upd_slot_def dbuf_mem_def)
qed

lemma submit_all_mem:
  assumes run: "dbuf_submit_all E oom rid ch 2 0 dev = Some (rv, dev')" and rv: "0 \<le> rv"
    and ok: "dbuf_ok E ch dev" and q: "e_transfer_list (eng (dv_engine_c2h dev ch)) = []"
  shows "dbuf_mem (dbuf_of ch dev') = dbuf_mem (dbuf_of ch dev) \<and> db_active (dbuf_of ch dev') = db_active (dbuf_of ch dev)"
proof -
  obtain rv0 dev0 where s0: "dbuf_submit_slot E oom (rid 0) ch 0 dev = Some (rv0, dev0)" "0 \<le> rv0"
    and run1: "dbuf_submit_all E oom rid ch 1 1 dev0 = Some (rv, dev')"
    using run rv by (auto simp: numeral_2_eq_2 not_less split: option.split_asm if_split_asm)
  obtain rv1 where s1: "dbuf_submit_slot E oom (rid 1) ch 1 dev0 = Some (rv1, dev')" "0 \<le> rv1"
    using run1 rv by (auto simp: not_less split: option.split_asm if_split_asm)
  have "dbuf_fresh ch (rid 0) dev" using q by (simp add: dbuf_fresh_def)
  from dbuf_submit_law [OF ok this _ s0] have ok0: "dbuf_ok E ch dev0" by simp
  show ?thesis using submit_mem [OF ok _ s0] submit_mem [OF ok0 _ s1] by simp
qed

text \<open>
  C39 (roundtrip). Stopping a double buffer that was started gives back exactly the coherent memory
  the start took, with the address and size it was allocated with, and leaves it inactive.
\<close>
theorem dbuf_start_stop_memory:
  assumes "dbuf_idle E ch dev" and "rid 0 \<noteq> rid 1"
    and "unat (di_buf_size arg) \<le> unat (desc_blen_max E) * e_desc_max (eng (dv_engine_c2h dev ch))"
    and "ioctl_do_dbuf_start E oom alloc sgrv rid ch (Some arg) dev = Some (0, dev')"
  shows "fst (ioctl_do_dbuf_stop ch dev') = 0 \<and>
    db_coherent (dbuf_of ch (snd (ioctl_do_dbuf_stop ch dev'))) = db_coherent (dbuf_of ch dev) \<and>
    \<not> db_active (dbuf_of ch (snd (ioctl_do_dbuf_stop ch dev')))"
proof -
  let ?len = "unat (di_buf_size arg)"
  let ?db = "(dbuf_of ch dev)\<lparr>db_size := ?len, db_ep_addr := di_ep_addr arg, db_read_idx := 0\<rparr>"
  obtain db1 where a: "dbuf_alloc_slots alloc sgrv ?len 2 0 ?db = (0, db1)"
    and run: "dbuf_submit_all E oom rid ch 2 0 (map_dbuf ch (\<lambda>_. db1\<lparr>db_active := True\<rparr>) dev) = Some (0, dev')"
    and nz: "di_buf_size arg \<noteq> 0"
    using assms(4) by (auto simp: ioctl_do_dbuf_start_def Let_def split: if_split_asm prod.split_asm)
  let ?dev1 = "map_dbuf ch (\<lambda>_. db1\<lparr>db_active := True\<rparr>) dev"
  have l2: "length (db_slots ?db) = 2" using assms(1) by (simp add: dbuf_idle_def)
  have len: "0 < ?len" "?len < 2 ^ 32"
    using nz unsigned_less [of "di_buf_size arg"] by (simp_all add: unat_gt_0)
  have f: "length (db_slots db1) = 2" "db_read_idx db1 = 0" "\<And>j. j < 2 \<Longrightarrow> slot_table ?len (db_slots db1 ! j)"
    using alloc_slots_facts [OF a _ len(2)] l2 by auto
  have "dbuf_ok E ch ?dev1"
    using assms(1,3) f len(1)
    by (simp add: dbuf_ok_def dbuf_idle_def slot_fits_def slot_table_def owned_def Let_def)
  moreover have "e_transfer_list (eng (dv_engine_c2h ?dev1 ch)) = []" using assms(1) by (simp add: dbuf_idle_def)
  ultimately have m: "dbuf_mem (dbuf_of ch dev') = dbuf_mem (dbuf_of ch ?dev1)" "db_active (dbuf_of ch dev')"
    using submit_all_mem [OF run] by simp_all
  obtain b0 b1 where b: "dbuf_mem db1 = ((b1, ?len + 64) # (b0, ?len + 64) # db_coherent (dbuf_of ch dev),
      [(True, b0, ?len), (True, b1, ?len)])"
    using alloc_slots_mem [OF a l2] by auto
  have stop: "dbuf_of ch (snd (ioctl_do_dbuf_stop ch dev')) =
      fold dbuf_stop_slot [0..<2] (dbuf_wake ((dbuf_of ch dev')\<lparr>db_active := False\<rparr>))"
    "fst (ioctl_do_dbuf_stop ch dev') = 0"
    using m(2) by (simp_all add: ioctl_do_dbuf_stop_def)
  have "dbuf_mem (dbuf_wake ((dbuf_of ch dev')\<lparr>db_active := False\<rparr>)) = dbuf_mem db1"
    using m(1) by (simp add: dbuf_mem_def dbuf_wake_def)
  from stop_slots_mem [OF this [unfolded b]] stop(2) show ?thesis
    unfolding stop(1) by (simp add: dbuf_stop_slot_def dbuf_free_slot_def dma_free_coherent_def dbuf_free_sgt_def
        upd_slot_def upt_rec dbuf_wake_def)
qed

lemma dbuf_start_stop_memory_witness:
  "\<exists>dev. ioctl_do_dbuf_start dbuf_env (\<lambda>_. False) (\<lambda>_. Some 0x8000) (\<lambda>_. 0) id 0 (Some dbuf_arg) dbuf_blank =
     Some (0, dev) \<and> db_coherent (dbuf_of 0 (snd (ioctl_do_dbuf_stop 0 dev))) = []"
proof -
  obtain dev where d: "ioctl_do_dbuf_start dbuf_env (\<lambda>_. False) (\<lambda>_. Some 0x8000) (\<lambda>_. 0) id 0 (Some dbuf_arg)
      dbuf_blank = Some (0, dev)" by (rule dbuf_blank_start)
  have "db_coherent (dbuf_of 0 dbuf_blank) = []" by (simp add: dbuf_blank_def dbuf_of_def dbuf_zero_def)
  with dbuf_start_stop_memory [OF dbuf_blank_idle(1) _ _ d] d show ?thesis
    by (auto simp: dbuf_blank_idle(4) dbuf_arg_def dbuf_env_def)
qed

text \<open>
  A start that cannot allocate the table of slot 0 reports the error but does not give
  the slot's memory back: it frees a block 64 bytes smaller than the one it allocated, so the
  allocation remains.
\<close>
theorem dbuf_table_failure_leaks:
  assumes "\<not> db_active (dbuf_of ch dev)" and "di_version arg = XDMA_DBUF_V1"
    and "di_buf_size arg \<noteq> 0" and "di_buf_size arg AND 0xfff = 0"
    and "alloc 0 = Some bus" and "sgrv 0 \<noteq> 0" and "db_slots (dbuf_of ch dev) = [s0, s1]" and "\<not> sl_virt s1"
    and "db_coherent (dbuf_of ch dev) = []"
  shows "\<exists>dev'. ioctl_do_dbuf_start E oom alloc sgrv rid ch (Some arg) dev = Some (sgrv 0, dev') \<and>
    db_coherent (dbuf_of ch dev') = [(bus, unat (di_buf_size arg) + 64)]"
  using assms
  by (simp add: ioctl_do_dbuf_start_def numeral_2_eq_2 dbuf_slot_init_sgt_def Let_def upd_slot_def
      dma_free_coherent_def dbuf_free_slots_def dbuf_free_slot_def)

lemma dbuf_table_failure_leaks_witness:
  "\<exists>dev'. ioctl_do_dbuf_start dbuf_env (\<lambda>_. False) (\<lambda>_. Some 0x8000) (\<lambda>_. - 12) id 0 (Some dbuf_arg) dbuf_blank =
     Some (- 12, dev') \<and> db_coherent (dbuf_of 0 dev') = [(0x8000, 0x1040)]"
  using dbuf_table_failure_leaks [of 0 dbuf_blank dbuf_arg "\<lambda>_. Some 0x8000" "0x8000" "\<lambda>_. - 12"
      dbuf_zero_slot dbuf_zero_slot dbuf_env "\<lambda>_. False" id]
  by (simp add: dbuf_arg_def dbuf_blank_def dbuf_of_def dbuf_zero_def dbuf_zero_slot_def)

end
