(* ===== verification/Xdma_Thread.thy ===== *)
theory Xdma_Thread
  imports Xdma_Setup
begin

text \<open>
  The completion threads of poll mode (\<^verbatim>\<open>xdma_thread.c\<close>): a pool of kernel threads, each
  with a list of engines it polls. An engine is attached to one thread while it is initialised and
  detached when it is destroyed. Engines are numbered; \<open>tp_tasks\<close> is the kernel's: the threads
  that have been created and not stopped.
\<close>

section \<open>Data\<close>

record xdma_kthread =
  kt_name :: string
  kt_cpu :: nat
  kt_id :: nat
  kt_timeout :: nat
  kt_schedule :: bool
  kt_task :: bool
  kt_work_cnt :: nat
  kt_work_list :: "nat list"
  kt_handlers :: bool

text \<open>\<open>kt_handlers\<close>: \<^verbatim>\<open>fproc\<close> and \<^verbatim>\<open>fpending\<close> are set, always together.\<close>

definition zero_kthread :: xdma_kthread where
  "zero_kthread = \<lparr>kt_name = [], kt_cpu = 0, kt_id = 0, kt_timeout = 0, kt_schedule = False,
     kt_task = False, kt_work_cnt = 0, kt_work_list = [], kt_handlers = False\<rparr>"

record thread_pool =
  cs_threads :: "xdma_kthread list"
  thread_cnt :: nat
  tp_tasks :: "nat list"
  tp_engines :: "nat \<Rightarrow> xdma_engine"

definition upd_thread :: "nat \<Rightarrow> (xdma_kthread \<Rightarrow> xdma_kthread) \<Rightarrow> thread_pool \<Rightarrow> thread_pool" where
  "upd_thread i f p = p\<lparr>cs_threads := (cs_threads p)[i := f (cs_threads p ! i)]\<rparr>"

definition upd_engine :: "nat \<Rightarrow> (xdma_engine \<Rightarrow> xdma_engine) \<Rightarrow> thread_pool \<Rightarrow> thread_pool" where
  "upd_engine n f p = p\<lparr>tp_engines := (tp_engines p)(n := f (tp_engines p n))\<rparr>"

section \<open>What a thread does for one engine\<close>

definition xdma_thread_cmpl_status_pend :: "('c, 's) est_scheme \<Rightarrow> bool" where
  "xdma_thread_cmpl_status_pend st \<longleftrightarrow> e_transfer_list (eng st) \<noteq> []"

text \<open>
  The threshold of the transfer at the head of the queue. \<^verbatim>\<open>list_entry\<close> of an empty list's
  head is not NULL: the guard \<^verbatim>\<open>if (transfer)\<close> holds always, and the threshold is then the
  word \<open>junk\<close> that lies where a transfer around the list head would have it.
\<close>

definition cmpl_threshold :: "u32 \<Rightarrow> ('c, 's) est_scheme \<Rightarrow> u32" where
  "cmpl_threshold junk st =
     (case e_transfer_list (eng st) of [] \<Rightarrow> junk | t # _ \<Rightarrow> of_nat (x_desc_cmpl_th (xfers st t)))"

definition xdma_thread_cmpl_status_proc ::
  "('c, 'x) kenv_scheme \<Rightarrow> (nat \<Rightarrow> u32) \<Rightarrow> (nat \<Rightarrow> bool) \<Rightarrow> u32 \<Rightarrow> ('c, 's) est_scheme \<Rightarrow>
     ('c, 's) est_scheme option" where
  "xdma_thread_cmpl_status_proc E wb late junk st =
     map_option snd (engine_service_poll E wb late (cmpl_threshold junk st) st)"

section \<open>The loop of a thread\<close>

definition xthread_work_pending :: "xdma_kthread \<Rightarrow> (nat \<Rightarrow> ('c, 's) est_scheme) \<Rightarrow> bool" where
  "xthread_work_pending thp es =
     (if kt_work_list thp = [] then False
      else list_ex (\<lambda>n. kt_handlers thp \<and> xdma_thread_cmpl_status_pend (es n)) (kt_work_list thp))"

text \<open>
  What the hardware and the clock show while engine \<open>n\<close> is polled, and the word found behind an
  empty queue.
\<close>

record polling =
  po_wb :: "nat \<Rightarrow> nat \<Rightarrow> u32"
  po_late :: "nat \<Rightarrow> nat \<Rightarrow> bool"
  po_junk :: "nat \<Rightarrow> u32"

fun xthread_process ::
  "('c, 'x) kenv_scheme \<Rightarrow> polling \<Rightarrow> nat list \<Rightarrow> (nat \<Rightarrow> ('c, 's) est_scheme) \<Rightarrow>
     (nat \<Rightarrow> ('c, 's) est_scheme) option" where
  "xthread_process E P [] es = Some es"
| "xthread_process E P (n # ns) es =
     (case xdma_thread_cmpl_status_proc E (po_wb P n) (po_late P n) (po_junk P n) (es n) of
        None \<Rightarrow> None
      | Some st \<Rightarrow> xthread_process E P ns (es(n := st)))"

text \<open>
  One round of \<^verbatim>\<open>xthread_main\<close>. \<open>wait\<close> is \<^verbatim>\<open>xthread_reschedule\<close>: what the sleep
  until \<^verbatim>\<open>schedule\<close> is set does to the thread and the engines.
\<close>

definition xthread_round ::
  "('c, 'x) kenv_scheme \<Rightarrow>
     (xdma_kthread \<times> (nat \<Rightarrow> ('c, 's) est_scheme) \<Rightarrow> xdma_kthread \<times> (nat \<Rightarrow> ('c, 's) est_scheme)) \<Rightarrow>
     polling \<Rightarrow> xdma_kthread \<times> (nat \<Rightarrow> ('c, 's) est_scheme) \<Rightarrow>
     (xdma_kthread \<times> (nat \<Rightarrow> ('c, 's) est_scheme)) option" where
  "xthread_round E wait P s =
     (let (thp, es) = (if xthread_work_pending (fst s) (snd s) then s else wait s);
          thp = thp\<lparr>kt_schedule := False\<rparr>
      in if kt_work_cnt thp = 0 then Some (thp, es)
         else map_option (Pair thp) (xthread_process E P (kt_work_list thp) es))"

text \<open>The rounds until \<^verbatim>\<open>kthread_should_stop\<close>, one element of the list for each.\<close>

fun xthread_main ::
  "('c, 'x) kenv_scheme \<Rightarrow>
     (xdma_kthread \<times> (nat \<Rightarrow> ('c, 's) est_scheme) \<Rightarrow> xdma_kthread \<times> (nat \<Rightarrow> ('c, 's) est_scheme)) \<Rightarrow>
     polling list \<Rightarrow> xdma_kthread \<times> (nat \<Rightarrow> ('c, 's) est_scheme) \<Rightarrow>
     (xdma_kthread \<times> (nat \<Rightarrow> ('c, 's) est_scheme)) option" where
  "xthread_main E wait [] s = Some s"
| "xthread_main E wait (P # Ps) s =
     (case xthread_round E wait P s of None \<Rightarrow> None | Some s \<Rightarrow> xthread_main E wait Ps s)"

definition xdma_kthread_wakeup :: "xdma_kthread \<Rightarrow> xdma_kthread" where
  "xdma_kthread_wakeup thp = thp\<lparr>kt_schedule := True\<rparr>"

section \<open>Starting and stopping a thread\<close>

text \<open>
  \<open>snprintf(name, 16, "%s%d")\<close> keeps 15 characters. \<open>spawn\<close> says whether the kernel creates the
  task.
\<close>

definition thread_name :: "string \<Rightarrow> nat \<Rightarrow> string" where
  "thread_name name n = take 15 (name @ dec_digits n)"

definition xdma_kthread_start :: "bool \<Rightarrow> string \<Rightarrow> nat \<Rightarrow> xdma_kthread \<Rightarrow> int \<times> xdma_kthread" where
  "xdma_kthread_start spawn name n thp =
     (if kt_task thp then (- EINVAL, thp)
      else (let thp = thp\<lparr>kt_name := thread_name name n, kt_id := n, kt_work_list := []\<rparr>
            in if \<not> spawn then (- EFAULT, thp\<lparr>kt_task := False\<rparr>) else (0, thp\<lparr>kt_task := True\<rparr>)))"

text \<open>\<open>rv\<close> is what \<^verbatim>\<open>kthread_stop\<close> returns.\<close>

definition xdma_kthread_stop :: "int \<Rightarrow> xdma_kthread \<Rightarrow> int \<times> xdma_kthread" where
  "xdma_kthread_stop rv thp =
     (if \<not> kt_task thp then (0, thp)
      else (let thp = thp\<lparr>kt_schedule := True\<rparr>
            in if rv < 0 then (rv, thp) else (0, thp\<lparr>kt_task := False\<rparr>)))"

section \<open>Attaching and detaching engines\<close>

text \<open>
  The loop that chooses a thread, over the work counts from thread \<open>i\<close> on; \<open>n\<close> is the number
  of threads and stands for \<open>idx\<close> while none is chosen.
\<close>

fun pick_thread :: "nat \<Rightarrow> nat list \<Rightarrow> nat \<Rightarrow> nat \<Rightarrow> nat \<Rightarrow> nat" where
  "pick_thread n [] i v idx = idx"
| "pick_thread n (c # cs) i v idx =
     (if idx = n then pick_thread n cs (Suc i) c i
      else if c = 0 then i
      else if c < v then pick_thread n cs (Suc i) v i
      else pick_thread n cs (Suc i) v idx)"

definition thread_for :: "thread_pool \<Rightarrow> nat" where
  "thread_for p =
     pick_thread (thread_cnt p) (map kt_work_cnt (take (thread_cnt p) (cs_threads p))) 0 0 (thread_cnt p)"

definition xdma_thread_add_work :: "nat \<Rightarrow> thread_pool \<Rightarrow> thread_pool" where
  "xdma_thread_add_work n p =
     (let idx = thread_for p;
          p = upd_thread idx (\<lambda>thp. thp\<lparr>kt_work_list := kt_work_list thp @ [n],
                                        kt_work_cnt := Suc (kt_work_cnt thp)\<rparr>) p
      in upd_engine n (attach_thread idx) p)"

definition xdma_thread_remove_work :: "nat \<Rightarrow> thread_pool \<Rightarrow> thread_pool" where
  "xdma_thread_remove_work n p =
     (let cmpl_thread = e_cmplthp (tp_engines p n);
          p = upd_engine n (\<lambda>e. e\<lparr>e_cmplthp := None\<rparr>) p
      in case cmpl_thread of
           None \<Rightarrow> p
         | Some i \<Rightarrow> upd_thread i (\<lambda>thp. thp\<lparr>kt_work_list := remove1 n (kt_work_list thp),
                                             kt_work_cnt := kt_work_cnt thp - 1\<rparr>) p)"

section \<open>The pool\<close>

text \<open>\<open>cpus\<close> are the online CPUs, \<open>spawn\<close> tells which tasks the kernel creates.\<close>

fun start_threads :: "(nat \<Rightarrow> bool) \<Rightarrow> nat \<Rightarrow> nat list \<Rightarrow> thread_pool \<Rightarrow> int \<times> thread_pool" where
  "start_threads spawn num [] p = (0, p)"
| "start_threads spawn num (cpu # cpus) p =
     (let i = thread_cnt p;
          (rv, thp) = xdma_kthread_start (spawn i) ''cmpl_status_th'' i
            ((cs_threads p ! i)\<lparr>kt_cpu := cpu, kt_timeout := 0, kt_handlers := True\<rparr>);
          p = upd_thread i (\<lambda>_. thp) p
      in if rv < 0 then (rv, p\<lparr>cs_threads := [], thread_cnt := 0\<rparr>)
         else (let p = p\<lparr>thread_cnt := Suc i, tp_tasks := tp_tasks p @ [i]\<rparr>
               in if thread_cnt p = num then (0, p) else start_threads spawn num cpus p))"

definition xdma_threads_create ::
  "bool \<Rightarrow> (nat \<Rightarrow> bool) \<Rightarrow> nat \<Rightarrow> nat list \<Rightarrow> thread_pool \<Rightarrow> int \<times> thread_pool" where
  "xdma_threads_create oom spawn num cpus p =
     (if thread_cnt p \<noteq> 0 then (0, p)
      else if oom then (- ENOMEM, p\<lparr>cs_threads := []\<rparr>)
      else start_threads spawn num cpus (p\<lparr>cs_threads := replicate num zero_kthread\<rparr>))"

fun stop_threads :: "(nat \<Rightarrow> int) \<Rightarrow> nat \<Rightarrow> nat \<Rightarrow> thread_pool \<Rightarrow> thread_pool" where
  "stop_threads rvs 0 i p = p"
| "stop_threads rvs (Suc n) i p =
     (let thp = cs_threads p ! i; (rv, thp') = xdma_kthread_stop (rvs i) thp
      in stop_threads rvs n (Suc i)
           (if kt_handlers thp
            then (let p = upd_thread i (\<lambda>_. thp') p
                  in if kt_task thp \<and> \<not> kt_task thp' then p\<lparr>tp_tasks := remove1 i (tp_tasks p)\<rparr> else p)
            else p))"

definition xdma_threads_destroy :: "(nat \<Rightarrow> int) \<Rightarrow> thread_pool \<Rightarrow> thread_pool" where
  "xdma_threads_destroy rvs p =
     (if thread_cnt p = 0 then p
      else (stop_threads rvs (thread_cnt p) 0 p)\<lparr>cs_threads := [], thread_cnt := 0\<rparr>)"

end
