(* ===== verification/Xdma_Device.thy ===== *)
theory Xdma_Device
  imports Xdma_Irq Xdma_Thread
begin

text \<open>
  The life of a device in \<^verbatim>\<open>libxdma.c\<close>: the list of devices, probing the engines,
  \<^verbatim>\<open>xdma_device_open\<close> with its unwinding, \<^verbatim>\<open>xdma_device_close\<close>,
  \<^verbatim>\<open>xdma_device_offline\<close> and \<^verbatim>\<open>xdma_device_online\<close>. What the PCI core
  and the allocator answer is a record of parameters; what they are asked to hold (the enabled
  device, its regions, the device objects) is part of the state.
\<close>

section \<open>The state of the library\<close>

text \<open>
  Devices are named by handles, \<open>sy_pdev\<close> is the PCI device of a handle. The RCU list has the same
  members as \<open>sy_list\<close>.
\<close>

record xdma_sys =
  sy_list :: "nat list"
  sy_dev :: "nat \<Rightarrow> xdma_dev"
  sy_pdev :: "nat \<Rightarrow> nat"
  sy_live :: "nat list"
  sy_enabled :: "nat \<Rightarrow> nat"
  sy_regions :: "nat \<Rightarrow> bool"
  sy_pool :: thread_pool

definition upd_dev :: "nat \<Rightarrow> (xdma_dev \<Rightarrow> xdma_dev) \<Rightarrow> xdma_sys \<Rightarrow> xdma_sys" where
  "upd_dev h f s = s\<lparr>sy_dev := (sy_dev s)(h := f (sy_dev s h))\<rparr>"

text \<open>
  The answers of the kernel: results of calls, BAR sizes and mappings, coherent memory per engine
  (by direction and channel), interrupt grants and vectors, and what the threads need.
\<close>

record open_env =
  oe_oom :: bool
  oe_enable :: int
  oe_regions :: int
  oe_len :: "nat \<Rightarrow> nat"
  oe_maps :: "nat \<Rightarrow> bool"
  oe_dma64 :: bool
  oe_dma32 :: bool
  oe_mem :: "bool \<Rightarrow> nat \<Rightarrow> dma_mem"
  oe_msi :: pci_msi
  oe_grant :: "nat \<Rightarrow> int"
  oe_vec :: "nat \<Rightarrow> nat"
  oe_line :: nat
  oe_pin :: u8
  oe_thread_oom :: bool
  oe_spawn :: "nat \<Rightarrow> bool"
  oe_cpus :: "nat list"
  oe_stop :: "nat \<Rightarrow> int"

abbreviation (input) XDMA_CHANNEL_NUM_MAX :: nat where "XDMA_CHANNEL_NUM_MAX \<equiv> 4"
abbreviation (input) MAX_USER_IRQ :: nat where "MAX_USER_IRQ \<equiv> 16"
abbreviation (input) XDMA_ID_H2C :: u32 where "XDMA_ID_H2C \<equiv> 0x1fc0"
abbreviation (input) XDMA_ID_C2H :: u32 where "XDMA_ID_C2H \<equiv> 0x1fc1"
abbreviation (input) H2C_CHANNEL_OFFSET :: nat where "H2C_CHANNEL_OFFSET \<equiv> 0x1000"
abbreviation (input) CHANNEL_SPACING :: nat where "CHANNEL_SPACING \<equiv> 0x100"

section \<open>The list of devices\<close>

definition xdev_list_add :: "('x) xenv_scheme \<Rightarrow> open_env \<Rightarrow> nat \<Rightarrow> xdma_sys \<Rightarrow> int \<times> xdma_sys" where
  "xdev_list_add E K h s =
     (if sy_list s = [] then
        (let s = upd_dev h (\<lambda>d. d\<lparr>xd_idx := 0\<rparr>) s; d = sy_dev s h;
             (rv, pool) = (if poll_mode E
               then xdma_threads_create (oe_thread_oom K) (oe_spawn K)
                      (xd_h2c_channel_max d + xd_c2h_channel_max d) (oe_cpus K) (sy_pool s)
               else (0, sy_pool s));
             s = s\<lparr>sy_pool := pool\<rparr>
         in if rv < 0 then (rv, s) else (0, s\<lparr>sy_list := [h]\<rparr>))
      else
        (let last_idx = xd_idx (sy_dev s (last (sy_list s)));
             s = upd_dev h (\<lambda>d. d\<lparr>xd_idx := Suc last_idx\<rparr>) s
         in (0, s\<lparr>sy_list := sy_list s @ [h]\<rparr>)))"

definition xdev_list_remove :: "('x) xenv_scheme \<Rightarrow> open_env \<Rightarrow> nat \<Rightarrow> xdma_sys \<Rightarrow> xdma_sys" where
  "xdev_list_remove E K h s =
     (let s = s\<lparr>sy_list := remove1 h (sy_list s)\<rparr>
      in if poll_mode E \<and> sy_list s = []
         then s\<lparr>sy_pool := xdma_threads_destroy (oe_stop K) (sy_pool s)\<rparr> else s)"

definition xdev_find_by_pdev :: "nat \<Rightarrow> xdma_sys \<Rightarrow> nat option" where
  "xdev_find_by_pdev pdev s = List.find (\<lambda>h. sy_pdev s h = pdev) (sy_list s)"

definition debug_check_dev_hndl :: "nat \<Rightarrow> nat \<Rightarrow> xdma_sys \<Rightarrow> int" where
  "debug_check_dev_hndl pdev hndl s =
     (case xdev_find_by_pdev pdev s of
        None \<Rightarrow> - EINVAL
      | Some xdev \<Rightarrow> if xdev \<noteq> hndl then - EINVAL else 0)"

section \<open>The device object\<close>

definition new_xdev :: xdma_dev where
  "new_xdev = \<lparr>xd_magic = MAGIC_DEVICE, xd_idx = 0, xd_flags = 0, xd_bar = replicate 6 None,
     xd_user_bar_idx = - 1, xd_config_bar_idx = - 1, xd_bypass_bar_idx = - 1,
     xd_regions_in_use = False, xd_got_regions = False, xd_user_max = 0, xd_c2h_channel_max = 0,
     xd_h2c_channel_max = 0, xd_irq_count = 0, xd_irq_line = - 1, xd_msi_enabled = False,
     xd_msix_enabled = False, xd_user_irq = map (\<lambda>i. \<lparr>ui_user_idx = i, ui_events_irq = False,
       ui_handler = None, ui_dev = 0\<rparr>) [0..<16], xd_mask_irq_user = 0, xd_engines_num = 0,
     xd_mask_irq_h2c = 0, xd_mask_irq_c2h = 0, xd_engine_h2c = replicate 4 zero_engine,
     xd_engine_c2h = replicate 4 zero_engine, xd_io = [], xd_irqs = [], xd_works = [],
     xd_calls = [], xd_event_wakes = []\<rparr>"

text \<open>\<open>h\<close> is the address the allocator gives.\<close>

definition alloc_dev_instance :: "bool \<Rightarrow> nat \<Rightarrow> nat \<Rightarrow> xdma_sys \<Rightarrow> nat option \<times> xdma_sys" where
  "alloc_dev_instance oom h pdev s =
     (if oom then (None, s)
      else (Some h, s\<lparr>sy_live := h # sy_live s, sy_dev := (sy_dev s)(h := new_xdev),
                      sy_pdev := (sy_pdev s)(h := pdev)\<rparr>))"

definition request_regions :: "int \<Rightarrow> nat \<Rightarrow> xdma_sys \<Rightarrow> int \<times> xdma_sys" where
  "request_regions rv h s =
     (if rv \<noteq> 0 then (rv, upd_dev h (\<lambda>d. d\<lparr>xd_regions_in_use := True\<rparr>) s)
      else (rv, upd_dev h (\<lambda>d. d\<lparr>xd_got_regions := True\<rparr>)
                  (s\<lparr>sy_regions := (sy_regions s)(sy_pdev s h := True)\<rparr>)))"

definition set_dma_mask :: "bool \<Rightarrow> bool \<Rightarrow> int" where
  "set_dma_mask ok64 ok32 = (if ok64 then 0 else if ok32 then 0 else - EINVAL)"

section \<open>One engine of a device\<close>

text \<open>What an engine operation sees of a device, and the device after it.\<close>

definition engine_of :: "bool \<Rightarrow> nat \<Rightarrow> xdma_dev \<Rightarrow> xdma_engine" where
  "engine_of h2c i d = (if h2c then xd_engine_h2c d else xd_engine_c2h d) ! i"

definition est_of :: "bool \<Rightarrow> nat \<Rightarrow> xdma_dev \<Rightarrow> unit est" where
  "est_of h2c i d = \<lparr>eng = engine_of h2c i d, xfers = (\<lambda>_. zero_xfer), io = xd_io d, wakes = [],
     client = (), xdev_flags = xd_flags d, xdev_msix_enabled = xd_msix_enabled d, xdev_cfg = cfg_of d\<rparr>"

definition put_est :: "bool \<Rightarrow> nat \<Rightarrow> unit est \<Rightarrow> xdma_dev \<Rightarrow> xdma_dev" where
  "put_est h2c i st d =
     (let d = d\<lparr>xd_io := io st\<rparr>
      in if h2c then d\<lparr>xd_engine_h2c := (xd_engine_h2c d)[i := eng st]\<rparr>
         else d\<lparr>xd_engine_c2h := (xd_engine_c2h d)[i := eng st]\<rparr>)"

definition counts_of :: "xdma_dev \<Rightarrow> dev_counts" where
  "counts_of d = \<lparr>dc_idx = xd_idx d, dc_engines_num = xd_engines_num d,
     dc_mask_irq_h2c = xd_mask_irq_h2c d, dc_mask_irq_c2h = xd_mask_irq_c2h d\<rparr>"

definition put_counts :: "dev_counts \<Rightarrow> xdma_dev \<Rightarrow> xdma_dev" where
  "put_counts c d = d\<lparr>xd_engines_num := dc_engines_num c, xd_mask_irq_h2c := dc_mask_irq_h2c c,
     xd_mask_irq_c2h := dc_mask_irq_c2h c\<rparr>"

text \<open>The number an engine has in the thread pool.\<close>

definition eng_no :: "nat \<Rightarrow> bool \<Rightarrow> nat \<Rightarrow> nat" where
  "eng_no h h2c i = 8 * h + (if h2c then i else 4 + i)"

section \<open>Probing and removing the engines\<close>

definition get_engine_channel_id :: "('x) xenv_scheme \<Rightarrow> iomem \<Rightarrow> iolog \<Rightarrow> u32 \<times> iolog" where
  "get_engine_channel_id E regs log =
     (let (value, log) = read_register E (io_plus regs (engine_regs ER_identifier)) log
      in (drop_bit 8 (value AND 0x00000f00), log))"

definition get_engine_id :: "('x) xenv_scheme \<Rightarrow> iomem \<Rightarrow> iolog \<Rightarrow> u32 \<times> iolog" where
  "get_engine_id E regs log =
     (let (value, log) = read_register E (io_plus regs (engine_regs ER_identifier)) log
      in (drop_bit 16 (value AND 0xffff0000), log))"

definition probe_for_engine ::
  "('x) xenv_scheme \<Rightarrow> open_env \<Rightarrow> nat \<Rightarrow> bool \<Rightarrow> nat \<Rightarrow> thread_pool \<times> xdma_dev \<Rightarrow>
     int \<times> thread_pool \<times> xdma_dev" where
  "probe_for_engine E K h h2c channel s =
     (let (pool, d) = s;
          offset = channel * CHANNEL_SPACING + (if h2c then 0 else H2C_CHANNEL_OFFSET);
          expected = (if h2c then XDMA_ID_H2C else XDMA_ID_C2H);
          regs = io_plus (cfg_of d) offset;
          (engine_id, log) = get_engine_id E regs (xd_io d);
          (channel_id, log) = get_engine_channel_id E regs log;
          d = d\<lparr>xd_io := log\<rparr>
      in if engine_id \<noteq> expected \<or> channel_id \<noteq> of_nat channel then (- EINVAL, pool, d)
         else (let (rv, c, st) = engine_init E (oe_mem K h2c channel) (thread_for pool) offset (dir_of h2c)
                     channel (counts_of d) (est_of h2c channel d);
                   d = put_counts c (put_est h2c channel st d)
               in (rv, if rv = 0 \<and> poll_mode E then xdma_thread_add_work (eng_no h h2c channel) pool else pool, d)))"

text \<open>The channels of one direction from \<open>i\<close> on: the number of engines found.\<close>

fun probe_channels ::
  "('x) xenv_scheme \<Rightarrow> open_env \<Rightarrow> nat \<Rightarrow> bool \<Rightarrow> nat \<Rightarrow> nat \<Rightarrow> thread_pool \<times> xdma_dev \<Rightarrow>
     nat \<times> thread_pool \<times> xdma_dev" where
  "probe_channels E K h h2c 0 i s = (i, s)"
| "probe_channels E K h h2c (Suc n) i s =
     (let (rv, s) = probe_for_engine E K h h2c i s
      in if rv \<noteq> 0 then (i, s) else probe_channels E K h h2c n (Suc i) s)"

definition probe_engines ::
  "('x) xenv_scheme \<Rightarrow> open_env \<Rightarrow> nat \<Rightarrow> thread_pool \<times> xdma_dev \<Rightarrow> int \<times> thread_pool \<times> xdma_dev" where
  "probe_engines E K h s =
     (let (i, pool, d) = probe_channels E K h True (xd_h2c_channel_max (snd s)) 0 s;
          d = d\<lparr>xd_h2c_channel_max := i\<rparr>;
          (i, pool, d) = probe_channels E K h False (xd_c2h_channel_max d) 0 (pool, d)
      in (0, pool, d\<lparr>xd_c2h_channel_max := i\<rparr>))"

definition remove_engine ::
  "('x) xenv_scheme \<Rightarrow> nat \<Rightarrow> bool \<Rightarrow> nat \<Rightarrow> thread_pool \<times> xdma_dev \<Rightarrow> thread_pool \<times> xdma_dev" where
  "remove_engine E h h2c i s =
     (let (pool, d) = s
      in if e_magic (engine_of h2c i d) \<noteq> MAGIC_ENGINE then s
         else (let (_, c, st) = engine_destroy E (counts_of d) (est_of h2c i d)
               in (if poll_mode E then xdma_thread_remove_work (eng_no h h2c i) pool else pool,
                   put_counts c (put_est h2c i st d))))"

definition remove_engines ::
  "('x) xenv_scheme \<Rightarrow> nat \<Rightarrow> thread_pool \<times> xdma_dev \<Rightarrow> thread_pool \<times> xdma_dev" where
  "remove_engines E h s =
     (let s = fold (remove_engine E h True) [0..<xd_h2c_channel_max (snd s)] s
      in fold (remove_engine E h False) [0..<xd_c2h_channel_max (snd s)] s)"

text \<open>An operation on the pool and a device, as one on the library.\<close>

definition on_dev ::
  "nat \<Rightarrow> (thread_pool \<times> xdma_dev \<Rightarrow> thread_pool \<times> xdma_dev) \<Rightarrow> xdma_sys \<Rightarrow> xdma_sys" where
  "on_dev h f s =
     (let (pool, d) = f (sy_pool s, sy_dev s h)
      in s\<lparr>sy_pool := pool, sy_dev := (sy_dev s)(h := d)\<rparr>)"

section \<open>Opening\<close>

text \<open>The unwinding, one definition for each label of the code, falling through to the next.\<close>

definition free_xdev :: "nat \<Rightarrow> xdma_sys \<Rightarrow> xdma_sys" where
  "free_xdev h s = s\<lparr>sy_live := remove1 h (sy_live s)\<rparr>"

definition err_enable :: "('x) xenv_scheme \<Rightarrow> open_env \<Rightarrow> nat \<Rightarrow> xdma_sys \<Rightarrow> xdma_sys" where
  "err_enable E K h s = free_xdev h (xdev_list_remove E K h s)"

definition pci_disable_device :: "nat \<Rightarrow> xdma_sys \<Rightarrow> xdma_sys" where
  "pci_disable_device pdev s = s\<lparr>sy_enabled := (sy_enabled s)(pdev := sy_enabled s pdev - 1)\<rparr>"

definition err_regions :: "('x) xenv_scheme \<Rightarrow> open_env \<Rightarrow> nat \<Rightarrow> xdma_sys \<Rightarrow> xdma_sys" where
  "err_regions E K h s =
     err_enable E K h (if xd_regions_in_use (sy_dev s h) then s else pci_disable_device (sy_pdev s h) s)"

definition err_map :: "('x) xenv_scheme \<Rightarrow> open_env \<Rightarrow> nat \<Rightarrow> xdma_sys \<Rightarrow> xdma_sys" where
  "err_map E K h s =
     err_regions E K h (if xd_got_regions (sy_dev s h)
       then s\<lparr>sy_regions := (sy_regions s)(sy_pdev s h := False)\<rparr> else s)"

definition err_mask :: "('x) xenv_scheme \<Rightarrow> open_env \<Rightarrow> nat \<Rightarrow> xdma_sys \<Rightarrow> xdma_sys" where
  "err_mask E K h s = err_map E K h (upd_dev h unmap_bars s)"

definition err_engines :: "('x) xenv_scheme \<Rightarrow> open_env \<Rightarrow> nat \<Rightarrow> xdma_sys \<Rightarrow> xdma_sys" where
  "err_engines E K h s = err_mask E K h (on_dev h (remove_engines E h) s)"

definition err_msix :: "('x) xenv_scheme \<Rightarrow> open_env \<Rightarrow> nat \<Rightarrow> xdma_sys \<Rightarrow> xdma_sys" where
  "err_msix E K h s = err_engines E K h (upd_dev h disable_msi_msix s)"

text \<open>All interrupts off: the two enable masks cleared and the clearing flushed.\<close>

definition interrupts_off :: "('x) xenv_scheme \<Rightarrow> xdma_dev \<Rightarrow> xdma_dev" where
  "interrupts_off E d =
     d\<lparr>xd_io := snd (read_interrupts E (cfg_of d)
        (user_interrupts_disable (cfg_of d) 0xffffffff (channel_interrupts_disable (cfg_of d) 0xffffffff (xd_io d))))\<rparr>"

definition open_limits :: "nat \<Rightarrow> nat \<Rightarrow> nat \<Rightarrow> xdma_dev \<Rightarrow> xdma_dev" where
  "open_limits user_max h2c c2h d =
     d\<lparr>xd_flags := xdma_device_flag_set (xd_flags d) XDEV_FLAG_OFFLINE,
       xd_user_max := (if user_max = 0 \<or> user_max > MAX_USER_IRQ then MAX_USER_IRQ else user_max),
       xd_h2c_channel_max := (if h2c = 0 \<or> h2c > XDMA_CHANNEL_NUM_MAX then XDMA_CHANNEL_NUM_MAX else h2c),
       xd_c2h_channel_max := (if c2h = 0 \<or> c2h > XDMA_CHANNEL_NUM_MAX then XDMA_CHANNEL_NUM_MAX else c2h)\<rparr>"

text \<open>
  From the probing of the engines on; the BARs are mapped and the regions held. The calls before
  that only touch the configuration space of the PCI device (bus master, read request size, relaxed
  ordering, pending INTx) and have no counterpart.
\<close>

definition open_engines ::
  "('x) xenv_scheme \<Rightarrow> open_env \<Rightarrow> nat \<Rightarrow> xdma_sys \<Rightarrow> nat option \<times> xdma_sys" where
  "open_engines E K h s =
     (let s = upd_dev h (\<lambda>d. interrupts_off E
                (d\<lparr>xd_io := check_nonzero_interrupt_status E (cfg_of d) (xd_io d)\<rparr>)) s;
          s = on_dev h (\<lambda>p. snd (probe_engines E K h p)) s;
          (rv, d) = enable_msi_msix E (oe_msi K) (sy_dev s h);
          s = upd_dev h (\<lambda>_. d) s
      in if rv < 0 then (None, err_engines E K h s)
         else (let (rv, d) = irq_setup (oe_grant K) (oe_vec K) (oe_line K) (oe_pin K) (sy_dev s h);
                   s = upd_dev h (\<lambda>_. d) s
               in if rv < 0 then (None, err_msix E K h s)
                  else (Some h, upd_dev h (\<lambda>d.
                     let log = (if poll_mode E then xd_io d
                                else channel_interrupts_enable (cfg_of d) 0xffffffff (xd_io d))
                     in d\<lparr>xd_io := snd (read_interrupts E (cfg_of d) log),
                          xd_flags := xdma_device_flag_clear (xd_flags d) XDEV_FLAG_OFFLINE\<rparr>) s)))"

definition xdma_device_open ::
  "('x) xenv_scheme \<Rightarrow> open_env \<Rightarrow> nat \<Rightarrow> nat \<Rightarrow> nat \<Rightarrow> nat \<Rightarrow> nat \<Rightarrow> xdma_sys \<Rightarrow>
     nat option \<times> xdma_sys" where
  "xdma_device_open E K h pdev user_max h2c c2h s =
     (let (xdev, s) = alloc_dev_instance (oe_oom K) h pdev s
      in if xdev = None then (None, s)
         else (let s = upd_dev h (open_limits user_max h2c c2h) s;
                   (rv, s) = xdev_list_add E K h s
               in if rv < 0 then (None, free_xdev h s)
                  else if oe_enable K \<noteq> 0 then (None, err_enable E K h s)
                  else (let s = s\<lparr>sy_enabled := (sy_enabled s)(pdev := Suc (sy_enabled s pdev))\<rparr>;
                            (rv, s) = request_regions (oe_regions K) h s
                        in if rv \<noteq> 0 then (None, err_regions E K h s)
                           else (let (rv, d) = map_bars E (oe_len K) (oe_maps K) (sy_dev s h);
                                     s = upd_dev h (\<lambda>_. d) s
                                 in if rv \<noteq> 0 then (None, err_map E K h s)
                                    else if set_dma_mask (oe_dma64 K) (oe_dma32 K) \<noteq> 0
                                    then (None, err_mask E K h s)
                                    else open_engines E K h s))))"

text \<open>The counts the caller gets back of an open device.\<close>

definition open_counts :: "nat \<Rightarrow> xdma_sys \<Rightarrow> nat \<times> nat \<times> nat" where
  "open_counts h s =
     (let d = sy_dev s h in (xd_user_max d, xd_h2c_channel_max d, xd_c2h_channel_max d))"

section \<open>Closing\<close>

definition xdma_device_close ::
  "('x) xenv_scheme \<Rightarrow> open_env \<Rightarrow> nat \<Rightarrow> nat \<Rightarrow> xdma_sys \<Rightarrow> xdma_sys" where
  "xdma_device_close E K pdev h s =
     (if debug_check_dev_hndl pdev h s < 0 then s
      else (let s = upd_dev h (\<lambda>d. disable_msi_msix (irq_teardown (oe_vec K) (interrupts_off E d))) s;
                s = on_dev h (remove_engines E h) s;
                s = upd_dev h unmap_bars s;
                s = (if xd_got_regions (sy_dev s h)
                     then s\<lparr>sy_regions := (sy_regions s)(pdev := False)\<rparr> else s);
                s = (if xd_regions_in_use (sy_dev s h) then s else pci_disable_device pdev s)
            in free_xdev h (xdev_list_remove E K h s)))"

section \<open>Offline and online\<close>

definition stop_engine :: "('x) xenv_scheme \<Rightarrow> bool \<Rightarrow> nat \<Rightarrow> xdma_dev \<Rightarrow> xdma_dev" where
  "stop_engine E h2c i d =
     (let st = est_of h2c i d
      in if e_magic (eng st) \<noteq> MAGIC_ENGINE then d
         else put_est h2c i (snd (xdma_engine_stop E (st\<lparr>eng := (eng st)
                \<lparr>e_shutdown := e_shutdown (eng st) OR ENGINE_SHUTDOWN_REQUEST\<rparr>\<rparr>))) d)"

definition xdma_device_offline ::
  "('x) xenv_scheme \<Rightarrow> open_env \<Rightarrow> nat \<Rightarrow> nat \<Rightarrow> xdma_sys \<Rightarrow> xdma_sys" where
  "xdma_device_offline E K pdev h s =
     (if debug_check_dev_hndl pdev h s < 0 then s
      else upd_dev h (\<lambda>d.
        let d = d\<lparr>xd_flags := xdma_device_flag_set (xd_flags d) XDEV_FLAG_OFFLINE\<rparr>;
            d = fold (stop_engine E True) [0..<xd_h2c_channel_max d] d;
            d = fold (stop_engine E False) [0..<xd_c2h_channel_max d] d
        in irq_teardown (oe_vec K) (interrupts_off E d)) s)"

definition restart_engine :: "('x) xenv_scheme \<Rightarrow> bool \<Rightarrow> nat \<Rightarrow> xdma_dev \<Rightarrow> xdma_dev" where
  "restart_engine E h2c i d =
     (let st = est_of h2c i d
      in if e_magic (eng st) \<noteq> MAGIC_ENGINE then d
         else (let st = snd (engine_init_regs E st)
               in put_est h2c i (st\<lparr>eng := (eng st)
                    \<lparr>e_shutdown := e_shutdown (eng st) AND NOT ENGINE_SHUTDOWN_REQUEST\<rparr>\<rparr>) d))"

definition xdma_device_online ::
  "('x) xenv_scheme \<Rightarrow> open_env \<Rightarrow> nat \<Rightarrow> nat \<Rightarrow> xdma_sys \<Rightarrow> xdma_sys" where
  "xdma_device_online E K pdev h s =
     (if debug_check_dev_hndl pdev h s < 0 then s
      else upd_dev h (\<lambda>d.
        let d = fold (restart_engine E True) [0..<xd_h2c_channel_max d] d;
            d = fold (restart_engine E False) [0..<xd_c2h_channel_max d] d;
            d = (if poll_mode E then d
                 else (let (_, d) = irq_setup (oe_grant K) (oe_vec K) (oe_line K) (oe_pin K) d;
                           log = channel_interrupts_enable (cfg_of d) 0xffffffff (xd_io d);
                           log = user_interrupts_enable (cfg_of d) (xd_mask_irq_user d) log
                       in d\<lparr>xd_io := snd (read_interrupts E (cfg_of d) log)\<rparr>))
        in d\<lparr>xd_flags := xdma_device_flag_clear (xd_flags d) XDEV_FLAG_OFFLINE\<rparr>) s)"

definition xdma_device_restart :: "nat \<Rightarrow> nat \<Rightarrow> xdma_sys \<Rightarrow> int" where
  "xdma_device_restart pdev h s = (if debug_check_dev_hndl pdev h s < 0 then - EINVAL else - EINVAL)"

end
