(* ===== verification/Xdma_Probe_Spec.thy ===== *)
theory Xdma_Probe_Spec
  imports Xdma_Device Xdma_Irq_Spec
begin

text \<open>
  What probing and removing leaves in a device's array of engines: the ones found are ready for
  transfers, the others hold no memory, and after the removal none does.
\<close>

declare split_paired_All [simp del] split_paired_Ex [simp del]

section \<open>Views of a device\<close>

definition engines_of :: "bool \<Rightarrow> xdma_dev \<Rightarrow> xdma_engine list" where
  "engines_of h2c d = (if h2c then xd_engine_h2c d else xd_engine_c2h d)"

lemma engine_of_nth: "engine_of h2c i d = engines_of h2c d ! i"
  by (simp add: engine_of_def engines_of_def)

text \<open>The engine of channel \<open>i\<close> has been set up: what the transfer code relies on.\<close>

definition engine_ready :: "bool \<Rightarrow> nat \<Rightarrow> xdma_engine \<Rightarrow> bool" where
  "engine_ready h2c i e \<longleftrightarrow> ring_ok e \<and> e_magic e = MAGIC_ENGINE \<and> e_dir e = dir_of h2c \<and> e_channel e = i \<and>
     e_transfer_list e = [] \<and> \<not> e_running e"

lemma zero_engine_holds [simp]: "holds_nothing zero_engine"
  by (simp add: holds_nothing_def zero_engine_def)

lemma put_est_engines:
  "engines_of b (put_est h2c i st d) =
     (if b = h2c then (engines_of b d)[i := eng st] else engines_of b d)"
  by (simp add: put_est_def engines_of_def Let_def)

lemma put_counts_engines [simp]: "engines_of b (put_counts c d) = engines_of b d"
  by (simp add: put_counts_def engines_of_def)

lemma engines_of_io [simp]: "engines_of b (d\<lparr>xd_io := l\<rparr>) = engines_of b d"
  by (simp add: engines_of_def)

section \<open>Probing\<close>

text \<open>One channel: either its engine is ready, or it holds nothing; no other engine changes.\<close>

lemma probe_one:
  assumes run: "probe_for_engine E K h h2c i s = (rv, s')" and i: "i < length (engines_of h2c (snd s))"
    and z: "engines_of h2c (snd s) ! i = zero_engine"
  shows "\<exists>e. engines_of h2c (snd s') = (engines_of h2c (snd s))[i := e] \<and>
      (if rv = 0 then engine_ready h2c i e else holds_nothing e)"
    and "engines_of (\<not> h2c) (snd s') = engines_of (\<not> h2c) (snd s)"
proof -
  obtain pool d where s: "s = (pool, d)" by (cases s)
  let ?off = "i * CHANNEL_SPACING + (if h2c then 0 else H2C_CHANNEL_OFFSET)"
  obtain id1 log1 where r1: "get_engine_id E (io_plus (cfg_of d) ?off) (xd_io d) = (id1, log1)" by fastforce
  obtain ch log2 where r2: "get_engine_channel_id E (io_plus (cfg_of d) ?off) log1 = (ch, log2)" by fastforce
  let ?d = "d\<lparr>xd_io := log2\<rparr>"
  obtain rv1 c st where init: "engine_init E (oe_mem K h2c i) (thread_for pool) ?off (dir_of h2c) i
      (counts_of ?d) (est_of h2c i ?d) = (rv1, c, st)" by (metis prod_cases3)
  have eng: "eng (est_of h2c i ?d) = zero_engine"
    using z s by (simp add: est_of_def engine_of_nth)
  have res: "if rv1 = 0 then engine_ready h2c i (eng st) else holds_nothing (eng st)"
    using engine_init_facts [OF eng, where E = E and m = "oe_mem K h2c i" and thp = "thread_for pool" and
        offset = ?off and dir = "dir_of h2c" and channel = i and dc = "counts_of ?d"] init
    by (auto simp: engine_ready_def split: if_splits)
  have out: "(rv, s') = (if id1 \<noteq> (if h2c then XDMA_ID_H2C else XDMA_ID_C2H) \<or> ch \<noteq> of_nat i then (- EINVAL, pool, ?d)
      else (rv1, if rv1 = 0 \<and> poll_mode E then xdma_thread_add_work (eng_no h h2c i) pool else pool,
            put_counts c (put_est h2c i st ?d)))"
    using run unfolding s probe_for_engine_def Let_def prod.case r1 r2 init by simp
  show "\<exists>e. engines_of h2c (snd s') = (engines_of h2c (snd s))[i := e] \<and>
      (if rv = 0 then engine_ready h2c i e else holds_nothing e)"
  proof (cases "id1 \<noteq> (if h2c then XDMA_ID_H2C else XDMA_ID_C2H) \<or> ch \<noteq> of_nat i")
    case True
    then have rv: "rv = - EINVAL" "engines_of h2c (snd s') = engines_of h2c (snd s)"
      using out s by auto
    have "engines_of h2c (snd s) = (engines_of h2c (snd s))[i := zero_engine]"
      by (metis list_update_id z)
    with rv show ?thesis by auto
  next
    case False
    then have "rv = rv1" "engines_of h2c (snd s') = (engines_of h2c (snd s))[i := eng st]"
      using out s by (simp_all add: put_est_engines)
    with res show ?thesis by blast
  qed
  show "engines_of (\<not> h2c) (snd s') = engines_of (\<not> h2c) (snd s)"
    using out s by (auto simp: put_est_engines split: if_splits)
qed

lemma probe_channels_engines:
  assumes "probe_channels E K h h2c k i s = (n, s')" and "i + k \<le> length (engines_of h2c (snd s))"
    and "\<forall>j. i \<le> j \<and> j < length (engines_of h2c (snd s)) \<longrightarrow> engines_of h2c (snd s) ! j = zero_engine"
    and "\<forall>j < i. engine_ready h2c j (engines_of h2c (snd s) ! j)"
  shows "i \<le> n \<and> n \<le> i + k \<and> length (engines_of h2c (snd s')) = length (engines_of h2c (snd s)) \<and>
    (\<forall>j < n. engine_ready h2c j (engines_of h2c (snd s') ! j)) \<and>
    (\<forall>j. n \<le> j \<and> j < length (engines_of h2c (snd s)) \<longrightarrow> holds_nothing (engines_of h2c (snd s') ! j)) \<and>
    engines_of (\<not> h2c) (snd s') = engines_of (\<not> h2c) (snd s)"
  using assms
proof (induction k arbitrary: i s)
  case 0
  then show ?case by auto
next
  case (Suc k)
  obtain rv s1 where one: "probe_for_engine E K h h2c i s = (rv, s1)" by fastforce
  have i: "i < length (engines_of h2c (snd s))" using Suc.prems(2) by simp
  then have z: "engines_of h2c (snd s) ! i = zero_engine" using Suc.prems(3) by simp
  note p = probe_one [OF one i z]
  then obtain e where e: "engines_of h2c (snd s1) = (engines_of h2c (snd s))[i := e]"
    "if rv = 0 then engine_ready h2c i e else holds_nothing e" by blast
  show ?case
  proof (cases "rv = 0")
    case True
    have rest: "probe_channels E K h h2c k (Suc i) s1 = (n, s')" using Suc.prems(1) one True by simp
    have "Suc i \<le> n \<and> n \<le> Suc i + k \<and> length (engines_of h2c (snd s')) = length (engines_of h2c (snd s1)) \<and>
        (\<forall>j < n. engine_ready h2c j (engines_of h2c (snd s') ! j)) \<and>
        (\<forall>j. n \<le> j \<and> j < length (engines_of h2c (snd s1)) \<longrightarrow> holds_nothing (engines_of h2c (snd s') ! j)) \<and>
        engines_of (\<not> h2c) (snd s') = engines_of (\<not> h2c) (snd s1)"
    proof (rule Suc.IH [OF rest])
      show "Suc i + k \<le> length (engines_of h2c (snd s1))" using Suc.prems(2) e(1) by simp
      show "\<forall>j. Suc i \<le> j \<and> j < length (engines_of h2c (snd s1)) \<longrightarrow> engines_of h2c (snd s1) ! j = zero_engine"
        using Suc.prems(3) e(1) by simp
      show "\<forall>j < Suc i. engine_ready h2c j (engines_of h2c (snd s1) ! j)"
        using Suc.prems(4) e True i by (auto simp: less_Suc_eq nth_list_update)
    qed
    then show ?thesis using e(1) p(2) by simp
  next
    case False
    then have "n = i" "s' = s1" using Suc.prems(1) one by simp_all
    then show ?thesis
      using e p(2) False Suc.prems(3,4) i by (auto simp: nth_list_update)
  qed
qed

section \<open>Removing\<close>

lemma remove_one_engines:
  "engines_of b (snd (remove_engine E h h2c i s)) =
     (if b = h2c \<and> e_magic (engines_of b (snd s) ! i) = MAGIC_ENGINE
      then (engines_of b (snd s))[i := zero_engine] else engines_of b (snd s))"
  by (auto simp: remove_engine_def split_beta Let_def engine_of_nth put_est_engines engine_destroy_def)

lemma remove_frame [simp]:
  "xd_h2c_channel_max (snd (remove_engine E h h2c i s)) = xd_h2c_channel_max (snd s)"
  "xd_c2h_channel_max (snd (remove_engine E h h2c i s)) = xd_c2h_channel_max (snd s)"
  "xd_irqs (snd (remove_engine E h h2c i s)) = xd_irqs (snd s)"
  by (simp_all add: remove_engine_def split_beta Let_def put_counts_def put_est_def)

lemma fold_remove_frame [simp]:
  "xd_h2c_channel_max (snd (fold (remove_engine E h h2c) is s)) = xd_h2c_channel_max (snd s)"
  "xd_c2h_channel_max (snd (fold (remove_engine E h h2c) is s)) = xd_c2h_channel_max (snd s)"
  "xd_irqs (snd (fold (remove_engine E h h2c) is s)) = xd_irqs (snd s)"
  by (induction "is" arbitrary: s) simp_all

lemma fold_remove_engines:
  assumes "\<forall>j < n. e_magic (engines_of h2c (snd s) ! j) = MAGIC_ENGINE" and "n \<le> length (engines_of h2c (snd s))"
  shows "length (engines_of h2c (snd (fold (remove_engine E h h2c) [0..<n] s))) = length (engines_of h2c (snd s)) \<and>
    (\<forall>j < length (engines_of h2c (snd s)). engines_of h2c (snd (fold (remove_engine E h h2c) [0..<n] s)) ! j =
       (if j < n then zero_engine else engines_of h2c (snd s) ! j)) \<and>
    engines_of (\<not> h2c) (snd (fold (remove_engine E h h2c) [0..<n] s)) = engines_of (\<not> h2c) (snd s)"
  using assms
proof (induction n)
  case 0
  then show ?case by simp
next
  case (Suc n)
  let ?s = "fold (remove_engine E h h2c) [0..<n] s"
  have IH: "length (engines_of h2c (snd ?s)) = length (engines_of h2c (snd s))"
    "\<And>j. j < length (engines_of h2c (snd s)) \<Longrightarrow>
       engines_of h2c (snd ?s) ! j = (if j < n then zero_engine else engines_of h2c (snd s) ! j)"
    "engines_of (\<not> h2c) (snd ?s) = engines_of (\<not> h2c) (snd s)"
    using Suc by auto
  have n: "n < length (engines_of h2c (snd s))" using Suc.prems(2) by simp
  have "e_magic (engines_of h2c (snd ?s) ! n) = MAGIC_ENGINE" using IH(2) [OF n] Suc.prems(1) by simp
  then have e: "engines_of h2c (snd (remove_engine E h h2c n ?s)) = (engines_of h2c (snd ?s))[n := zero_engine]"
    "engines_of (\<not> h2c) (snd (remove_engine E h h2c n ?s)) = engines_of (\<not> h2c) (snd ?s)"
    by (simp_all add: remove_one_engines)
  show ?case using IH n by (simp add: e nth_list_update less_Suc_eq)
qed

text \<open>After the removal no engine holds memory, if those past the channels held none.\<close>

lemma remove_engines_hold_nothing:
  assumes "\<And>b j. j < (if b then xd_h2c_channel_max (snd s) else xd_c2h_channel_max (snd s)) \<Longrightarrow>
      e_magic (engines_of b (snd s) ! j) = MAGIC_ENGINE"
    and "\<And>b. (if b then xd_h2c_channel_max (snd s) else xd_c2h_channel_max (snd s)) \<le> length (engines_of b (snd s))"
    and "\<And>b j. (if b then xd_h2c_channel_max (snd s) else xd_c2h_channel_max (snd s)) \<le> j \<Longrightarrow>
      j < length (engines_of b (snd s)) \<Longrightarrow> holds_nothing (engines_of b (snd s) ! j)"
  shows "\<forall>e \<in> set (engines_of b (snd (remove_engines E h s))). holds_nothing e"
proof -
  let ?n = "xd_h2c_channel_max (snd s)" and ?m = "xd_c2h_channel_max (snd s)"
  let ?s1 = "fold (remove_engine E h True) [0..<?n] s"
  let ?s2 = "fold (remove_engine E h False) [0..<?m] ?s1"
  have s2: "remove_engines E h s = ?s2" by (simp add: remove_engines_def)
  have h: "length (engines_of True (snd ?s1)) = length (engines_of True (snd s))"
    "\<And>j. j < length (engines_of True (snd s)) \<Longrightarrow>
       engines_of True (snd ?s1) ! j = (if j < ?n then zero_engine else engines_of True (snd s) ! j)"
    "engines_of False (snd ?s1) = engines_of False (snd s)"
    using fold_remove_engines [of ?n True s E h] assms(1) [of _ True] assms(2) [of True] by auto
  have c: "length (engines_of False (snd ?s2)) = length (engines_of False (snd s))"
    "\<And>j. j < length (engines_of False (snd s)) \<Longrightarrow>
       engines_of False (snd ?s2) ! j = (if j < ?m then zero_engine else engines_of False (snd s) ! j)"
    "engines_of True (snd ?s2) = engines_of True (snd ?s1)"
    using fold_remove_engines [of ?m False ?s1 E h] h(3) assms(1) [of _ False] assms(2) [of False] by auto
  have "holds_nothing (engines_of True (snd ?s2) ! j)" if "j < length (engines_of True (snd ?s2))" for j
    using that h(1,2) c(3) assms(3) [of True j] by simp
  moreover have "holds_nothing (engines_of False (snd ?s2) ! j)" if "j < length (engines_of False (snd ?s2))" for j
    using that c(1,2) assms(3) [of False j] by simp
  ultimately show ?thesis unfolding s2 by (cases b) (auto simp: in_set_conv_nth)
qed

section \<open>The number of channels\<close>

definition chan_max :: "bool \<Rightarrow> xdma_dev \<Rightarrow> nat" where
  "chan_max h2c d = (if h2c then xd_h2c_channel_max d else xd_c2h_channel_max d)"

text \<open>
  The engines of an open device: those of the channels are ready, the others hold nothing.
\<close>

definition engines_open :: "xdma_dev \<Rightarrow> bool" where
  "engines_open d \<longleftrightarrow> (\<forall>b. chan_max b d \<le> 4 \<and> length (engines_of b d) = 4 \<and>
     (\<forall>j < chan_max b d. engine_ready b j (engines_of b d ! j)) \<and>
     (\<forall>j. chan_max b d \<le> j \<and> j < 4 \<longrightarrow> holds_nothing (engines_of b d ! j)))"

lemma probe_channel_max:
  "xd_h2c_channel_max (snd (snd (probe_channels E K h b k i s))) = xd_h2c_channel_max (snd s)"
  "xd_c2h_channel_max (snd (snd (probe_channels E K h b k i s))) = xd_c2h_channel_max (snd s)"
  "xd_irqs (snd (snd (probe_channels E K h b k i s))) = xd_irqs (snd s)"
proof -
  have one: "xd_h2c_channel_max (snd (snd (probe_for_engine E K h b i s))) = xd_h2c_channel_max (snd s)"
    "xd_c2h_channel_max (snd (snd (probe_for_engine E K h b i s))) = xd_c2h_channel_max (snd s)"
    "xd_irqs (snd (snd (probe_for_engine E K h b i s))) = xd_irqs (snd s)" for i s
    by (simp_all add: probe_for_engine_def split_beta Let_def put_counts_def put_est_def)
  show "xd_h2c_channel_max (snd (snd (probe_channels E K h b k i s))) = xd_h2c_channel_max (snd s)"
    by (induction k arbitrary: i s) (simp_all add: Let_def split_beta one)
  show "xd_c2h_channel_max (snd (snd (probe_channels E K h b k i s))) = xd_c2h_channel_max (snd s)"
    by (induction k arbitrary: i s) (simp_all add: Let_def split_beta one)
  show "xd_irqs (snd (snd (probe_channels E K h b k i s))) = xd_irqs (snd s)"
    by (induction k arbitrary: i s) (simp_all add: Let_def split_beta one)
qed

lemma engines_of_max [simp]:
  "engines_of b (d\<lparr>xd_h2c_channel_max := n\<rparr>) = engines_of b d" "engines_of b (d\<lparr>xd_c2h_channel_max := n\<rparr>) = engines_of b d"
  by (simp_all add: engines_of_def)

lemma probe_engines_open:
  assumes z: "\<And>b. engines_of b (snd s) = replicate 4 zero_engine"
    and mx: "xd_h2c_channel_max (snd s) \<le> 4" "xd_c2h_channel_max (snd s) \<le> 4"
  shows "engines_open (snd (snd (probe_engines E K h s)))"
    and "xd_irqs (snd (snd (probe_engines E K h s))) = xd_irqs (snd s)"
proof -
  obtain n p1 d1 where h: "probe_channels E K h True (xd_h2c_channel_max (snd s)) 0 s = (n, p1, d1)"
    by (metis prod_cases3)
  let ?s1 = "(p1, d1\<lparr>xd_h2c_channel_max := n\<rparr>)"
  obtain m p2 d2 where c: "probe_channels E K h False (xd_c2h_channel_max d1) 0 ?s1 = (m, p2, d2)"
    by (metis prod_cases3)
  have run: "snd (snd (probe_engines E K h s)) = d2\<lparr>xd_c2h_channel_max := m\<rparr>"
    using h c by (simp add: probe_engines_def Let_def)
  have f1: "n \<le> 4" "length (engines_of True d1) = 4" "\<forall>j < n. engine_ready True j (engines_of True d1 ! j)"
    "\<forall>j. n \<le> j \<and> j < 4 \<longrightarrow> holds_nothing (engines_of True d1 ! j)" "engines_of False d1 = replicate 4 zero_engine"
    using probe_channels_engines [OF h] z [of True] z [of False] mx(1) by auto
  have m1: "xd_c2h_channel_max d1 = xd_c2h_channel_max (snd s)" "xd_irqs d1 = xd_irqs (snd s)"
    using probe_channel_max [of E K h True "xd_h2c_channel_max (snd s)" 0 s] h by simp_all
  have f2: "m \<le> 4" "length (engines_of False d2) = 4" "\<forall>j < m. engine_ready False j (engines_of False d2 ! j)"
    "\<forall>j. m \<le> j \<and> j < 4 \<longrightarrow> holds_nothing (engines_of False d2 ! j)" "engines_of True d2 = engines_of True d1"
    using probe_channels_engines [OF c] f1(5) mx(2) m1(1) by auto
  have m2: "xd_h2c_channel_max d2 = n" "xd_irqs d2 = xd_irqs d1"
    using probe_channel_max [of E K h False "xd_c2h_channel_max d1" 0 ?s1] c by simp_all
  show "engines_open (snd (snd (probe_engines E K h s)))"
    unfolding run engines_open_def
  proof
    fix b
    show "chan_max b (d2\<lparr>xd_c2h_channel_max := m\<rparr>) \<le> 4 \<and> length (engines_of b (d2\<lparr>xd_c2h_channel_max := m\<rparr>)) = 4 \<and>
     (\<forall>j < chan_max b (d2\<lparr>xd_c2h_channel_max := m\<rparr>). engine_ready b j (engines_of b (d2\<lparr>xd_c2h_channel_max := m\<rparr>) ! j)) \<and>
     (\<forall>j. chan_max b (d2\<lparr>xd_c2h_channel_max := m\<rparr>) \<le> j \<and> j < 4 \<longrightarrow> holds_nothing (engines_of b (d2\<lparr>xd_c2h_channel_max := m\<rparr>) ! j))"
      using f1 f2 m2(1) by (cases b) (simp_all add: chan_max_def)
  qed
  show "xd_irqs (snd (snd (probe_engines E K h s))) = xd_irqs (snd s)"
    unfolding run using m1(2) m2(2) by simp
qed

section \<open>The interrupt lines leave the engines as they are\<close>

definition strip_line :: "xdma_engine \<Rightarrow> xdma_engine" where
  "strip_line e = e\<lparr>e_msix_irq_line := 0\<rparr>"

lemma strip_line_ready: "strip_line e' = strip_line e \<Longrightarrow>
    engine_ready b i e' = engine_ready b i e \<and> holds_nothing e' = holds_nothing e \<and> e_magic e' = e_magic e"
proof -
  assume a: "strip_line e' = strip_line e"
  have "e_desc e' = e_desc e" "e_desc_idx e' = e_desc_idx e" "e_desc_max e' = e_desc_max e" "e_magic e' = e_magic e"
    "e_dir e' = e_dir e" "e_channel e' = e_channel e" "e_transfer_list e' = e_transfer_list e" "e_running e' = e_running e"
    "e_cyclic_result e' = e_cyclic_result e" "e_poll_mode_addr_virt e' = e_poll_mode_addr_virt e"
    using arg_cong [OF a, of e_desc] arg_cong [OF a, of e_desc_idx] arg_cong [OF a, of e_desc_max]
      arg_cong [OF a, of e_magic] arg_cong [OF a, of e_dir] arg_cong [OF a, of e_channel] arg_cong [OF a, of e_transfer_list]
      arg_cong [OF a, of e_running] arg_cong [OF a, of e_cyclic_result] arg_cong [OF a, of e_poll_mode_addr_virt]
    by (simp_all add: strip_line_def)
  then show ?thesis by (simp add: engine_ready_def ring_ok_def holds_nothing_def)
qed

definition stripped :: "xdma_dev \<Rightarrow> xdma_engine list \<times> xdma_engine list \<times> nat \<times> nat" where
  "stripped d = (map strip_line (xd_engine_h2c d), map strip_line (xd_engine_c2h d),
     xd_h2c_channel_max d, xd_c2h_channel_max d)"

lemma stripped_simps [simp]:
  "stripped (d\<lparr>xd_io := l\<rparr>) = stripped d" "stripped (d\<lparr>xd_irqs := r\<rparr>) = stripped d"
  "stripped (d\<lparr>xd_irq_line := i\<rparr>) = stripped d"
  by (simp_all add: stripped_def)

lemma strip_line_update: "map strip_line (xs[i := (xs ! i)\<lparr>e_msix_irq_line := v\<rparr>]) = map strip_line xs"
proof (cases "i < length xs")
  case True
  have "map strip_line (xs[i := (xs ! i)\<lparr>e_msix_irq_line := v\<rparr>]) = (map strip_line xs)[i := map strip_line xs ! i]"
    using True by (simp add: map_update) (simp add: strip_line_def)
  then show ?thesis by simp
qed (simp add: not_less list_update_beyond)

lemma set_irq_line_stripped [simp]: "stripped (set_irq_line b i v d) = stripped d"
  by (simp add: stripped_def set_irq_line_def strip_line_update)

lemma setup_channels_stripped: "stripped (snd (setup_channels grant vec h2c n i j d)) = stripped d"
proof (induction n arbitrary: i j d)
  case (Suc n)
  then show ?case by (simp add: request_irq_def Let_def split_beta)
qed simp

lemma setup_users_stripped: "stripped (snd (snd (setup_users grant vec base n i d))) = stripped d"
proof (induction n arbitrary: i d)
  case (Suc n)
  then show ?case by (simp add: request_irq_def Let_def split_beta)
qed simp

lemma free_users_down_stripped: "stripped (free_users_down vec base i d) = stripped d"
  by (induction i arbitrary: d) (simp_all add: free_irq_def)

lemma irq_setup_stripped: "stripped (snd (irq_setup grant vec line pin d)) = stripped d"
proof -
  have p: "stripped (prog_irq_msix_user b d) = stripped d" "stripped (prog_irq_msix_channel b d) = stripped d" for b d
    by (simp_all add: prog_irq_msix_user_def prog_irq_msix_channel_def Let_def)
  have c: "stripped (snd (irq_msix_channel_setup grant vec d)) = stripped d" for d
    by (simp add: irq_msix_channel_setup_def split_beta Let_def setup_channels_stripped)
  have u: "stripped (snd (irq_msix_user_setup grant vec d)) = stripped d" for d
    by (simp add: irq_msix_user_setup_def split_beta Let_def setup_users_stripped free_users_down_stripped)
  have l: "stripped (snd (irq_msi_setup grant line d)) = stripped d"
    "stripped (snd (irq_legacy_setup grant line pin d)) = stripped d"
    by (simp_all add: irq_msi_setup_def irq_legacy_setup_def request_irq_def Let_def)
  show ?thesis by (simp add: irq_setup_def split_beta Let_def p c u l)
qed

lemma stripped_open:
  assumes "stripped d' = stripped d"
  shows "engines_open d' = engines_open d"
proof -
  have e: "map strip_line (engines_of b d') = map strip_line (engines_of b d)" "chan_max b d' = chan_max b d" for b
    using assms by (simp_all add: stripped_def engines_of_def chan_max_def)
  then have len: "length (engines_of b d') = length (engines_of b d)" for b by (metis length_map)
  have "strip_line (engines_of b d' ! j) = strip_line (engines_of b d ! j)" if "j < length (engines_of b d)" for b j
    using e(1) [of b] that len [of b] by (metis nth_map)
  note s = strip_line_ready [OF this]
  show ?thesis unfolding engines_open_def e(2) len
    by (rule all_cong1) (use s in \<open>auto dest: less_le_trans\<close>)
qed

section \<open>Releasing what was requested\<close>

lemma teardown_after_setup:
  assumes run: "irq_setup grant vec line pin d = (0, d')"
    and len: "xd_h2c_channel_max d \<le> length (xd_engine_h2c d)" "xd_c2h_channel_max d \<le> length (xd_engine_c2h d)"
    and vec: "\<And>j. j < xd_h2c_channel_max d + xd_c2h_channel_max d \<Longrightarrow> 0 < vec j \<and> vec j < 2 ^ 32"
    and same: "irq_shape d'' = irq_shape d'" "line_of d'' = line_of d'" "xd_irqs d'' = xd_irqs d'"
      "xd_irq_line d'' = xd_irq_line d'"
  shows "mset (xd_irqs (irq_teardown vec d'')) = mset (xd_irqs d)"
proof (cases "xd_msix_enabled d")
  case False
  then show ?thesis
    using run same by (auto simp: irq_setup_def irq_msi_setup_def irq_legacy_setup_def Let_def irq_shape_def
        request_irq_def irq_teardown_def free_irq_def split: if_splits)
next
  case True
  note ok = irq_setup_msix_ok [OF run True]
  note sh = irq_shape_eqD [OF ok(2)] irq_shape_eqD [OF same(1)]
  show ?thesis
    using irq_teardown_msix [of d'' vec] ok True sh len vec same(2,3) by (simp add: chan_num_def)
qed

end
