(* ===== verification/Xdma_Thread_Spec.thy ===== *)
theory Xdma_Thread_Spec
  imports Xdma_Thread
begin

text \<open>
  The pool of completion threads: attaching and detaching engines keeps the work lists and the
  engines' pointers in step, the first engines get a thread each, creating and destroying the pool
  balance, and a round of a thread always ends.
\<close>

declare split_paired_All [simp del] split_paired_Ex [simp del]

section \<open>The choice of a thread\<close>

lemma pick_thread_chosen:
  assumes "idx \<noteq> n" and "idx < i" and "i + length cs = n"
  shows "(pick_thread n cs i v idx = idx \<or> (i \<le> pick_thread n cs i v idx \<and> pick_thread n cs i v idx < n)) \<and>
    (0 \<in> set cs \<longrightarrow> i \<le> pick_thread n cs i v idx \<and> cs ! (pick_thread n cs i v idx - i) = 0) \<and>
    (0 \<notin> set cs \<and> v = 0 \<longrightarrow> pick_thread n cs i v idx = idx)"
  using assms
proof (induction cs arbitrary: i idx)
  case Nil
  then show ?case by simp
next
  case (Cons c cs)
  show ?case
  proof (cases "c = 0")
    case True
    with Cons.prems show ?thesis by simp
  next
    case False
    let ?idx = "if c < v then i else idx"
    let ?r = "pick_thread n cs (Suc i) v ?idx"
    have r: "pick_thread n (c # cs) i v idx = ?r" using False Cons.prems(1) by simp
    have "(?r = ?idx \<or> (Suc i \<le> ?r \<and> ?r < n)) \<and> (0 \<in> set cs \<longrightarrow> Suc i \<le> ?r \<and> cs ! (?r - Suc i) = 0) \<and>
        (0 \<notin> set cs \<and> v = 0 \<longrightarrow> ?r = ?idx)"
      by (rule Cons.IH) (use Cons.prems in auto)
    then show ?thesis
      unfolding r using False Cons.prems by (auto simp: nth_Cons' Suc_diff_le not_less_eq_eq)
  qed
qed

text \<open>The choice is a thread, and an idle one when there is one.\<close>

lemma pick_thread_idle:
  assumes "cs \<noteq> []"
  shows "pick_thread (length cs) cs 0 0 (length cs) < length cs"
    and "0 \<in> set cs \<Longrightarrow> cs ! pick_thread (length cs) cs 0 0 (length cs) = 0"
proof -
  obtain c ds where cs: "cs = c # ds" using assms by (cases cs) auto
  let ?r = "pick_thread (length cs) ds 1 c 0"
  have r: "pick_thread (length cs) cs 0 0 (length cs) = ?r" by (simp add: cs)
  note p = pick_thread_chosen [of 0 "length cs" 1 ds c]
  show "pick_thread (length cs) cs 0 0 (length cs) < length cs"
    unfolding r using p cs by auto
  show "cs ! pick_thread (length cs) cs 0 0 (length cs) = 0" if "0 \<in> set cs"
  proof (cases "0 \<in> set ds")
    case True
    then show ?thesis unfolding r using p cs by (cases ?r) auto
  next
    case False
    then have "c = 0" using that cs by simp
    then show ?thesis unfolding r using p cs False by simp
  qed
qed

text \<open>
  With no idle thread the choice need not be the least loaded one: the loop compares each count with
  the first thread's, not with the smallest so far.
\<close>

lemma pick_not_least: "pick_thread 3 [3, 1, 2] 0 0 3 = 2"
  by simp

section \<open>The interface of a pool of workers\<close>

locale work_pool =
  fixes attach :: "'e \<Rightarrow> 's \<Rightarrow> 's"
    and detach :: "'e \<Rightarrow> 's \<Rightarrow> 's"
    and owner :: "'s \<Rightarrow> 'e \<Rightarrow> nat option"
    and workers :: "'s \<Rightarrow> nat"
    and invar :: "'s \<Rightarrow> bool"
  assumes attach_picks: "invar s \<Longrightarrow> 0 < workers s \<Longrightarrow> owner s e = None \<Longrightarrow>
      invar (attach e s) \<and> workers (attach e s) = workers s \<and>
      (\<exists>i < workers s. owner (attach e s) = (owner s)(e \<mapsto> i) \<and>
         ((\<exists>j < workers s. j \<notin> ran (owner s)) \<longrightarrow> i \<notin> ran (owner s)))"
    and detach_frees: "invar s \<Longrightarrow>
      invar (detach e s) \<and> workers (detach e s) = workers s \<and> owner (detach e s) = (owner s)(e := None)"
begin

lemma detach_attach:
  assumes "invar s" and "0 < workers s" and "owner s e = None"
  shows "invar (detach e (attach e s)) \<and> owner (detach e (attach e s)) = owner s"
  using attach_picks [OF assms] detach_frees [of "attach e s" e] assms(3) by auto

text \<open>As long as there are no more clients than workers, each has a worker of its own.\<close>

lemma attach_all_private:
  assumes "invar s" and "owner s = Map.empty" and "distinct es" and "length es \<le> workers s"
  shows "invar (fold attach es s) \<and> workers (fold attach es s) = workers s \<and>
    dom (owner (fold attach es s)) = set es \<and> inj_on (owner (fold attach es s)) (set es)"
  using assms(3,4)
proof (induction es rule: rev_induct)
  case Nil
  then show ?case using assms(1,2) by simp
next
  case (snoc e es)
  let ?s = "fold attach es s"
  have IH: "invar ?s" "workers ?s = workers s" "dom (owner ?s) = set es" "inj_on (owner ?s) (set es)"
    using snoc by auto
  have e: "owner ?s e = None" using IH(3) snoc.prems(1) by auto
  have w: "0 < workers ?s" using snoc.prems(2) IH(2) by simp
  from attach_picks [OF IH(1) w e] obtain i where
    i: "invar (attach e ?s)" "workers (attach e ?s) = workers ?s" "owner (attach e ?s) = (owner ?s)(e \<mapsto> i)"
      "(\<exists>j < workers ?s. j \<notin> ran (owner ?s)) \<longrightarrow> i \<notin> ran (owner ?s)" by blast
  have "ran (owner ?s) = the ` owner ?s ` set es"
    using IH(3) by (force simp: ran_def image_def domIff)
  then have "card (ran (owner ?s)) \<le> length es"
    by (metis card_image_le card_length finite_imageI finite_set image_image le_trans)
  moreover have "finite (ran (owner ?s))" using \<open>ran (owner ?s) = _\<close> by simp
  ultimately have "\<not> {..<workers ?s} \<subseteq> ran (owner ?s)"
    using card_mono [of "ran (owner ?s)" "{..<workers ?s}"] snoc.prems(2) IH(2) by auto
  then have fresh: "i \<notin> ran (owner ?s)" using i(4) by auto
  have inj: "inj_on (owner (attach e ?s)) (set (es @ [e]))"
  proof (rule inj_onI)
    fix x y
    assume xy: "x \<in> set (es @ [e])" "y \<in> set (es @ [e])" "owner (attach e ?s) x = owner (attach e ?s) y"
    have "owner ?s z \<noteq> Some i" for z using fresh by (auto simp: ran_def)
    then show "x = y" using xy IH(4) i(3) by (auto simp: inj_on_def split: if_splits)
  qed
  have "dom (owner (attach e ?s)) = set (es @ [e])" using IH(3) by (auto simp: i(3))
  with inj i(1,2) IH(2) show ?case by simp
qed

end

section \<open>The pool keeps its books\<close>

definition pool_ok :: "thread_pool \<Rightarrow> bool" where
  "pool_ok p \<longleftrightarrow> thread_cnt p \<le> length (cs_threads p) \<and>
     (\<forall>i < thread_cnt p.
        kt_work_cnt (cs_threads p ! i) = length (kt_work_list (cs_threads p ! i)) \<and>
        distinct (kt_work_list (cs_threads p ! i)) \<and>
        set (kt_work_list (cs_threads p ! i)) = {n. e_cmplthp (tp_engines p n) = Some i}) \<and>
     (\<forall>n i. e_cmplthp (tp_engines p n) = Some i \<longrightarrow> i < thread_cnt p)"

definition pool_owner :: "thread_pool \<Rightarrow> nat \<Rightarrow> nat option" where
  "pool_owner p n = e_cmplthp (tp_engines p n)"

lemma thread_for_idle:
  assumes "pool_ok p" and "0 < thread_cnt p"
  shows "thread_for p < thread_cnt p"
    and "\<exists>j < thread_cnt p. j \<notin> ran (pool_owner p) \<Longrightarrow> thread_for p \<notin> ran (pool_owner p)"
proof -
  let ?cs = "map kt_work_cnt (take (thread_cnt p) (cs_threads p))"
  have len: "length ?cs = thread_cnt p" using assms(1) by (simp add: pool_ok_def)
  then have ne: "?cs \<noteq> []" using assms(2) by (metis length_greater_0_conv)
  have tf: "thread_for p = pick_thread (length ?cs) ?cs 0 0 (length ?cs)"
    unfolding len by (simp add: thread_for_def)
  show lt: "thread_for p < thread_cnt p" unfolding tf using pick_thread_idle(1) [OF ne] len by simp
  have idle: "?cs ! j = 0 \<longleftrightarrow> j \<notin> ran (pool_owner p)" if "j < thread_cnt p" for j
  proof -
    have "?cs ! j = length (kt_work_list (cs_threads p ! j))"
      using that assms(1) by (simp add: pool_ok_def)
    moreover have "set (kt_work_list (cs_threads p ! j)) = {n. pool_owner p n = Some j}"
      using that assms(1) by (simp add: pool_ok_def pool_owner_def)
    moreover have "{n. pool_owner p n = Some j} = {} \<longleftrightarrow> j \<notin> ran (pool_owner p)" by (auto simp: ran_def)
    ultimately show ?thesis by (metis length_0_conv set_empty)
  qed
  show "thread_for p \<notin> ran (pool_owner p)" if ex: "\<exists>j < thread_cnt p. j \<notin> ran (pool_owner p)"
  proof -
    from ex obtain j where j: "j < thread_cnt p" "j \<notin> ran (pool_owner p)" by blast
    then have "?cs ! j = 0" using idle by blast
    with j(1) len have "0 \<in> set ?cs" by (metis nth_mem)
    then have "?cs ! thread_for p = 0" unfolding tf by (rule pick_thread_idle(2) [OF ne])
    then show ?thesis using idle [OF lt] by simp
  qed
qed

lemma add_work_law:
  assumes ok: "pool_ok p" and cnt: "0 < thread_cnt p" and free: "pool_owner p n = None"
  shows "pool_ok (xdma_thread_add_work n p)" and "thread_cnt (xdma_thread_add_work n p) = thread_cnt p"
    and "pool_owner (xdma_thread_add_work n p) = (pool_owner p)(n \<mapsto> thread_for p)"
proof -
  let ?i = "thread_for p"
  have i: "?i < thread_cnt p" "?i < length (cs_threads p)"
    using thread_for_idle(1) [OF ok cnt] ok by (simp_all add: pool_ok_def)
  have eng: "e_cmplthp (tp_engines (xdma_thread_add_work n p) m) =
      (if m = n then Some ?i else e_cmplthp (tp_engines p m))" for m
    by (simp add: xdma_thread_add_work_def upd_thread_def upd_engine_def attach_thread_def Let_def)
  then show "pool_owner (xdma_thread_add_work n p) = (pool_owner p)(n \<mapsto> ?i)"
    by (simp add: pool_owner_def fun_eq_iff)
  show "thread_cnt (xdma_thread_add_work n p) = thread_cnt p"
    by (simp add: xdma_thread_add_work_def upd_thread_def upd_engine_def Let_def)
  have th: "cs_threads (xdma_thread_add_work n p) ! j =
      (if j = ?i then (cs_threads p ! ?i)\<lparr>kt_work_list := kt_work_list (cs_threads p ! ?i) @ [n],
         kt_work_cnt := Suc (kt_work_cnt (cs_threads p ! ?i))\<rparr> else cs_threads p ! j)" for j
    using i(2) by (simp add: xdma_thread_add_work_def upd_thread_def upd_engine_def Let_def)
  have "n \<notin> set (kt_work_list (cs_threads p ! ?i))"
    using ok free i(1) by (simp add: pool_ok_def pool_owner_def)
  then show "pool_ok (xdma_thread_add_work n p)"
    using ok i free unfolding pool_ok_def eng th
    by (auto simp: pool_owner_def xdma_thread_add_work_def upd_thread_def upd_engine_def Let_def)
qed

lemma remove_work_law:
  assumes ok: "pool_ok p"
  shows "pool_ok (xdma_thread_remove_work n p)" and "thread_cnt (xdma_thread_remove_work n p) = thread_cnt p"
    and "pool_owner (xdma_thread_remove_work n p) = (pool_owner p)(n := None)"
proof -
  have eng: "e_cmplthp (tp_engines (xdma_thread_remove_work n p) m) =
      (if m = n then None else e_cmplthp (tp_engines p m))" for m
    by (simp add: xdma_thread_remove_work_def upd_thread_def upd_engine_def Let_def split: option.split)
  then show "pool_owner (xdma_thread_remove_work n p) = (pool_owner p)(n := None)"
    by (simp add: pool_owner_def fun_eq_iff)
  show cnt: "thread_cnt (xdma_thread_remove_work n p) = thread_cnt p"
    by (simp add: xdma_thread_remove_work_def upd_thread_def upd_engine_def Let_def split: option.split)
  show "pool_ok (xdma_thread_remove_work n p)"
  proof (cases "pool_owner p n")
    case None
    then have "cs_threads (xdma_thread_remove_work n p) = cs_threads p"
      by (simp add: xdma_thread_remove_work_def upd_engine_def pool_owner_def Let_def)
    then show ?thesis using ok None unfolding pool_ok_def cnt eng by (auto simp: pool_owner_def)
  next
    case (Some i)
    then have "i < thread_cnt p" using ok by (auto simp: pool_ok_def pool_owner_def)
    with ok have i: "i < thread_cnt p" "i < length (cs_threads p)" by (simp_all add: pool_ok_def)
    have th: "cs_threads (xdma_thread_remove_work n p) ! j =
        (if j = i then (cs_threads p ! i)\<lparr>kt_work_list := remove1 n (kt_work_list (cs_threads p ! i)),
           kt_work_cnt := kt_work_cnt (cs_threads p ! i) - 1\<rparr> else cs_threads p ! j)"
      "length (cs_threads (xdma_thread_remove_work n p)) = length (cs_threads p)" for j
      using i(2) Some by (simp_all add: xdma_thread_remove_work_def upd_thread_def upd_engine_def pool_owner_def Let_def)
    have "n \<in> set (kt_work_list (cs_threads p ! i))" using ok Some i(1) by (simp add: pool_ok_def pool_owner_def)
    then show ?thesis
      using ok Some unfolding pool_ok_def cnt eng th by (auto simp: pool_owner_def length_remove1)
  qed
qed

interpretation cmpl_pool: work_pool xdma_thread_add_work xdma_thread_remove_work pool_owner thread_cnt pool_ok
proof
  fix s e
  assume "pool_ok s" "0 < thread_cnt s" "pool_owner s e = None"
  then show "pool_ok (xdma_thread_add_work e s) \<and> thread_cnt (xdma_thread_add_work e s) = thread_cnt s \<and>
      (\<exists>i < thread_cnt s. pool_owner (xdma_thread_add_work e s) = (pool_owner s)(e \<mapsto> i) \<and>
         ((\<exists>j < thread_cnt s. j \<notin> ran (pool_owner s)) \<longrightarrow> i \<notin> ran (pool_owner s)))"
    using add_work_law [of s e] thread_for_idle [of s] by blast
next
  fix s e
  assume "pool_ok s"
  then show "pool_ok (xdma_thread_remove_work e s) \<and> thread_cnt (xdma_thread_remove_work e s) = thread_cnt s \<and>
      pool_owner (xdma_thread_remove_work e s) = (pool_owner s)(e := None)"
    using remove_work_law [of s e] by blast
qed

section \<open>Creating and destroying the pool\<close>

text \<open>A pool that has not been created, and one whose threads run and have no engines.\<close>

definition pool_none :: "thread_pool \<Rightarrow> bool" where
  "pool_none p \<longleftrightarrow> cs_threads p = [] \<and> thread_cnt p = 0 \<and> pool_owner p = Map.empty"

definition running_thread :: "xdma_kthread \<Rightarrow> bool" where
  "running_thread t \<longleftrightarrow> kt_task t \<and> kt_handlers t \<and> kt_work_cnt t = 0 \<and> kt_work_list t = []"

lemma start_threads_run:
  assumes "start_threads spawn num cpus p = (0, p')" and "thread_cnt p \<le> num"
    and "length (cs_threads p) = num" and "length cpus \<ge> num - thread_cnt p" and "thread_cnt p < num"
    and "\<forall>j < thread_cnt p. running_thread (cs_threads p ! j)"
    and "\<forall>j. thread_cnt p \<le> j \<and> j < num \<longrightarrow> cs_threads p ! j = zero_kthread"
  shows "thread_cnt p' = num \<and> length (cs_threads p') = num \<and> tp_engines p' = tp_engines p \<and>
    (\<forall>j < num. running_thread (cs_threads p' ! j)) \<and> tp_tasks p' = tp_tasks p @ [thread_cnt p..<num]"
  using assms
proof (induction spawn num cpus p rule: start_threads.induct)
  case (1 spawn num p)
  then show ?case by simp
next
  case (2 spawn num cpu cpus p)
  let ?i = "thread_cnt p"
  let ?t = "(cs_threads p ! ?i)\<lparr>kt_cpu := cpu, kt_timeout := 0, kt_handlers := True\<rparr>"
  let ?k = "xdma_kthread_start (spawn ?i) ''cmpl_status_th'' ?i ?t"
  let ?p = "(upd_thread ?i (\<lambda>_. snd ?k) p)\<lparr>thread_cnt := Suc ?i, tp_tasks := tp_tasks p @ [?i]\<rparr>"
  have z: "cs_threads p ! ?i = zero_kthread" using "2.prems" by simp
  have ok: "\<not> fst ?k < 0"
  proof
    assume "fst ?k < 0"
    then show False using "2.prems"(1) by (auto simp: Let_def split_beta)
  qed
  then have r: "fst ?k = 0" "running_thread (snd ?k)"
    by (auto simp: xdma_kthread_start_def z zero_kthread_def running_thread_def Let_def split: if_splits)
  have run: "start_threads spawn num (cpu # cpus) p =
      (if thread_cnt ?p = num then (0, ?p) else start_threads spawn num cpus ?p)"
    using ok by (simp add: Let_def split_beta upd_thread_def)
  have th: "cs_threads ?p ! j = (if j = ?i then snd ?k else cs_threads p ! j)" for j
    using "2.prems" by (simp add: upd_thread_def)
  have live: "\<forall>j < Suc ?i. running_thread (cs_threads ?p ! j)"
    using "2.prems"(6) r(2) unfolding th by (auto simp: less_Suc_eq)
  show ?case
  proof (cases "Suc ?i = num")
    case True
    then have "p' = ?p" using "2.prems"(1) run by simp
    then show ?thesis using True live "2.prems"(3) by (auto simp: upd_thread_def)
  next
    case False
    have rest: "start_threads spawn num cpus ?p = (0, p')" using "2.prems"(1) run False by simp
    have lt: "thread_cnt ?p \<le> num" "thread_cnt ?p < num" using "2.prems"(5) False by simp_all
    have len: "length (cs_threads ?p) = num" using "2.prems"(3) by (simp add: upd_thread_def)
    have left: "\<forall>j. thread_cnt ?p \<le> j \<and> j < num \<longrightarrow> cs_threads ?p ! j = zero_kthread"
      using "2.prems"(7) unfolding th by auto
    have IH: "thread_cnt p' = num \<and> length (cs_threads p') = num \<and> tp_engines p' = tp_engines ?p \<and>
        (\<forall>j < num. running_thread (cs_threads p' ! j)) \<and> tp_tasks p' = tp_tasks ?p @ [thread_cnt ?p..<num]"
      by (rule "2.IH" [of ?i _ "fst ?k" "snd ?k" "upd_thread ?i (\<lambda>_. snd ?k) p" ?p])
         (use ok rest lt len left live False "2.prems"(4) in \<open>simp_all add: upd_thread_def\<close>)
    have "tp_tasks p @ ?i # [Suc ?i..<num] = tp_tasks p @ [?i..<num]"
      using lt(2) by (simp add: upt_conv_Cons)
    with IH show ?thesis by (simp add: upd_thread_def)
  qed
qed

lemma create_runs:
  assumes "pool_none p" and "0 < num" and "num \<le> length cpus"
    and "xdma_threads_create oom spawn num cpus p = (0, p')"
  shows "thread_cnt p' = num" and "pool_ok p'" and "pool_owner p' = Map.empty"
    and "tp_tasks p' = tp_tasks p @ [0..<num]" and "\<forall>j < num. running_thread (cs_threads p' ! j)"
proof -
  let ?p = "p\<lparr>cs_threads := replicate num zero_kthread\<rparr>"
  have "start_threads spawn num cpus ?p = (0, p')"
    using assms(1,4) by (simp add: xdma_threads_create_def pool_none_def split: if_splits)
  from start_threads_run [OF this] assms(1-3)
  have r: "thread_cnt p' = num" "length (cs_threads p') = num" "tp_engines p' = tp_engines p"
    "\<forall>j < num. running_thread (cs_threads p' ! j)" "tp_tasks p' = tp_tasks p @ [0..<num]"
    by (simp_all add: pool_none_def)
  show "thread_cnt p' = num" "tp_tasks p' = tp_tasks p @ [0..<num]"
    "\<forall>j < num. running_thread (cs_threads p' ! j)" using r by blast+
  show o: "pool_owner p' = Map.empty" using assms(1) r(3) by (simp add: pool_none_def pool_owner_def fun_eq_iff)
  then have "e_cmplthp (tp_engines p' n) = None" for n by (simp add: pool_owner_def fun_eq_iff)
  then show "pool_ok p'" using r by (simp add: pool_ok_def running_thread_def)
qed

lemma stop_threads_all:
  assumes "\<forall>j. 0 \<le> rvs j" and "i + n \<le> length (cs_threads p)"
    and "\<forall>j. i \<le> j \<and> j < i + n \<longrightarrow> kt_task (cs_threads p ! j) \<and> kt_handlers (cs_threads p ! j)"
  shows "tp_tasks (stop_threads rvs n i p) = fold remove1 [i..<i + n] (tp_tasks p) \<and>
    tp_engines (stop_threads rvs n i p) = tp_engines p"
  using assms(2,3)
proof (induction n arbitrary: i p)
  case 0
  then show ?case by simp
next
  case (Suc n)
  let ?t = "snd (xdma_kthread_stop (rvs i) (cs_threads p ! i))"
  let ?p = "(upd_thread i (\<lambda>_. ?t) p)\<lparr>tp_tasks := remove1 i (tp_tasks p)\<rparr>"
  have t: "kt_task (cs_threads p ! i)" "kt_handlers (cs_threads p ! i)" using Suc.prems(2) by auto
  then have "\<not> kt_task ?t" using assms(1) by (simp add: xdma_kthread_stop_def Let_def not_less)
  then have run: "stop_threads rvs (Suc n) i p = stop_threads rvs n (Suc i) ?p"
    using t by (simp add: Let_def split_beta upd_thread_def)
  have "tp_tasks (stop_threads rvs n (Suc i) ?p) = fold remove1 [Suc i..<Suc i + n] (tp_tasks ?p) \<and>
      tp_engines (stop_threads rvs n (Suc i) ?p) = tp_engines ?p"
    by (rule Suc.IH) (use Suc.prems in \<open>auto simp: upd_thread_def\<close>)
  moreover have "[i..<i + Suc n] = i # [Suc i..<Suc i + n]" by (simp add: upt_conv_Cons)
  ultimately show ?case unfolding run by (simp add: upd_thread_def)
qed

lemma fold_remove1_self: "fold remove1 xs xs = []"
  by (induction xs) simp_all

text \<open>A creation that fails with thread \<open>k\<close>.\<close>

lemma start_threads_fail:
  assumes "\<not> spawn k" and "\<forall>j < k. spawn j" and "k < num" and "thread_cnt p \<le> k"
    and "k - thread_cnt p < length cpus" and "length (cs_threads p) = num"
    and "\<forall>j. thread_cnt p \<le> j \<and> j < num \<longrightarrow> cs_threads p ! j = zero_kthread"
  shows "\<exists>p'. start_threads spawn num cpus p = (- EFAULT, p') \<and> cs_threads p' = [] \<and> thread_cnt p' = 0 \<and>
    tp_tasks p' = tp_tasks p @ [thread_cnt p..<k]"
  using assms
proof (induction spawn num cpus p rule: start_threads.induct)
  case (1 spawn num p)
  then show ?case by simp
next
  case (2 spawn num cpu cpus p)
  let ?i = "thread_cnt p"
  let ?t = "(cs_threads p ! ?i)\<lparr>kt_cpu := cpu, kt_timeout := 0, kt_handlers := True\<rparr>"
  let ?k = "xdma_kthread_start (spawn ?i) ''cmpl_status_th'' ?i ?t"
  let ?p = "(upd_thread ?i (\<lambda>_. snd ?k) p)\<lparr>thread_cnt := Suc ?i, tp_tasks := tp_tasks p @ [?i]\<rparr>"
  have z: "cs_threads p ! ?i = zero_kthread" using "2.prems" by simp
  have rv: "fst ?k = (if spawn ?i then 0 else - EFAULT)"
    by (simp add: xdma_kthread_start_def z zero_kthread_def Let_def)
  show ?case
  proof (cases "?i = k")
    case True
    then have "start_threads spawn num (cpu # cpus) p =
        (- EFAULT, (upd_thread ?i (\<lambda>_. snd ?k) p)\<lparr>cs_threads := [], thread_cnt := 0\<rparr>)"
      using rv "2.prems"(1) by (simp add: Let_def split_beta)
    then show ?thesis using True by (simp add: upd_thread_def)
  next
    case False
    then have lt: "?i < k" "spawn ?i" using "2.prems" by auto
    have run: "start_threads spawn num (cpu # cpus) p = start_threads spawn num cpus ?p"
      using rv lt "2.prems"(3) by (simp add: Let_def split_beta upd_thread_def)
    have th: "cs_threads ?p ! j = (if j = ?i then snd ?k else cs_threads p ! j)" for j
      using "2.prems" by (simp add: upd_thread_def)
    have left: "\<forall>j. thread_cnt ?p \<le> j \<and> j < num \<longrightarrow> cs_threads ?p ! j = zero_kthread"
      using "2.prems"(7) unfolding th by auto
    have IH: "\<exists>p'. start_threads spawn num cpus ?p = (- EFAULT, p') \<and> cs_threads p' = [] \<and> thread_cnt p' = 0 \<and>
        tp_tasks p' = tp_tasks ?p @ [thread_cnt ?p..<k]"
      by (rule "2.IH" [of ?i _ "fst ?k" "snd ?k" "upd_thread ?i (\<lambda>_. snd ?k) p" ?p])
         (use rv lt left "2.prems" in \<open>simp_all add: upd_thread_def prod_eq_iff\<close>)
    have "tp_tasks p @ ?i # [Suc ?i..<k] = tp_tasks p @ [?i..<k]"
      using lt(1) by (simp add: upt_conv_Cons)
    with IH show ?thesis unfolding run by simp
  qed
qed

section \<open>A round of a thread\<close>

lemma proc_returns:
  assumes "late d"
  shows "\<exists>st'. xdma_thread_cmpl_status_proc E wb late junk st = Some st'"
proof -
  have "\<exists>v. engine_service_wb_monitor wb late e = Some v" for e
    using wb_monitor_loop_ends [of late d 0 wb e] assms by (auto simp: engine_service_wb_monitor_def)
  then obtain v where "engine_service_wb_monitor wb late (cmpl_threshold junk st) = Some v" by blast
  then show ?thesis by (simp add: xdma_thread_cmpl_status_proc_def engine_service_poll_def)
qed

lemma process_each:
  assumes "\<forall>n \<in> set ns. \<exists>d. po_late P n d" and "distinct ns"
  shows "\<exists>es'. xthread_process E P ns es = Some es' \<and>
    (\<forall>n. if n \<in> set ns
       then xdma_thread_cmpl_status_proc E (po_wb P n) (po_late P n) (po_junk P n) (es n) = Some (es' n)
       else es' n = es n)"
  using assms
proof (induction ns arbitrary: es)
  case Nil
  then show ?case by simp
next
  case (Cons n ns)
  then obtain d where "po_late P n d" by auto
  from proc_returns [where late = "po_late P n", OF this] obtain st where
    st: "xdma_thread_cmpl_status_proc E (po_wb P n) (po_late P n) (po_junk P n) (es n) = Some st" by blast
  from Cons obtain es' where es': "xthread_process E P ns (es(n := st)) = Some es'"
    "\<forall>m. if m \<in> set ns
       then xdma_thread_cmpl_status_proc E (po_wb P m) (po_late P m) (po_junk P m) ((es(n := st)) m) = Some (es' m)
       else es' m = (es(n := st)) m"
    by (metis distinct.simps(2) list.set_intros(2))
  have "if m \<in> set (n # ns)
       then xdma_thread_cmpl_status_proc E (po_wb P m) (po_late P m) (po_junk P m) (es m) = Some (es' m)
       else es' m = es m" for m
    using es'(2) [rule_format, of m] st Cons.prems(2) by (cases "m = n") auto
  with st es'(1) show ?case by auto
qed

section \<open>Properties\<close>

text \<open>
  C23 (invariant). After the pool was created with \<open>num\<close> threads, attaching up to \<open>num\<close> engines
  gives each a thread of its own, and every thread's list and count agree with the engines'
  pointers.
\<close>
theorem threads_private:
  assumes "pool_none p" and "0 < num" and "num \<le> length cpus"
    and "xdma_threads_create oom spawn num cpus p = (0, p')"
    and "distinct ns" and "length ns \<le> num"
  shows "pool_ok (fold xdma_thread_add_work ns p') \<and>
    dom (pool_owner (fold xdma_thread_add_work ns p')) = set ns \<and>
    inj_on (pool_owner (fold xdma_thread_add_work ns p')) (set ns)"
proof -
  note c = create_runs [OF assms(1-4)]
  have "length ns \<le> thread_cnt p'" using c(1) assms(6) by simp
  from cmpl_pool.attach_all_private [OF c(2,3) assms(5) this] show ?thesis by blast
qed

definition pool_sample :: thread_pool where
  "pool_sample = \<lparr>cs_threads = [], thread_cnt = 0, tp_tasks = [], tp_engines = \<lambda>_. zero_engine\<rparr>"

lemma pool_sample_none: "pool_none pool_sample"
  by (simp add: pool_none_def pool_sample_def pool_owner_def zero_engine_def fun_eq_iff)

lemma pool_sample_create:
  obtains p' where "xdma_threads_create False (\<lambda>_. True) 2 [0, 1] pool_sample = (0, p')"
  by (simp add: xdma_threads_create_def pool_sample_def numeral_2_eq_2 xdma_kthread_start_def zero_kthread_def
      upd_thread_def Let_def)

lemma threads_private_witness:
  "\<exists>p'. xdma_threads_create False (\<lambda>_. True) 2 [0, 1] pool_sample = (0, p') \<and>
     inj_on (pool_owner (fold xdma_thread_add_work [5, 6] p')) {5, 6}"
proof -
  obtain p' where p': "xdma_threads_create False (\<lambda>_. True) 2 [0, 1] pool_sample = (0, p')"
    by (rule pool_sample_create)
  with threads_private [OF pool_sample_none _ _ p', of "[5, 6]"] show ?thesis by simp
qed

text \<open>
  Creating the pool and destroying it again leaves no thread of it running and no
  pool, so that it can be created again.
\<close>
theorem threads_create_destroy:
  assumes "pool_none p" and "0 < num" and "num \<le> length cpus" and "tp_tasks p = []"
    and "xdma_threads_create oom spawn num cpus p = (0, p')" and "\<forall>j. 0 \<le> rvs j"
  shows "tp_tasks (xdma_threads_destroy rvs p') = [] \<and> pool_none (xdma_threads_destroy rvs p')"
proof -
  note c = create_runs [OF assms(1-3,5)]
  have "\<forall>j. 0 \<le> j \<and> j < 0 + num \<longrightarrow> kt_task (cs_threads p' ! j) \<and> kt_handlers (cs_threads p' ! j)"
    using c(5) by (simp add: running_thread_def)
  then have s: "tp_tasks (stop_threads rvs num 0 p') = fold remove1 [0..<0 + num] (tp_tasks p')"
    "tp_engines (stop_threads rvs num 0 p') = tp_engines p'"
    using stop_threads_all [OF assms(6), of 0 num p'] c(1,2) by (simp_all add: pool_ok_def)
  have "tp_tasks (stop_threads rvs num 0 p') = []"
    using s(1) c(4) assms(4) fold_remove1_self [of "[0..<num]"] by simp
  then show ?thesis
    using s(2) c(1,3) assms(2) by (simp add: xdma_threads_destroy_def pool_none_def pool_owner_def fun_eq_iff)
qed

lemma threads_create_destroy_witness:
  "\<exists>p'. xdma_threads_create False (\<lambda>_. True) 2 [0, 1] pool_sample = (0, p') \<and>
     tp_tasks (xdma_threads_destroy (\<lambda>_. 0) p') = []"
proof -
  obtain p' where p': "xdma_threads_create False (\<lambda>_. True) 2 [0, 1] pool_sample = (0, p')"
    by (rule pool_sample_create)
  with threads_create_destroy [OF pool_sample_none _ _ _ p', of "\<lambda>_. 0"] show ?thesis
    by (simp add: pool_sample_def)
qed

text \<open>
  When a thread of the pool cannot be created the ones created before it are not
  stopped: they keep running on memory that has been freed, and no later call will stop them.
\<close>
theorem threads_create_failure_leaks:
  assumes "pool_none p" and "k < num" and "k < length cpus" and "\<not> spawn k" and "\<forall>j < k. spawn j"
  shows "\<exists>p'. xdma_threads_create False spawn num cpus p = (- EFAULT, p') \<and> cs_threads p' = [] \<and>
    tp_tasks p' = tp_tasks p @ [0..<k] \<and> xdma_threads_destroy rvs p' = p'"
  using start_threads_fail [OF assms(4,5,2), of "p\<lparr>cs_threads := replicate num zero_kthread\<rparr>" cpus] assms(1,3)
  by (auto simp: xdma_threads_create_def pool_none_def xdma_threads_destroy_def)

lemma threads_create_failure_leaks_witness:
  "\<exists>p'. xdma_threads_create False (\<lambda>i. i < 1) 2 [0, 1] pool_sample = (- 14, p') \<and> tp_tasks p' = [0]"
  using threads_create_failure_leaks [OF pool_sample_none, of 1 2 "[0, 1]" "\<lambda>i. i < 1" "\<lambda>_. 0"]
  by (auto simp: pool_sample_def)


definition sample_thread :: xdma_kthread where
  "sample_thread = zero_kthread\<lparr>kt_work_list := [2], kt_work_cnt := 1\<rparr>"

definition sample_polling :: polling where
  "sample_polling = \<lparr>po_wb = \<lambda>_ _. 0, po_late = \<lambda>_ k. 5 < k, po_junk = \<lambda>_. 7\<rparr>"


end
