(* ===== verification/Xdma_View.thy ===== *)
theory Xdma_View
  imports Xdma_Device Xdma_Irq_Spec
begin

text \<open>
  Views of a device that the driver's plumbing leaves alone: an interface for the parts of
  \<^verbatim>\<open>struct xdma_dev\<close> that registers, interrupt lines, BARs, engines and flags do not reach. What
  every operation keeps of such a view is proved once, inside the locales.
\<close>

section \<open>The interface\<close>

lemma map_update_same: "f y = f (xs ! i) \<Longrightarrow> map f (xs[i := y]) = map f xs"
proof (cases "i < length xs")
  case True
  assume "f y = f (xs ! i)"
  with True have "(map f xs)[i := f y] = (map f xs)[i := map f xs ! i]" by simp
  then show ?thesis by (simp only: map_update list_update_id)
qed (simp add: list_update_beyond)

locale device_view =
  fixes view :: "xdma_dev \<Rightarrow> 'v"
  assumes view_io [simp]: "view (d\<lparr>xd_io := l\<rparr>) = view d"
    and view_irqs [simp]: "view (d\<lparr>xd_irqs := r\<rparr>) = view d"
    and view_irq_line [simp]: "view (d\<lparr>xd_irq_line := n\<rparr>) = view d"
    and view_irq_count [simp]: "view (d\<lparr>xd_irq_count := k\<rparr>) = view d"
    and view_works [simp]: "view (d\<lparr>xd_works := w\<rparr>) = view d"
    and view_calls [simp]: "view (d\<lparr>xd_calls := c\<rparr>) = view d"
    and view_wakes [simp]: "view (d\<lparr>xd_event_wakes := u\<rparr>) = view d"
    and view_flags [simp]: "view (d\<lparr>xd_flags := f\<rparr>) = view d"
    and view_msix [simp]: "view (d\<lparr>xd_msix_enabled := b\<rparr>) = view d"
    and view_msi [simp]: "view (d\<lparr>xd_msi_enabled := b\<rparr>) = view d"
    and view_bars: "length bs = length (xd_bar d) \<Longrightarrow> view (d\<lparr>xd_bar := bs\<rparr>) = view d"
    and view_bar_idx [simp]: "view (d\<lparr>xd_config_bar_idx := i\<rparr>) = view d"
      "view (d\<lparr>xd_user_bar_idx := i\<rparr>) = view d" "view (d\<lparr>xd_bypass_bar_idx := i\<rparr>) = view d"
    and view_h2c: "length es = length (xd_engine_h2c d) \<Longrightarrow> view (d\<lparr>xd_engine_h2c := es\<rparr>) = view d"
    and view_c2h: "length es = length (xd_engine_c2h d) \<Longrightarrow> view (d\<lparr>xd_engine_c2h := es\<rparr>) = view d"
    and view_masks [simp]: "view (d\<lparr>xd_engines_num := n'\<rparr>) = view d"
      "view (d\<lparr>xd_mask_irq_h2c := m\<rparr>) = view d" "view (d\<lparr>xd_mask_irq_c2h := m\<rparr>) = view d"
      "view (d\<lparr>xd_mask_irq_user := m\<rparr>) = view d"
    and view_users: "map ui_user_idx us = map ui_user_idx (xd_user_irq d) \<Longrightarrow> view (d\<lparr>xd_user_irq := us\<rparr>) = view d"
begin

lemma put_est_view [simp]: "view (put_est h2c i st d) = view d"
  by (simp add: put_est_def Let_def view_h2c view_c2h)

lemma put_counts_view [simp]: "view (put_counts c d) = view d"
  by (simp add: put_counts_def)

section \<open>BARs and interrupts\<close>

lemma unmap_view [simp]: "view (unmap_bars d) = view d"
  by (simp add: unmap_bars_def view_bars)

lemma disable_msi_view [simp]: "view (disable_msi_msix d) = view d"
  by (simp add: disable_msi_msix_def)

lemma enable_msi_view [simp]: "view (snd (enable_msi_msix E p d)) = view d"
  by (simp add: enable_msi_msix_def)

lemma interrupts_off_view [simp]: "view (interrupts_off E d) = view d"
  by (simp add: interrupts_off_def)

lemma map_single_view [simp]: "view (snd (map_single_bar len maps i d)) = view d"
proof -
  have "view (d\<lparr>xd_bar := (xd_bar d)[i := b]\<rparr>) = view d" for b by (simp add: view_bars)
  then show ?thesis by (simp add: map_single_bar_def Let_def)
qed

lemma is_config_view [simp]: "view (snd (is_config_bar E i d)) = view d"
  by (simp add: is_config_bar_def split_beta Let_def)

lemma scan_view: "view (snd (snd (snd (scan_bars E len maps n i ids pos d)))) = view d"
  by (induction n arbitrary: i ids pos d) (simp_all add: Let_def split_beta)

lemma map_bars_view [simp]: "view (snd (map_bars E len maps d)) = view d"
proof -
  have "view (snd (identify_bars ids pos d)) = view d" for ids pos d
    by (simp add: identify_bars_def Let_def)
  then show ?thesis
    using scan_view [of E len maps 6 0 "[]" 0 d] by (simp add: map_bars_def split_beta Let_def)
qed

lemma request_view [simp]: "view (snd (request_irq grant v ow d)) = view d"
  by (simp add: request_irq_def)

lemma free_irq_view [simp]: "view (free_irq v ow d) = view d"
  by (simp add: free_irq_def)

lemma set_line_view [simp]: "view (set_irq_line h2c i v d) = view d"
  by (simp add: set_irq_line_def view_h2c view_c2h)

lemma setup_channels_view [simp]: "view (snd (setup_channels grant vec h2c n i j d)) = view d"
  by (induction n arbitrary: i j d) (simp_all add: Let_def split_beta)

lemma setup_users_view [simp]: "view (snd (snd (setup_users grant vec base n i d))) = view d"
  by (induction n arbitrary: i d) (simp_all add: Let_def split_beta)

lemma free_users_view [simp]: "view (free_users_down vec base i d) = view d"
  by (induction i arbitrary: d) simp_all

lemma prog_view [simp]:
  "view (prog_irq_msix_user b d) = view d" "view (prog_irq_msix_channel b d) = view d"
  by (simp_all add: prog_irq_msix_user_def prog_irq_msix_channel_def Let_def)

lemma irq_setup_view [simp]: "view (snd (irq_setup grant vec line pin d)) = view d"
  by (simp add: irq_setup_def irq_msix_channel_setup_def irq_msix_user_setup_def irq_msi_setup_def
      irq_legacy_setup_def split_beta Let_def)

lemma teardown_channels_view [simp]: "view (teardown_channels h2c n i d) = view d"
  by (induction n arbitrary: i d) (simp_all add: Let_def)

lemma irq_teardown_view [simp]: "view (irq_teardown vec d) = view d"
proof -
  have "view (fold (\<lambda>i. free_irq (vec (base + i)) (Owner_user i)) ns d) = view d" for base ns d
    by (induction ns arbitrary: d) simp_all
  then show ?thesis
    by (simp add: irq_teardown_def irq_msix_user_teardown_def irq_msix_channel_teardown_def Let_def)
qed

section \<open>Handlers\<close>

lemma user_service_view [simp]: "view (snd (user_irq_service ret u d)) = view d"
proof -
  have "map ui_user_idx ((xd_user_irq d)[u := (xd_user_irq d ! u)\<lparr>ui_events_irq := True\<rparr>]) = map ui_user_idx (xd_user_irq d)"
    by (rule map_update_same) simp
  then show ?thesis by (simp add: user_irq_service_def Let_def view_users split: option.split)
qed

lemma isr_view [simp]: "view (snd (xdma_isr E ret d)) = view d"
proof -
  have "view (isr_users ret n u msk w d) = view d" for n u msk w d
    by (induction n arbitrary: u msk w d) simp_all
  then show ?thesis by (simp add: xdma_isr_def Let_def split_beta)
qed

lemma channel_irq_view [simp]: "view (snd (xdma_channel_irq E h2c channel d)) = view d"
  by (simp add: xdma_channel_irq_def Let_def split_beta)

lemma isr_register_view [simp]: "view (snd (xdma_user_isr_register chk msk handler dev d)) = view d"
proof -
  have set_handler: "view (d\<lparr>xd_user_irq := (xd_user_irq d)[i := (xd_user_irq d ! i)\<lparr>ui_handler := handler, ui_dev := dev\<rparr>]\<rparr>) = view d"
    for i d
    by (rule view_users, rule map_update_same) simp
  have "view (register_users n i msk handler dev d) = view d" for n i msk d
    by (induction n arbitrary: i msk d) (simp_all add: set_handler)
  then show ?thesis by (simp add: xdma_user_isr_register_def)
qed

lemma isr_enable_view [simp]:
  "view (snd (xdma_user_isr_enable E chk msk d)) = view d" "view (snd (xdma_user_isr_disable E chk msk d)) = view d"
  by (simp_all add: xdma_user_isr_enable_def xdma_user_isr_disable_def Let_def)

section \<open>Engines\<close>

lemma probe_one_view [simp]: "view (snd (snd (probe_for_engine E K h h2c i s))) = view (snd s)"
  by (simp add: probe_for_engine_def split_beta Let_def)

lemma probe_channels_view [simp]: "view (snd (snd (probe_channels E K h h2c n i s))) = view (snd s)"
  by (induction n arbitrary: i s) (simp_all add: Let_def split_beta)

lemma remove_engine_view [simp]: "view (snd (remove_engine E h h2c i s)) = view (snd s)"
  by (simp add: remove_engine_def split_beta Let_def)

lemma fold_remove_view [simp]: "view (snd (fold (remove_engine E h h2c) is s)) = view (snd s)"
  by (induction "is" arbitrary: s) simp_all

lemma remove_engines_view [simp]: "view (snd (remove_engines E h s)) = view (snd s)"
  by (simp add: remove_engines_def Let_def)

lemma stop_restart_view [simp]:
  "view (stop_engine E h2c i d) = view d" "view (restart_engine E h2c i d) = view d"
  by (simp_all add: stop_engine_def restart_engine_def Let_def)

lemma fold_stop_restart_view [simp]:
  "view (fold (stop_engine E h2c) is d) = view d" "view (fold (restart_engine E h2c) is d) = view d"
  by (induction "is" arbitrary: d) simp_all

end

text \<open>A view that does not show the numbers of channels either.\<close>

locale wide_view = device_view view for view :: "xdma_dev \<Rightarrow> 'v" +
  assumes view_max [simp]: "view (d\<lparr>xd_h2c_channel_max := n\<rparr>) = view d" "view (d\<lparr>xd_c2h_channel_max := n\<rparr>) = view d"
begin

lemma probe_engines_view [simp]: "view (snd (snd (probe_engines E K h s))) = view (snd s)"
  by (simp add: probe_engines_def split_beta Let_def)

end

end
