(* ===== verification/Xdma_Device_Spec.thy ===== *)
theory Xdma_Device_Spec
  imports Xdma_Probe_Spec Xdma_Thread_Spec Xdma_View
begin

text \<open>
  What opening and closing a device promise: a failed open takes nothing, an open device is in the
  list, online, and its engines are ready, closing it gives everything back; offline and online are
  each other's undoing.
\<close>

declare split_paired_All [simp del] split_paired_Ex [simp del]

section \<open>What the operations on a device leave alone\<close>

lemma upd_dev_frame [simp]:
  "sy_list (upd_dev h f s) = sy_list s" "sy_pdev (upd_dev h f s) = sy_pdev s"
  "sy_live (upd_dev h f s) = sy_live s" "sy_enabled (upd_dev h f s) = sy_enabled s"
  "sy_regions (upd_dev h f s) = sy_regions s" "sy_pool (upd_dev h f s) = sy_pool s"
  "sy_dev (upd_dev h f s) = (sy_dev s)(h := f (sy_dev s h))"
  by (simp_all add: upd_dev_def)

lemma on_dev_frame [simp]:
  "sy_list (on_dev h f s) = sy_list s" "sy_pdev (on_dev h f s) = sy_pdev s"
  "sy_live (on_dev h f s) = sy_live s" "sy_enabled (on_dev h f s) = sy_enabled s"
  "sy_regions (on_dev h f s) = sy_regions s" "sy_pool (on_dev h f s) = fst (f (sy_pool s, sy_dev s h))"
  "sy_dev (on_dev h f s) = (sy_dev s)(h := snd (f (sy_pool s, sy_dev s h)))"
  by (simp_all add: on_dev_def split_beta)

text \<open>What a device holds of the PCI device, and its number of user interrupts.\<close>

definition claims :: "xdma_dev \<Rightarrow> bool \<times> bool \<times> nat" where
  "claims d = (xd_got_regions d, xd_regions_in_use d, xd_user_max d)"

interpretation held_claims: wide_view claims
  by unfold_locales (simp_all add: claims_def)

section \<open>A failed open\<close>

text \<open>What the library holds of the kernel and of the system, the device objects' insides apart.\<close>

definition holds :: "xdma_sys \<Rightarrow> nat list \<times> nat list \<times> (nat \<Rightarrow> nat) \<times> (nat \<Rightarrow> bool)" where
  "holds s = (sy_list s, sy_live s, sy_enabled s, sy_regions s)"

lemma list_remove_holds:
  "holds (xdev_list_remove E K h s) = (remove1 h (sy_list s), sy_live s, sy_enabled s, sy_regions s)"
  by (simp add: holds_def xdev_list_remove_def Let_def)

lemma err_enable_holds:
  "holds (err_enable E K h s) = (remove1 h (sy_list s), remove1 h (sy_live s), sy_enabled s, sy_regions s)"
  using list_remove_holds [of E K h s] by (simp add: holds_def err_enable_def free_xdev_def)

lemma err_regions_holds:
  "holds (err_regions E K h s) = (remove1 h (sy_list s), remove1 h (sy_live s),
     if fst (snd (claims (sy_dev s h))) then sy_enabled s
     else (sy_enabled s)(sy_pdev s h := sy_enabled s (sy_pdev s h) - 1), sy_regions s)"
  by (simp add: err_regions_def err_enable_holds pci_disable_device_def claims_def)

lemma err_map_holds:
  "holds (err_map E K h s) = (remove1 h (sy_list s), remove1 h (sy_live s),
     if fst (snd (claims (sy_dev s h))) then sy_enabled s
     else (sy_enabled s)(sy_pdev s h := sy_enabled s (sy_pdev s h) - 1),
     if fst (claims (sy_dev s h)) then (sy_regions s)(sy_pdev s h := False) else sy_regions s)"
  by (simp add: err_map_def err_regions_holds claims_def)

lemma err_mask_holds: "holds (err_mask E K h s) = holds (err_map E K h s)"
  by (simp add: err_mask_def err_map_holds)

lemma err_engines_holds: "holds (err_engines E K h s) = holds (err_map E K h s)"
  by (simp add: err_engines_def err_mask_holds) (simp add: err_map_holds)

lemma err_msix_holds: "holds (err_msix E K h s) = holds (err_map E K h s)"
  by (simp add: err_msix_def err_engines_holds) (simp add: err_map_holds)

text \<open>What \<open>err_map\<close> leaves depends only on these.\<close>

definition same_claims :: "nat \<Rightarrow> xdma_sys \<Rightarrow> xdma_sys \<Rightarrow> bool" where
  "same_claims h s s' \<longleftrightarrow> holds s' = holds s \<and> sy_pdev s' = sy_pdev s \<and>
     claims (sy_dev s' h) = claims (sy_dev s h)"

lemma same_claims_err_map: "same_claims h s s' \<Longrightarrow> holds (err_map E K h s') = holds (err_map E K h s)"
  by (simp add: same_claims_def err_map_holds) (simp add: holds_def)

lemma same_claims_refl [simp]: "same_claims h s s"
  by (simp add: same_claims_def)

lemma upd_dev_same_claims:
  "same_claims h s0 s \<Longrightarrow> claims (f (sy_dev s h)) = claims (sy_dev s h) \<Longrightarrow> same_claims h s0 (upd_dev h f s)"
  by (simp add: same_claims_def holds_def)

lemma on_dev_same_claims:
  "same_claims h s0 s \<Longrightarrow> claims (snd (f (sy_pool s, sy_dev s h))) = claims (sy_dev s h) \<Longrightarrow>
     same_claims h s0 (on_dev h f s)"
  by (simp add: same_claims_def holds_def)

text \<open>The stages of \<open>open_engines\<close>.\<close>

definition opened_probe :: "('x) xenv_scheme \<Rightarrow> open_env \<Rightarrow> nat \<Rightarrow> xdma_sys \<Rightarrow> xdma_sys" where
  "opened_probe E K h s =
     on_dev h (\<lambda>p. snd (probe_engines E K h p)) (upd_dev h (\<lambda>d. interrupts_off E
       (d\<lparr>xd_io := check_nonzero_interrupt_status E (cfg_of d) (xd_io d)\<rparr>)) s)"

definition opened_msi :: "('x) xenv_scheme \<Rightarrow> open_env \<Rightarrow> nat \<Rightarrow> xdma_sys \<Rightarrow> xdma_sys" where
  "opened_msi E K h s = upd_dev h (\<lambda>_. snd (enable_msi_msix E (oe_msi K) (sy_dev s h))) s"

definition opened_irq :: "open_env \<Rightarrow> nat \<Rightarrow> xdma_sys \<Rightarrow> xdma_sys" where
  "opened_irq K h s =
     upd_dev h (\<lambda>_. snd (irq_setup (oe_grant K) (oe_vec K) (oe_line K) (oe_pin K) (sy_dev s h))) s"

definition opened_final :: "('x) xenv_scheme \<Rightarrow> nat \<Rightarrow> xdma_sys \<Rightarrow> xdma_sys" where
  "opened_final E h = upd_dev h (\<lambda>d.
     let log = (if poll_mode E then xd_io d else channel_interrupts_enable (cfg_of d) 0xffffffff (xd_io d))
     in d\<lparr>xd_io := snd (read_interrupts E (cfg_of d) log),
          xd_flags := xdma_device_flag_clear (xd_flags d) XDEV_FLAG_OFFLINE\<rparr>)"

lemma open_engines_stages:
  fixes E :: "('x) xenv_scheme" and K h s
  defines "s1 \<equiv> opened_probe E K h s"
  shows "open_engines E K h s =
    (if fst (enable_msi_msix E (oe_msi K) (sy_dev s1 h)) < 0 then (None, err_engines E K h (opened_msi E K h s1))
     else let s2 = opened_msi E K h s1 in
       if fst (irq_setup (oe_grant K) (oe_vec K) (oe_line K) (oe_pin K) (sy_dev s2 h)) < 0
       then (None, err_msix E K h (opened_irq K h s2))
       else (Some h, opened_final E h (opened_irq K h s2)))"
  unfolding open_engines_def Let_def split_beta opened_probe_def s1_def opened_msi_def opened_irq_def
    opened_final_def by simp

lemma stages_same_claims:
  "same_claims h s0 s \<Longrightarrow> same_claims h s0 (opened_probe E K h s)"
  "same_claims h s0 s \<Longrightarrow> same_claims h s0 (opened_msi E K h s)"
  "same_claims h s0 s \<Longrightarrow> same_claims h s0 (opened_irq K h s)"
  "same_claims h s0 s \<Longrightarrow> same_claims h s0 (opened_final E h s)"
proof -
  have io: "claims (d\<lparr>xd_io := l\<rparr>) = claims d" "claims (d\<lparr>xd_io := l, xd_flags := f\<rparr>) = claims d" for d l f
    by (simp_all add: claims_def)
  show "same_claims h s0 s \<Longrightarrow> same_claims h s0 (opened_probe E K h s)"
    unfolding opened_probe_def by (rule on_dev_same_claims, rule upd_dev_same_claims) (simp_all add: io)
  show "same_claims h s0 s \<Longrightarrow> same_claims h s0 (opened_msi E K h s)"
    unfolding opened_msi_def by (rule upd_dev_same_claims) simp_all
  show "same_claims h s0 s \<Longrightarrow> same_claims h s0 (opened_irq K h s)"
    unfolding opened_irq_def by (rule upd_dev_same_claims) simp_all
  show "same_claims h s0 s \<Longrightarrow> same_claims h s0 (opened_final E h s)"
    unfolding opened_final_def by (rule upd_dev_same_claims) (simp_all add: io Let_def)
qed

lemma open_engines_fails:
  assumes "fst (open_engines E K h s) = None"
  shows "holds (snd (open_engines E K h s)) = holds (err_map E K h s)"
proof -
  note st = stages_same_claims [of h s]
  have "same_claims h s (opened_msi E K h (opened_probe E K h s))"
    "same_claims h s (opened_irq K h (opened_msi E K h (opened_probe E K h s)))"
    by (auto intro!: st)
  with assms show ?thesis
    by (auto simp: open_engines_stages Let_def err_engines_holds err_msix_holds same_claims_err_map split: if_splits)
qed

text \<open>The start of an open: the device in the list, its regions requested.\<close>

lemma list_add_holds:
  assumes "xdev_list_add E K h s = (rv, s')"
  shows "if rv < 0 then holds s' = holds s else holds s' = (sy_list s @ [h], sy_live s, sy_enabled s, sy_regions s)"
    and "sy_pdev s' = sy_pdev s" and "claims (sy_dev s' h) = claims (sy_dev s h)"
  using assms by (auto simp: xdev_list_add_def holds_def claims_def Let_def split_beta split: if_splits)

lemma open_fails:
  assumes fail: "xdma_device_open E K h pdev u n m s = (None, s')"
    and h: "h \<notin> set (sy_list s)" "h \<notin> set (sy_live s)" and reg: "\<not> sy_regions s pdev"
  shows "sy_list s' = sy_list s \<and> sy_live s' = sy_live s \<and> sy_regions s' = sy_regions s \<and>
    (sy_enabled s' = sy_enabled s \<or>
      oe_regions K \<noteq> 0 \<and> sy_enabled s' = (sy_enabled s)(pdev := Suc (sy_enabled s pdev)))"
proof (cases "oe_oom K")
  case True
  then show ?thesis using fail by (simp add: xdma_device_open_def alloc_dev_instance_def)
next
  case False
  let ?s0 = "s\<lparr>sy_live := h # sy_live s, sy_dev := (sy_dev s)(h := new_xdev), sy_pdev := (sy_pdev s)(h := pdev)\<rparr>"
  let ?s1 = "upd_dev h (open_limits u n m) ?s0"
  obtain rv s2 where add: "xdev_list_add E K h ?s1 = (rv, s2)" by fastforce
  note l = list_add_holds [OF add]
  let ?um = "if u = 0 \<or> MAX_USER_IRQ < u then MAX_USER_IRQ else u"
  have c0: "claims (sy_dev ?s1 h) = (False, False, ?um)" by (simp add: claims_def open_limits_def new_xdev_def)
  have rm: "remove1 h (sy_list s @ [h]) = sy_list s" using h(1) by (simp add: remove1_append)
  note run = fail [unfolded xdma_device_open_def alloc_dev_instance_def, simplified False if_False, simplified, unfolded add, simplified]
  show ?thesis
  proof (cases "rv < 0")
    case True
    then have "s' = free_xdev h s2" using run by simp
    then show ?thesis using l(1) True by (simp add: free_xdev_def holds_def)
  next
    case rv: False
    then have s2: "sy_list s2 = sy_list s @ [h]" "sy_live s2 = h # sy_live s" "sy_enabled s2 = sy_enabled s"
      "sy_regions s2 = sy_regions s" "sy_pdev s2 h = pdev" "claims (sy_dev s2 h) = (False, False, ?um)"
      using l c0 by (simp_all add: holds_def)
    show ?thesis
    proof (cases "oe_enable K \<noteq> 0")
      case True
      then have "s' = err_enable E K h s2" using run rv by simp
      then show ?thesis using err_enable_holds [of E K h s2] s2 rm by (simp add: holds_def)
    next
      case en: False
      let ?s3 = "s2\<lparr>sy_enabled := (sy_enabled s2)(pdev := Suc (sy_enabled s2 pdev))\<rparr>"
      obtain rv4 s4 where rr: "request_regions (oe_regions K) h ?s3 = (rv4, s4)" by fastforce
      show ?thesis
      proof (cases "oe_regions K \<noteq> 0")
        case True
        then have s4: "rv4 \<noteq> 0" "s4 = upd_dev h (\<lambda>d. d\<lparr>xd_regions_in_use := True\<rparr>) ?s3"
          using rr by (simp_all add: request_regions_def)
        then have "s' = err_regions E K h s4" using run rv en rr by simp
        then show ?thesis
          using err_regions_holds [of E K h s4] s4 s2 rm True by (simp add: holds_def claims_def)
      next
        case False
        then have s4: "rv4 = 0" "s4 = upd_dev h (\<lambda>d. d\<lparr>xd_got_regions := True\<rparr>)
            (?s3\<lparr>sy_regions := (sy_regions ?s3)(pdev := True)\<rparr>)"
          using rr s2(5) by (simp_all add: request_regions_def)
        obtain rv5 d5 where mb: "map_bars E (oe_len K) (oe_maps K) (sy_dev s4 h) = (rv5, d5)" by fastforce
        let ?s5 = "upd_dev h (\<lambda>_. d5) s4"
        have c4: "claims (sy_dev s4 h) = (True, False, ?um)" using s4(2) s2(6) by (simp add: claims_def)
        then have c5: "claims d5 = (True, False, ?um)" using held_claims.map_bars_view [of E "oe_len K" "oe_maps K" "sy_dev s4 h"] mb by simp
        have "holds s' = holds (err_map E K h ?s5)"
        proof (cases "rv5 \<noteq> 0 \<or> set_dma_mask (oe_dma64 K) (oe_dma32 K) \<noteq> 0")
          case True
          then show ?thesis using run rv en rr s4(1) mb by (auto simp: err_mask_holds Let_def split: if_splits)
        next
          case False
          then have "open_engines E K h ?s5 = (None, s')" using run rv en rr s4(1) mb by (simp add: Let_def)
          then show ?thesis using open_engines_fails [of E K h ?s5] by simp
        qed
        then show ?thesis
          using err_map_holds [of E K h ?s5] s4(2) s2 rm c5 reg by (simp add: holds_def fun_upd_idem)
      qed
    qed
  qed
qed

section \<open>A successful open\<close>

text \<open>The engines, the lines and the numbers of channels of a device.\<close>

definition rest :: "xdma_dev \<Rightarrow> xdma_engine list \<times> xdma_engine list \<times> (nat \<times> irq_owner) list \<times> nat \<times> nat \<times> int" where
  "rest d = (xd_engine_h2c d, xd_engine_c2h d, xd_irqs d, xd_h2c_channel_max d, xd_c2h_channel_max d, xd_irq_line d)"

lemma rest_eqD:
  "rest d' = rest d \<Longrightarrow> xd_irqs d' = xd_irqs d \<and> xd_h2c_channel_max d' = xd_h2c_channel_max d \<and>
     xd_c2h_channel_max d' = xd_c2h_channel_max d \<and> engines_of b d' = engines_of b d \<and> xd_irq_line d' = xd_irq_line d"
  by (simp add: rest_def engines_of_def)

lemma rest_simps [simp]:
  "rest (unmap_bars d) = rest d" "rest (disable_msi_msix d) = rest d"
  "rest (snd (enable_msi_msix E p d)) = rest d" "rest (interrupts_off E d) = rest d"
  "rest (d\<lparr>xd_io := l\<rparr>) = rest d" "rest (d\<lparr>xd_flags := f\<rparr>) = rest d"
  "rest (d\<lparr>xd_config_bar_idx := c\<rparr>) = rest d"
  by (simp_all add: rest_def unmap_bars_def disable_msi_msix_def enable_msi_msix_def interrupts_off_def)

lemma scan_rest: "rest (snd (snd (snd (scan_bars E len maps n i ids pos d)))) = rest d"
proof (induction n arbitrary: i ids pos d)
  case (Suc n)
  have one: "rest (snd (map_single_bar len maps i d)) = rest d" for d
    by (simp add: rest_def map_single_bar_def Let_def)
  have two: "rest (snd (is_config_bar E i d)) = rest d" for d
    by (simp add: rest_def is_config_bar_def split_beta Let_def)
  show ?case by (simp add: Let_def split_beta Suc.IH one two)
qed simp

lemma map_bars_rest [simp]: "rest (snd (map_bars E len maps d)) = rest d"
proof -
  have "rest (snd (identify_bars ids pos d)) = rest d" for ids pos d
    by (simp add: rest_def identify_bars_def Let_def)
  then show ?thesis
    using scan_rest [of E len maps 6 0 "[]" 0 d] by (simp add: map_bars_def split_beta Let_def)
qed

text \<open>The state when the BARs are mapped: the device is new but for its list entry and its limits.\<close>

definition half_open :: "nat \<Rightarrow> nat \<Rightarrow> xdma_sys \<Rightarrow> xdma_sys \<Rightarrow> bool" where
  "half_open h pdev s s' \<longleftrightarrow> sy_list s' = sy_list s @ [h] \<and> sy_live s' = h # sy_live s \<and>
     sy_enabled s' = (sy_enabled s)(pdev := Suc (sy_enabled s pdev)) \<and>
     sy_regions s' = (sy_regions s)(pdev := True) \<and> sy_pdev s' = (sy_pdev s)(h := pdev) \<and>
     fst (claims (sy_dev s' h)) \<and> \<not> fst (snd (claims (sy_dev s' h))) \<and>
     snd (snd (claims (sy_dev s' h))) \<le> MAX_USER_IRQ \<and>
     (\<forall>b. engines_of b (sy_dev s' h) = replicate 4 zero_engine) \<and> xd_irqs (sy_dev s' h) = [] \<and>
     xd_h2c_channel_max (sy_dev s' h) \<le> 4 \<and> xd_c2h_channel_max (sy_dev s' h) \<le> 4"

lemma list_add_rest:
  assumes "xdev_list_add E K h s = (rv, s')"
  shows "rest (sy_dev s' h) = rest (sy_dev s h)"
  using assms by (auto simp: xdev_list_add_def rest_def Let_def split_beta split: if_splits)

lemma open_reaches:
  assumes run: "xdma_device_open E K h pdev u n m s = (Some h', s')"
  shows "\<exists>s5. half_open h pdev s s5 \<and> open_engines E K h s5 = (Some h', s')"
proof -
  have oom: "\<not> oe_oom K" using run by (auto simp: xdma_device_open_def alloc_dev_instance_def)
  let ?s0 = "s\<lparr>sy_live := h # sy_live s, sy_dev := (sy_dev s)(h := new_xdev), sy_pdev := (sy_pdev s)(h := pdev)\<rparr>"
  let ?s1 = "upd_dev h (open_limits u n m) ?s0"
  obtain rv s2 where add: "xdev_list_add E K h ?s1 = (rv, s2)" by fastforce
  note l = list_add_holds [OF add] list_add_rest [OF add]
  note run = run [unfolded xdma_device_open_def alloc_dev_instance_def, simplified oom if_False, simplified, unfolded add, simplified]
  have ok: "\<not> rv < 0" "oe_enable K = 0" using run by (auto split: if_splits)
  let ?s3 = "s2\<lparr>sy_enabled := (sy_enabled s2)(pdev := Suc (sy_enabled s2 pdev))\<rparr>"
  obtain rv4 s4 where rr: "request_regions (oe_regions K) h ?s3 = (rv4, s4)" by fastforce
  have rv4: "rv4 = 0" using run ok rr by (auto split: if_splits)
  have pd: "sy_pdev s2 h = pdev" using l(2) by simp
  have s4: "s4 = upd_dev h (\<lambda>d. d\<lparr>xd_got_regions := True\<rparr>) (?s3\<lparr>sy_regions := (sy_regions ?s3)(pdev := True)\<rparr>)"
    using rr rv4 pd by (auto simp: request_regions_def split: if_splits)
  obtain rv5 d5 where mb: "map_bars E (oe_len K) (oe_maps K) (sy_dev s4 h) = (rv5, d5)" by fastforce
  let ?s5 = "upd_dev h (\<lambda>_. d5) s4"
  have fin: "open_engines E K h ?s5 = (Some h', s')"
    using run ok rr rv4 mb by (auto simp: Let_def split: if_splits)
  have d5: "claims d5 = claims (sy_dev s4 h)" "rest d5 = rest (sy_dev s4 h)"
    using held_claims.map_bars_view [of E "oe_len K" "oe_maps K" "sy_dev s4 h"] map_bars_rest [of E "oe_len K" "oe_maps K" "sy_dev s4 h"] mb
    by simp_all
  have "rest (sy_dev s4 h) = rest (sy_dev s2 h)" using s4 by (simp add: rest_def)
  then have r5: "rest d5 = rest (open_limits u n m new_xdev)" using d5(2) l(4) by simp
  have "claims (sy_dev s4 h) = (True, False, if u = 0 \<or> MAX_USER_IRQ < u then MAX_USER_IRQ else u)"
    using s4 l(3) by (simp add: claims_def open_limits_def new_xdev_def)
  then have "half_open h pdev s ?s5"
    unfolding half_open_def using s4 l(1,2) ok(1) d5(1) rest_eqD [OF r5]
    by (simp add: holds_def engines_of_def open_limits_def new_xdev_def)
  with fin show ?thesis by blast
qed

lemma request_rv: "\<forall>v. grant v \<le> 0 \<Longrightarrow> fst (request_irq grant v ow d) \<le> 0"
  by (simp add: request_irq_def)

lemma setup_channels_rv: "\<forall>v. grant v \<le> 0 \<Longrightarrow> fst (setup_channels grant vec h2c n i j d) \<le> 0"
proof (induction n arbitrary: i j d)
  case (Suc n)
  then show ?case using request_rv [of grant "vec j" "chan_owner h2c i" d] by (simp add: Let_def split_beta)
qed simp

lemma setup_users_rv: "\<forall>v. grant v \<le> 0 \<Longrightarrow> fst (setup_users grant vec base n i d) \<le> 0"
proof (induction n arbitrary: i d)
  case (Suc n)
  then show ?case using request_rv [of grant "vec (base + i)" "Owner_user i" d] by (simp add: Let_def split_beta)
qed simp

lemma irq_setup_rv: "\<forall>v. grant v \<le> 0 \<Longrightarrow> fst (irq_setup grant vec line pin d) \<le> 0"
  by (simp add: irq_setup_def irq_msix_channel_setup_def irq_msix_user_setup_def irq_msi_setup_def
      irq_legacy_setup_def request_rv setup_channels_rv setup_users_rv Let_def split_beta)

text \<open>
  What an open leaves: the device is listed and holds what it asked for, its engines are open, it
  is not offline, and its interrupt lines are those one teardown releases.
\<close>

definition open_ok :: "open_env \<Rightarrow> nat \<Rightarrow> nat \<Rightarrow> xdma_sys \<Rightarrow> xdma_sys \<Rightarrow> bool" where
  "open_ok K h pdev s s' \<longleftrightarrow> sy_list s' = sy_list s @ [h] \<and> sy_live s' = h # sy_live s \<and>
     sy_enabled s' = (sy_enabled s)(pdev := Suc (sy_enabled s pdev)) \<and>
     sy_regions s' = (sy_regions s)(pdev := True) \<and> sy_pdev s' = (sy_pdev s)(h := pdev) \<and>
     fst (claims (sy_dev s' h)) \<and> \<not> fst (snd (claims (sy_dev s' h))) \<and>
     snd (snd (claims (sy_dev s' h))) \<le> MAX_USER_IRQ \<and> engines_open (sy_dev s' h) \<and>
     xd_flags (sy_dev s' h) AND XDEV_FLAG_OFFLINE = 0"

lemma probe_stage:
  assumes "half_open h pdev s0 s"
  shows "engines_open (sy_dev (opened_probe E K h s) h)" and "xd_irqs (sy_dev (opened_probe E K h s) h) = []"
proof -
  let ?d = "interrupts_off E ((sy_dev s h)\<lparr>xd_io := check_nonzero_interrupt_status E (cfg_of (sy_dev s h)) (xd_io (sy_dev s h))\<rparr>)"
  have r: "rest ?d = rest (sy_dev s h)" by simp
  note e = rest_eqD [OF r]
  have z: "engines_of b ?d = replicate 4 zero_engine" for b
    using assms e [of b] by (simp add: half_open_def)
  have dev: "sy_dev (opened_probe E K h s) h = snd (snd (probe_engines E K h (sy_pool s, ?d)))"
    by (simp add: opened_probe_def)
  show "engines_open (sy_dev (opened_probe E K h s) h)" "xd_irqs (sy_dev (opened_probe E K h s) h) = []"
    unfolding dev using probe_engines_open [of "(sy_pool s, ?d)" E K h] z e assms by (simp_all add: half_open_def)
qed

lemma stripped_rest: "rest d' = rest d \<Longrightarrow> stripped d' = stripped d"
  by (simp add: rest_def stripped_def)

lemma flag_cleared: "(xdma_device_flag_clear f XDEV_FLAG_OFFLINE) AND XDEV_FLAG_OFFLINE = 0"
proof -
  have "(f AND NOT x) AND x = 0" for x :: u32
    by (metis and.assoc and.commute bit.conj_cancel_right and_zero_eq)
  then show ?thesis unfolding xdma_device_flag_clear_def by blast
qed

text \<open>The device when the lines are requested, and the lines an open holds.\<close>

lemma open_succeeds:
  assumes run: "xdma_device_open E K h pdev u n m s = (Some h', s')" and gr: "\<forall>v. oe_grant K v \<le> 0"
  shows "h' = h" and "open_ok K h pdev s s'"
    and "\<exists>d d'. engines_open d \<and> xd_irqs d = [] \<and>
      irq_setup (oe_grant K) (oe_vec K) (oe_line K) (oe_pin K) d = (0, d') \<and>
      irq_shape (sy_dev s' h) = irq_shape d' \<and> line_of (sy_dev s' h) = line_of d' \<and>
      xd_irqs (sy_dev s' h) = xd_irqs d' \<and> xd_irq_line (sy_dev s' h) = xd_irq_line d'"
proof -
  obtain s5 where s5: "half_open h pdev s s5" "open_engines E K h s5 = (Some h', s')"
    using open_reaches [OF run] by blast
  let ?s1 = "opened_probe E K h s5"
  let ?s2 = "opened_msi E K h ?s1"
  let ?d = "sy_dev ?s2 h"
  obtain rv d' where irq: "irq_setup (oe_grant K) (oe_vec K) (oe_line K) (oe_pin K) ?d = (rv, d')" by fastforce
  have fin: "h' = h" "rv = 0" "s' = opened_final E h (opened_irq K h ?s2)"
    using s5(2) irq irq_setup_rv [OF gr, of "oe_vec K" "oe_line K" "oe_pin K" ?d]
    by (auto simp: open_engines_stages Let_def split: if_splits)
  show "h' = h" by (rule fin(1))
  note p = probe_stage [OF s5(1), of E K]
  have d2: "?d = snd (enable_msi_msix E (oe_msi K) (sy_dev ?s1 h))" by (simp add: opened_msi_def)
  then have r2: "rest ?d = rest (sy_dev ?s1 h)" by simp
  have eo: "engines_open ?d" using p(1) stripped_open [OF stripped_rest [OF r2]] by simp
  have none: "xd_irqs ?d = []" using p(2) rest_eqD [OF r2] by simp
  have d3: "sy_dev (opened_irq K h ?s2) h = d'" using irq by (simp add: opened_irq_def)
  have d4: "sy_dev s' h = (let log = (if poll_mode E then xd_io d' else channel_interrupts_enable (cfg_of d') 0xffffffff (xd_io d'))
     in d'\<lparr>xd_io := snd (read_interrupts E (cfg_of d') log), xd_flags := xdma_device_flag_clear (xd_flags d') XDEV_FLAG_OFFLINE\<rparr>)"
    unfolding fin(3) opened_final_def using d3 by (simp add: Let_def)
  have "stripped d' = stripped ?d" using irq_setup_stripped [of "oe_grant K" "oe_vec K" "oe_line K" "oe_pin K" ?d] irq by simp
  moreover have "stripped (sy_dev s' h) = stripped d'" unfolding d4 by (simp add: stripped_def Let_def)
  ultimately have "engines_open (sy_dev s' h)" using eo stripped_open by metis
  moreover have "same_claims h s5 s'" unfolding fin(3) by (intro stages_same_claims same_claims_refl)
  moreover have "xd_flags (sy_dev s' h) AND XDEV_FLAG_OFFLINE = 0"
    unfolding d4 using flag_cleared by (simp add: Let_def)
  ultimately show "open_ok K h pdev s s'"
    using s5(1) by (simp add: open_ok_def half_open_def same_claims_def holds_def)
  have "irq_shape (sy_dev s' h) = irq_shape d'" "line_of (sy_dev s' h) = line_of d'"
    "xd_irqs (sy_dev s' h) = xd_irqs d'" "xd_irq_line (sy_dev s' h) = xd_irq_line d'"
    unfolding d4 by (simp_all add: Let_def irq_shape_def line_of_def chan_num_def fun_eq_iff)
  with eo none irq fin(2) show "\<exists>d d'. engines_open d \<and> xd_irqs d = [] \<and>
      irq_setup (oe_grant K) (oe_vec K) (oe_line K) (oe_pin K) d = (0, d') \<and>
      irq_shape (sy_dev s' h) = irq_shape d' \<and> line_of (sy_dev s' h) = line_of d' \<and>
      xd_irqs (sy_dev s' h) = xd_irqs d' \<and> xd_irq_line (sy_dev s' h) = xd_irq_line d'" by blast
qed

text \<open>The handle of an open device is recognised, if no other device has its PCI device.\<close>

lemma find_append_last:
  assumes "\<forall>x \<in> set xs. \<not> P x" and "P y"
  shows "List.find P (xs @ [y]) = Some y"
  using assms by (induction xs) simp_all

lemma open_recognised:
  assumes "open_ok K h pdev s s'" and "\<forall>x \<in> set (sy_list s). sy_pdev s x \<noteq> pdev" and "h \<notin> set (sy_list s)"
  shows "debug_check_dev_hndl pdev h s' = 0"
proof -
  have "sy_list s' = sy_list s @ [h]" "sy_pdev s' = (sy_pdev s)(h := pdev)"
    using assms(1) by (simp_all add: open_ok_def)
  moreover have "\<forall>x \<in> set (sy_list s). ((sy_pdev s)(h := pdev)) x \<noteq> pdev" using assms(2,3) by auto
  ultimately show ?thesis
    using find_append_last [of "sy_list s" "\<lambda>x. ((sy_pdev s)(h := pdev)) x = pdev" h]
    by (simp add: debug_check_dev_hndl_def xdev_find_by_pdev_def)
qed

end
