(* ===== verification/Xdma_Device_Props.thy ===== *)
theory Xdma_Device_Props
  imports Xdma_Device_Spec
begin

text \<open>
  The properties of the life of a device: a failed open takes nothing, an open device is listed,
  online and ready, closing it gives everything back, and offline and online undo each other.
\<close>

declare split_paired_All [simp del] split_paired_Ex [simp del]

section \<open>Closing\<close>

text \<open>The teardown of the lines touches the lines held and the registers, nothing else.\<close>

lemma irq_teardown_keeps:
  assumes irqs: "\<And>d r. f (d\<lparr>xd_irqs := r\<rparr>) = f d" and io: "\<And>d l. f (d\<lparr>xd_io := l\<rparr>) = f d"
  shows "f (irq_teardown vec d) = f d"
proof -
  have c: "f (free_irq v ow d) = f d" for v ow d by (simp add: free_irq_def irqs)
  have u: "f (fold (\<lambda>i. free_irq (vec (base + i)) (Owner_user i)) ns d) = f d" for base ns d
    by (induction ns arbitrary: d) (simp_all add: c)
  have ch: "f (teardown_channels h2c n i d) = f d" for h2c n i d
    by (induction n arbitrary: i d) (simp_all add: c Let_def)
  have p: "f (prog_irq_msix_user b d) = f d" "f (prog_irq_msix_channel b d) = f d" for b d
    by (simp_all add: prog_irq_msix_user_def prog_irq_msix_channel_def Let_def io)
  show ?thesis
    by (simp add: irq_teardown_def irq_msix_user_teardown_def irq_msix_channel_teardown_def Let_def c u ch p)
qed

lemma teardown_stripped [simp]: "stripped (irq_teardown vec d) = stripped d"
  by (rule irq_teardown_keeps) simp_all

text \<open>Closing an open device, in two steps: the device gives back what it has, the library forgets it.\<close>

definition closed_dev :: "('x) xenv_scheme \<Rightarrow> open_env \<Rightarrow> nat \<Rightarrow> xdma_sys \<Rightarrow> thread_pool \<times> xdma_dev" where
  "closed_dev E K h s =
     (let (p, d) = remove_engines E h (sy_pool s, disable_msi_msix (irq_teardown (oe_vec K) (interrupts_off E (sy_dev s h))))
      in (p, unmap_bars d))"

lemma close_dev:
  assumes "debug_check_dev_hndl pdev h s = 0"
  shows "sy_dev (xdma_device_close E K pdev h s) h = snd (closed_dev E K h s)"
  using assms by (simp add: xdma_device_close_def closed_dev_def Let_def split_beta free_xdev_def
      xdev_list_remove_def pci_disable_device_def)

lemma close_holds:
  assumes "debug_check_dev_hndl pdev h s = 0"
  shows "holds (xdma_device_close E K pdev h s) = (remove1 h (sy_list s), remove1 h (sy_live s),
     if fst (snd (claims (sy_dev s h))) then sy_enabled s else (sy_enabled s)(pdev := sy_enabled s pdev - 1),
     if fst (claims (sy_dev s h)) then (sy_regions s)(pdev := False) else sy_regions s)"
proof -
  let ?d = "disable_msi_msix (irq_teardown (oe_vec K) (interrupts_off E (sy_dev s h)))"
  have "claims (unmap_bars (snd (remove_engines E h (sy_pool s, ?d)))) = claims (sy_dev s h)" by simp
  then have "xd_got_regions (unmap_bars (snd (remove_engines E h (sy_pool s, ?d)))) = fst (claims (sy_dev s h))"
    "xd_regions_in_use (unmap_bars (snd (remove_engines E h (sy_pool s, ?d)))) = fst (snd (claims (sy_dev s h)))"
    by (simp_all add: claims_def)
  then show ?thesis
    using assms by (simp add: xdma_device_close_def Let_def holds_def free_xdev_def xdev_list_remove_def
        pci_disable_device_def)
qed

lemma removed_engines:
  assumes "engines_open d"
  shows "\<forall>e \<in> set (engines_of b (snd (remove_engines E h (p, d)))). holds_nothing e"
proof (rule remove_engines_hold_nothing)
  have o: "chan_max b d \<le> 4" "length (engines_of b d) = 4"
    "j < chan_max b d \<Longrightarrow> engine_ready b j (engines_of b d ! j)"
    "chan_max b d \<le> j \<Longrightarrow> j < 4 \<Longrightarrow> holds_nothing (engines_of b d ! j)" for b j
    using assms unfolding engines_open_def by blast+
  note o = o [unfolded chan_max_def]
  fix b j
  show "(if b then xd_h2c_channel_max (snd (p, d)) else xd_c2h_channel_max (snd (p, d))) \<le>
      length (engines_of b (snd (p, d)))"
    using o(1,2) [of b] unfolding snd_conv by linarith
  show "e_magic (engines_of b (snd (p, d)) ! j) = MAGIC_ENGINE"
    if "j < (if b then xd_h2c_channel_max (snd (p, d)) else xd_c2h_channel_max (snd (p, d)))"
    using o(3) [of j b] that unfolding snd_conv engine_ready_def by blast
  show "holds_nothing (engines_of b (snd (p, d)) ! j)"
    if "(if b then xd_h2c_channel_max (snd (p, d)) else xd_c2h_channel_max (snd (p, d))) \<le> j"
      "j < length (engines_of b (snd (p, d)))"
    using o(4) [of b j] o(2) [of b] that unfolding snd_conv by simp
qed

lemma closed_engines:
  assumes "engines_open (sy_dev s h)"
  shows "\<forall>b. \<forall>e \<in> set (engines_of b (snd (closed_dev E K h s))). holds_nothing e"
proof -
  let ?d = "disable_msi_msix (irq_teardown (oe_vec K) (interrupts_off E (sy_dev s h)))"
  have "stripped ?d = stripped (sy_dev s h)"
    using stripped_rest [OF rest_simps(2)] stripped_rest [OF rest_simps(4)] by simp
  then have "engines_open ?d" using assms stripped_open by blast
  note removed_engines [OF this, of _ E h "sy_pool s"]
  moreover have "engines_of b (unmap_bars d) = engines_of b d" for b d
    by (simp add: engines_of_def unmap_bars_def)
  ultimately show ?thesis by (simp add: closed_dev_def split_beta)
qed

lemma remove_engines_irqs [simp]: "xd_irqs (snd (remove_engines E h s)) = xd_irqs (snd s)"
proof -
  have one: "xd_irqs (snd (remove_engine E h b i s)) = xd_irqs (snd s)" for b i s
    by (simp add: remove_engine_def split_beta Let_def put_counts_def put_est_def)
  have "xd_irqs (snd (fold (remove_engine E h b) ns s)) = xd_irqs (snd s)" for b ns s
    by (induction ns arbitrary: s) (simp_all add: one)
  then show ?thesis by (simp add: remove_engines_def Let_def)
qed

lemma closed_irqs:
  "xd_irqs (snd (closed_dev E K h s)) = xd_irqs (irq_teardown (oe_vec K) (interrupts_off E (sy_dev s h)))"
  by (simp add: closed_dev_def split_beta unmap_bars_def disable_msi_msix_def)

lemma interrupts_off_shape:
  "irq_shape (interrupts_off E d) = irq_shape d" "line_of (interrupts_off E d) = line_of d"
  "xd_irqs (interrupts_off E d) = xd_irqs d" "xd_irq_line (interrupts_off E d) = xd_irq_line d"
  by (simp_all add: interrupts_off_def irq_shape_def line_of_def chan_num_def fun_eq_iff)

lemma open_close:
  assumes run: "xdma_device_open E K h pdev u n m s = (Some h', s')" and gr: "\<forall>v. oe_grant K v \<le> 0"
    and vec: "\<And>j. j < 8 \<Longrightarrow> 0 < oe_vec K j \<and> oe_vec K j < 2 ^ 32"
    and new: "h \<notin> set (sy_list s)" "\<forall>x \<in> set (sy_list s). sy_pdev s x \<noteq> pdev" and reg: "\<not> sy_regions s pdev"
  shows "holds (xdma_device_close E K pdev h s') = holds s"
    and "xd_irqs (sy_dev (xdma_device_close E K pdev h s') h) = []"
    and "\<forall>b. \<forall>e \<in> set (engines_of b (sy_dev (xdma_device_close E K pdev h s') h)). holds_nothing e"
proof -
  note ok = open_succeeds [OF run gr]
  have chk: "debug_check_dev_hndl pdev h s' = 0" by (rule open_recognised [OF ok(2) new(2,1)])
  have rm: "remove1 h (sy_list s @ [h]) = sy_list s" using new(1) by (simp add: remove1_append)
  show "holds (xdma_device_close E K pdev h s') = holds s"
    unfolding close_holds [OF chk] using ok(2) rm reg by (simp add: open_ok_def holds_def fun_upd_idem)
  show "\<forall>b. \<forall>e \<in> set (engines_of b (sy_dev (xdma_device_close E K pdev h s') h)). holds_nothing e"
    unfolding close_dev [OF chk] using ok(2) by (intro closed_engines) (simp add: open_ok_def)
  obtain d d' where d: "engines_open d" "xd_irqs d = []"
    "irq_setup (oe_grant K) (oe_vec K) (oe_line K) (oe_pin K) d = (0, d')"
    "irq_shape (sy_dev s' h) = irq_shape d'" "line_of (sy_dev s' h) = line_of d'"
    "xd_irqs (sy_dev s' h) = xd_irqs d'" "xd_irq_line (sy_dev s' h) = xd_irq_line d'"
    using ok(3) by blast
  have mx: "chan_max b d \<le> 4 \<and> length (engines_of b d) = 4" for b
    using d(1) unfolding engines_open_def by blast
  have len: "xd_h2c_channel_max d \<le> length (xd_engine_h2c d)" "xd_c2h_channel_max d \<le> length (xd_engine_c2h d)"
    "xd_h2c_channel_max d + xd_c2h_channel_max d \<le> 8"
    using mx [of True] mx [of False] by (simp_all add: chan_max_def engines_of_def)
  have "mset (xd_irqs (irq_teardown (oe_vec K) (interrupts_off E (sy_dev s' h)))) = mset (xd_irqs d)"
    by (rule teardown_after_setup [OF d(3) len(1,2)])
      (use vec len(3) d in \<open>simp_all add: interrupts_off_shape\<close>)
  then show "xd_irqs (sy_dev (xdma_device_close E K pdev h s') h) = []"
    unfolding close_dev [OF chk] closed_irqs using d(2) by simp
qed

section \<open>Offline and online\<close>

text \<open>An operation on each channel of one direction in turn.\<close>

lemma fold_engines:
  assumes step: "\<And>i d. i < length (engines_of b d) \<Longrightarrow> P (engines_of b d ! i) \<Longrightarrow>
      \<exists>e. engines_of b (f i d) = (engines_of b d)[i := e] \<and> R (engines_of b d ! i) e"
    and other: "\<And>i d. engines_of (\<not> b) (f i d) = engines_of (\<not> b) d"
    and n: "n \<le> length (engines_of b d)" and P: "\<And>j. j < n \<Longrightarrow> P (engines_of b d ! j)"
  shows "length (engines_of b (fold f [0..<n] d)) = length (engines_of b d) \<and>
    (\<forall>j < n. R (engines_of b d ! j) (engines_of b (fold f [0..<n] d) ! j)) \<and>
    (\<forall>j. n \<le> j \<longrightarrow> engines_of b (fold f [0..<n] d) ! j = engines_of b d ! j) \<and>
    engines_of (\<not> b) (fold f [0..<n] d) = engines_of (\<not> b) d"
  using n P
proof (induction n)
  case (Suc n)
  let ?d = "fold f [0..<n] d"
  have IH: "length (engines_of b ?d) = length (engines_of b d)"
    "\<forall>j < n. R (engines_of b d ! j) (engines_of b ?d ! j)"
    "\<forall>j. n \<le> j \<longrightarrow> engines_of b ?d ! j = engines_of b d ! j" "engines_of (\<not> b) ?d = engines_of (\<not> b) d"
    using Suc by auto
  have "n < length (engines_of b ?d)" "P (engines_of b ?d ! n)" using IH(1,3) Suc.prems by auto
  then obtain e where e: "engines_of b (f n ?d) = (engines_of b ?d)[n := e]" "R (engines_of b d ! n) e"
    using step [of n ?d] IH(3) by auto
  show ?case using IH e other [of n ?d] \<open>n < length (engines_of b ?d)\<close>
    by (auto simp: nth_list_update less_Suc_eq)
qed simp

definition stopped :: "xdma_engine \<Rightarrow> xdma_engine" where
  "stopped e = e\<lparr>e_shutdown := e_shutdown e OR ENGINE_SHUTDOWN_REQUEST, e_running := False\<rparr>"

lemma stop_engine_engines:
  "e_magic (engines_of b d ! i) = MAGIC_ENGINE \<Longrightarrow>
     engines_of b (stop_engine E b i d) = (engines_of b d)[i := stopped (engines_of b d ! i)]"
  "engines_of (\<not> b) (stop_engine E b i d) = engines_of (\<not> b) d"
  by (simp_all add: stop_engine_def Let_def put_est_engines xdma_engine_stop_def est_of_def engine_of_nth
      stopped_def write_ereg_def write_sreg_def)

text \<open>What a restart of a stopped engine leaves: its alignments are read again, its ring is the old one.\<close>

definition restarted :: "xdma_engine \<Rightarrow> xdma_engine \<Rightarrow> bool" where
  "restarted e e' \<longleftrightarrow> e_shutdown e' = e_shutdown e AND NOT ENGINE_SHUTDOWN_REQUEST \<and>
     e_desc e' = e_desc e \<and> e_desc_idx e' = e_desc_idx e \<and> e_desc_max e' = e_desc_max e \<and>
     e_magic e' = e_magic e \<and> e_dir e' = e_dir e \<and> e_channel e' = e_channel e \<and>
     e_transfer_list e' = e_transfer_list e \<and>
     e_running e' = e_running e"

lemma init_regs_shutdown: "e_shutdown (eng (snd (engine_init_regs E st))) = e_shutdown (eng st)"
  by (simp add: engine_init_regs_def engine_writeback_setup_def engine_alignments_def split_beta Let_def)

lemma restart_engine_engines:
  assumes "e_magic (engines_of b d ! i) = MAGIC_ENGINE"
  shows "\<exists>e. engines_of b (restart_engine E b i d) = (engines_of b d)[i := e] \<and>
    restarted (engines_of b d ! i) e"
proof -
  let ?st = "snd (engine_init_regs E (est_of b i d))"
  have eng: "eng (est_of b i d) = engines_of b d ! i" by (simp add: est_of_def engine_of_nth)
  have "engines_of b (restart_engine E b i d) = (engines_of b d)[i := (eng ?st)
      \<lparr>e_shutdown := e_shutdown (eng ?st) AND NOT ENGINE_SHUTDOWN_REQUEST\<rparr>]"
    using assms eng by (simp add: restart_engine_def put_est_engines Let_def)
  moreover have "restarted (engines_of b d ! i) ((eng ?st)
      \<lparr>e_shutdown := e_shutdown (eng ?st) AND NOT ENGINE_SHUTDOWN_REQUEST\<rparr>)"
    by (simp add: restarted_def init_regs_frame init_regs_shutdown eng)
  ultimately show ?thesis by blast
qed

lemma restart_engine_other: "engines_of (\<not> b) (restart_engine E b i d) = engines_of (\<not> b) d"
  by (simp add: restart_engine_def Let_def put_est_engines)

text \<open>Taking a device offline and back online leaves its interrupt lines' owners and the channels' numbers to the setup.\<close>

definition off_dev :: "('x) xenv_scheme \<Rightarrow> xdma_dev \<Rightarrow> xdma_dev" where
  "off_dev E d = fold (stop_engine E False) [0..<xd_c2h_channel_max d] (fold (stop_engine E True) [0..<xd_h2c_channel_max d]
     (d\<lparr>xd_flags := xdma_device_flag_set (xd_flags d) XDEV_FLAG_OFFLINE\<rparr>))"

definition on_engines :: "('x) xenv_scheme \<Rightarrow> xdma_dev \<Rightarrow> xdma_dev" where
  "on_engines E d = fold (restart_engine E False) [0..<xd_c2h_channel_max d]
     (fold (restart_engine E True) [0..<xd_h2c_channel_max d] d)"

lemma fold_keeps: "(\<And>i d. g (f i d) = g d) \<Longrightarrow> g (fold f ns d) = g d"
  by (induction ns arbitrary: d) simp_all

lemma stop_restart_frame [simp]:
  "xd_flags (stop_engine E b i d) = xd_flags d" "chan_max c (stop_engine E b i d) = chan_max c d"
  "xd_flags (restart_engine E b i d) = xd_flags d" "chan_max c (restart_engine E b i d) = chan_max c d"
  by (simp_all add: stop_engine_def restart_engine_def Let_def put_est_def chan_max_def)

lemma fold_stop_restart_frame [simp]:
  "xd_flags (fold (stop_engine E b) ns d) = xd_flags d" "chan_max c (fold (stop_engine E b) ns d) = chan_max c d"
  "xd_flags (fold (restart_engine E b) ns d) = xd_flags d" "chan_max c (fold (restart_engine E b) ns d) = chan_max c d"
  by (rule fold_keeps, simp)+

lemma fold_max [simp]:
  "xd_c2h_channel_max (fold (stop_engine E b) ns d) = xd_c2h_channel_max d"
  "xd_c2h_channel_max (fold (restart_engine E b) ns d) = xd_c2h_channel_max d"
  using fold_stop_restart_frame(2,4) [of False E b ns d] by (simp_all add: chan_max_def)

lemma engines_of_flags [simp]: "engines_of b (d\<lparr>xd_flags := f\<rparr>) = engines_of b d"
  by (simp add: engines_of_def)

lemma off_dev_engines:
  assumes "engines_open d"
  shows "length (engines_of b (off_dev E d)) = 4 \<and>
    (\<forall>j < chan_max b d. engines_of b (off_dev E d) ! j = stopped (engines_of b d ! j)) \<and>
    (\<forall>j. chan_max b d \<le> j \<longrightarrow> engines_of b (off_dev E d) ! j = engines_of b d ! j)"
proof -
  have o: "chan_max b d \<le> 4" "length (engines_of b d) = 4"
    "j < chan_max b d \<Longrightarrow> e_magic (engines_of b d ! j) = MAGIC_ENGINE" for b j
    using assms unfolding engines_open_def engine_ready_def by blast+
  let ?d0 = "d\<lparr>xd_flags := xdma_device_flag_set (xd_flags d) XDEV_FLAG_OFFLINE\<rparr>"
  let ?d1 = "fold (stop_engine E True) [0..<xd_h2c_channel_max d] ?d0"
  have step: "length (engines_of c (fold (stop_engine E c) [0..<chan_max c d] d')) = 4 \<and>
    (\<forall>j < chan_max c d. engines_of c (fold (stop_engine E c) [0..<chan_max c d] d') ! j = stopped (engines_of c d ! j)) \<and>
    (\<forall>j. chan_max c d \<le> j \<longrightarrow> engines_of c (fold (stop_engine E c) [0..<chan_max c d] d') ! j = engines_of c d ! j) \<and>
    engines_of (\<not> c) (fold (stop_engine E c) [0..<chan_max c d] d') = engines_of (\<not> c) d'"
    if "engines_of c d' = engines_of c d" for c d'
    by (rule fold_engines [where f = "stop_engine E c" and b = c and n = "chan_max c d" and d = d'
        and P = "\<lambda>e. e_magic e = MAGIC_ENGINE" and R = "\<lambda>e e'. e' = stopped e",
        unfolded that, simplified o(2)])
      (use o(1,3) in \<open>auto simp: stop_engine_engines\<close>)
  have h: "engines_of True ?d0 = engines_of True d" "engines_of False ?d0 = engines_of False d" by simp_all
  note s1 = step [of True ?d0, OF h(1)]
  have "engines_of False ?d1 = engines_of False d" using s1 h(2) by (simp add: chan_max_def)
  note s2 = step [of False ?d1, OF this]
  show ?thesis using s1 s2 unfolding off_dev_def by (cases b) (simp_all add: chan_max_def)
qed

lemma on_engines_engines:
  assumes o: "\<And>b. chan_max b d \<le> length (engines_of b d)"
    "\<And>b j. j < chan_max b d \<Longrightarrow> e_magic (engines_of b d ! j) = MAGIC_ENGINE"
  shows "length (engines_of b (on_engines E d)) = length (engines_of b d) \<and>
    (\<forall>j < chan_max b d. restarted (engines_of b d ! j) (engines_of b (on_engines E d) ! j)) \<and>
    (\<forall>j. chan_max b d \<le> j \<longrightarrow> engines_of b (on_engines E d) ! j = engines_of b d ! j)"
proof -
  let ?d1 = "fold (restart_engine E True) [0..<xd_h2c_channel_max d] d"
  have step: "length (engines_of c (fold (restart_engine E c) [0..<chan_max c d] d')) = length (engines_of c d) \<and>
    (\<forall>j < chan_max c d. restarted (engines_of c d ! j) (engines_of c (fold (restart_engine E c) [0..<chan_max c d] d') ! j)) \<and>
    (\<forall>j. chan_max c d \<le> j \<longrightarrow> engines_of c (fold (restart_engine E c) [0..<chan_max c d] d') ! j = engines_of c d ! j) \<and>
    engines_of (\<not> c) (fold (restart_engine E c) [0..<chan_max c d] d') = engines_of (\<not> c) d'"
    if "engines_of c d' = engines_of c d" for c d'
    by (rule fold_engines [where f = "restart_engine E c" and b = c and n = "chan_max c d" and d = d'
        and P = "\<lambda>e. e_magic e = MAGIC_ENGINE" and R = restarted, unfolded that])
      (use o in \<open>auto simp: restart_engine_engines restart_engine_other\<close>)
  note s1 = step [of True d, OF refl]
  have "engines_of False ?d1 = engines_of False d" using s1 by (simp add: chan_max_def)
  note s2 = step [of False ?d1, OF this]
  show ?thesis using s1 s2 unfolding on_engines_def by (cases b) (simp_all add: chan_max_def)
qed

lemma offline_dev:
  assumes "debug_check_dev_hndl pdev h s = 0"
  shows "sy_dev (xdma_device_offline E K pdev h s) h =
    irq_teardown (oe_vec K) (interrupts_off E (off_dev E (sy_dev s h)))"
    and "sy_list (xdma_device_offline E K pdev h s) = sy_list s"
    and "sy_pdev (xdma_device_offline E K pdev h s) = sy_pdev s"
  using assms by (simp_all add: xdma_device_offline_def off_dev_def Let_def)

text \<open>What stays when only the lines, the registers and the masks change.\<close>

definition core :: "xdma_dev \<Rightarrow> (bool \<Rightarrow> xdma_engine list) \<times> (bool \<Rightarrow> nat) \<times> u32" where
  "core d = (\<lambda>b. engines_of b d, \<lambda>b. chan_max b d, xd_flags d)"

lemma core_eqD:
  "core d' = core d \<Longrightarrow> engines_of b d' = engines_of b d \<and> chan_max b d' = chan_max b d \<and> xd_flags d' = xd_flags d"
  unfolding core_def by (metis prod.inject)

lemma core_off [simp]: "core (irq_teardown vec (interrupts_off E d)) = core d"
proof -
  have io: "core (d\<lparr>xd_io := l\<rparr>) = core d" "core (d\<lparr>xd_irqs := r\<rparr>) = core d" for d l r
    by (simp_all add: core_def chan_max_def engines_of_def cong: if_cong)
  have "core (irq_teardown vec d) = core d" for d by (rule irq_teardown_keeps) (simp_all add: io)
  then show ?thesis by (simp add: interrupts_off_def io)
qed

lemma off_dev_frame [simp]:
  "chan_max b (off_dev E d) = chan_max b d" "xd_flags (off_dev E d) = xd_flags d OR XDEV_FLAG_OFFLINE"
  by (simp_all add: off_dev_def xdma_device_flag_set_def) (simp add: chan_max_def)

lemma shutdown_set: "(x OR ENGINE_SHUTDOWN_REQUEST) AND ENGINE_SHUTDOWN_REQUEST \<noteq> (0 :: u32)"
proof -
  have "(x OR y) AND y = y" for y :: u32 by (simp add: word_ao_absorbs)
  from this [of ENGINE_SHUTDOWN_REQUEST] show ?thesis by (metis zero_neq_one)
qed

lemma shutdown_clear: "(x AND NOT y) AND y = (0 :: u32)"
  by (metis and.assoc and.commute bit.conj_cancel_right and_zero_eq)

lemma restarted_clear: "restarted e e' \<Longrightarrow> e_shutdown e' AND ENGINE_SHUTDOWN_REQUEST = 0"
  unfolding restarted_def using shutdown_clear by metis

lemma offline_engines:
  assumes "debug_check_dev_hndl pdev h s = 0" and "engines_open (sy_dev s h)"
    and d: "d = sy_dev (xdma_device_offline E K pdev h s) h"
  shows "chan_max b d = chan_max b (sy_dev s h)" and "xd_flags d = xd_flags (sy_dev s h) OR XDEV_FLAG_OFFLINE"
    and "length (engines_of b d) = 4"
    and "j < chan_max b d \<Longrightarrow> engines_of b d ! j = stopped (engines_of b (sy_dev s h) ! j)"
    and "chan_max b d \<le> j \<Longrightarrow> engines_of b d ! j = engines_of b (sy_dev s h) ! j"
proof -
  have "core d = core (off_dev E (sy_dev s h))" unfolding d offline_dev(1) [OF assms(1)] by simp
  note c = core_eqD [OF this]
  note o = off_dev_engines [OF assms(2), of b E]
  show "chan_max b d = chan_max b (sy_dev s h)" "xd_flags d = xd_flags (sy_dev s h) OR XDEV_FLAG_OFFLINE"
    "length (engines_of b d) = 4" using c o by simp_all
  show "j < chan_max b d \<Longrightarrow> engines_of b d ! j = stopped (engines_of b (sy_dev s h) ! j)"
    "chan_max b d \<le> j \<Longrightarrow> engines_of b d ! j = engines_of b (sy_dev s h) ! j" using c o by simp_all
qed

lemma online_engines:
  assumes chk: "debug_check_dev_hndl pdev h s = 0"
    and o: "\<And>b. chan_max b (sy_dev s h) \<le> length (engines_of b (sy_dev s h))"
      "\<And>b j. j < chan_max b (sy_dev s h) \<Longrightarrow> e_magic (engines_of b (sy_dev s h) ! j) = MAGIC_ENGINE"
    and d: "d = sy_dev (xdma_device_online E K pdev h s) h"
  shows "xd_flags d AND XDEV_FLAG_OFFLINE = 0" and "stripped d = stripped (on_engines E (sy_dev s h))"
proof -
  let ?d = "on_engines E (sy_dev s h)"
  have flags: "stripped (d\<lparr>xd_flags := f\<rparr>) = stripped d" for d f by (simp add: stripped_def)
  have eq: "d = (let d = (if poll_mode E then ?d
                 else (let (_, d) = irq_setup (oe_grant K) (oe_vec K) (oe_line K) (oe_pin K) ?d;
                           log = channel_interrupts_enable (cfg_of d) 0xffffffff (xd_io d);
                           log = user_interrupts_enable (cfg_of d) (xd_mask_irq_user d) log
                       in d\<lparr>xd_io := snd (read_interrupts E (cfg_of d) log)\<rparr>))
        in d\<lparr>xd_flags := xdma_device_flag_clear (xd_flags d) XDEV_FLAG_OFFLINE\<rparr>)"
    using d chk by (simp add: xdma_device_online_def on_engines_def Let_def)
  show "xd_flags d AND XDEV_FLAG_OFFLINE = 0"
    unfolding eq using flag_cleared by (simp add: Let_def split_beta)
  show "stripped d = stripped ?d"
    unfolding eq by (simp add: Let_def split_beta flags irq_setup_stripped)
qed

text \<open>An engine that was stopped and started again is ready; what the lines' setup changes does not show.\<close>

lemma restarted_ready:
  assumes q: "restarted (stopped e) e'" and "engine_ready b i e"
  shows "engine_ready b i e' \<and> e_shutdown e' AND ENGINE_SHUTDOWN_REQUEST = 0 \<and>
    e_desc e' = e_desc e \<and> e_desc_idx e' = e_desc_idx e"
proof
  show "engine_ready b i e'"
    using assms by (simp add: restarted_def stopped_def engine_ready_def ring_ok_def)
  show "e_shutdown e' AND ENGINE_SHUTDOWN_REQUEST = 0 \<and> e_desc e' = e_desc e \<and> e_desc_idx e' = e_desc_idx e"
    using q restarted_clear [OF q] by (simp add: restarted_def stopped_def)
qed

lemma stripped_nth:
  assumes "stripped d = stripped d'"
  shows "chan_max b d = chan_max b d'"
    and "i < length (engines_of b d') \<Longrightarrow> e_shutdown (engines_of b d ! i) = e_shutdown (engines_of b d' ! i) \<and>
      e_desc (engines_of b d ! i) = e_desc (engines_of b d' ! i) \<and>
      e_desc_idx (engines_of b d ! i) = e_desc_idx (engines_of b d' ! i)"
proof -
  have m: "map strip_line (engines_of b d) = map strip_line (engines_of b d')" and "chan_max b d = chan_max b d'"
    using assms by (simp_all add: stripped_def engines_of_def chan_max_def)
  then show "chan_max b d = chan_max b d'" by blast
  assume "i < length (engines_of b d')"
  then have "strip_line (engines_of b d ! i) = strip_line (engines_of b d' ! i)"
    using m by (metis length_map nth_map)
  from arg_cong [OF this, of e_shutdown] arg_cong [OF this, of e_desc] arg_cong [OF this, of e_desc_idx]
  show "e_shutdown (engines_of b d ! i) = e_shutdown (engines_of b d' ! i) \<and>
      e_desc (engines_of b d ! i) = e_desc (engines_of b d' ! i) \<and>
      e_desc_idx (engines_of b d ! i) = e_desc_idx (engines_of b d' ! i)" by (simp add: strip_line_def)
qed

text \<open>A device that went offline, found open by what it had before.\<close>

lemma offline_online:
  assumes "debug_check_dev_hndl pdev h s = 0" and "engines_open (sy_dev s h)"
    and "d = sy_dev (xdma_device_online E K pdev h (xdma_device_offline E K pdev h s)) h"
  shows "xd_flags d AND XDEV_FLAG_OFFLINE = 0 \<and> engines_open d \<and>
    (\<forall>b i. i < chan_max b d \<longrightarrow> e_shutdown (engine_of b i d) AND ENGINE_SHUTDOWN_REQUEST = 0 \<and>
      e_desc (engine_of b i d) = e_desc (engine_of b i (sy_dev s h)) \<and>
      e_desc_idx (engine_of b i d) = e_desc_idx (engine_of b i (sy_dev s h)))"
proof -
  let ?s = "xdma_device_offline E K pdev h s" and ?d0 = "sy_dev s h"
  let ?d1 = "sy_dev ?s h" and ?d2 = "on_engines E (sy_dev ?s h)"
  note off = offline_engines [OF assms(1,2) refl, where E = E and K = K]
  have chk: "debug_check_dev_hndl pdev h ?s = 0"
    using assms(1) by (simp add: debug_check_dev_hndl_def xdev_find_by_pdev_def offline_dev(2,3) [OF assms(1)])
  have r: "chan_max b ?d0 \<le> 4" "length (engines_of b ?d0) = 4"
    "j < chan_max b ?d0 \<Longrightarrow> engine_ready b j (engines_of b ?d0 ! j)"
    "chan_max b ?d0 \<le> j \<Longrightarrow> j < 4 \<Longrightarrow> holds_nothing (engines_of b ?d0 ! j)" for b j
    using assms(2) unfolding engines_open_def by blast+
  have m: "chan_max b ?d1 \<le> length (engines_of b ?d1)"
    "j < chan_max b ?d1 \<Longrightarrow> e_magic (engines_of b ?d1 ! j) = MAGIC_ENGINE" for b j
    using off(1,3) r(1) off(4) r(3) by (simp_all add: stopped_def engine_ready_def)
  note on = online_engines [OF chk m assms(3)]
  have mx: "chan_max b ?d2 = chan_max b ?d0" for b
    using off(1) by (simp add: on_engines_def)
  note e = on_engines_engines [OF m, of _ E]
  have ready: "engine_ready b j (engines_of b ?d2 ! j) \<and>
      e_shutdown (engines_of b ?d2 ! j) AND ENGINE_SHUTDOWN_REQUEST = 0 \<and>
      e_desc (engines_of b ?d2 ! j) = e_desc (engines_of b ?d0 ! j) \<and>
      e_desc_idx (engines_of b ?d2 ! j) = e_desc_idx (engines_of b ?d0 ! j)" if "j < chan_max b ?d0" for b j
    using e [of b] off(1) [of b] off(4) [of j b] that by (intro restarted_ready r(3)) auto
  have "engines_open ?d2"
    unfolding engines_open_def mx using r e off ready by auto
  then have oo: "engines_open d" using stripped_open [OF on(2)] by simp
  have mm: "chan_max b d = chan_max b ?d0" for b using stripped_nth(1) [OF on(2)] mx by simp
  have "e_shutdown (engine_of b i d) AND ENGINE_SHUTDOWN_REQUEST = 0 \<and>
      e_desc (engine_of b i d) = e_desc (engine_of b i ?d0) \<and>
      e_desc_idx (engine_of b i d) = e_desc_idx (engine_of b i ?d0)" if "i < chan_max b d" for b i
    using ready [of i b] stripped_nth(2) [OF on(2), of i b] e [of b] off(3) [of b] that r(1) [of b]
    unfolding mm engine_of_nth by simp
  with on(1) oo show ?thesis by blast
qed

section \<open>Properties of open and close\<close>

text \<open>
  C12 (error). An open that fails takes nothing: the list, the live device objects and the regions
  are what they were, whichever step failed. The PCI device is disabled again, except when its regions
  were in use: then it stays enabled, for the driver that holds them.
\<close>
theorem open_failure_takes_nothing:
  assumes "xdma_device_open E K h pdev u n m s = (None, s')"
    and "h \<notin> set (sy_list s)" and "h \<notin> set (sy_live s)" and "\<not> sy_regions s pdev"
  shows "sy_list s' = sy_list s \<and> sy_live s' = sy_live s \<and> sy_regions s' = sy_regions s \<and>
    (sy_enabled s' = sy_enabled s \<or>
      oe_regions K \<noteq> 0 \<and> sy_enabled s' = (sy_enabled s)(pdev := Suc (sy_enabled s pdev)))"
  by (rule open_fails [OF assms])

text \<open>A device with one engine in each direction behind BAR 0.\<close>

definition board :: "xenv" where
  "board = \<lparr>hw = (\<lambda>log a. if a = IOM 0 0x2000 then 0x1fc20000 else if a = IOM 0 0x3000 then 0x1fc30000
       else if a = IOM 0 0 then 0x1fc00000 else if a = IOM 0 0x1000 then 0x1fc10000 else 0),
     poll_mode = False, interrupt_mode = 0, enable_st_c2h_credit = False, desc_blen_max = 0x1000\<rparr>"

definition slot :: open_env where
  "slot = \<lparr>oe_oom = False, oe_enable = 0, oe_regions = 0, oe_len = (\<lambda>i. if i = 0 then 0x10000 else 0),
     oe_maps = (\<lambda>_. True), oe_dma64 = True, oe_dma32 = True,
     oe_mem = (\<lambda>h2c i. \<lparr>dm_desc = Some 0x10000, dm_poll = None, dm_result = None\<rparr>),
     oe_msi = \<lparr>pm_no_msi = False, pm_bus_no_msi = [], pm_arch_check = 0, pm_has_msix = True, pm_has_msi = True,
       pm_alloc_vectors = 4, pm_enable_msi = 0\<rparr>,
     oe_grant = (\<lambda>_. 0), oe_vec = (\<lambda>i. 40 + i), oe_line = 9, oe_pin = 1,
     oe_thread_oom = False, oe_spawn = (\<lambda>_. True), oe_cpus = [0], oe_stop = (\<lambda>_. 0)\<rparr>"

definition no_devices :: xdma_sys where
  "no_devices = \<lparr>sy_list = [], sy_dev = (\<lambda>_. new_xdev), sy_pdev = (\<lambda>_. 0), sy_live = [],
     sy_enabled = (\<lambda>_. 0), sy_regions = (\<lambda>_. False), sy_pool = \<lparr>cs_threads = [], thread_cnt = 0, tp_tasks = [], tp_engines = (\<lambda>_. zero_engine)\<rparr>\<rparr>"

text \<open>With every line granted the setup succeeds, whatever the device is.\<close>

lemma irq_setup_granted:
  assumes "pin \<noteq> 0"
  shows "fst (irq_setup (\<lambda>_. 0) vec line pin d) = 0"
proof -
  have c: "fst (setup_channels (\<lambda>_. 0) vec h2c n i j d) = 0" for h2c n i j d
    by (induction n arbitrary: i j d) (simp_all add: request_irq_def Let_def)
  have u: "fst (setup_users (\<lambda>_. 0) vec base n i d) = 0" for base n i d
    by (induction n arbitrary: i d) (simp_all add: request_irq_def Let_def)
  show ?thesis
    using assms by (simp add: irq_setup_def irq_msix_channel_setup_def irq_msix_user_setup_def irq_msi_setup_def
        irq_legacy_setup_def request_irq_def split_beta Let_def c u)
qed

lemma board_bars:
  assumes "xd_config_bar_idx d = - 1"
  shows "fst (map_bars board (oe_len slot) (oe_maps slot) d) = 0"
proof -
  let ?d = "d\<lparr>xd_bar := (xd_bar d)[0 := Some 0x10000]\<rparr>"
  have one: "map_single_bar (oe_len slot) (oe_maps slot) i d =
      (if i = 0 then (0x10000, d\<lparr>xd_bar := (xd_bar d)[0 := Some 0x10000]\<rparr>)
       else (0, d\<lparr>xd_bar := (xd_bar d)[i := None]\<rparr>))" for i d
    by (simp add: map_single_bar_def slot_def)
  have six: "(6 :: nat) = Suc (Suc (Suc (Suc (Suc (Suc 0)))))" by simp
  obtain d' where "is_config_bar board 0 ?d = (True, d')"
    by (simp add: is_config_bar_def board_def read_register_def io_plus_def)
  with one assms show ?thesis unfolding map_bars_def six by (simp add: identify_bars_def)
qed

text \<open>Where nothing fails the open succeeds.\<close>

lemma open_engines_granted:
  assumes "oe_grant K = (\<lambda>_. 0)" and "oe_pin K \<noteq> 0" and "fst (enable_msi_msix E (oe_msi K) (sy_dev (opened_probe E K h s) h)) \<ge> 0"
  shows "fst (open_engines E K h s) = Some h"
  using assms by (simp add: open_engines_stages irq_setup_granted Let_def)

lemma board_opens: "fst (xdma_device_open board slot 7 3 u n m no_devices) = Some 7"
proof -
  have "\<not> poll_mode board" by (simp add: board_def)
  moreover have "oe_oom slot = False" "oe_enable slot = 0" "oe_regions slot = 0" "set_dma_mask (oe_dma64 slot) (oe_dma32 slot) = 0"
    by (simp_all add: slot_def set_dma_mask_def)
  moreover have "fst (enable_msi_msix board (oe_msi slot) d) \<ge> 0" for d
    by (simp add: enable_msi_msix_def slot_def board_def msi_msix_capable_def)
  then have "fst (open_engines board slot h s) = Some h" for h s
    by (intro open_engines_granted) (simp_all add: slot_def)
  ultimately show ?thesis
    by (simp add: xdma_device_open_def alloc_dev_instance_def xdev_list_add_def no_devices_def request_regions_def
        split_beta Let_def open_limits_def new_xdev_def board_bars)
qed

lemma open_failure_takes_nothing_witness:
  "sy_live (snd (xdma_device_open board (slot\<lparr>oe_enable := - 5\<rparr>) 7 3 2 1 1 no_devices)) = []"
proof -
  have "fst (xdma_device_open board (slot\<lparr>oe_enable := - 5\<rparr>) 7 3 2 1 1 no_devices) = None"
    by (simp add: xdma_device_open_def alloc_dev_instance_def xdev_list_add_def no_devices_def slot_def board_def Let_def)
  then have "xdma_device_open board (slot\<lparr>oe_enable := - 5\<rparr>) 7 3 2 1 1 no_devices =
      (None, snd (xdma_device_open board (slot\<lparr>oe_enable := - 5\<rparr>) 7 3 2 1 1 no_devices))"
    by (simp add: prod_eq_iff)
  from open_failure_takes_nothing [OF this] show ?thesis by (simp add: no_devices_def)
qed

lemma board_runs:
  "xdma_device_open board slot 7 3 2 1 1 no_devices = (Some 7, snd (xdma_device_open board slot 7 3 2 1 1 no_devices))"
  using board_opens by (simp add: prod_eq_iff)

text \<open>
  C20 (functional). A successful open returns the new device's handle; the device is the last of the list,
  enabled, with its regions held and not offline, its handle is recognised, the engines of its channels
  are ready (a descriptor ring of their own, the right direction, nothing queued, not running) and the
  other engine slots hold no memory.
\<close>
theorem open_establishes:
  assumes "xdma_device_open E K h pdev u n m s = (Some h', s')" and "\<forall>v. oe_grant K v \<le> 0"
    and "h \<notin> set (sy_list s)" and "\<forall>x \<in> set (sy_list s). sy_pdev s x \<noteq> pdev"
  shows "h' = h \<and> sy_list s' = sy_list s @ [h] \<and> sy_regions s' pdev \<and> 0 < sy_enabled s' pdev \<and>
    xd_flags (sy_dev s' h) AND XDEV_FLAG_OFFLINE = 0 \<and> engines_open (sy_dev s' h) \<and>
    debug_check_dev_hndl pdev h s' = 0"
  using open_succeeds(1,2) [OF assms(1,2)] open_recognised [OF open_succeeds(2) [OF assms(1,2)] assms(4,3)]
  by (simp add: open_ok_def)

lemma open_establishes_witness:
  "engines_open (sy_dev (snd (xdma_device_open board slot 7 3 2 1 1 no_devices)) 7)"
  using open_establishes [OF board_runs] by (simp add: no_devices_def slot_def)



text \<open>The open board, offline.\<close>

lemma board_open:
  "debug_check_dev_hndl 3 7 (snd (xdma_device_open board slot 7 3 2 1 1 no_devices)) = 0"
  "engines_open (sy_dev (snd (xdma_device_open board slot 7 3 2 1 1 no_devices)) 7)"
  using open_succeeds(2) [OF board_runs] open_recognised [OF open_succeeds(2) [OF board_runs]]
  by (simp_all add: open_ok_def slot_def no_devices_def)

section \<open>Properties of offline and online\<close>

text \<open>
  C21 (safety). An offline device takes no work: its flag is set, each of its engines is stopped, and a
  transfer submitted to any of them is refused with an error and changes nothing.
\<close>
theorem offline_refuses_work:
  assumes "debug_check_dev_hndl pdev h s = 0" and "engines_open (sy_dev s h)"
    and "d = sy_dev (xdma_device_offline E K pdev h s) h"
  shows "xd_flags d AND XDEV_FLAG_OFFLINE \<noteq> 0 \<and> (\<forall>b i. i < chan_max b d \<longrightarrow> \<not> e_running (engine_of b i d)) \<and>
    (\<forall>b i t xs. fst (transfer_queue E t (est_of b i d\<lparr>xfers := xs\<rparr>)) < 0 \<and>
      snd (transfer_queue E t (est_of b i d\<lparr>xfers := xs\<rparr>)) = est_of b i d\<lparr>xfers := xs\<rparr>)"
proof -
  note o = offline_engines [OF assms]
  have f: "xd_flags d AND XDEV_FLAG_OFFLINE \<noteq> 0" unfolding o(2) by (rule shutdown_set)
  have "\<not> e_running (engine_of b i d)" if "i < chan_max b d" for b i
    using o(4) [OF that] by (simp add: engine_of_nth stopped_def)
  moreover have "xdev_flags (est_of b i d\<lparr>xfers := xs\<rparr>) AND XDEV_FLAG_OFFLINE \<noteq> 0" for b i xs
    using f by (simp add: est_of_def)
  ultimately show ?thesis using f transfer_queue_refused by blast
qed

lemma offline_refuses_work_witness:
  "fst (transfer_queue board (0, 0) (est_of True 0 (sy_dev (xdma_device_offline board slot 3 7
     (snd (xdma_device_open board slot 7 3 2 1 1 no_devices))) 7)\<lparr>xfers := \<lambda>_. sample_xfer 1\<rparr>)) < 0"
  using offline_refuses_work [OF board_open refl] by blast

text \<open>
  Taking an open device offline and back online makes it ready again: the flag is clear,
  no engine is shutting down, every engine is ready as after the open, with the same descriptors.
\<close>
theorem offline_online_ready:
  assumes "debug_check_dev_hndl pdev h s = 0" and "engines_open (sy_dev s h)"
    and "d = sy_dev (xdma_device_online E K pdev h (xdma_device_offline E K pdev h s)) h"
  shows "xd_flags d AND XDEV_FLAG_OFFLINE = 0 \<and> engines_open d \<and>
    (\<forall>b i. i < chan_max b d \<longrightarrow> e_shutdown (engine_of b i d) AND ENGINE_SHUTDOWN_REQUEST = 0 \<and>
      e_desc (engine_of b i d) = e_desc (engine_of b i (sy_dev s h)) \<and>
      e_desc_idx (engine_of b i d) = e_desc_idx (engine_of b i (sy_dev s h)))"
  by (rule offline_online [OF assms])

lemma offline_online_ready_witness:
  "xd_flags (sy_dev (xdma_device_online board slot 3 7 (xdma_device_offline board slot 3 7
     (snd (xdma_device_open board slot 7 3 2 1 1 no_devices)))) 7) AND XDEV_FLAG_OFFLINE = 0"
  using offline_online_ready [OF board_open refl] by blast

end
