(* ===== verification/Xdma_System.thy ===== *)
theory Xdma_System
  imports Xdma_Device_Props
begin

text \<open>
  The library as a transition system: devices are opened, closed, taken offline and online and
  interrupted in any order. Every live device object keeps its type (the sizes of its arrays and the
  limits of its counts) and listed devices have different numbers.
\<close>

declare split_paired_All [simp del] split_paired_Ex [simp del]

section \<open>The type of a device object\<close>

definition array_sizes :: "xdma_dev \<Rightarrow> nat \<times> nat list \<times> nat \<times> nat" where
  "array_sizes d = (length (xd_bar d), map ui_user_idx (xd_user_irq d), length (xd_engine_h2c d), length (xd_engine_c2h d))"

definition channel_limits :: "xdma_dev \<Rightarrow> nat \<times> nat \<times> nat" where
  "channel_limits d = (xd_h2c_channel_max d, xd_c2h_channel_max d, xd_user_max d)"

interpretation sizes: wide_view array_sizes
  by unfold_locales (simp_all add: array_sizes_def)

interpretation limits: device_view channel_limits
  by unfold_locales (simp_all add: channel_limits_def)

interpretation number: wide_view xd_idx
  by unfold_locales simp_all

definition well_typed :: "xdma_dev \<Rightarrow> bool" where
  "well_typed d \<longleftrightarrow> array_sizes d = (XDMA_BAR_NUM, [0..<MAX_USER_IRQ], XDMA_CHANNEL_NUM_MAX, XDMA_CHANNEL_NUM_MAX) \<and>
     xd_h2c_channel_max d \<le> XDMA_CHANNEL_NUM_MAX \<and> xd_c2h_channel_max d \<le> XDMA_CHANNEL_NUM_MAX \<and>
     xd_user_max d \<le> MAX_USER_IRQ"

lemma well_typed_same:
  "array_sizes d' = array_sizes d \<Longrightarrow> channel_limits d' = channel_limits d \<Longrightarrow> well_typed d' \<longleftrightarrow> well_typed d"
  by (simp add: well_typed_def channel_limits_def)

text \<open>Probing finds at most as many engines as it looks for.\<close>

lemma probe_channels_found: "fst (probe_channels E K h h2c n i s) \<le> i + n"
proof (induction n arbitrary: i s)
  case (Suc n)
  show ?case using Suc.IH [of "Suc i"] by (auto simp: Let_def split_beta)
qed simp

lemma probe_engines_typed:
  assumes "well_typed (snd s)"
  shows "well_typed (snd (snd (probe_engines E K h s)))"
proof -
  obtain i p d where h: "probe_channels E K h True (xd_h2c_channel_max (snd s)) 0 s = (i, p, d)" by (cases rule: prod_cases3)
  obtain j p' d' where c: "probe_channels E K h False (xd_c2h_channel_max (d\<lparr>xd_h2c_channel_max := i\<rparr>)) 0
      (p, d\<lparr>xd_h2c_channel_max := i\<rparr>) = (j, p', d')" by (cases rule: prod_cases3)
  have d: "channel_limits d = channel_limits (snd s)" "array_sizes d = array_sizes (snd s)"
    using limits.probe_channels_view [where s = s and i = 0] sizes.probe_channels_view [where s = s and i = 0] h
    by (metis snd_conv)+
  have d': "channel_limits d' = channel_limits (d\<lparr>xd_h2c_channel_max := i\<rparr>)" "array_sizes d' = array_sizes d"
    using limits.probe_channels_view [where s = "(p, d\<lparr>xd_h2c_channel_max := i\<rparr>)" and i = 0]
      sizes.probe_channels_view [where s = "(p, d\<lparr>xd_h2c_channel_max := i\<rparr>)" and i = 0] c
    by (metis snd_conv, metis snd_conv sizes.view_max(1))
  have "i \<le> xd_h2c_channel_max (snd s)" "j \<le> xd_c2h_channel_max d"
    using probe_channels_found [of E K h True "xd_h2c_channel_max (snd s)" 0 s]
      probe_channels_found [of E K h False "xd_c2h_channel_max (d\<lparr>xd_h2c_channel_max := i\<rparr>)" 0 "(p, d\<lparr>xd_h2c_channel_max := i\<rparr>)"]
      h c by simp_all
  then show ?thesis
    using assms d d' h c by (simp add: probe_engines_def well_typed_def channel_limits_def array_sizes_def)
qed

lemma new_device_typed: "well_typed (open_limits u n m new_xdev)"
  by (simp add: well_typed_def array_sizes_def open_limits_def new_xdev_def map_idI)

section \<open>The invariant\<close>

text \<open>The devices of the list are live, each once, and their numbers grow along the list.\<close>

definition typed_sys :: "xdma_sys \<Rightarrow> bool" where
  "typed_sys s \<longleftrightarrow> (\<forall>h \<in> set (sy_live s). well_typed (sy_dev s h))"

definition numbered :: "xdma_sys \<Rightarrow> bool" where
  "numbered s \<longleftrightarrow> distinct (sy_live s) \<and> distinct (sy_list s) \<and> set (sy_list s) \<subseteq> set (sy_live s) \<and>
     sorted_wrt (\<lambda>h h'. xd_idx (sy_dev s h) < xd_idx (sy_dev s h')) (sy_list s)"

definition sys_ok :: "xdma_sys \<Rightarrow> bool" where
  "sys_ok s \<longleftrightarrow> typed_sys s \<and> numbered s"

text \<open>An operation on one device that keeps its type and number.\<close>

lemma upd_dev_ok:
  assumes "sys_ok s" and "\<And>d. well_typed d \<Longrightarrow> well_typed (f d)" and "\<And>d. xd_idx (f d) = xd_idx d"
  shows "sys_ok (upd_dev h f s)"
proof -
  have "xd_idx (((sy_dev s)(h := f (sy_dev s h))) h') = xd_idx (sy_dev s h')" for h' by (simp add: assms(3))
  then show ?thesis using assms(1,2) by (simp add: sys_ok_def typed_sys_def numbered_def del: fun_upd_apply) auto
qed

lemma on_dev_ok:
  assumes "sys_ok s" and "\<And>s. well_typed (snd s) \<Longrightarrow> well_typed (snd (f s))" and "\<And>s. xd_idx (snd (f s)) = xd_idx (snd s)"
  shows "sys_ok (on_dev h f s)"
proof -
  have "on_dev h f s = (upd_dev h (\<lambda>d. snd (f (sy_pool s, d))) s)\<lparr>sy_pool := fst (f (sy_pool s, sy_dev s h))\<rparr>"
    by (simp add: on_dev_def upd_dev_def split_beta)
  moreover have "sys_ok (upd_dev h (\<lambda>d. snd (f (sy_pool s, d))) s)"
    by (rule upd_dev_ok [OF assms(1)]) (use assms(2,3) in auto)
  ultimately show ?thesis by (simp add: sys_ok_def typed_sys_def numbered_def)
qed

section \<open>Every operation keeps the invariant\<close>

lemma plumbing_typed:
  "well_typed d \<Longrightarrow> well_typed (unmap_bars d)" "well_typed d \<Longrightarrow> well_typed (disable_msi_msix d)"
  "well_typed (snd p) \<Longrightarrow> well_typed (snd (remove_engines E h p))"
  by (simp_all cong: well_typed_same)

lemma free_ok: "sys_ok s \<Longrightarrow> h \<notin> set (sy_list s) \<Longrightarrow> sys_ok (free_xdev h s)"
  by (auto simp: sys_ok_def typed_sys_def numbered_def free_xdev_def dest: notin_set_remove1)

lemma list_remove_ok: "sys_ok s \<Longrightarrow> sys_ok (xdev_list_remove E K h s) \<and> h \<notin> set (sy_list (xdev_list_remove E K h s))"
proof -
  assume ok: "sys_ok s"
  have "sorted_wrt R (remove1 h xs)" if "sorted_wrt R xs" for R and xs :: "nat list"
    using that by (induction xs) (auto dest: notin_set_remove1)
  then have "sys_ok (s\<lparr>sy_list := remove1 h (sy_list s)\<rparr>)"
    using ok by (auto simp: sys_ok_def typed_sys_def numbered_def dest: notin_set_remove1)
  then show ?thesis using ok
    by (auto simp: xdev_list_remove_def Let_def sys_ok_def typed_sys_def numbered_def)
qed

lemma err_ok:
  assumes "sys_ok s"
  shows "sys_ok (err_enable E K h s)" and "sys_ok (err_regions E K h s)" and "sys_ok (err_map E K h s)"
    and "sys_ok (err_mask E K h s)" and "sys_ok (err_engines E K h s)" and "sys_ok (err_msix E K h s)"
proof -
  have e: "sys_ok (err_enable E K h s)" if "sys_ok s" for s
    unfolding err_enable_def using list_remove_ok [OF that] free_ok by blast
  have r: "sys_ok (err_regions E K h s)" if "sys_ok s" for s
    unfolding err_regions_def
    by (rule e) (use that in \<open>simp add: pci_disable_device_def sys_ok_def typed_sys_def numbered_def\<close>)
  have m: "sys_ok (err_map E K h s)" if "sys_ok s" for s
    unfolding err_map_def
    by (rule r) (use that in \<open>simp add: sys_ok_def typed_sys_def numbered_def\<close>)
  have k: "sys_ok (err_mask E K h s)" if "sys_ok s" for s
    unfolding err_mask_def by (intro m upd_dev_ok that plumbing_typed number.unmap_view)
  have g: "sys_ok (err_engines E K h s)" if "sys_ok s" for s
    unfolding err_engines_def by (intro k on_dev_ok that plumbing_typed number.remove_engines_view)
  have "sys_ok (err_msix E K h s)"
    unfolding err_msix_def by (intro g upd_dev_ok assms plumbing_typed number.disable_msi_view)
  with e r m k g assms show "sys_ok (err_enable E K h s)" and "sys_ok (err_regions E K h s)"
    and "sys_ok (err_map E K h s)" and "sys_ok (err_mask E K h s)" and "sys_ok (err_engines E K h s)"
    and "sys_ok (err_msix E K h s)" by blast+
qed

lemma on_devs_typed:
  "well_typed d \<Longrightarrow> well_typed (irq_teardown vec (interrupts_off E d))"
  "well_typed d \<Longrightarrow> well_typed (snd (enable_msi_msix E p d))"
  "well_typed d \<Longrightarrow> well_typed (snd (irq_setup grant vec line pin d))"
  "well_typed d \<Longrightarrow> well_typed (snd (map_bars E len maps d))"
  "well_typed d \<Longrightarrow> well_typed (snd (xdma_isr E ret d))"
  "well_typed d \<Longrightarrow> well_typed (snd (xdma_channel_irq E h2c i d))"
  "well_typed d \<Longrightarrow> well_typed (snd (user_irq_service ret u d))"
  "well_typed d \<Longrightarrow> well_typed (snd (xdma_user_isr_register chk msk handler dev d))"
  "well_typed d \<Longrightarrow> well_typed (snd (xdma_user_isr_enable E chk msk d))"
  "well_typed d \<Longrightarrow> well_typed (snd (xdma_user_isr_disable E chk msk d))"
  by (simp_all cong: well_typed_same)

section \<open>Opening\<close>

lemma alloc_ok:
  assumes "sys_ok s" and "h \<notin> set (sy_live s)" and "alloc_dev_instance False h pdev s = (x, s')"
  shows "x = Some h \<and> sys_ok (upd_dev h (open_limits u n m) s') \<and> h \<notin> set (sy_list s') \<and> h \<in> set (sy_live s')"
proof -
  have s': "s' = s\<lparr>sy_live := h # sy_live s, sy_dev := (sy_dev s)(h := new_xdev), sy_pdev := (sy_pdev s)(h := pdev)\<rparr>"
    and x: "x = Some h" using assms(3) by (simp_all add: alloc_dev_instance_def)
  have nl: "h \<notin> set (sy_list s)" using assms(1,2) by (auto simp: sys_ok_def numbered_def)
  then have "sorted_wrt (\<lambda>a b. xd_idx (((sy_dev s)(h := open_limits u n m new_xdev)) a)
      < xd_idx (((sy_dev s)(h := open_limits u n m new_xdev)) b)) (sy_list s)"
    using assms(1) unfolding sys_ok_def numbered_def by (auto elim!: sorted_wrt_mono_rel [rotated])
  then show ?thesis
    using assms(1,2) nl x unfolding s'
    by (auto simp: sys_ok_def typed_sys_def numbered_def new_device_typed)
qed

lemma list_add_ok:
  assumes "sys_ok s" and "h \<notin> set (sy_list s)" and "h \<in> set (sy_live s)"
  shows "sys_ok (snd (xdev_list_add E K h s))" and "fst (xdev_list_add E K h s) < 0 \<Longrightarrow> h \<notin> set (sy_list (snd (xdev_list_add E K h s)))"
proof -
  have typed: "well_typed (d\<lparr>xd_idx := k\<rparr>) = well_typed d" for d k
    by (simp add: well_typed_def array_sizes_def)
  show "sys_ok (snd (xdev_list_add E K h s))"
  proof (cases "sy_list s = []")
    case True
    then show ?thesis using assms
      by (auto simp: xdev_list_add_def Let_def split_beta sys_ok_def typed_sys_def numbered_def typed)
  next
    case False
    let ?k = "Suc (xd_idx (sy_dev s (last (sy_list s))))"
    let ?D = "(sy_dev s)(h := (sy_dev s h)\<lparr>xd_idx := ?k\<rparr>)"
    have srt: "sorted_wrt (\<lambda>a b. xd_idx (sy_dev s a) < xd_idx (sy_dev s b)) (sy_list s)"
      using assms(1) by (simp add: sys_ok_def numbered_def)
    have le: "xd_idx (sy_dev s a) \<le> xd_idx (sy_dev s (last (sy_list s)))" if "a \<in> set (sy_list s)" for a
    proof -
      have "sy_list s = butlast (sy_list s) @ [last (sy_list s)]" using False by simp
      then have "sorted_wrt (\<lambda>a b. xd_idx (sy_dev s a) < xd_idx (sy_dev s b)) (butlast (sy_list s) @ [last (sy_list s)])"
        "a \<in> set (butlast (sy_list s)) \<or> a = last (sy_list s)" using srt that by (metis, metis Un_iff empty_iff set_append set_ConsD list.set(1))
      then show ?thesis by (auto simp: sorted_wrt_append less_imp_le)
    qed
    have "sorted_wrt (\<lambda>a b. xd_idx (?D a) < xd_idx (?D b)) (sy_list s @ [h])"
      unfolding sorted_wrt_append
      using srt assms(2) le by (auto elim!: sorted_wrt_mono_rel [rotated] simp: less_Suc_eq_le)
    then show ?thesis using assms False
      by (auto simp: xdev_list_add_def Let_def sys_ok_def typed_sys_def numbered_def typed)
  qed
  show "fst (xdev_list_add E K h s) < 0 \<Longrightarrow> h \<notin> set (sy_list (snd (xdev_list_add E K h s)))"
    using assms(2) by (auto simp: xdev_list_add_def Let_def split_beta split: if_splits)
qed

text \<open>The form in which a call's new device object is put back.\<close>

lemma replaced_ok:
  fixes g :: "xdma_dev \<Rightarrow> int \<times> xdma_dev"
  assumes "sys_ok s" and "\<And>d. well_typed d \<Longrightarrow> well_typed (snd (g d))" and "\<And>d. xd_idx (snd (g d)) = xd_idx d"
  shows "sys_ok (upd_dev h (\<lambda>_. snd (g (sy_dev s h))) s)"
  using upd_dev_ok [OF assms(1), of "\<lambda>d. snd (g d)" h] assms(2,3) by (simp add: upd_dev_def)

lemma stages_ok:
  assumes "sys_ok s"
  shows "sys_ok (opened_probe E K h s)" and "sys_ok (opened_msi E K h s)" and "sys_ok (opened_irq K h s)"
    and "sys_ok (opened_final E h s)"
proof -
  have off: "well_typed d \<Longrightarrow> well_typed (interrupts_off E (d\<lparr>xd_io := l\<rparr>))" for d l
    by (simp cong: well_typed_same)
  show "sys_ok (opened_probe E K h s)"
    unfolding opened_probe_def by (intro on_dev_ok upd_dev_ok assms off probe_engines_typed) simp_all
  show "sys_ok (opened_msi E K h s)" "sys_ok (opened_irq K h s)"
    unfolding opened_msi_def opened_irq_def by (intro replaced_ok assms on_devs_typed; simp)+
  have finish: "well_typed (d\<lparr>xd_io := l, xd_flags := f\<rparr>) = well_typed d" for d l f
    by (rule well_typed_same) simp_all
  show "sys_ok (opened_final E h s)"
    unfolding opened_final_def Let_def by (intro upd_dev_ok assms) (simp_all add: finish)
qed

lemma open_engines_keeps: "sys_ok s \<Longrightarrow> sys_ok (snd (open_engines E K h s))"
  unfolding open_engines_stages Let_def by (simp add: stages_ok err_ok)

lemma request_regions_ok: "sys_ok s \<Longrightarrow> sys_ok (snd (request_regions rv h s))"
proof -
  assume ok: "sys_ok s"
  have "sys_ok (upd_dev h (\<lambda>d. d\<lparr>xd_regions_in_use := b\<rparr>) s')" "sys_ok (upd_dev h (\<lambda>d. d\<lparr>xd_got_regions := b\<rparr>) s')"
    if "sys_ok s'" for s' b
    by (intro upd_dev_ok that; simp add: well_typed_def array_sizes_def)+
  then show ?thesis using ok
    by (simp add: request_regions_def del: upd_dev_frame) (simp add: sys_ok_def typed_sys_def numbered_def)
qed

lemma open_keeps:
  assumes "sys_ok s" and "h \<notin> set (sy_live s)"
  shows "sys_ok (snd (xdma_device_open E K h pdev u n m s))"
proof (cases "oe_oom K")
  case True
  then show ?thesis using assms(1) by (simp add: xdma_device_open_def alloc_dev_instance_def)
next
  case False
  obtain x s1 where a: "alloc_dev_instance False h pdev s = (x, s1)" by fastforce
  let ?s2 = "upd_dev h (open_limits u n m) s1"
  have s2: "x = Some h" "sys_ok ?s2" "h \<notin> set (sy_list ?s2)" "h \<in> set (sy_live ?s2)"
    using alloc_ok [OF assms a] by simp_all
  obtain rv s3 where l: "xdev_list_add E K h ?s2 = (rv, s3)" by fastforce
  have s3: "sys_ok s3" "rv < 0 \<Longrightarrow> h \<notin> set (sy_list s3)"
    using list_add_ok [OF s2(2-4), of E K] l by simp_all
  let ?s4 = "s3\<lparr>sy_enabled := (sy_enabled s3)(pdev := Suc (sy_enabled s3 pdev))\<rparr>"
  have s4: "sys_ok ?s4" using s3(1) by (simp add: sys_ok_def typed_sys_def numbered_def)
  obtain rv' s5 where r: "request_regions (oe_regions K) h ?s4 = (rv', s5)" by fastforce
  have s5: "sys_ok s5" using request_regions_ok [OF s4, of "oe_regions K" h] r by simp
  obtain rb d where b: "map_bars E (oe_len K) (oe_maps K) (sy_dev s5 h) = (rb, d)" by fastforce
  have "sys_ok (upd_dev h (\<lambda>_. snd (map_bars E (oe_len K) (oe_maps K) (sy_dev s5 h))) s5)"
    by (rule replaced_ok [OF s5 on_devs_typed(4) number.map_bars_view])
  then have s6: "sys_ok (upd_dev h (\<lambda>_. d) s5)" by (simp only: b snd_conv)
  show ?thesis
    using False a s2(1) l r b free_ok [OF s3(1), of h] s3(2) err_ok(1) [OF s3(1), of E K h]
      err_ok(2) [OF s5, of E K h] err_ok(3,4) [OF s6, of E K h] open_engines_keeps [OF s6, of E K h]
    by (simp add: xdma_device_open_def Let_def del: upd_dev_frame)
qed

section \<open>Closing, offline and online\<close>

lemma close_keeps: "sys_ok s \<Longrightarrow> sys_ok (xdma_device_close E K pdev h s)"
proof -
  assume ok: "sys_ok s"
  let ?s1 = "upd_dev h unmap_bars (on_dev h (remove_engines E h)
    (upd_dev h (\<lambda>d. disable_msi_msix (irq_teardown (oe_vec K) (interrupts_off E d))) s))"
  have s1: "sys_ok ?s1" by (intro upd_dev_ok on_dev_ok ok plumbing_typed on_devs_typed) simp_all
  have "sys_ok (s'\<lparr>sy_regions := r\<rparr>)" "sys_ok (pci_disable_device pdev s')" if "sys_ok s'" for s' r
    using that by (simp_all add: pci_disable_device_def sys_ok_def typed_sys_def numbered_def)
  then have "sys_ok (free_xdev h (xdev_list_remove E K h
      (let s = (if g then ?s1\<lparr>sy_regions := r\<rparr> else ?s1) in if u then s else pci_disable_device pdev s)))" for g u r
    using s1 list_remove_ok free_ok by (simp add: Let_def del: upd_dev_frame on_dev_frame) blast
  then show ?thesis using ok unfolding xdma_device_close_def Let_def by (auto simp del: upd_dev_frame on_dev_frame)
qed

lemma offline_online_keep:
  assumes "sys_ok s"
  shows "sys_ok (xdma_device_offline E K pdev h s)" and "sys_ok (xdma_device_online E K pdev h s)"
proof -
  have io: "well_typed (d\<lparr>xd_io := l\<rparr>) = well_typed d" "well_typed (d\<lparr>xd_flags := f\<rparr>) = well_typed d" for d l f
    by (rule well_typed_same; simp)+
  have stop: "well_typed (fold (stop_engine E b) is d) = well_typed d" "well_typed (fold (restart_engine E b) is d) = well_typed d"
    for b "is" d by (rule well_typed_same; simp)+
  have "sys_ok (upd_dev h f s)" if "\<And>d. well_typed d \<Longrightarrow> well_typed (f d)" "\<And>d. xd_idx (f d) = xd_idx d" for f
    by (rule upd_dev_ok [OF assms that])
  then show "sys_ok (xdma_device_offline E K pdev h s)" "sys_ok (xdma_device_online E K pdev h s)"
    unfolding xdma_device_offline_def xdma_device_online_def Let_def split_beta
    using assms by (auto simp: io stop on_devs_typed simp del: upd_dev_frame)
qed

section \<open>The transition system\<close>

text \<open>
  What can happen to the library, module parameters \<open>E\<close> fixed: the calls of its users, with whatever the
  kernel answers, and interrupts of live devices. The allocator gives an address that is not in use.
\<close>

inductive lib_step :: "xenv \<Rightarrow> xdma_sys \<Rightarrow> xdma_sys \<Rightarrow> bool" for E where
  opens: "h \<notin> set (sy_live s) \<Longrightarrow> lib_step E s (snd (xdma_device_open E K h pdev u n m s))"
| closes: "lib_step E s (xdma_device_close E K pdev h s)"
| goes_offline: "lib_step E s (xdma_device_offline E K pdev h s)"
| goes_online: "lib_step E s (xdma_device_online E K pdev h s)"
| interrupt: "h \<in> set (sy_live s) \<Longrightarrow> lib_step E s (upd_dev h (\<lambda>d. snd (xdma_isr E ret d)) s)"
| channel_interrupt: "h \<in> set (sy_live s) \<Longrightarrow> lib_step E s (upd_dev h (\<lambda>d. snd (xdma_channel_irq E h2c i d)) s)"
| user_interrupt: "h \<in> set (sy_live s) \<Longrightarrow> lib_step E s (upd_dev h (\<lambda>d. snd (user_irq_service ret i d)) s)"
| registers: "lib_step E s (upd_dev h (\<lambda>d. snd (xdma_user_isr_register (debug_check_dev_hndl pdev h s) msk handler dev d)) s)"
| enables: "lib_step E s (upd_dev h (\<lambda>d. snd (xdma_user_isr_enable E (debug_check_dev_hndl pdev h s) msk d)) s)"
| disables: "lib_step E s (upd_dev h (\<lambda>d. snd (xdma_user_isr_disable E (debug_check_dev_hndl pdev h s) msk d)) s)"

lemma lib_step_ok: "lib_step E s s' \<Longrightarrow> sys_ok s \<Longrightarrow> sys_ok s'"
proof (induction rule: lib_step.induct)
  case (opens h s K pdev u n m)
  then show ?case by (simp add: open_keeps)
qed (simp_all add: close_keeps offline_online_keep upd_dev_ok on_devs_typed del: upd_dev_frame)

text \<open>The states the module can be in: it starts without devices.\<close>

inductive lib_reachable :: "xenv \<Rightarrow> xdma_sys \<Rightarrow> bool" for E where
  loaded: "sy_list s = [] \<Longrightarrow> sy_live s = [] \<Longrightarrow> lib_reachable E s"
| stepped: "lib_reachable E s \<Longrightarrow> lib_step E s s' \<Longrightarrow> lib_reachable E s'"

lemma lib_reachable_ok: "lib_reachable E s \<Longrightarrow> sys_ok s"
proof (induction rule: lib_reachable.induct)
  case (loaded s)
  then show ?case by (simp add: sys_ok_def typed_sys_def numbered_def)
next
  case (stepped s s')
  then show ?case by (simp add: lib_step_ok)
qed

text \<open>
  C18 (type). In every state that opens (failed ones included), closes, offline and online switches, interrupts and
  handler registrations lead to, every live device object is well typed: six BARs, sixteen user
  interrupts that know their own number, four engines in each direction, and counts within these limits.
\<close>

theorem live_devices_well_typed:
  assumes "lib_reachable E s" and "h \<in> set (sy_live s)"
  shows "well_typed (sy_dev s h)"
  using lib_reachable_ok [OF assms(1)] assms(2) by (simp add: sys_ok_def typed_sys_def)

text \<open>One device opened, then a second one whose opening may fail.\<close>

definition one_board :: xdma_sys where
  "one_board = snd (xdma_device_open board slot 7 3 2 1 1 no_devices)"

definition two_boards :: xdma_sys where
  "two_boards = snd (xdma_device_open board slot 8 4 2 1 1 one_board)"

lemma one_board_lists: "sy_live one_board = [7]" "sy_list one_board = [7]"
  using open_succeeds(2) [OF board_runs]
  by (simp_all add: open_ok_def holds_def one_board_def slot_def no_devices_def)

lemma boards_reachable: "lib_reachable board one_board" "lib_reachable board two_boards"
proof -
  show r: "lib_reachable board one_board"
    unfolding one_board_def
    by (rule lib_reachable.stepped [OF lib_reachable.loaded lib_step.opens]) (simp_all add: no_devices_def)
  show "lib_reachable board two_boards"
    unfolding two_boards_def
    by (rule lib_reachable.stepped [OF r lib_step.opens]) (simp add: one_board_lists)
qed

lemma live_devices_well_typed_witness:
  "well_typed (sy_dev one_board 7)"
  using live_devices_well_typed [OF boards_reachable(1), of 7] by (simp add: one_board_lists)



end
