(* ===== verification/Xdma_Cdev.thy ===== *)
theory Xdma_Cdev
  imports Xdma_Device
begin

text \<open>
  The character devices of a board (\<^verbatim>\<open>xdma_cdev.c\<close>): checking a device object, creating
  and destroying one, and the whole set of a board (control, events, channels, bypass, user, xvc).
  The kernel's registries are part of the state: the character devices that are live, the entries in
  the class, and the regions of device numbers.
\<close>

section \<open>Data\<close>

datatype cdev_type = CHAR_USER | CHAR_CTRL | CHAR_XVC | CHAR_EVENTS | CHAR_XDMA_H2C | CHAR_XDMA_C2H
  | CHAR_BYPASS_H2C | CHAR_BYPASS_C2H | CHAR_BYPASS

text \<open>The place of a type in the enumeration, which is the minor number of the first three.\<close>

fun cdev_index :: "cdev_type \<Rightarrow> nat" where
  "cdev_index CHAR_USER = 0" | "cdev_index CHAR_CTRL = 1" | "cdev_index CHAR_XVC = 2"
| "cdev_index CHAR_EVENTS = 3" | "cdev_index CHAR_XDMA_H2C = 4" | "cdev_index CHAR_XDMA_C2H = 5"
| "cdev_index CHAR_BYPASS_H2C = 6" | "cdev_index CHAR_BYPASS_C2H = 7" | "cdev_index CHAR_BYPASS = 8"

text \<open>The enumeration's order, for sets and lists of types.\<close>

lemma cdev_index_inject: "cdev_index x = cdev_index y \<Longrightarrow> x = y"
  by (cases x; cases y) simp_all

instantiation cdev_type :: linorder
begin

definition less_eq_cdev_type :: "cdev_type \<Rightarrow> cdev_type \<Rightarrow> bool" where
  "x \<le> y \<longleftrightarrow> cdev_index x \<le> cdev_index y"

definition less_cdev_type :: "cdev_type \<Rightarrow> cdev_type \<Rightarrow> bool" where
  "x < y \<longleftrightarrow> cdev_index x < cdev_index y"

instance
  by standard (auto simp: less_eq_cdev_type_def less_cdev_type_def dest: cdev_index_inject)

end

fun devnode_name :: "cdev_type \<Rightarrow> nat \<Rightarrow> nat \<Rightarrow> string" where
  "devnode_name CHAR_USER n k = ''xdma'' @ dec_digits n @ ''_user''"
| "devnode_name CHAR_CTRL n k = ''xdma'' @ dec_digits n @ ''_control''"
| "devnode_name CHAR_XVC n k = ''xdma'' @ dec_digits n @ ''_xvc''"
| "devnode_name CHAR_EVENTS n k = ''xdma'' @ dec_digits n @ ''_events_'' @ dec_digits k"
| "devnode_name CHAR_XDMA_H2C n k = ''xdma'' @ dec_digits n @ ''_h2c_'' @ dec_digits k"
| "devnode_name CHAR_XDMA_C2H n k = ''xdma'' @ dec_digits n @ ''_c2h_'' @ dec_digits k"
| "devnode_name CHAR_BYPASS_H2C n k = ''xdma'' @ dec_digits n @ ''_bypass_h2c_'' @ dec_digits k"
| "devnode_name CHAR_BYPASS_C2H n k = ''xdma'' @ dec_digits n @ ''_bypass_c2h_'' @ dec_digits k"
| "devnode_name CHAR_BYPASS n k = ''xdma'' @ dec_digits n @ ''_bypass''"

datatype xpdev_flags_bits = XDF_CDEV_USER | XDF_CDEV_CTRL | XDF_CDEV_XVC | XDF_CDEV_EVENT
  | XDF_CDEV_SG | XDF_CDEV_BYPASS

fun flag_bit :: "xpdev_flags_bits \<Rightarrow> nat" where
  "flag_bit XDF_CDEV_USER = 0" | "flag_bit XDF_CDEV_CTRL = 1" | "flag_bit XDF_CDEV_XVC = 2"
| "flag_bit XDF_CDEV_EVENT = 3" | "flag_bit XDF_CDEV_SG = 4" | "flag_bit XDF_CDEV_BYPASS = 5"

text \<open>The members of \<^verbatim>\<open>struct xdma_pci_dev\<close> that are character devices.\<close>

datatype cdev_slot = Ctrl_cdev | Events_cdev nat | Sgdma_h2c_cdev nat | Sgdma_c2h_cdev nat
  | User_cdev | Bypass_h2c_cdev nat | Bypass_c2h_cdev nat | Bypass_cdev_base | Xvc_cdev

text \<open>
  \<open>xc_engine\<close> names the engine by its array and number, \<open>xc_xdev\<close> says that the pointer to the
  device is set; a device number is a major and a minor number.
\<close>

record xdma_cdev =
  xc_magic :: u64
  xc_xdev :: bool
  xc_cdevno :: "nat \<times> nat"
  xc_bar :: int
  xc_engine :: "(bool \<times> nat) option"
  xc_sys_device :: bool
  xc_name :: string

definition zero_cdev :: xdma_cdev where
  "zero_cdev = \<lparr>xc_magic = 0, xc_xdev = False, xc_cdevno = (0, 0), xc_bar = 0, xc_engine = None,
     xc_sys_device = False, xc_name = []\<rparr>"

abbreviation (input) MAGIC_CHAR :: u64 where "MAGIC_CHAR \<equiv> 0xCCCCCCCC"

record xdma_pci_dev =
  xp_magic :: u64
  xp_major :: nat
  xp_user_max :: nat
  xp_c2h_channel_max :: nat
  xp_h2c_channel_max :: nat
  xp_flags :: u32
  xp_cdevs :: "cdev_slot \<Rightarrow> xdma_cdev"

text \<open>
  What the kernel holds, by device number: the live devices, the class entries, the regions by their
  first number. \<open>kr_dels\<close> are the calls of \<^verbatim>\<open>cdev_del\<close> so far.
\<close>

record cdev_registry =
  kr_cdevs :: "(nat \<times> nat) list"
  kr_sys :: "(nat \<times> nat) list"
  kr_regions :: "(nat \<times> nat) list"
  kr_dels :: "(nat \<times> nat) list"

text \<open>
  The kernel's answers: the region (an error or the major number), naming an object, adding a
  device, creating its class entry; \<open>ce_class\<close>: the class exists. Naming returns 0 or an error.
\<close>

record cdev_env =
  ce_region :: "int + nat"
  ce_name :: "cdev_slot \<Rightarrow> int"
  ce_add :: "cdev_slot \<Rightarrow> int"
  ce_sys :: "cdev_slot \<Rightarrow> bool"
  ce_class :: bool

definition xpdev_flag_set :: "xpdev_flags_bits \<Rightarrow> xdma_pci_dev \<Rightarrow> xdma_pci_dev" where
  "xpdev_flag_set f xp = xp\<lparr>xp_flags := xp_flags xp OR push_bit (flag_bit f) 1\<rparr>"

definition xcdev_flag_clear :: "xpdev_flags_bits \<Rightarrow> xdma_pci_dev \<Rightarrow> xdma_pci_dev" where
  "xcdev_flag_clear f xp = xp\<lparr>xp_flags := xp_flags xp AND NOT (push_bit (flag_bit f) 1)\<rparr>"

definition xpdev_flag_test :: "xdma_pci_dev \<Rightarrow> xpdev_flags_bits \<Rightarrow> bool" where
  "xpdev_flag_test xp f \<longleftrightarrow> xp_flags xp AND push_bit (flag_bit f) 1 \<noteq> 0"

section \<open>Checking\<close>

text \<open>\<open>d\<close> is the device the object points to.\<close>

definition xcdev_check :: "xdma_dev \<Rightarrow> xdma_cdev \<Rightarrow> bool \<Rightarrow> int" where
  "xcdev_check d xc check_engine =
     (if xc_magic xc \<noteq> MAGIC_CHAR then - EINVAL
      else if \<not> xc_xdev xc \<or> xd_magic d \<noteq> MAGIC_DEVICE then - EINVAL
      else if check_engine \<and> (case xc_engine xc of None \<Rightarrow> True
                | Some (h2c, i) \<Rightarrow> e_magic (engine_of h2c i d) \<noteq> MAGIC_ENGINE) then - EINVAL
      else 0)"

text \<open>The file's private data is set only if the magic number is right.\<close>

definition char_open :: "xdma_cdev \<Rightarrow> int \<times> bool" where
  "char_open xc = (if xc_magic xc \<noteq> MAGIC_CHAR then (- EINVAL, False) else (0, True))"

definition char_close :: "xdma_dev \<Rightarrow> xdma_cdev \<Rightarrow> int" where
  "char_close d xc =
     (if xc_magic xc \<noteq> MAGIC_CHAR then - EINVAL
      else if \<not> xc_xdev xc then - EINVAL
      else if xd_magic d \<noteq> MAGIC_DEVICE then - EINVAL else 0)"

section \<open>One device\<close>

definition upd_cdev :: "cdev_slot \<Rightarrow> (xdma_cdev \<Rightarrow> xdma_cdev) \<Rightarrow> xdma_pci_dev \<Rightarrow> xdma_pci_dev" where
  "upd_cdev sl f xp = xp\<lparr>xp_cdevs := (xp_cdevs xp)(sl := f (xp_cdevs xp sl))\<rparr>"

text \<open>A type that needs an engine and has none is an error; \<open>chan\<close> is the engine's channel.\<close>

definition config_kobject ::
  "int \<Rightarrow> cdev_type \<Rightarrow> xdma_dev \<Rightarrow> xdma_cdev \<Rightarrow> int \<times> xdma_cdev" where
  "config_kobject rv type d xc =
     (let named = (\<lambda>k. (rv, if rv = 0 then xc\<lparr>xc_name := devnode_name type (xd_idx d) k\<rparr> else xc))
      in case type of
           CHAR_EVENTS \<Rightarrow> named (nat (xc_bar xc))
         | t \<Rightarrow> if t \<in> {CHAR_XDMA_H2C, CHAR_XDMA_C2H, CHAR_BYPASS_H2C, CHAR_BYPASS_C2H}
                then (case xc_engine xc of None \<Rightarrow> (- EINVAL, xc)
                      | Some (h2c, i) \<Rightarrow> named (e_channel (engine_of h2c i d)))
                else named 0)"

definition cdev_minor :: "cdev_type \<Rightarrow> nat \<Rightarrow> nat \<Rightarrow> nat" where
  "cdev_minor type bar channel =
     (case type of CHAR_XDMA_H2C \<Rightarrow> 32 + channel | CHAR_XDMA_C2H \<Rightarrow> 36 + channel
      | CHAR_EVENTS \<Rightarrow> 10 + bar | CHAR_BYPASS_H2C \<Rightarrow> 64 + channel
      | CHAR_BYPASS_C2H \<Rightarrow> 68 + channel | CHAR_BYPASS \<Rightarrow> 100
      | t \<Rightarrow> cdev_index t)"

definition create_sys_device ::
  "bool \<Rightarrow> xdma_cdev \<Rightarrow> cdev_registry \<Rightarrow> int \<times> xdma_cdev \<times> cdev_registry" where
  "create_sys_device ok xc r =
     (if \<not> ok then (- 1, xc\<lparr>xc_sys_device := False\<rparr>, r)
      else (0, xc\<lparr>xc_sys_device := True\<rparr>, r\<lparr>kr_sys := xc_cdevno xc # kr_sys r\<rparr>))"

definition cdev_del :: "nat \<times> nat \<Rightarrow> cdev_registry \<Rightarrow> cdev_registry" where
  "cdev_del no r = r\<lparr>kr_cdevs := remove1 no (kr_cdevs r), kr_dels := no # kr_dels r\<rparr>"

definition destroy_xcdev :: "cdev_env \<Rightarrow> xdma_cdev \<Rightarrow> cdev_registry \<Rightarrow> int \<times> cdev_registry" where
  "destroy_xcdev K xc r =
     (if xc_magic xc \<noteq> MAGIC_CHAR then (- EINVAL, r)
      else if \<not> xc_xdev xc then (- EINVAL, r)
      else if \<not> ce_class K then (- EINVAL, r)
      else if \<not> xc_sys_device xc then (- EINVAL, r)
      else (0, cdev_del (xc_cdevno xc) (r\<lparr>kr_sys := remove1 (xc_cdevno xc) (kr_sys r)\<rparr>)))"

text \<open>The two exits of \<^verbatim>\<open>create_xcdev\<close>; the region given back starts at the device's own number.\<close>

definition unregister_region ::
  "int \<Rightarrow> cdev_slot \<Rightarrow> xdma_pci_dev \<Rightarrow> cdev_registry \<Rightarrow> int \<times> xdma_pci_dev \<times> cdev_registry" where
  "unregister_region rv sl xp r =
     (rv, xp, r\<lparr>kr_regions := remove1 (xc_cdevno (xp_cdevs xp sl)) (kr_regions r)\<rparr>)"

definition create_xcdev ::
  "cdev_env \<Rightarrow> xdma_dev \<Rightarrow> cdev_slot \<Rightarrow> int \<Rightarrow> (bool \<times> nat) option \<Rightarrow> cdev_type \<Rightarrow>
     xdma_pci_dev \<times> cdev_registry \<Rightarrow> int \<times> xdma_pci_dev \<times> cdev_registry" where
  "create_xcdev K d sl bar engine type s =
     (let (xp, r) = s;
          (rv, xp, r) = (if xp_major xp \<noteq> 0 then (0, xp, r)
            else case ce_region K of
                   Inl e \<Rightarrow> (e, xp, r)
                 | Inr major \<Rightarrow> (0, xp\<lparr>xp_major := major\<rparr>, r\<lparr>kr_regions := (major, 0) # kr_regions r\<rparr>))
      in if rv \<noteq> 0 then (rv, xp, r)
         else (let (rv, xc) = config_kobject (ce_name K sl) type d ((xp_cdevs xp sl)
                      \<lparr>xc_magic := MAGIC_CHAR, xc_xdev := True, xc_engine := engine, xc_bar := bar\<rparr>);
                   xp = upd_cdev sl (\<lambda>_. xc) xp
               in if rv < 0 then (rv, xp, r)
                  else (let channel = (case engine of None \<Rightarrow> 0 | Some (h2c, i) \<Rightarrow> e_channel (engine_of h2c i d));
                            no = (xp_major xp, cdev_minor type (nat bar) channel);
                            xc = xc\<lparr>xc_cdevno := no\<rparr>;
                            xp = upd_cdev sl (\<lambda>_. xc) xp
                        in if ce_add K sl < 0 then unregister_region (ce_add K sl) sl xp r
                           else (let r = r\<lparr>kr_cdevs := no # kr_cdevs r\<rparr>
                                 in if \<not> ce_class K then (0, xp, r)
                                    else (let (rv, xc, r) = create_sys_device (ce_sys K sl) xc r;
                                              xp = upd_cdev sl (\<lambda>_. xc) xp
                                          in if rv < 0 then unregister_region rv sl xp (cdev_del no r)
                                             else (0, xp, r))))))"

section \<open>The devices of a board\<close>

text \<open>Destroying the devices of a list of members; errors are only reported.\<close>

definition destroy_slots :: "cdev_env \<Rightarrow> xdma_pci_dev \<Rightarrow> cdev_slot list \<Rightarrow> cdev_registry \<Rightarrow> cdev_registry" where
  "destroy_slots K xp sls r = fold (\<lambda>sl r. snd (destroy_xcdev K (xp_cdevs xp sl) r)) sls r"

definition xpdev_destroy_interfaces :: "cdev_env \<Rightarrow> xdma_pci_dev \<Rightarrow> cdev_registry \<Rightarrow> cdev_registry" where
  "xpdev_destroy_interfaces K xp r =
     (let h2c = [0..<xp_h2c_channel_max xp]; c2h = [0..<xp_c2h_channel_max xp];
          group = (\<lambda>f sls r. if xpdev_flag_test xp f then destroy_slots K xp sls r else r);
          r = group XDF_CDEV_SG (map Sgdma_h2c_cdev h2c @ map Sgdma_c2h_cdev c2h) r;
          r = group XDF_CDEV_EVENT (map Events_cdev [0..<xp_user_max xp]) r;
          r = group XDF_CDEV_CTRL [Ctrl_cdev] r;
          r = group XDF_CDEV_USER [User_cdev] r;
          r = group XDF_CDEV_XVC [Xvc_cdev] r;
          r = group XDF_CDEV_BYPASS (map Bypass_h2c_cdev h2c @ map Bypass_c2h_cdev c2h @ [Bypass_cdev_base]) r
      in if xp_major xp \<noteq> 0 then r\<lparr>kr_regions := remove1 (xp_major xp, 0) (kr_regions r)\<rparr> else r)"

text \<open>
  What is created, in order: a device (with its member, BAR or index, engine and type), or a flag
  that is set once the devices before it exist.
\<close>

datatype cdev_item = Make cdev_slot int "(bool \<times> nat) option" cdev_type | Flag xpdev_flags_bits

definition channel_items :: "xdma_dev \<Rightarrow> bool \<Rightarrow> nat \<Rightarrow> (nat \<Rightarrow> cdev_slot) \<Rightarrow> cdev_type \<Rightarrow> cdev_item list" where
  "channel_items d h2c n slot type =
     map (\<lambda>i. Make (slot i) (int i) (Some (h2c, i)) type)
       (filter (\<lambda>i. e_magic (engine_of h2c i d) = MAGIC_ENGINE) [0..<n])"

definition interface_items :: "xdma_dev \<Rightarrow> xdma_pci_dev \<Rightarrow> cdev_item list" where
  "interface_items d xp =
     [Make Ctrl_cdev (xd_config_bar_idx d) None CHAR_CTRL, Flag XDF_CDEV_CTRL] @
     map (\<lambda>i. Make (Events_cdev i) (int i) None CHAR_EVENTS) [0..<xp_user_max xp] @ [Flag XDF_CDEV_EVENT] @
     channel_items d True (xp_h2c_channel_max xp) Sgdma_h2c_cdev CHAR_XDMA_H2C @
     channel_items d False (xp_c2h_channel_max xp) Sgdma_c2h_cdev CHAR_XDMA_C2H @ [Flag XDF_CDEV_SG] @
     (if xd_bypass_bar_idx d > 0 then
        channel_items d True (xp_h2c_channel_max xp) Bypass_h2c_cdev CHAR_BYPASS_H2C @
        channel_items d False (xp_c2h_channel_max xp) Bypass_c2h_cdev CHAR_BYPASS_C2H @
        [Make Bypass_cdev_base (xd_bypass_bar_idx d) None CHAR_BYPASS, Flag XDF_CDEV_BYPASS] else []) @
     (if xd_user_bar_idx d \<ge> 0 then
        [Make User_cdev (xd_user_bar_idx d) None CHAR_USER, Flag XDF_CDEV_USER,
         Make Xvc_cdev (xd_user_bar_idx d) None CHAR_XVC, Flag XDF_CDEV_XVC] else [])"

fun create_items ::
  "cdev_env \<Rightarrow> xdma_dev \<Rightarrow> cdev_item list \<Rightarrow> xdma_pci_dev \<times> cdev_registry \<Rightarrow> int \<times> xdma_pci_dev \<times> cdev_registry" where
  "create_items K d [] s = (0, s)"
| "create_items K d (Flag f # is) s = create_items K d is (xpdev_flag_set f (fst s), snd s)"
| "create_items K d (Make sl bar engine type # is) s =
     (let (rv, s) = create_xcdev K d sl bar engine type s
      in if rv < 0 then (rv, s) else create_items K d is s)"

definition xpdev_create_interfaces ::
  "cdev_env \<Rightarrow> xdma_dev \<Rightarrow> xdma_pci_dev \<times> cdev_registry \<Rightarrow> int \<times> xdma_pci_dev \<times> cdev_registry" where
  "xpdev_create_interfaces K d s =
     (let (rv, xp, r) = create_items K d (interface_items d (fst s)) s
      in if rv < 0 then (- 1, xp, xpdev_destroy_interfaces K xp r) else (0, xp, r))"

end
