(* ===== verification/Xdma_Mod.thy ===== *)
theory Xdma_Mod
  imports Xdma_Cdev
begin

text \<open>
  The PCI driver (\<^verbatim>\<open>xdma_mod.c\<close>): the identifiers it binds to, probing and removing a
  board, and the PCI error and reset handlers. A board's \<^verbatim>\<open>struct xdma_pci_dev\<close> carries the
  handle \<^verbatim>\<open>xdev\<close> of its device beside it, if that is set.
\<close>

section \<open>The boards\<close>

definition pci_ids :: "(nat \<times> nat) list" where
  "pci_ids = [(0x10ee, 0x9048), (0x10ee, 0x9044), (0x10ee, 0x9042), (0x10ee, 0x9041), (0x10ee, 0x903f),
     (0x10ee, 0x9038), (0x10ee, 0x9028), (0x10ee, 0x9018), (0x10ee, 0x9034), (0x10ee, 0x9024),
     (0x10ee, 0x9014), (0x10ee, 0x9032), (0x10ee, 0x9022), (0x10ee, 0x9012), (0x10ee, 0x9031),
     (0x10ee, 0x9021), (0x10ee, 0x9011), (0x10ee, 0x8011), (0x10ee, 0x8012), (0x10ee, 0x8014),
     (0x10ee, 0x8018), (0x10ee, 0x8021), (0x10ee, 0x8022), (0x10ee, 0x8024), (0x10ee, 0x8028),
     (0x10ee, 0x8031), (0x10ee, 0x8032), (0x10ee, 0x8034), (0x10ee, 0x8038), (0x10ee, 0x7011),
     (0x10ee, 0x7012), (0x10ee, 0x7014), (0x10ee, 0x7018), (0x10ee, 0x7021), (0x10ee, 0x7022),
     (0x10ee, 0x7024), (0x10ee, 0x7028), (0x10ee, 0x7031), (0x10ee, 0x7032), (0x10ee, 0x7034),
     (0x10ee, 0x7038), (0x10ee, 0x6828), (0x10ee, 0x6830), (0x10ee, 0x6928), (0x10ee, 0x6930),
     (0x10ee, 0x6a28), (0x10ee, 0x6a30), (0x10ee, 0x6d30), (0x10ee, 0x4808), (0x10ee, 0x4828),
     (0x10ee, 0x4908), (0x10ee, 0x4a28), (0x10ee, 0x4b28), (0x10ee, 0x2808), (0x1d0f, 0xf000),
     (0x1d0f, 0xf001)]"

record board_sys =
  bd_sys :: xdma_sys
  bd_reg :: cdev_registry
  xpdev_cnt :: nat
  bd_drvdata :: "nat \<Rightarrow> (xdma_pci_dev \<times> nat option) option"

definition xpdev_alloc :: "bool \<Rightarrow> board_sys \<Rightarrow> xdma_pci_dev option \<times> board_sys" where
  "xpdev_alloc oom s =
     (if oom then (None, s)
      else (Some \<lparr>xp_magic = MAGIC_DEVICE, xp_major = 0, xp_user_max = MAX_USER_IRQ,
                  xp_c2h_channel_max = XDMA_CHANNEL_NUM_MAX, xp_h2c_channel_max = XDMA_CHANNEL_NUM_MAX,
                  xp_flags = 0, xp_cdevs = (\<lambda>_. zero_cdev)\<rparr>,
            s\<lparr>xpdev_cnt := Suc (xpdev_cnt s)\<rparr>))"

text \<open>Closing a device without a handle does nothing.\<close>

definition xpdev_free ::
  "('x) xenv_scheme \<Rightarrow> open_env \<Rightarrow> cdev_env \<Rightarrow> nat \<Rightarrow> xdma_pci_dev \<Rightarrow> nat option \<Rightarrow> board_sys \<Rightarrow> board_sys" where
  "xpdev_free E K C pdev xp hndl s =
     (let s = s\<lparr>bd_reg := xpdev_destroy_interfaces C xp (bd_reg s)\<rparr>;
          s = (case hndl of None \<Rightarrow> s | Some h \<Rightarrow> s\<lparr>bd_sys := xdma_device_close E K pdev h (bd_sys s)\<rparr>)
      in s\<lparr>xpdev_cnt := xpdev_cnt s - 1\<rparr>)"

section \<open>Probe and remove\<close>

text \<open>The mask of the user interrupts that are enabled for \<open>n\<close> of them.\<close>

definition user_irq_mask :: "nat \<Rightarrow> u32" where
  "user_irq_mask n = push_bit (n + 1) 1 - 1"

text \<open>\<open>oom\<close> is the allocation of the board's structure, \<open>h\<close> the address of its device object.\<close>

definition probe_one ::
  "('x) xenv_scheme \<Rightarrow> open_env \<Rightarrow> cdev_env \<Rightarrow> bool \<Rightarrow> nat \<Rightarrow> nat \<Rightarrow> board_sys \<Rightarrow> int \<times> board_sys" where
  "probe_one E K C oom h pdev s =
     (case xpdev_alloc oom s of
        (None, s) \<Rightarrow> (- ENOMEM, s)
      | (Some xp, s) \<Rightarrow>
         (let (hndl, sys) = xdma_device_open E K h pdev (xp_user_max xp) (xp_h2c_channel_max xp)
                              (xp_c2h_channel_max xp) (bd_sys s);
              s = s\<lparr>bd_sys := sys\<rparr>;
              err_out = (\<lambda>rv xp xdev s. (rv, xpdev_free E K C pdev xp xdev s))
          in case hndl of
               None \<Rightarrow> err_out (- EINVAL) xp None s
             | Some hndl \<Rightarrow>
                (let (u, n, m) = open_counts hndl sys;
                     xp = xp\<lparr>xp_user_max := u, xp_h2c_channel_max := n, xp_c2h_channel_max := m\<rparr>
                 in if u > MAX_USER_IRQ \<or> n > XDMA_CHANNEL_NUM_MAX \<or> m > XDMA_CHANNEL_NUM_MAX
                    then err_out (- EINVAL) xp None s
                    else (let (rv, d) = (if u \<noteq> 0
                                then xdma_user_isr_enable E (debug_check_dev_hndl pdev hndl sys) (user_irq_mask u)
                                       (sy_dev sys hndl)
                                else (0, sy_dev sys hndl));
                              s = s\<lparr>bd_sys := upd_dev hndl (\<lambda>_. d) sys\<rparr>
                          in if rv \<noteq> 0 then err_out rv xp None s
                             else (case xdev_find_by_pdev pdev (bd_sys s) of
                                     None \<Rightarrow> err_out (- EINVAL) xp None s
                                   | Some xdev \<Rightarrow>
                                      if hndl \<noteq> xdev then err_out (- EINVAL) xp None s
                                      else (let (rv, xp, r) = xpdev_create_interfaces C (sy_dev (bd_sys s) hndl) (xp, bd_reg s);
                                                s = s\<lparr>bd_reg := r\<rparr>
                                            in if rv \<noteq> 0 then err_out rv xp (Some hndl) s
                                               else (0, s\<lparr>bd_drvdata := (bd_drvdata s)(pdev \<mapsto> (xp, Some hndl))\<rparr>)))))))"

definition remove_one ::
  "('x) xenv_scheme \<Rightarrow> open_env \<Rightarrow> cdev_env \<Rightarrow> nat \<Rightarrow> board_sys \<Rightarrow> board_sys" where
  "remove_one E K C pdev s =
     (case bd_drvdata s pdev of
        None \<Rightarrow> s
      | Some (xp, hndl) \<Rightarrow>
          (let s = xpdev_free E K C pdev xp hndl s in s\<lparr>bd_drvdata := (bd_drvdata s)(pdev := None)\<rparr>))"

section \<open>Errors and resets of the bus\<close>

datatype pci_channel_state = Pci_channel_io_normal | Pci_channel_io_frozen | Pci_channel_io_perm_failure

datatype pci_ers_result = PCI_ERS_RESULT_CAN_RECOVER | PCI_ERS_RESULT_NEED_RESET
  | PCI_ERS_RESULT_DISCONNECT | PCI_ERS_RESULT_RECOVERED

text \<open>The device of a bound board, going offline or online; no handle does nothing.\<close>

definition board_offline :: "('x) xenv_scheme \<Rightarrow> open_env \<Rightarrow> nat \<Rightarrow> board_sys \<Rightarrow> board_sys" where
  "board_offline E K pdev s =
     (case bd_drvdata s pdev of
        Some (_, Some h) \<Rightarrow> s\<lparr>bd_sys := xdma_device_offline E K pdev h (bd_sys s)\<rparr>
      | _ \<Rightarrow> s)"

definition board_online :: "('x) xenv_scheme \<Rightarrow> open_env \<Rightarrow> nat \<Rightarrow> board_sys \<Rightarrow> board_sys" where
  "board_online E K pdev s =
     (case bd_drvdata s pdev of
        Some (_, Some h) \<Rightarrow> s\<lparr>bd_sys := xdma_device_online E K pdev h (bd_sys s)\<rparr>
      | _ \<Rightarrow> s)"

definition xdma_error_detected ::
  "('x) xenv_scheme \<Rightarrow> open_env \<Rightarrow> nat \<Rightarrow> pci_channel_state \<Rightarrow> board_sys \<Rightarrow> pci_ers_result \<times> board_sys" where
  "xdma_error_detected E K pdev state s =
     (case state of
        Pci_channel_io_normal \<Rightarrow> (PCI_ERS_RESULT_CAN_RECOVER, s)
      | Pci_channel_io_frozen \<Rightarrow>
          (let s = board_offline E K pdev s
           in (PCI_ERS_RESULT_NEED_RESET, s\<lparr>bd_sys := pci_disable_device pdev (bd_sys s)\<rparr>))
      | Pci_channel_io_perm_failure \<Rightarrow> (PCI_ERS_RESULT_DISCONNECT, s))"

text \<open>\<open>rv\<close> is what \<^verbatim>\<open>pci_enable_device_mem\<close> returns.\<close>

definition xdma_slot_reset ::
  "('x) xenv_scheme \<Rightarrow> open_env \<Rightarrow> int \<Rightarrow> nat \<Rightarrow> board_sys \<Rightarrow> pci_ers_result \<times> board_sys" where
  "xdma_slot_reset E K rv pdev s =
     (if rv \<noteq> 0 then (PCI_ERS_RESULT_DISCONNECT, s)
      else (let sys = bd_sys s;
                s = s\<lparr>bd_sys := sys\<lparr>sy_enabled := (sy_enabled sys)(pdev := Suc (sy_enabled sys pdev))\<rparr>\<rparr>
            in (PCI_ERS_RESULT_RECOVERED, board_online E K pdev s)))"

definition xdma_reset_prepare :: "('x) xenv_scheme \<Rightarrow> open_env \<Rightarrow> nat \<Rightarrow> board_sys \<Rightarrow> board_sys" where
  "xdma_reset_prepare E K pdev s = board_offline E K pdev s"

definition xdma_reset_done :: "('x) xenv_scheme \<Rightarrow> open_env \<Rightarrow> nat \<Rightarrow> board_sys \<Rightarrow> board_sys" where
  "xdma_reset_done E K pdev s = board_online E K pdev s"

section \<open>Loading and unloading\<close>

text \<open>The module's own state: the limit of a descriptor and what of the kernel's it holds.\<close>

record mod_state =
  ms_desc_blen_max :: u32
  ms_class :: bool
  ms_cache :: bool
  ms_driver :: bool

definition xdma_cdev_init :: "bool \<Rightarrow> bool \<Rightarrow> mod_state \<Rightarrow> int \<times> mod_state" where
  "xdma_cdev_init class_ok cache_ok s =
     (if \<not> class_ok then (- EINVAL, s)
      else (let s = s\<lparr>ms_class := True\<rparr>
            in if \<not> cache_ok then (- ENOMEM, s) else (0, s\<lparr>ms_cache := True\<rparr>)))"

definition xdma_cdev_cleanup :: "mod_state \<Rightarrow> mod_state" where
  "xdma_cdev_cleanup s = s\<lparr>ms_cache := False, ms_class := False\<rparr>"

text \<open>\<open>reg\<close> is what \<^verbatim>\<open>pci_register_driver\<close> returns.\<close>

definition xdma_mod_init :: "bool \<Rightarrow> bool \<Rightarrow> int \<Rightarrow> mod_state \<Rightarrow> int \<times> mod_state" where
  "xdma_mod_init class_ok cache_ok reg s =
     (let s = (if ms_desc_blen_max s > 0x0fffffff then s\<lparr>ms_desc_blen_max := 0x0fffffff\<rparr> else s);
          (rv, s) = xdma_cdev_init class_ok cache_ok s
      in if rv < 0 then (rv, s) else (reg, s\<lparr>ms_driver := reg = 0\<rparr>))"

definition xdma_mod_exit :: "mod_state \<Rightarrow> mod_state" where
  "xdma_mod_exit s = xdma_cdev_cleanup (s\<lparr>ms_driver := False\<rparr>)"

end
