(* ===== verification/Xdma_Cdev_Spec.thy ===== *)
theory Xdma_Cdev_Spec
  imports Xdma_Cdev Xdma_Device_Props
begin

text \<open>
  The character devices of a board: their numbers differ and stay in the board's region, creating
  them and destroying them again leaves nothing in the kernel's registries, and what a failed creation
  leaves.
\<close>

declare split_paired_All [simp del] split_paired_Ex [simp del]

section \<open>Creating one device\<close>

text \<open>The class exists, a failing region request returns an error, a major number is not 0.\<close>

definition kernel_ok :: "cdev_env \<Rightarrow> bool" where
  "kernel_ok K \<longleftrightarrow> ce_class K \<and> (case ce_region K of Inl e \<Rightarrow> e < 0 | Inr m \<Rightarrow> m \<noteq> 0)"

definition made :: "xdma_cdev \<Rightarrow> bool" where
  "made xc \<longleftrightarrow> xc_magic xc = MAGIC_CHAR \<and> xc_xdev xc \<and> xc_sys_device xc"

definition item_minor :: "xdma_dev \<Rightarrow> int \<Rightarrow> (bool \<times> nat) option \<Rightarrow> cdev_type \<Rightarrow> nat" where
  "item_minor d bar engine type = cdev_minor type (nat bar)
     (case engine of None \<Rightarrow> 0 | Some (h2c, i) \<Rightarrow> e_channel (engine_of h2c i d))"

lemma upd_cdev_simps [simp]:
  "xp_major (upd_cdev sl f xp) = xp_major xp" "xp_user_max (upd_cdev sl f xp) = xp_user_max xp"
  "xp_c2h_channel_max (upd_cdev sl f xp) = xp_c2h_channel_max xp"
  "xp_h2c_channel_max (upd_cdev sl f xp) = xp_h2c_channel_max xp"
  "xp_flags (upd_cdev sl f xp) = xp_flags xp"
  "xp_cdevs (upd_cdev sl f xp) = (xp_cdevs xp)(sl := f (xp_cdevs xp sl))"
  by (simp_all add: upd_cdev_def)

lemma config_kobject_frame:
  "config_kobject rv type d xc = (rv', xc') \<Longrightarrow>
     xc_magic xc' = xc_magic xc \<and> xc_xdev xc' = xc_xdev xc \<and> xc_sys_device xc' = xc_sys_device xc"
  by (auto simp: config_kobject_def Let_def split: cdev_type.splits option.splits if_splits)

lemma create_xcdev_ok:
  assumes K: "kernel_ok K" and run: "create_xcdev K d sl bar engine type (xp, r) = (rv, xp', r')"
    and rv: "0 \<le> rv"
  shows "\<exists>xc m. m \<noteq> 0 \<and> made xc \<and> xc_cdevno xc = (m, item_minor d bar engine type) \<and>
      xp' = xp\<lparr>xp_major := m, xp_cdevs := (xp_cdevs xp)(sl := xc)\<rparr> \<and> (xp_major xp \<noteq> 0 \<longrightarrow> m = xp_major xp) \<and>
      r' = r\<lparr>kr_cdevs := xc_cdevno xc # kr_cdevs r, kr_sys := xc_cdevno xc # kr_sys r,
             kr_regions := if xp_major xp = 0 then (m, 0) # kr_regions r else kr_regions r\<rparr>"
proof -
  have cls: "ce_class K" using K by (simp add: kernel_ok_def)
  define xr where "xr = (if xp_major xp \<noteq> 0 then (0, xp, r)
            else case ce_region K of
                   Inl e \<Rightarrow> (e, xp, r)
                 | Inr major \<Rightarrow> (0, xp\<lparr>xp_major := major\<rparr>, r\<lparr>kr_regions := (major, 0) # kr_regions r\<rparr>))"
  obtain rv0 xp0 r0 where x: "xr = (rv0, xp0, r0)" by (metis prod_cases3)
  have rv0: "rv0 \<le> 0" using x K by (auto simp: xr_def kernel_ok_def split: if_splits sum.splits)
  obtain rv1 xc1 where c: "config_kobject (ce_name K sl) type d ((xp_cdevs xp0 sl)
      \<lparr>xc_magic := MAGIC_CHAR, xc_xdev := True, xc_engine := engine, xc_bar := bar\<rparr>) = (rv1, xc1)" by fastforce
  note run = run [unfolded create_xcdev_def Let_def prod.case, folded xr_def, unfolded x prod.case c Let_def]
  have z: "rv0 = 0" using run rv rv0 by (auto split: if_splits)
  then have "\<exists>m. m \<noteq> 0 \<and> xp0 = xp\<lparr>xp_major := m\<rparr> \<and> (xp_major xp \<noteq> 0 \<longrightarrow> m = xp_major xp) \<and>
      r0 = r\<lparr>kr_regions := if xp_major xp = 0 then (m, 0) # kr_regions r else kr_regions r\<rparr>"
    using x K by (auto simp: xr_def kernel_ok_def split: if_splits sum.splits)
  then obtain m where m: "m \<noteq> 0" "xp0 = xp\<lparr>xp_major := m\<rparr>" "xp_major xp \<noteq> 0 \<longrightarrow> m = xp_major xp"
      "r0 = r\<lparr>kr_regions := if xp_major xp = 0 then (m, 0) # kr_regions r else kr_regions r\<rparr>" by blast
  have n: "\<not> rv1 < 0" "\<not> ce_add K sl < 0" "ce_sys K sl"
    using run rv cls z by (auto simp: unregister_region_def create_sys_device_def split: if_splits)
  let ?xc = "xc1\<lparr>xc_cdevno := (m, item_minor d bar engine type), xc_sys_device := True\<rparr>"
  have "made ?xc" using config_kobject_frame [OF c] by (simp add: made_def)
  moreover have "xp' = xp\<lparr>xp_major := m, xp_cdevs := (xp_cdevs xp)(sl := ?xc)\<rparr> \<and>
      r' = r0\<lparr>kr_cdevs := xc_cdevno ?xc # kr_cdevs r, kr_sys := xc_cdevno ?xc # kr_sys r\<rparr>"
    using run n cls z m by (simp add: create_sys_device_def upd_cdev_def item_minor_def)
  ultimately show ?thesis using m by (intro exI [of _ ?xc] exI [of _ m]) simp
qed

section \<open>Creating a list of devices\<close>

fun item_slots :: "cdev_item list \<Rightarrow> cdev_slot list" where
  "item_slots [] = []"
| "item_slots (Make sl bar engine type # is) = sl # item_slots is"
| "item_slots (Flag f # is) = item_slots is"

fun item_flags :: "cdev_item list \<Rightarrow> xpdev_flags_bits list" where
  "item_flags [] = []"
| "item_flags (Make sl bar engine type # is) = item_flags is"
| "item_flags (Flag f # is) = f # item_flags is"

fun item_minors :: "xdma_dev \<Rightarrow> cdev_item list \<Rightarrow> nat list" where
  "item_minors d [] = []"
| "item_minors d (Make sl bar engine type # is) = item_minor d bar engine type # item_minors d is"
| "item_minors d (Flag f # is) = item_minors d is"

lemma item_append [simp]:
  "item_slots (is @ js) = item_slots is @ item_slots js"
  "item_flags (is @ js) = item_flags is @ item_flags js"
  "item_minors d (is @ js) = item_minors d is @ item_minors d js"
  by (induction "is" rule: item_slots.induct) simp_all

lemma flag_test_set [simp]:
  "xpdev_flag_test (xpdev_flag_set f xp) g \<longleftrightarrow> f = g \<or> xpdev_flag_test xp g"
proof -
  have inj: "flag_bit f = flag_bit g \<longleftrightarrow> f = g" by (cases f; cases g) simp_all
  have lt: "flag_bit h < 32" for h by (cases h) simp_all
  have t: "xpdev_flag_test x h \<longleftrightarrow> bit (xp_flags x) (flag_bit h)" for x h
    by (simp add: xpdev_flag_test_def bit_iff_and_push_bit_not_eq_0)
  show ?thesis
    unfolding t using lt [of g] inj by (auto simp: xpdev_flag_set_def bit_or_iff bit_exp_iff)
qed

lemma flag_set_frame [simp]:
  "xp_major (xpdev_flag_set f xp) = xp_major xp" "xp_cdevs (xpdev_flag_set f xp) = xp_cdevs xp"
  "xp_user_max (xpdev_flag_set f xp) = xp_user_max xp"
  "xp_c2h_channel_max (xpdev_flag_set f xp) = xp_c2h_channel_max xp"
  "xp_h2c_channel_max (xpdev_flag_set f xp) = xp_h2c_channel_max xp"
  by (simp_all add: xpdev_flag_set_def)

text \<open>What a list of items makes of a board and the registries.\<close>

definition items_made ::
  "xdma_dev \<Rightarrow> nat \<Rightarrow> cdev_item list \<Rightarrow> xdma_pci_dev \<times> cdev_registry \<Rightarrow> xdma_pci_dev \<times> cdev_registry \<Rightarrow> bool" where
  "items_made d m is s s' \<longleftrightarrow>
     xp_major (fst s') = m \<and> xp_user_max (fst s') = xp_user_max (fst s) \<and>
     xp_c2h_channel_max (fst s') = xp_c2h_channel_max (fst s) \<and>
     xp_h2c_channel_max (fst s') = xp_h2c_channel_max (fst s) \<and>
     (\<forall>f. xpdev_flag_test (fst s') f \<longleftrightarrow> f \<in> set (item_flags is) \<or> xpdev_flag_test (fst s) f) \<and>
     (\<forall>sl \<in> set (item_slots is). made (xp_cdevs (fst s') sl)) \<and>
     (\<forall>sl. sl \<notin> set (item_slots is) \<longrightarrow> xp_cdevs (fst s') sl = xp_cdevs (fst s) sl) \<and>
     map (\<lambda>sl. xc_cdevno (xp_cdevs (fst s') sl)) (item_slots is) = map (Pair m) (item_minors d is) \<and>
     kr_cdevs (snd s') = rev (map (Pair m) (item_minors d is)) @ kr_cdevs (snd s) \<and>
     kr_sys (snd s') = rev (map (Pair m) (item_minors d is)) @ kr_sys (snd s) \<and>
     kr_regions (snd s') = kr_regions (snd s) \<and> kr_dels (snd s') = kr_dels (snd s)"

lemma create_items_ok:
  assumes K: "kernel_ok K"
  shows "create_items K d is s = (rv, s') \<Longrightarrow> 0 \<le> rv \<Longrightarrow> distinct (item_slots is) \<Longrightarrow>
    xp_major (fst s) = m \<Longrightarrow> m \<noteq> 0 \<Longrightarrow> items_made d m is s s'"
proof (induction "is" arbitrary: s rule: item_slots.induct)
  case 1
  then show ?case by (simp add: items_made_def)
next
  case (3 f "is")
  then have run: "create_items K d is (xpdev_flag_set f (fst s), snd s) = (rv, s')" by simp
  have "items_made d m is (xpdev_flag_set f (fst s), snd s) s'"
    using "3.IH" [OF run] "3.prems" by simp
  then show ?case unfolding items_made_def by auto
next
  case (2 sl bar engine type "is")
  obtain xp r where s: "s = (xp, r)" by (cases s)
  obtain rv1 xp1 r1 where c: "create_xcdev K d sl bar engine type (xp, r) = (rv1, xp1, r1)" by (metis prod_cases3)
  have rv1: "\<not> rv1 < 0" and run: "create_items K d is (xp1, r1) = (rv, s')"
    using "2.prems"(1,2) c s by (auto split: if_splits)
  from rv1 have "0 \<le> rv1" by simp
  from create_xcdev_ok [OF K c this] "2.prems"(4,5) s obtain xc where xc: "made xc"
    "xc_cdevno xc = (m, item_minor d bar engine type)"
    "xp1 = xp\<lparr>xp_major := m, xp_cdevs := (xp_cdevs xp)(sl := xc)\<rparr>"
    "r1 = r\<lparr>kr_cdevs := xc_cdevno xc # kr_cdevs r, kr_sys := xc_cdevno xc # kr_sys r\<rparr>"
    by auto
  have IH: "items_made d m is (xp1, r1) s'"
    using "2.IH" [OF run] "2.prems"(2,3,5) xc(3) by simp
  have sl: "sl \<notin> set (item_slots is)" using "2.prems"(3) by simp
  have at: "xp_cdevs (fst s') sl = xc" using IH sl xc(3) by (auto simp: items_made_def)
  have fl: "xpdev_flag_test xp1 f = xpdev_flag_test xp f" for f
    by (simp add: xc(3) xpdev_flag_test_def)
  show ?case
    using IH xc(1,2) at sl fl unfolding items_made_def s by (auto simp: xc(3,4))
qed

section \<open>The numbers of a board's devices\<close>

lemma channel_items_simps:
  "item_slots (channel_items d h2c n mk type) =
     map mk (filter (\<lambda>i. e_magic (engine_of h2c i d) = MAGIC_ENGINE) [0..<n])"
  "item_flags (channel_items d h2c n mk type) = []"
  "item_minors d (channel_items d h2c n mk type) =
     map (\<lambda>i. cdev_minor type i (e_channel (engine_of h2c i d)))
       (filter (\<lambda>i. e_magic (engine_of h2c i d) = MAGIC_ENGINE) [0..<n])"
proof -
  have m: "item_slots (map (\<lambda>i. Make (mk i) (int i) (Some (h2c, i)) type) xs) = map mk xs"
    "item_flags (map (\<lambda>i. Make (mk i) (int i) (Some (h2c, i)) type) xs) = []"
    "item_minors d (map (\<lambda>i. Make (mk i) (int i) (Some (h2c, i)) type) xs) =
      map (\<lambda>i. cdev_minor type i (e_channel (engine_of h2c i d))) xs" for xs
    by (induction xs) (simp_all add: item_minor_def)
  show "item_slots (channel_items d h2c n mk type) =
     map mk (filter (\<lambda>i. e_magic (engine_of h2c i d) = MAGIC_ENGINE) [0..<n])"
    "item_flags (channel_items d h2c n mk type) = []"
    "item_minors d (channel_items d h2c n mk type) =
     map (\<lambda>i. cdev_minor type i (e_channel (engine_of h2c i d)))
       (filter (\<lambda>i. e_magic (engine_of h2c i d) = MAGIC_ENGINE) [0..<n])"
    by (simp_all add: channel_items_def m)
qed

lemma event_items_simps:
  "item_slots (map (\<lambda>i. Make (Events_cdev i) (int i) None CHAR_EVENTS) xs) = map Events_cdev xs"
  "item_flags (map (\<lambda>i. Make (Events_cdev i) (int i) None CHAR_EVENTS) xs) = []"
  "item_minors d (map (\<lambda>i. Make (Events_cdev i) (int i) None CHAR_EVENTS) xs) = map (\<lambda>i. 10 + i) xs"
  by (induction xs) (simp_all add: item_minor_def cdev_minor_def)

lemma interface_slots_distinct: "distinct (item_slots (interface_items d xp))"
  by (auto simp: interface_items_def channel_items_simps event_items_simps distinct_map inj_on_def)

text \<open>A board whose limits are those of its device, the engines of which are open.\<close>

definition board_of :: "xdma_dev \<Rightarrow> xdma_pci_dev \<Rightarrow> bool" where
  "board_of d xp \<longleftrightarrow> engines_open d \<and> xp_user_max xp \<le> MAX_USER_IRQ \<and>
     xp_h2c_channel_max xp = chan_max True d \<and> xp_c2h_channel_max xp = chan_max False d"

lemma channel_minors:
  assumes "engines_open d" and "n = chan_max h2c d"
    and "\<And>i. i < 4 \<Longrightarrow> cdev_minor type i i = base + i"
  shows "item_minors d (channel_items d h2c n mk type) = map ((+) base) [0..<n]"
proof -
  have o: "n \<le> 4" "i < n \<Longrightarrow> engine_ready h2c i (engine_of h2c i d)" for i
    using assms(1,2) unfolding engines_open_def engine_of_nth by blast+
  have f: "filter (\<lambda>i. e_magic (engine_of h2c i d) = MAGIC_ENGINE) [0..<n] = [0..<n]"
    using o(2) by (simp add: engine_ready_def)
  show ?thesis
    unfolding channel_items_simps f
  proof (rule map_cong [OF refl])
    fix i assume "i \<in> set [0..<n]"
    then have "i < n" by simp
    with o have "i < 4" "e_channel (engine_of h2c i d) = i" unfolding engine_ready_def by (linarith, blast)
    then show "cdev_minor type i (e_channel (engine_of h2c i d)) = base + i" using assms(3) by simp
  qed
qed

lemma interface_minors:
  assumes "board_of d xp"
  shows "distinct (item_minors d (interface_items d xp)) \<and> (\<forall>n \<in> set (item_minors d (interface_items d xp)). n < 255)"
proof -
  have o: "engines_open d" and u: "xp_user_max xp \<le> 16"
    and c: "xp_h2c_channel_max xp = chan_max True d" "xp_c2h_channel_max xp = chan_max False d"
    using assms by (simp_all add: board_of_def)
  have n: "chan_max b d \<le> 4" for b using o unfolding engines_open_def by blast
  have base: "cdev_minor CHAR_XDMA_H2C i i = 32 + i" "cdev_minor CHAR_XDMA_C2H i i = 36 + i"
    "cdev_minor CHAR_BYPASS_H2C i i = 64 + i" "cdev_minor CHAR_BYPASS_C2H i i = 68 + i" for i
    by (simp_all add: cdev_minor_def)
  note m = channel_minors [OF o refl base(1)] channel_minors [OF o refl base(2)]
    channel_minors [OF o refl base(3)] channel_minors [OF o refl base(4)]
  show ?thesis
    using n [of True] n [of False] u c
    by (auto simp: interface_items_def m event_items_simps item_minor_def cdev_minor_def distinct_map inj_on_def)
qed

section \<open>The devices of a board\<close>

definition fresh_board :: "xdma_pci_dev \<Rightarrow> bool" where
  "fresh_board xp \<longleftrightarrow> xp_major xp = 0 \<and> xp_flags xp = 0 \<and> xp_cdevs xp = (\<lambda>_. zero_cdev)"

lemma create_region:
  assumes "xp_major xp = 0" and "ce_region K = Inr m" and "m \<noteq> 0"
  shows "create_xcdev K d sl bar engine type (xp, r) =
    create_xcdev K d sl bar engine type (xp\<lparr>xp_major := m\<rparr>, r\<lparr>kr_regions := (m, 0) # kr_regions r\<rparr>)"
  using assms by (simp add: create_xcdev_def)

lemma interfaces_created:
  assumes K: "kernel_ok K" and fresh: "xp_major xp = 0"
    and run: "create_items K d (interface_items d xp) (xp, r) = (rv, s')" and rv: "0 \<le> rv"
  shows "\<exists>m. m \<noteq> 0 \<and> items_made d m (interface_items d xp)
    (xp\<lparr>xp_major := m\<rparr>, r\<lparr>kr_regions := (m, 0) # kr_regions r\<rparr>) s'"
proof (cases "ce_region K")
  case (Inl e)
  then have "create_xcdev K d Ctrl_cdev (xd_config_bar_idx d) None CHAR_CTRL (xp, r) = (e, xp, r)" "e < 0"
    using K fresh by (auto simp: create_xcdev_def kernel_ok_def)
  then show ?thesis using run rv by (simp add: interface_items_def)
next
  case (Inr m)
  then have m: "m \<noteq> 0" using K by (simp add: kernel_ok_def)
  have "create_items K d (interface_items d xp) (xp\<lparr>xp_major := m\<rparr>, r\<lparr>kr_regions := (m, 0) # kr_regions r\<rparr>) = (rv, s')"
    using run create_region [OF fresh Inr m] by (simp add: interface_items_def)
  from create_items_ok [OF K this rv interface_slots_distinct _ m] m show ?thesis by auto
qed

text \<open>Destroying a list of members.\<close>

lemma destroy_one:
  assumes "ce_class K"
  shows "made xc \<Longrightarrow> destroy_xcdev K xc r =
      (0, cdev_del (xc_cdevno xc) (r\<lparr>kr_sys := remove1 (xc_cdevno xc) (kr_sys r)\<rparr>))"
    and "xc_magic xc \<noteq> MAGIC_CHAR \<Longrightarrow> snd (destroy_xcdev K xc r) = r"
  using assms by (simp_all add: destroy_xcdev_def made_def)

lemma destroy_slots_simps [simp]:
  "destroy_slots K xp [] r = r"
  "destroy_slots K xp (sl # sls) r = destroy_slots K xp sls (snd (destroy_xcdev K (xp_cdevs xp sl) r))"
  "destroy_slots K xp (sls @ sls') r = destroy_slots K xp sls' (destroy_slots K xp sls r)"
  by (simp_all add: destroy_slots_def)

lemma destroy_slots_removes:
  assumes "ce_class K" and "\<forall>sl \<in> set sls. made (xp_cdevs xp sl) \<or> xc_magic (xp_cdevs xp sl) \<noteq> MAGIC_CHAR"
  shows "mset (kr_cdevs (destroy_slots K xp sls r)) =
      mset (kr_cdevs r) - mset (map (\<lambda>sl. xc_cdevno (xp_cdevs xp sl)) (filter (\<lambda>sl. made (xp_cdevs xp sl)) sls)) \<and>
    mset (kr_sys (destroy_slots K xp sls r)) =
      mset (kr_sys r) - mset (map (\<lambda>sl. xc_cdevno (xp_cdevs xp sl)) (filter (\<lambda>sl. made (xp_cdevs xp sl)) sls)) \<and>
    kr_regions (destroy_slots K xp sls r) = kr_regions r"
  using assms(2)
proof (induction sls arbitrary: r)
  case (Cons sl sls)
  show ?case
  proof (cases "made (xp_cdevs xp sl)")
    case True
    have "A - {#x#} - B = A - add_mset x B" for A B :: "(nat \<times> nat) multiset" and x
      by (rule multiset_eqI) simp
    with True show ?thesis using Cons by (simp add: destroy_one [OF assms(1)] cdev_del_def)
  next
    case False
    then have "xc_magic (xp_cdevs xp sl) \<noteq> MAGIC_CHAR" using Cons.prems by simp
    then show ?thesis using Cons False by (simp add: destroy_one(2) [OF assms(1)])
  qed
qed simp

text \<open>The members a board destroys.\<close>

definition destroyed :: "xdma_pci_dev \<Rightarrow> cdev_slot list" where
  "destroyed xp = (let h2c = [0..<xp_h2c_channel_max xp]; c2h = [0..<xp_c2h_channel_max xp];
       group = (\<lambda>f sls. if xpdev_flag_test xp f then sls else [])
     in group XDF_CDEV_SG (map Sgdma_h2c_cdev h2c @ map Sgdma_c2h_cdev c2h) @
        group XDF_CDEV_EVENT (map Events_cdev [0..<xp_user_max xp]) @
        group XDF_CDEV_CTRL [Ctrl_cdev] @ group XDF_CDEV_USER [User_cdev] @ group XDF_CDEV_XVC [Xvc_cdev] @
        group XDF_CDEV_BYPASS (map Bypass_h2c_cdev h2c @ map Bypass_c2h_cdev c2h @ [Bypass_cdev_base]))"

lemma destroy_interfaces_eq:
  "xpdev_destroy_interfaces K xp r = (let r = destroy_slots K xp (destroyed xp) r
     in if xp_major xp \<noteq> 0 then r\<lparr>kr_regions := remove1 (xp_major xp, 0) (kr_regions r)\<rparr> else r)"
  by (simp add: xpdev_destroy_interfaces_def destroyed_def Let_def)

lemma destroyed_distinct: "distinct (destroyed xp)"
  by (auto simp: destroyed_def Let_def distinct_map inj_on_def)

text \<open>What was made is destroyed.\<close>

lemma interface_flags:
  "XDF_CDEV_SG \<in> set (item_flags (interface_items d xp))" "XDF_CDEV_EVENT \<in> set (item_flags (interface_items d xp))"
  "XDF_CDEV_CTRL \<in> set (item_flags (interface_items d xp))"
  "XDF_CDEV_USER \<in> set (item_flags (interface_items d xp)) \<longleftrightarrow> 0 \<le> xd_user_bar_idx d"
  "XDF_CDEV_XVC \<in> set (item_flags (interface_items d xp)) \<longleftrightarrow> 0 \<le> xd_user_bar_idx d"
  "XDF_CDEV_BYPASS \<in> set (item_flags (interface_items d xp)) \<longleftrightarrow> 0 < xd_bypass_bar_idx d"
  by (simp_all add: interface_items_def channel_items_simps event_items_simps)

lemma interface_slots:
  "set (item_slots (interface_items d xp)) \<subseteq>
     Sgdma_h2c_cdev ` {0..<xp_h2c_channel_max xp} \<union> Sgdma_c2h_cdev ` {0..<xp_c2h_channel_max xp} \<union>
     Events_cdev ` {0..<xp_user_max xp} \<union> {Ctrl_cdev} \<union>
     (if 0 \<le> xd_user_bar_idx d then {User_cdev, Xvc_cdev} else {}) \<union>
     (if 0 < xd_bypass_bar_idx d then Bypass_h2c_cdev ` {0..<xp_h2c_channel_max xp} \<union>
        Bypass_c2h_cdev ` {0..<xp_c2h_channel_max xp} \<union> {Bypass_cdev_base} else {})"
  by (auto simp: interface_items_def channel_items_simps event_items_simps)

lemma made_destroyed:
  assumes "items_made d m (interface_items d xp) (xp1, r1) (xp', r')"
    and "xp_flags xp1 = 0" and "xp_cdevs xp1 = (\<lambda>_. zero_cdev)" and "xp_user_max xp1 = xp_user_max xp"
    and "xp_h2c_channel_max xp1 = xp_h2c_channel_max xp" and "xp_c2h_channel_max xp1 = xp_c2h_channel_max xp"
  shows "set (filter (\<lambda>sl. made (xp_cdevs xp' sl)) (destroyed xp')) = set (item_slots (interface_items d xp))"
    and "\<forall>sl. made (xp_cdevs xp' sl) \<or> xc_magic (xp_cdevs xp' sl) \<noteq> MAGIC_CHAR"
proof -
  have f: "xpdev_flag_test xp' f \<longleftrightarrow> f \<in> set (item_flags (interface_items d xp))" for f
    using assms(1,2) by (simp add: items_made_def xpdev_flag_test_def)
  have mk: "made (xp_cdevs xp' sl) \<longleftrightarrow> sl \<in> set (item_slots (interface_items d xp))" for sl
    using assms(1,3) by (auto simp: items_made_def made_def zero_cdev_def)
  show "\<forall>sl. made (xp_cdevs xp' sl) \<or> xc_magic (xp_cdevs xp' sl) \<noteq> MAGIC_CHAR"
    using assms(1,3) by (auto simp: items_made_def zero_cdev_def)
  have n: "xp_user_max xp' = xp_user_max xp" "xp_h2c_channel_max xp' = xp_h2c_channel_max xp"
    "xp_c2h_channel_max xp' = xp_c2h_channel_max xp"
    using assms(1,4-6) by (simp_all add: items_made_def)
  have "set (item_slots (interface_items d xp)) \<subseteq> set (destroyed xp')"
    using interface_slots [of d xp]
    by (cases "0 \<le> xd_user_bar_idx d"; cases "0 < xd_bypass_bar_idx d")
      (auto simp: destroyed_def Let_def f interface_flags n)
  then show "set (filter (\<lambda>sl. made (xp_cdevs xp' sl)) (destroyed xp')) = set (item_slots (interface_items d xp))"
    using mk by auto
qed

lemma create_destroy:
  assumes K: "kernel_ok K" and fresh: "fresh_board xp"
    and run: "xpdev_create_interfaces K d (xp, r) = (0, xp', r')"
  shows "mset (kr_cdevs (xpdev_destroy_interfaces K xp' r')) = mset (kr_cdevs r) \<and>
    mset (kr_sys (xpdev_destroy_interfaces K xp' r')) = mset (kr_sys r) \<and>
    kr_regions (xpdev_destroy_interfaces K xp' r') = kr_regions r"
proof -
  obtain rv xp1 r1 where c: "create_items K d (interface_items d xp) (xp, r) = (rv, xp1, r1)" by (metis prod_cases3)
  have rv: "0 \<le> rv" "xp1 = xp'" "r1 = r'"
    using run c by (auto simp: xpdev_create_interfaces_def split: if_splits)
  obtain m where m: "m \<noteq> 0" and im: "items_made d m (interface_items d xp)
      (xp\<lparr>xp_major := m\<rparr>, r\<lparr>kr_regions := (m, 0) # kr_regions r\<rparr>) (xp', r')"
    using interfaces_created [OF K _ c rv(1)] fresh rv(2,3) by (auto simp: fresh_board_def)
  note md = made_destroyed [OF im]
  let ?made = "filter (\<lambda>sl. made (xp_cdevs xp' sl)) (destroyed xp')"
  have eq: "mset ?made = mset (item_slots (interface_items d xp))"
    using md(1) fresh destroyed_distinct interface_slots_distinct
    by (subst set_eq_iff_mset_eq_distinct [symmetric]) (simp_all add: fresh_board_def)
  have nums: "mset (map (\<lambda>sl. xc_cdevno (xp_cdevs xp' sl)) ?made) = mset (map (Pair m) (item_minors d (interface_items d xp)))"
  proof -
    have "mset (map (\<lambda>sl. xc_cdevno (xp_cdevs xp' sl)) ?made) =
        mset (map (\<lambda>sl. xc_cdevno (xp_cdevs xp' sl)) (item_slots (interface_items d xp)))"
      using eq by (metis mset_map)
    also have "\<dots> = mset (map (Pair m) (item_minors d (interface_items d xp)))"
      using im by (simp only: items_made_def fst_conv)
    finally show ?thesis .
  qed
  have cls: "ce_class K" using K by (simp add: kernel_ok_def)
  have all: "\<forall>sl \<in> set (destroyed xp'). made (xp_cdevs xp' sl) \<or> xc_magic (xp_cdevs xp' sl) \<noteq> MAGIC_CHAR"
    using md(2) fresh by (simp add: fresh_board_def)
  note ds = destroy_slots_removes [OF cls all, of r', unfolded nums]
  show ?thesis
    unfolding destroy_interfaces_eq Let_def using ds im m
    by (simp add: items_made_def)
qed

section \<open>A creation that fails\<close>

text \<open>Creating one device leaves the other members, the flags and the deletions so far.\<close>

lemma create_xcdev_frame:
  "sl \<noteq> sl' \<Longrightarrow> xp_cdevs (fst (snd (create_xcdev K d sl' bar engine type (xp, r)))) sl = xp_cdevs xp sl"
  "xp_flags (fst (snd (create_xcdev K d sl' bar engine type (xp, r)))) = xp_flags xp"
  "\<exists>ds. kr_dels (snd (snd (create_xcdev K d sl' bar engine type (xp, r)))) = ds @ kr_dels r"
  by (simp_all add: create_xcdev_def create_sys_device_def unregister_region_def cdev_del_def Let_def split_beta
      split: sum.split)

lemma create_xcdev_keeps:
  assumes "create_xcdev K d sl' bar engine type (xp, r) = (rv, xp', r')"
  shows "sl \<noteq> sl' \<Longrightarrow> xp_cdevs xp' sl = xp_cdevs xp sl" and "xp_flags xp' = xp_flags xp"
    and "\<exists>ds. kr_dels r' = ds @ kr_dels r"
  using create_xcdev_frame [where K = K and d = d and sl' = sl' and bar = bar and engine = engine and type = type
      and xp = xp and r = r] assms by simp_all

lemma create_items_keeps:
  "create_items K d is s = (rv, s') \<Longrightarrow> sl \<notin> set (item_slots is) \<Longrightarrow>
     xp_cdevs (fst s') sl = xp_cdevs (fst s) sl \<and>
     (\<forall>f. xpdev_flag_test (fst s) f \<longrightarrow> xpdev_flag_test (fst s') f) \<and>
     (\<exists>ds. kr_dels (snd s') = ds @ kr_dels (snd s))"
proof (induction "is" arbitrary: s rule: item_slots.induct)
  case (2 sl' bar engine type "is")
  obtain xp r where s: "s = (xp, r)" by (cases s)
  obtain rv1 xp1 r1 where c: "create_xcdev K d sl' bar engine type (xp, r) = (rv1, xp1, r1)" by (metis prod_cases3)
  note k = create_xcdev_keeps [OF c]
  have fl: "xpdev_flag_test xp1 f = xpdev_flag_test xp f" for f using k(2) by (simp add: xpdev_flag_test_def)
  show ?case
  proof (cases "rv1 < 0")
    case True
    then show ?thesis using "2.prems" k fl c by (auto simp: s)
  next
    case False
    then have "create_items K d is (xp1, r1) = (rv, s')" using "2.prems"(1) c by (simp add: s)
    from "2.IH" [OF this] "2.prems"(2) k fl show ?thesis by (auto simp: s)
  qed
qed fastforce+

text \<open>What destroying deletes.\<close>

lemma destroy_xcdev_made:
  "ce_class K \<Longrightarrow> snd (destroy_xcdev K xc r) =
     (if made xc then cdev_del (xc_cdevno xc) (r\<lparr>kr_sys := remove1 (xc_cdevno xc) (kr_sys r)\<rparr>) else r)"
  by (simp add: destroy_xcdev_def made_def)

lemma destroy_slots_dels:
  assumes "ce_class K"
  shows "kr_dels (destroy_slots K xp sls r) =
    rev (map (\<lambda>sl. xc_cdevno (xp_cdevs xp sl)) (filter (\<lambda>sl. made (xp_cdevs xp sl)) sls)) @ kr_dels r"
  by (induction sls arbitrary: r) (simp_all add: destroy_xcdev_made [OF assms] cdev_del_def)

lemma destroy_control:
  assumes "ce_class K" and "xpdev_flag_test xp XDF_CDEV_CTRL" and "made (xp_cdevs xp Ctrl_cdev)"
  shows "Suc (count (mset (kr_dels r)) (xc_cdevno (xp_cdevs xp Ctrl_cdev))) \<le>
    count (mset (kr_dels (xpdev_destroy_interfaces K xp r))) (xc_cdevno (xp_cdevs xp Ctrl_cdev))"
proof -
  let ?no = "\<lambda>sl. xc_cdevno (xp_cdevs xp sl)"
  have "Ctrl_cdev \<in> set (filter (\<lambda>sl. made (xp_cdevs xp sl)) (destroyed xp))"
    using assms(2,3) by (simp add: destroyed_def Let_def)
  then have "?no Ctrl_cdev \<in># mset (map ?no (filter (\<lambda>sl. made (xp_cdevs xp sl)) (destroyed xp)))" by simp
  then have "1 \<le> count (mset (map ?no (filter (\<lambda>sl. made (xp_cdevs xp sl)) (destroyed xp)))) (?no Ctrl_cdev)"
    by (simp only: count_greater_eq_one_iff)
  then show ?thesis
    by (simp add: destroy_interfaces_eq destroy_slots_dels [OF assms(1)] Let_def)
qed

text \<open>The control device is the first one created.\<close>

lemma control_created:
  assumes "kernel_ok K" and "fresh_board xp" and "ce_region K = Inr m" and "ce_name K Ctrl_cdev = 0"
    and "0 \<le> ce_add K Ctrl_cdev" and "ce_sys K Ctrl_cdev"
    and run: "create_items K d (interface_items d xp) (xp, r) = (rv, xp', r')"
  shows "xpdev_flag_test xp' XDF_CDEV_CTRL \<and> made (xp_cdevs xp' Ctrl_cdev) \<and>
    xc_cdevno (xp_cdevs xp' Ctrl_cdev) = (m, 1) \<and> (\<exists>ds. kr_dels r' = ds @ kr_dels r)"
proof -
  obtain rv1 xp1 r1 where c: "create_xcdev K d Ctrl_cdev (xd_config_bar_idx d) None CHAR_CTRL (xp, r) = (rv1, xp1, r1)"
    by (metis prod_cases3)
  have z: "rv1 = 0"
    using c assms(1-6) by (auto simp: create_xcdev_def kernel_ok_def fresh_board_def Let_def config_kobject_def
        create_sys_device_def split: if_splits)
  have xc: "made (xp_cdevs xp1 Ctrl_cdev)" "xc_cdevno (xp_cdevs xp1 Ctrl_cdev) = (m, 1)" "kr_dels r1 = kr_dels r"
    using c assms(1-6) by (auto simp: create_xcdev_def kernel_ok_def fresh_board_def Let_def config_kobject_def
        create_sys_device_def made_def cdev_minor_def split: if_splits)
  obtain js where js: "interface_items d xp = Make Ctrl_cdev (xd_config_bar_idx d) None CHAR_CTRL # Flag XDF_CDEV_CTRL # js"
    by (simp add: interface_items_def)
  have "Ctrl_cdev \<notin> set (item_slots js)" using interface_slots_distinct [of d xp] unfolding js by simp
  moreover have "create_items K d js (xpdev_flag_set XDF_CDEV_CTRL xp1, r1) = (rv, xp', r')"
    using run c z unfolding js by simp
  ultimately have "xp_cdevs xp' Ctrl_cdev = xp_cdevs xp1 Ctrl_cdev" "xpdev_flag_test xp' XDF_CDEV_CTRL"
    "\<exists>ds. kr_dels r' = ds @ kr_dels r1"
    using create_items_keeps [of K d js _ rv "(xp', r')" Ctrl_cdev] by fastforce+
  then show ?thesis using xc by simp
qed

section \<open>Properties\<close>

text \<open>
  The devices a board gets when its creation succeeds have different numbers, all with the
  board's major number and with a minor number inside the 255 that were reserved for it, and each has an
  entry in the class; the first region reserved is the board's.
\<close>
theorem interface_numbers:
  assumes "kernel_ok K" and "fresh_board xp" and "board_of d xp"
    and "xpdev_create_interfaces K d (xp, r) = (0, xp', r')"
  shows "\<exists>m ns. xp_major xp' = m \<and> kr_cdevs r' = map (Pair m) ns @ kr_cdevs r \<and> kr_sys r' = map (Pair m) ns @ kr_sys r \<and>
    kr_regions r' = (m, 0) # kr_regions r \<and> distinct ns \<and> (\<forall>n \<in> set ns. n < 255)"
proof -
  obtain rv xp1 r1 where c: "create_items K d (interface_items d xp) (xp, r) = (rv, xp1, r1)" by (metis prod_cases3)
  have rv: "0 \<le> rv" "xp1 = xp'" "r1 = r'"
    using assms(4) c by (auto simp: xpdev_create_interfaces_def split: if_splits)
  obtain m where "items_made d m (interface_items d xp)
      (xp\<lparr>xp_major := m\<rparr>, r\<lparr>kr_regions := (m, 0) # kr_regions r\<rparr>) (xp', r')"
    using interfaces_created [OF assms(1) _ c rv(1)] assms(2) rv(2,3) by (auto simp: fresh_board_def)
  then show ?thesis
    using interface_minors [OF assms(3)]
    by (intro exI [of _ m] exI [of _ "rev (item_minors d (interface_items d xp))"])
      (simp add: items_made_def rev_map)
qed

definition good_kernel :: cdev_env where
  "good_kernel = \<lparr>ce_region = Inr 240, ce_name = (\<lambda>_. 0), ce_add = (\<lambda>_. 0), ce_sys = (\<lambda>_. True), ce_class = True\<rparr>"

definition empty_registry :: cdev_registry where
  "empty_registry = \<lparr>kr_cdevs = [], kr_sys = [], kr_regions = [], kr_dels = []\<rparr>"

definition new_board :: xdma_pci_dev where
  "new_board = \<lparr>xp_magic = MAGIC_DEVICE, xp_major = 0, xp_user_max = 2, xp_c2h_channel_max = 0,
     xp_h2c_channel_max = 0, xp_flags = 0, xp_cdevs = (\<lambda>_. zero_cdev)\<rparr>"

text \<open>A device without channels whose BARs are the control BAR only.\<close>

definition no_channels :: xdma_dev where
  "no_channels = new_xdev\<lparr>xd_config_bar_idx := 0, xd_user_bar_idx := - 1, xd_bypass_bar_idx := - 1,
     xd_h2c_channel_max := 0, xd_c2h_channel_max := 0\<rparr>"

lemma sample_board: "kernel_ok good_kernel" "fresh_board new_board" "board_of no_channels new_board"
  by (simp_all add: kernel_ok_def good_kernel_def fresh_board_def new_board_def board_of_def no_channels_def
      chan_max_def engines_open_def engines_of_def new_xdev_def)

text \<open>Where the kernel refuses nothing the creation succeeds.\<close>

fun engine_given :: "cdev_item \<Rightarrow> bool" where
  "engine_given (Make sl bar engine type) \<longleftrightarrow>
     (type \<in> {CHAR_XDMA_H2C, CHAR_XDMA_C2H, CHAR_BYPASS_H2C, CHAR_BYPASS_C2H} \<longrightarrow> engine \<noteq> None)"
| "engine_given (Flag f) \<longleftrightarrow> True"

lemma good_kernel_makes:
  "engine_given (Make sl bar engine type) \<Longrightarrow> fst (create_xcdev good_kernel d sl bar engine type (xp, r)) = 0"
  by (cases type; cases engine)
    (simp_all add: create_xcdev_def good_kernel_def config_kobject_def create_sys_device_def Let_def split_beta)

lemma good_kernel_items:
  "list_all engine_given is \<Longrightarrow> fst (create_items good_kernel d is s) = 0"
proof (induction "is" arbitrary: s rule: item_slots.induct)
  case (2 sl bar engine type "is")
  then have "fst (create_xcdev good_kernel d sl bar engine type s) = 0"
    using good_kernel_makes [of sl bar engine type d "fst s" "snd s"] by simp
  with 2 show ?case by (simp add: split_beta Let_def)
qed simp_all

lemma good_kernel_creates:
  "xpdev_create_interfaces good_kernel d s = (0, snd (xpdev_create_interfaces good_kernel d s))"
proof -
  have "list_all engine_given (interface_items d (fst s))"
    by (auto simp: interface_items_def channel_items_def list_all_iff)
  from good_kernel_items [OF this] show ?thesis by (simp add: prod_eq_iff xpdev_create_interfaces_def split_beta)
qed

lemma interface_numbers_witness:
  "\<exists>ns. kr_cdevs (snd (snd (xpdev_create_interfaces good_kernel no_channels (new_board, empty_registry)))) = ns \<and> distinct ns"
proof -
  obtain xp' r' where s: "xpdev_create_interfaces good_kernel no_channels (new_board, empty_registry) = (0, xp', r')"
    using good_kernel_creates by (metis prod.collapse)
  from interface_numbers [OF sample_board s] show ?thesis
    unfolding s by (auto simp: empty_registry_def distinct_map inj_on_def)
qed

text \<open>
  C30 (roundtrip). Destroying the devices of a board after their creation succeeded leaves the kernel's
  registries as they were: the same devices, the same class entries, the same regions.
\<close>
theorem create_destroy_restores:
  assumes "kernel_ok K" and "fresh_board xp" and "xpdev_create_interfaces K d (xp, r) = (0, xp', r')"
  shows "mset (kr_cdevs (xpdev_destroy_interfaces K xp' r')) = mset (kr_cdevs r) \<and>
    mset (kr_sys (xpdev_destroy_interfaces K xp' r')) = mset (kr_sys r) \<and>
    kr_regions (xpdev_destroy_interfaces K xp' r') = kr_regions r"
  by (rule create_destroy [OF assms])

lemma create_destroy_restores_witness:
  "\<exists>xp' r'. xpdev_create_interfaces good_kernel no_channels (new_board, empty_registry) = (0, xp', r') \<and>
     kr_cdevs (xpdev_destroy_interfaces good_kernel xp' r') = []"
proof -
  obtain xp' r' where s: "xpdev_create_interfaces good_kernel no_channels (new_board, empty_registry) = (0, xp', r')"
    using good_kernel_creates by (metis prod.collapse)
  with create_destroy_restores [OF sample_board(1,2) s] show ?thesis by (auto simp: empty_registry_def)
qed

text \<open>
  When the creation of a board's devices fails after its control device was created, the
  devices are destroyed inside the creation, and the caller's error path destroys them again: the
  control device is deleted (at least) twice.
\<close>
theorem failed_creation_deletes_twice:
  assumes "kernel_ok K" and "fresh_board xp" and "ce_region K = Inr m" and "ce_name K Ctrl_cdev = 0"
    and "0 \<le> ce_add K Ctrl_cdev" and "ce_sys K Ctrl_cdev"
    and "xpdev_create_interfaces K d (xp, r) = (rv, xp', r')" and "rv < 0"
  shows "count (mset (kr_dels r)) (m, 1) + 2 \<le> count (mset (kr_dels (xpdev_destroy_interfaces K xp' r'))) (m, 1)"
proof -
  obtain rv1 xp1 r1 where c: "create_items K d (interface_items d xp) (xp, r) = (rv1, xp1, r1)" by (metis prod_cases3)
  have eq: "xp' = xp1" "r' = xpdev_destroy_interfaces K xp1 r1"
    using assms(7,8) c by (auto simp: xpdev_create_interfaces_def split: if_splits)
  note ctl = control_created [OF assms(1-6) c]
  have "count (mset (kr_dels r)) (m, 1) \<le> count (mset (kr_dels r1)) (m, 1)" using ctl by auto
  also have "Suc (count (mset (kr_dels r1)) (m, 1)) \<le> count (mset (kr_dels r')) (m, 1)"
    using destroy_control [of K xp1 r1] ctl assms(1) unfolding eq by (simp add: kernel_ok_def)
  finally have "Suc (count (mset (kr_dels r)) (m, 1)) \<le> count (mset (kr_dels r')) (m, 1)" by simp
  with destroy_control [of K xp1 r'] ctl assms(1) show ?thesis unfolding eq(1) by (simp add: kernel_ok_def)
qed

text \<open>The class entry of the second event device is refused.\<close>

lemma failed_creation_deletes_twice_witness:
  "\<exists>xp' r'. xpdev_create_interfaces (good_kernel\<lparr>ce_add := (\<lambda>sl. if sl = Events_cdev 1 then - 12 else 0)\<rparr>)
     no_channels (new_board, empty_registry) = (- 1, xp', r') \<and>
     2 \<le> count (mset (kr_dels (xpdev_destroy_interfaces (good_kernel\<lparr>ce_add := (\<lambda>sl. if sl = Events_cdev 1 then - 12 else 0)\<rparr>) xp' r'))) (240, 1)"
proof -
  let ?K = "good_kernel\<lparr>ce_add := (\<lambda>sl. if sl = Events_cdev 1 then - 12 else 0)\<rparr>"
  have "fst (create_items ?K no_channels (interface_items no_channels new_board) (new_board, empty_registry)) < 0"
    by (simp add: interface_items_def no_channels_def channel_items_def upt_rec create_xcdev_def good_kernel_def new_board_def config_kobject_def create_sys_device_def
        unregister_region_def Let_def)
  then have "fst (xpdev_create_interfaces ?K no_channels (new_board, empty_registry)) = - 1"
    by (simp add: xpdev_create_interfaces_def split_beta)
  then obtain xp' r' where s: "xpdev_create_interfaces ?K no_channels (new_board, empty_registry) = (- 1, xp', r')"
    by (metis prod.collapse)
  have k: "kernel_ok ?K" by (simp add: kernel_ok_def good_kernel_def)
  from failed_creation_deletes_twice [OF k sample_board(2) _ _ _ _ s, of 240] s show ?thesis
    by (auto simp: good_kernel_def empty_registry_def)
qed

end
