(* ===== verification/Cdev_Sgdma.thy ===== *)
theory Cdev_Sgdma
  imports Cdev_Dbuf Xdma_Aperture
begin

text \<open>
  The character device of a DMA channel (\<^verbatim>\<open>cdev_sgdma.c\<close>): seeking, the alignment check,
  pinning the user's pages and laying them out as a scatter list, reading and writing, asynchronous
  requests, the ioctls, open and close. The device's engine is \<open>h2c\<close> and \<open>ch\<close>: the array it is
  in and its number; \<open>chk\<close> is what \<^verbatim>\<open>xcdev_check\<close> returns.
\<close>

section \<open>Seeking\<close>

definition char_sgdma_llseek :: "u64 \<Rightarrow> u64 \<Rightarrow> nat \<Rightarrow> int \<times> u64" where
  "char_sgdma_llseek f_pos off whence =
     (if whence > 2 then (- EINVAL, f_pos)
      else (let newpos = (if whence = 0 then off else if whence = 1 then f_pos + off
                          else 0xffffffff + off)
            in if sint newpos < 0 then (- EINVAL, f_pos) else (sint newpos, newpos)))"

section \<open>Alignment\<close>

definition check_transfer_align :: "xdma_engine \<Rightarrow> u64 \<Rightarrow> u64 \<Rightarrow> u64 \<Rightarrow> bool \<Rightarrow> int" where
  "check_transfer_align e buf count pos sync =
     (let buf_lsb = ucast buf AND (ucast (e_addr_align e) - 1 :: u32);
          len_lsb = count AND (ucast (e_len_granularity e) - 1);
          pos_lsb = ucast pos AND (ucast (e_addr_align e) - 1 :: u32)
      in if e_non_incr_addr e then
           (if buf_lsb \<noteq> 0 then - EINVAL
            else if pos_lsb \<noteq> 0 \<and> sync then - EINVAL
            else if len_lsb \<noteq> 0 then - EINVAL else 0)
         else if buf_lsb \<noteq> pos_lsb then - EINVAL else 0)"

section \<open>The user's pages\<close>

abbreviation (input) PAGE_SIZE :: nat where "PAGE_SIZE \<equiv> 4096"

text \<open>
  What the kernel keeps of user memory: a page is in \<open>um_pins\<close> once for each pin on it;
  \<open>um_arrays\<close> counts the arrays of page pointers that are allocated.
\<close>

record user_mem =
  um_pins :: "nat list"
  um_dirty :: "nat list"
  um_arrays :: nat

text \<open>An entry of a scatter list over user pages, before it is mapped for DMA.\<close>

record user_sg =
  us_page :: nat
  us_offset :: nat
  us_length :: nat

text \<open>
  The answers of the kernel: the two allocations, \<^verbatim>\<open>get_user_pages_fast\<close> of an address and a
  number of pages (an error, or the pages it pinned) and \<^verbatim>\<open>dma_map_sg\<close>.
\<close>

record map_env =
  me_sgl :: bool
  me_array :: bool
  me_pin :: "u64 \<Rightarrow> nat \<Rightarrow> int + nat list"
  me_dma_map :: "user_sg list \<Rightarrow> sg_table \<Rightarrow> sg_table"

fun put_pages :: "bool \<Rightarrow> nat option list \<Rightarrow> user_mem \<Rightarrow> user_mem" where
  "put_pages write [] m = m"
| "put_pages write (None # ps) m = m"
| "put_pages write (Some p # ps) m =
     put_pages write ps (m\<lparr>um_pins := remove1 p (um_pins m),
       um_dirty := if write then um_dirty m else p # um_dirty m\<rparr>)"

definition char_sgdma_unmap_user_buf ::
  "xdma_io_cb \<Rightarrow> bool \<Rightarrow> user_mem \<Rightarrow> xdma_io_cb \<times> user_mem" where
  "char_sgdma_unmap_user_buf cb write m =
     (let cb = cb\<lparr>cb_sgt := empty_sgt\<rparr>
      in if cb_pages cb = [] \<or> cb_pages_nr cb = 0 then (cb, m)
         else (let m = put_pages write (take (cb_pages_nr cb) (cb_pages cb)) m
               in (cb\<lparr>cb_pages := []\<rparr>, m\<lparr>um_arrays := um_arrays m - 1\<rparr>)))"

text \<open>The number of pages a buffer touches, an \<^verbatim>\<open>unsigned int\<close>.\<close>

definition pages_spanned :: "u64 \<Rightarrow> u64 \<Rightarrow> u32" where
  "pages_spanned buf len = ucast (drop_bit 12 ((buf + len + 0xfff) - (buf AND NOT 0xfff)))"

text \<open>
  The entries for the pages from \<open>buf\<close> on, \<open>len\<close> bytes left; the minimum is taken of
  \<^verbatim>\<open>unsigned int\<close> values. The result has the bytes left at the end.
\<close>

fun fill_sgl :: "nat list \<Rightarrow> u64 \<Rightarrow> u64 \<Rightarrow> user_sg list \<times> u64" where
  "fill_sgl [] buf len = ([], len)"
| "fill_sgl (p # ps) buf len =
     (let offset = unat (buf AND 0xfff);
          nbytes = min (PAGE_SIZE - offset) (unat (ucast len :: u32));
          (sg, left) = fill_sgl ps (buf + of_nat nbytes) (len - of_nat nbytes)
      in (\<lparr>us_page = p, us_offset = offset, us_length = nbytes\<rparr> # sg, left))"

definition alloc_table :: "nat \<Rightarrow> sg_table" where
  "alloc_table n = \<lparr>sgl = replicate n \<lparr>sg_dma_address = 0, sg_dma_len = 0\<rparr>, nents = n, orig_nents = n\<rparr>"

definition adjacent_duplicate :: "nat list \<Rightarrow> bool" where
  "adjacent_duplicate ps \<longleftrightarrow> list_ex (\<lambda>i. ps ! (i - 1) = ps ! i) [1..<length ps]"

text \<open>The scatter list is the third component: the pages, offsets and lengths of its entries.\<close>

definition char_sgdma_map_user_buf_to_sgl ::
  "map_env \<Rightarrow> xdma_io_cb \<Rightarrow> bool \<Rightarrow> user_mem \<Rightarrow> int \<times> xdma_io_cb \<times> user_sg list \<times> user_mem" where
  "char_sgdma_map_user_buf_to_sgl M cb write m =
     (let len = of_nat (cb_len cb);
          pages_nr = unat (pages_spanned (cb_buf cb) len);
          fail = (\<lambda>rv cb m. let (cb, m) = char_sgdma_unmap_user_buf cb write m in (rv, cb, [], m))
      in if pages_nr = 0 then (- EINVAL, cb, [], m)
         else if \<not> me_sgl M then (- ENOMEM, cb, [], m)
         else (let cb = cb\<lparr>cb_sgt := alloc_table pages_nr\<rparr>
               in if \<not> me_array M then fail (- ENOMEM) (cb\<lparr>cb_pages := []\<rparr>) m
                  else (let cb = cb\<lparr>cb_pages := replicate pages_nr None\<rparr>;
                            m = m\<lparr>um_arrays := Suc (um_arrays m)\<rparr>
                        in case me_pin M (cb_buf cb) pages_nr of
                             Inl rv \<Rightarrow> fail rv cb m
                           | Inr ps \<Rightarrow>
                               (let cb = cb\<lparr>cb_pages := map Some ps @ replicate (pages_nr - length ps) None\<rparr>;
                                    m = m\<lparr>um_pins := ps @ um_pins m\<rparr>
                                in if length ps \<noteq> pages_nr
                                   then fail (- EFAULT) (cb\<lparr>cb_pages_nr := length ps\<rparr>) m
                                   else if adjacent_duplicate ps
                                   then fail (- EFAULT) (cb\<lparr>cb_pages_nr := pages_nr\<rparr>) m
                                   else (let (sg, left) = fill_sgl ps (cb_buf cb) len
                                         in if left \<noteq> 0 then (- EINVAL, cb, sg, m)
                                            else (0, cb\<lparr>cb_pages_nr := pages_nr\<rparr>, sg, m))))))"

section \<open>Reading and writing\<close>

definition cdev_engine :: "bool \<Rightarrow> nat \<Rightarrow> 'c xdma_dev_io \<Rightarrow> 'c est" where
  "cdev_engine h2c ch dev = (if h2c then dv_engine_h2c dev ch else dv_engine_c2h dev ch)"

text \<open>
  \<open>rid\<close> is the request the submission allocates, \<open>await\<close> what the waits of the submission find;
  \<open>None\<close> is not returning.
\<close>

definition char_sgdma_read_write ::
  "('c, 'x) kenv_scheme \<Rightarrow> map_env \<Rightarrow> (nat \<Rightarrow> bool) \<Rightarrow> ('c est \<Rightarrow> 'c est) \<Rightarrow> nat \<Rightarrow> int \<Rightarrow>
     bool \<Rightarrow> nat \<Rightarrow> u64 \<Rightarrow> nat \<Rightarrow> u64 \<Rightarrow> bool \<Rightarrow> 'c xdma_dev_io \<times> user_mem \<Rightarrow>
     (int \<times> 'c xdma_dev_io \<times> user_mem) option" where
  "char_sgdma_read_write E M oom await rid chk h2c ch buf count pos write s =
     (let (dev, m) = s; e = eng (cdev_engine h2c ch dev)
      in if chk < 0 then Some (chk, dev, m)
         else if e_dir e \<noteq> dir_of write then Some (- EINVAL, dev, m)
         else (let rv = check_transfer_align e buf (of_nat count) pos True
               in if rv \<noteq> 0 then Some (rv, dev, m)
                  else (let cb = zero_cb\<lparr>cb_buf := buf, cb_len := count, cb_ep_addr := pos, cb_write := write\<rparr>;
                            (rv, cb, sg, m) = char_sgdma_map_user_buf_to_sgl M cb write m
                        in if rv < 0 then Some (rv, dev, m)
                           else (case xdma_xfer_submit E oom (me_dma_map M sg) await rid dev
                                        (e_channel e) write pos (cb_sgt cb) False of
                                   None \<Rightarrow> None
                                 | Some (res, sgt, dev) \<Rightarrow>
                                     (let (_, m) = char_sgdma_unmap_user_buf (cb\<lparr>cb_sgt := sgt\<rparr>) write m
                                      in Some (if res > 0 \<and> res > int count then int count else res, dev, m))))))"

definition char_sgdma_write ::
  "('c, 'x) kenv_scheme \<Rightarrow> map_env \<Rightarrow> (nat \<Rightarrow> bool) \<Rightarrow> ('c est \<Rightarrow> 'c est) \<Rightarrow> nat \<Rightarrow> int \<Rightarrow>
     bool \<Rightarrow> nat \<Rightarrow> u64 \<Rightarrow> nat \<Rightarrow> u64 \<Rightarrow> 'c xdma_dev_io \<times> user_mem \<Rightarrow>
     (int \<times> 'c xdma_dev_io \<times> user_mem) option" where
  "char_sgdma_write E M oom await rid chk h2c ch buf count pos s =
     char_sgdma_read_write E M oom await rid chk h2c ch buf count pos True s"

text \<open>
  A read of a receiving channel: through the double buffer where that is running (the result then names
  the slot whose bytes went to the user), else through the user's own pages. \<open>sleep\<close> is the wait for a
  slot.
\<close>

definition char_sgdma_read ::
  "(dbuf, 'x) kenv_scheme \<Rightarrow> map_env \<Rightarrow> (nat \<Rightarrow> bool) \<Rightarrow> (dbuf est \<Rightarrow> dbuf est) \<Rightarrow>
     (dbuf xdma_dev_io \<Rightarrow> int \<times> dbuf xdma_dev_io) \<Rightarrow> bool \<Rightarrow> nat \<Rightarrow> int \<Rightarrow> nat \<Rightarrow> u64 \<Rightarrow> nat \<Rightarrow> u64 \<Rightarrow>
     dbuf xdma_dev_io \<times> user_mem \<Rightarrow> (int \<times> nat option \<times> dbuf xdma_dev_io \<times> user_mem) option" where
  "char_sgdma_read E M oom await sleep copied rid chk ch buf count pos s =
     (if \<not> db_active (dbuf_of ch (fst s))
      then map_option (\<lambda>(rv, s). (rv, None, s))
             (char_sgdma_read_write E M oom await rid chk False ch buf count pos False s)
      else map_option (\<lambda>(rv, slot, dev). (rv, slot, dev, snd s))
             (char_sgdma_read_dbuf E oom sleep copied rid ch count (fst s)))"

end
