(* ===== verification/Cdev_Ioctl.thy ===== *)
theory Cdev_Ioctl
  imports Cdev_Sgdma Xdma_Setup
begin

text \<open>
  The ioctls, the open and the close of a DMA channel's character device
  (\<^verbatim>\<open>ioctl_do_addrmode_set\<close> to \<^verbatim>\<open>char_sgdma_close\<close> in
  \<^verbatim>\<open>cdev_sgdma.c\<close>). A structure the user passes by address is the value it holds;
  what an ioctl writes back is part of the result.
\<close>

section \<open>Modes\<close>

definition ioctl_do_addrmode_set ::
  "('x) xenv_scheme \<Rightarrow> u64 option \<Rightarrow> ('c, 's) est_scheme \<Rightarrow> int \<times> ('c, 's) est_scheme" where
  "ioctl_do_addrmode_set E arg st = engine_addrmode_set E arg st"

text \<open>\<open>put\<close> is what \<^verbatim>\<open>put_user\<close> returns.\<close>

definition ioctl_do_addrmode_get :: "int \<Rightarrow> xdma_engine \<Rightarrow> int \<times> int option" where
  "ioctl_do_addrmode_get put e =
     (put, if put = 0 then Some (if e_non_incr_addr e then 1 else 0) else None)"

definition ioctl_do_align_get :: "int \<Rightarrow> xdma_engine \<Rightarrow> int \<times> int option" where
  "ioctl_do_align_get put e = (put, if put = 0 then Some (uint (e_addr_align e)) else None)"

section \<open>Aperture transfers\<close>

record xdma_aperture_ioctl =
  ai_ep_addr :: u64
  ai_aperture :: u32
  ai_buffer :: u64
  ai_len :: nat
  ai_error :: int
  ai_done :: int

text \<open>
  \<open>arg\<close> is the structure after the copy from the user; a partial copy is no error to the code.
  The structure is written back only when the transfer was tried.
\<close>

definition ioctl_do_aperture_dma ::
  "('c, 'x) kenv_scheme \<Rightarrow> map_env \<Rightarrow> bool \<Rightarrow> ('c est \<Rightarrow> 'c est) \<Rightarrow> nat \<Rightarrow> xdma_aperture_ioctl \<Rightarrow> bool \<Rightarrow>
     'c est \<times> user_mem \<Rightarrow> (int \<times> xdma_aperture_ioctl option \<times> 'c est \<times> user_mem) option" where
  "ioctl_do_aperture_dma E M oom await rid arg write s =
     (let (st, m) = s; e = eng st
      in if e_dir e \<noteq> dir_of write then Some (- EINVAL, None, st, m)
         else (let rv = check_transfer_align e (ai_buffer arg) (of_nat (ai_len arg)) (ai_ep_addr arg) True
               in if rv \<noteq> 0 then Some (rv, None, st, m)
                  else (let cb = zero_cb\<lparr>cb_buf := ai_buffer arg, cb_len := ai_len arg,
                                         cb_ep_addr := ai_ep_addr arg, cb_write := write\<rparr>;
                            (rv, cb, sg, m) = char_sgdma_map_user_buf_to_sgl M cb write m
                        in if rv < 0 then Some (rv, None, st, m)
                           else (case xdma_xfer_aperture E oom (me_dma_map M sg) await rid st write
                                        (ai_ep_addr arg) (ai_aperture arg) (cb_sgt cb) False of
                                   None \<Rightarrow> None
                                 | Some (res, sgt, st) \<Rightarrow>
                                     (let (_, m) = char_sgdma_unmap_user_buf (cb\<lparr>cb_sgt := sgt\<rparr>) write m;
                                          out = (if res < 0 then arg\<lparr>ai_error := res\<rparr>
                                                 else arg\<lparr>ai_error := 0, ai_done := res\<rparr>)
                                      in Some (ai_error out, Some out, st, m))))))"

section \<open>The ioctl entry\<close>

datatype ioctl_cmd =
    IOCTL_XDMA_PERF_START "xdma_performance_ioctl option"
  | IOCTL_XDMA_PERF_STOP
  | IOCTL_XDMA_PERF_GET
  | IOCTL_XDMA_ADDRMODE_SET "u64 option"
  | IOCTL_XDMA_ADDRMODE_GET
  | IOCTL_XDMA_ALIGN_GET
  | IOCTL_XDMA_APERTURE_R xdma_aperture_ioctl
  | IOCTL_XDMA_APERTURE_W xdma_aperture_ioctl
  | IOCTL_XDMA_DBUF_START "xdma_dbuf_ioctl option"
  | IOCTL_XDMA_DBUF_STOP
  | Other_ioctl u32

datatype ioctl_out =
    Out_none | Out_perf xdma_performance_ioctl | Out_int int | Out_aperture xdma_aperture_ioctl

text \<open>The answers of the kernel to each of the ioctls.\<close>

record ioctl_env =
  ie_perf_oom :: bool
  ie_perf_mem :: perf_mem
  ie_left :: int
  ie_put :: int
  ie_map :: map_env
  ie_ap_oom :: bool
  ie_await :: "dbuf est \<Rightarrow> dbuf est"
  ie_rid :: nat
  ie_oom :: "nat \<Rightarrow> bool"
  ie_alloc :: "nat \<Rightarrow> u64 option"
  ie_sgrv :: "nat \<Rightarrow> int"
  ie_dbuf_rid :: "nat \<Rightarrow> nat"

definition out_of :: "('a \<Rightarrow> ioctl_out) \<Rightarrow> 'a option \<Rightarrow> ioctl_out" where
  "out_of f x = (case x of None \<Rightarrow> Out_none | Some v \<Rightarrow> f v)"

text \<open>The double buffer of a sending channel is never started, so that stopping it does nothing.\<close>

definition char_sgdma_ioctl ::
  "(dbuf, 'x) kenv_scheme \<Rightarrow> ioctl_env \<Rightarrow> int \<Rightarrow> bool \<Rightarrow> nat \<Rightarrow> ioctl_cmd \<Rightarrow>
     dbuf xdma_dev_io \<times> user_mem \<Rightarrow> (int \<times> ioctl_out \<times> dbuf xdma_dev_io \<times> user_mem) option" where
  "char_sgdma_ioctl E V chk h2c ch cmd s =
     (let (dev, m) = s; st = cdev_engine h2c ch dev;
          aperture = (\<lambda>arg write. map_option
            (\<lambda>(rv, out, st, m). (rv, out_of Out_aperture out, put_engine h2c ch st dev, m))
            (ioctl_do_aperture_dma E (ie_map V) (ie_ap_oom V) (ie_await V) (ie_rid V) arg write (st, m)))
      in if chk < 0 then Some (chk, Out_none, dev, m)
         else (case cmd of
             IOCTL_XDMA_PERF_START arg \<Rightarrow>
               (let (rv, st) = ioctl_do_perf_start E (ie_perf_oom V) (ie_perf_mem V) arg st
                in Some (rv, Out_none, put_engine h2c ch st dev, m))
           | IOCTL_XDMA_PERF_STOP \<Rightarrow>
               (let (rv, out, st) = ioctl_do_perf_stop E (ie_left V) st
                in Some (rv, out_of Out_perf out, put_engine h2c ch st dev, m))
           | IOCTL_XDMA_PERF_GET \<Rightarrow>
               (let (rv, out, st) = ioctl_do_perf_get E (ie_left V) st
                in Some (rv, out_of Out_perf out, put_engine h2c ch st dev, m))
           | IOCTL_XDMA_ADDRMODE_SET arg \<Rightarrow>
               (let (rv, st) = ioctl_do_addrmode_set E arg st
                in Some (rv, Out_none, put_engine h2c ch st dev, m))
           | IOCTL_XDMA_ADDRMODE_GET \<Rightarrow>
               (let (rv, out) = ioctl_do_addrmode_get (ie_put V) (eng st)
                in Some (rv, out_of Out_int out, dev, m))
           | IOCTL_XDMA_ALIGN_GET \<Rightarrow>
               (let (rv, out) = ioctl_do_align_get (ie_put V) (eng st)
                in Some (rv, out_of Out_int out, dev, m))
           | IOCTL_XDMA_APERTURE_R arg \<Rightarrow> aperture arg False
           | IOCTL_XDMA_APERTURE_W arg \<Rightarrow> aperture arg True
           | IOCTL_XDMA_DBUF_START arg \<Rightarrow>
               (if e_dir (eng st) \<noteq> DMA_FROM_DEVICE then Some (- EINVAL, Out_none, dev, m)
                else map_option (\<lambda>(rv, dev). (rv, Out_none, dev, m))
                       (ioctl_do_dbuf_start E (ie_oom V) (ie_alloc V) (ie_sgrv V) (ie_dbuf_rid V) ch arg dev))
           | IOCTL_XDMA_DBUF_STOP \<Rightarrow>
               (if h2c then Some (0, Out_none, dev, m)
                else (let (rv, dev) = ioctl_do_dbuf_stop ch dev in Some (rv, Out_none, dev, m)))
           | Other_ioctl _ \<Rightarrow> Some (- EINVAL, Out_none, dev, m)))"

section \<open>Open and close\<close>

text \<open>\<open>trunc\<close>: the file is opened with \<^verbatim>\<open>O_TRUNC\<close>.\<close>

definition char_sgdma_open :: "bool \<Rightarrow> xdma_engine \<Rightarrow> int \<times> xdma_engine" where
  "char_sgdma_open trunc e =
     (if e_streaming e \<and> e_dir e = DMA_FROM_DEVICE then
        (if e_device_open e then (- EBUSY, e)
         else (0, e\<lparr>e_device_open := True, e_eop_flush := trunc\<rparr>))
      else (0, e))"

definition char_sgdma_close :: "int \<Rightarrow> bool \<Rightarrow> nat \<Rightarrow> dbuf xdma_dev_io \<Rightarrow> int \<times> dbuf xdma_dev_io" where
  "char_sgdma_close chk h2c ch dev =
     (if chk < 0 then (chk, dev)
      else (let dev = (if \<not> h2c \<and> db_active (dbuf_of ch dev) then snd (ioctl_do_dbuf_stop ch dev) else dev);
                st = cdev_engine h2c ch dev; e = eng st
            in (0, if e_streaming e \<and> e_dir e = DMA_FROM_DEVICE
                   then put_engine h2c ch (st\<lparr>eng := e\<lparr>e_device_open := False\<rparr>\<rparr>) dev else dev)))"

end
