(* ===== verification/Cdev_Sgdma_Spec.thy ===== *)
theory Cdev_Sgdma_Spec
  imports Cdev_Sgdma Cdev_Ioctl Xdma_Xfer_Spec
begin

text \<open>
  The user's buffer and its scatter list: the entries move exactly the bytes of the buffer, every page
  that is pinned is released again, and what a length that does not fit into 32 bits does.
\<close>

section \<open>Pages\<close>

lemma page_mask: "(0xfff :: u64) = mask 12"
  by (simp add: mask_eq_exp_minus_1)

lemma page_offset: "unat (buf AND 0xfff :: u64) = unat buf mod 4096"
  unfolding page_mask using low_bits_mod [of buf 12] by simp

lemma page_base: "buf - (buf AND NOT c) = (buf AND c :: u64)"
proof -
  have "(buf AND c) OR (buf AND NOT c) = buf" by (simp flip: bit.conj_disj_distrib)
  moreover have "(buf AND c) + (buf AND NOT c) = (buf AND c) OR (buf AND NOT c)"
    by (rule disjunctive_add) (auto simp: bit_and_iff bit_not_iff)
  ultimately show ?thesis by (metis add_diff_cancel_right')
qed

lemma page_end: "(buf + l + c) - (buf AND NOT c) = (buf AND c) + (l + c :: u64)"
  using page_base [of buf c] by (simp add: algebra_simps)

text \<open>The pages of a buffer, counted from its first page.\<close>

lemma pages_spanned_count:
  assumes "n < 2 ^ 43"
  shows "unat (pages_spanned buf (of_nat n)) = (unat buf mod 4096 + n + 4095) div 4096"
proof -
  have off: "unat buf mod 4096 < 4096" by simp
  note eq = page_end [of buf "of_nat n" "0xfff"]
  have n: "unat (of_nat n :: u64) = n" using assms by (intro unat_of_nat_small) simp
  have "unat (of_nat n + 0xfff :: u64) = n + 4095"
    using assms n by (subst unat_add_no_wrap) simp_all
  then have sum: "unat ((buf AND 0xfff) + (of_nat n + 0xfff :: u64)) = unat buf mod 4096 + n + 4095"
    using assms off by (subst unat_add_no_wrap) (simp_all add: page_offset)
  have "(unat buf mod 4096 + n + 4095) div 4096 < 2 ^ 32" using assms off by simp
  then have "take_bit 32 ((unat buf mod 4096 + n + 4095) div 4096) = (unat buf mod 4096 + n + 4095) div 4096"
    by (rule take_bit_nat_eq_self)
  then show ?thesis
    unfolding pages_spanned_def eq unsigned_ucast_eq unat_drop_bit sum by simp
qed

section \<open>The scatter list\<close>

text \<open>The bytes an entry list moves, and those of a buffer, by page and offset in it.\<close>

definition sg_bytes :: "user_sg list \<Rightarrow> (nat \<times> nat) list" where
  "sg_bytes sg = concat (map (\<lambda>e. map (\<lambda>j. (us_page e, us_offset e + j)) [0..<us_length e]) sg)"

definition user_bytes :: "nat list \<Rightarrow> u64 \<Rightarrow> nat \<Rightarrow> (nat \<times> nat) list" where
  "user_bytes ps buf n = map (\<lambda>k. (ps ! ((unat buf mod 4096 + k) div 4096), (unat buf + k) mod 4096)) [0..<n]"

lemma sg_bytes_Cons [simp]:
  "sg_bytes [] = []"
  "sg_bytes (e # es) = map (\<lambda>j. (us_page e, us_offset e + j)) [0..<us_length e] @ sg_bytes es"
  by (simp_all add: sg_bytes_def)

text \<open>The buffer's bytes on its first page, then those of the rest.\<close>

lemma user_bytes_first:
  assumes "unat buf mod 4096 + n \<le> 4096"
  shows "user_bytes (p # ps) buf n = map (\<lambda>j. (p, unat buf mod 4096 + j)) [0..<n]"
  unfolding user_bytes_def
proof (rule map_cong [OF refl])
  fix k assume "k \<in> set [0..<n]"
  then have k: "unat buf mod 4096 + k < 4096" using assms by simp
  then have "(unat buf mod 4096 + k) mod 4096 = unat buf mod 4096 + k" by simp
  then have "(unat buf + k) mod 4096 = unat buf mod 4096 + k" by (simp add: mod_add_left_eq)
  then show "((p # ps) ! ((unat buf mod 4096 + k) div 4096), (unat buf + k) mod 4096) = (p, unat buf mod 4096 + k)"
    using k by simp
qed

lemma user_bytes_split:
  assumes o: "nb = 4096 - unat buf mod 4096" and n: "nb \<le> n" and b: "unat (buf + of_nat nb) mod 4096 = 0"
  shows "user_bytes (p # ps) buf n = user_bytes (p # ps) buf nb @ user_bytes ps (buf + of_nat nb) (n - nb)"
proof -
  have off: "unat buf mod 4096 + nb = 4096" unfolding o by simp
  have s: "[0..<n] = [0..<nb] @ map (\<lambda>k. k + nb) [0..<n - nb]"
    using n by (metis add.commute le_add_diff_inverse map_add_upt upt_add_eq_append zero_le)
  have z: "(unat buf + nb) mod 4096 = 0" using off by (metis mod_add_left_eq mod_self)
  have "((p # ps) ! ((unat buf mod 4096 + (k + nb)) div 4096), (unat buf + (k + nb)) mod 4096) =
      (ps ! ((unat (buf + of_nat nb) mod 4096 + k) div 4096), (unat (buf + of_nat nb) + k) mod 4096)" for k
  proof -
    have "unat buf mod 4096 + (k + nb) = k + 4096" using off by simp
    then have "(unat buf mod 4096 + (k + nb)) div 4096 = Suc (k div 4096)" by simp
    moreover have "(unat buf + (k + nb)) mod 4096 = k mod 4096"
      using mod_add_left_eq [of "unat buf + nb" 4096 k] z by (simp add: ac_simps)
    moreover have "(unat (buf + of_nat nb) + k) mod 4096 = k mod 4096"
      using mod_add_left_eq [of "unat (buf + of_nat nb)" 4096 k] b by simp
    ultimately show ?thesis using b by simp
  qed
  then have "map (\<lambda>k. ((p # ps) ! ((unat buf mod 4096 + k) div 4096), (unat buf + k) mod 4096)) (map (\<lambda>k. k + nb) [0..<n - nb]) =
      user_bytes ps (buf + of_nat nb) (n - nb)"
    unfolding user_bytes_def map_map comp_def by (intro map_cong refl)
  then show ?thesis unfolding user_bytes_def [of "p # ps"] s map_append by (rule arg_cong)
qed

lemma page_after:
  assumes "unat buf mod 4096 + nb = 4096"
  shows "unat (buf + of_nat nb :: u64) mod 4096 = 0"
proof -
  have nb: "nb < 2 ^ 64" using assms by simp
  have "unat (buf + of_nat nb) = (unat buf + nb) mod 2 ^ 64"
    using unat_of_nat_small [where 'w = 64, of nb] nb by (simp add: unat_word_ariths)
  moreover have "(unat buf + nb) mod 2 ^ 64 mod 4096 = (unat buf + nb) mod 4096"
    by (rule mod_mod_cancel) simp
  moreover have "(unat buf + nb) mod 4096 = 0" using assms by (metis mod_add_left_eq mod_self)
  ultimately show ?thesis by simp
qed

lemma fill_sgl_bytes:
  "0 < n \<Longrightarrow> n < 2 ^ 32 \<Longrightarrow> length ps = (unat buf mod 4096 + n + 4095) div 4096 \<Longrightarrow>
     snd (fill_sgl ps buf (of_nat n)) = 0 \<and> sg_bytes (fst (fill_sgl ps buf (of_nat n))) = user_bytes ps buf n"
proof (induction ps arbitrary: buf n)
  case Nil
  then have "unat buf mod 4096 + n + 4095 < 4096" by (simp add: div_eq_0_iff)
  with Nil(1) show ?case by simp
next
  case (Cons p ps)
  let ?off = "unat buf mod 4096"
  let ?nb = "min (4096 - ?off) n"
  have off: "?off < 4096" by simp
  have len: "unat (ucast (of_nat n :: u64) :: u32) = n"
    using Cons.prems(2) by (simp add: unsigned_ucast_eq unat_of_nat take_bit_nat_eq_self)
  have step: "fill_sgl (p # ps) buf (of_nat n) =
      (\<lparr>us_page = p, us_offset = ?off, us_length = ?nb\<rparr> # fst (fill_sgl ps (buf + of_nat ?nb) (of_nat n - of_nat ?nb)),
       snd (fill_sgl ps (buf + of_nat ?nb) (of_nat n - of_nat ?nb)))"
    by (simp add: len page_offset split_beta Let_def)
  show ?case
  proof (cases "n \<le> 4096 - ?off")
    case True
    then have "?off + n + 4095 < 8192" using off by linarith
    then have "Suc (length ps) < 2" using Cons.prems(3) by (simp add: div_less_iff_less_mult)
    then have "ps = []" by simp
    moreover have "user_bytes [p] buf n = map (\<lambda>j. (p, ?off + j)) [0..<n]"
      using True off by (intro user_bytes_first) simp
    ultimately show ?thesis unfolding step using True by simp
  next
    case False
    let ?b = "buf + of_nat (4096 - ?off)" and ?n = "n - (4096 - ?off)"
    have nb: "?nb = 4096 - ?off" using False by simp
    have b: "unat ?b mod 4096 = 0" using off by (intro page_after) simp
    have "?off + n + 4095 = ?n + 4095 + 4096" using False off by simp
    then have "Suc (length ps) = (?n + 4095 + 4096) div 4096" using Cons.prems(3) by (metis length_Cons)
    also have "\<dots> = Suc ((?n + 4095) div 4096)" by simp
    finally have ps: "length ps = (unat ?b mod 4096 + ?n + 4095) div 4096" unfolding b by simp
    have n: "(of_nat n - of_nat (4096 - ?off) :: u64) = of_nat ?n" using False by (simp add: of_nat_diff)
    have IH: "snd (fill_sgl ps ?b (of_nat ?n)) = 0 \<and> sg_bytes (fst (fill_sgl ps ?b (of_nat ?n))) = user_bytes ps ?b ?n"
      using Cons.IH [of ?n ?b] False Cons.prems(2) ps by linarith
    have "user_bytes (p # ps) buf (4096 - ?off) = map (\<lambda>j. (p, ?off + j)) [0..<4096 - ?off]"
      using off by (intro user_bytes_first) simp
    then have "user_bytes (p # ps) buf n = map (\<lambda>j. (p, ?off + j)) [0..<4096 - ?off] @ user_bytes ps ?b ?n"
      using user_bytes_split [OF refl _ b, of n p ps] False by simp
    then show ?thesis unfolding step nb n using IH by simp
  qed
qed

text \<open>A length whose low 32 bits are zero moves nothing at all.\<close>

lemma fill_sgl_zero:
  "ucast len = (0 :: u32) \<Longrightarrow> snd (fill_sgl ps buf len) = len \<and> sg_bytes (fst (fill_sgl ps buf len)) = []"
proof (induction ps arbitrary: buf)
  case (Cons p ps)
  from Cons.IH [OF Cons.prems, of buf] Cons.prems show ?case by (simp add: split_beta Let_def)
qed simp

lemma fill_sgl_left: "n < 2 ^ 32 \<Longrightarrow> length ps = (unat buf mod 4096 + n + 4095) div 4096 \<Longrightarrow>
    snd (fill_sgl ps buf (of_nat n)) = 0"
  using fill_sgl_bytes [of n ps buf] fill_sgl_zero [of 0 ps buf] by (cases "n = 0") simp_all

section \<open>Pins\<close>

text \<open>What the kernel documents of pinning: an error is negative, and no more pages than asked for.\<close>

definition pin_ok :: "map_env \<Rightarrow> bool" where
  "pin_ok M \<longleftrightarrow> (\<forall>buf n. case me_pin M buf n of Inl rv \<Rightarrow> rv < 0 | Inr ps \<Rightarrow> length ps \<le> n)"

lemma put_pages_all:
  "um_pins m = ps @ pins \<Longrightarrow> put_pages write (map Some ps @ rest) m =
     put_pages write rest (m\<lparr>um_pins := pins, um_dirty := if write then um_dirty m else rev ps @ um_dirty m\<rparr>)"
  by (induction ps arbitrary: m) auto

lemma put_pages_none [simp]: "put_pages write (replicate k None) m = m"
  by (cases k) simp_all

lemma put_pages_frame [simp]: "um_arrays (put_pages write ps m) = um_arrays m"
  by (induction "write" ps m rule: put_pages.induct) simp_all

text \<open>Releasing the pages of a control block that holds the pins \<open>ps\<close>, if any.\<close>

lemma unmap_pins:
  assumes "cb_pages cb = map Some ps @ replicate k None" and "um_pins m = ps @ pins" and "cb_pages_nr cb = length ps"
  shows "um_pins (snd (char_sgdma_unmap_user_buf cb write m)) = pins"
    and "um_arrays (snd (char_sgdma_unmap_user_buf cb write m)) = (if ps = [] then um_arrays m else um_arrays m - 1)"
proof -
  have "take (length ps) (map Some ps @ replicate k None) = map Some ps @ []" by simp
  then have "put_pages write (take (cb_pages_nr cb) (cb_pages cb)) m =
      m\<lparr>um_pins := pins, um_dirty := if write then um_dirty m else rev ps @ um_dirty m\<rparr>"
    using put_pages_all [OF assms(2), of "write" "[]"] assms(1,3) by simp
  with assms show "um_pins (snd (char_sgdma_unmap_user_buf cb write m)) = pins"
    "um_arrays (snd (char_sgdma_unmap_user_buf cb write m)) = (if ps = [] then um_arrays m else um_arrays m - 1)"
    by (auto simp: char_sgdma_unmap_user_buf_def Let_def)
qed

text \<open>What mapping a buffer leaves: with an error nothing is pinned, else the pins of all its pages.\<close>

definition mapped :: "xdma_io_cb \<Rightarrow> user_mem \<Rightarrow> nat list \<Rightarrow> user_mem \<Rightarrow> bool" where
  "mapped cb m ps m' \<longleftrightarrow> cb_pages cb = map Some ps \<and> cb_pages_nr cb = length ps \<and>
     um_pins m' = ps @ um_pins m \<and> um_arrays m' = Suc (um_arrays m)"

lemma map_user_buf_pinned:
  assumes len: "cb_len cb < 2 ^ 32" and pin: "pin_ok M" and new: "cb_pages cb = []" "cb_pages_nr cb = 0"
    and run: "char_sgdma_map_user_buf_to_sgl M cb write m = (rv, cb', sg, m')"
  shows "if rv < 0 then um_pins m' = um_pins m \<and> um_arrays m' \<in> {um_arrays m, Suc (um_arrays m)}
    else rv = 0 \<and> (\<exists>ps. mapped cb' m ps m' \<and> ps \<noteq> [] \<and>
      length ps = (unat (cb_buf cb) mod 4096 + cb_len cb + 4095) div 4096 \<and>
      sg = fst (fill_sgl ps (cb_buf cb) (of_nat (cb_len cb))) \<and>
      me_pin M (cb_buf cb) (length ps) = Inr ps)"
proof -
  let ?n = "unat (pages_spanned (cb_buf cb) (of_nat (cb_len cb)))"
  let ?cb = "\<lambda>ps nr. cb\<lparr>cb_sgt := alloc_table ?n, cb_pages := map Some ps @ replicate (?n - length ps) None, cb_pages_nr := nr\<rparr>"
  let ?m = "\<lambda>ps. m\<lparr>um_arrays := Suc (um_arrays m), um_pins := ps @ um_pins m\<rparr>"
  consider "?n = 0" | "?n \<noteq> 0" "\<not> me_sgl M" | "?n \<noteq> 0" "me_sgl M" "\<not> me_array M" | "?n \<noteq> 0" "me_sgl M" "me_array M"
    by blast
  then show ?thesis
  proof cases
    case 1
    then have "rv < 0 \<and> m' = m" using run by (simp add: char_sgdma_map_user_buf_to_sgl_def Let_def)
    then show ?thesis by simp
  next
    case 2
    then have "rv < 0 \<and> m' = m" using run by (simp add: char_sgdma_map_user_buf_to_sgl_def Let_def)
    then show ?thesis by simp
  next
    case 3
    then have "rv < 0 \<and> m' = m"
      using run by (simp add: char_sgdma_map_user_buf_to_sgl_def char_sgdma_unmap_user_buf_def Let_def)
    then show ?thesis by simp
  next
    case ok: 4
    show ?thesis
    proof (cases "me_pin M (cb_buf cb) ?n")
      case (Inl e)
      then have "e < 0" using pin unfolding pin_ok_def by (metis sum.case(1))
      then have "rv < 0 \<and> m' = m\<lparr>um_arrays := Suc (um_arrays m)\<rparr>"
        using run ok Inl new by (simp add: char_sgdma_map_user_buf_to_sgl_def char_sgdma_unmap_user_buf_def Let_def)
      then show ?thesis by simp
    next
      case (Inr ps)
      then have le: "length ps \<le> ?n" using pin unfolding pin_ok_def by (metis sum.case(2))
      note u = unmap_pins [of "?cb ps (length ps)" ps "?n - length ps" "?m ps" "um_pins m" "write"]
      show ?thesis
      proof (cases "length ps \<noteq> ?n \<or> adjacent_duplicate ps")
        case True
        then have "rv = - EFAULT \<and> m' = snd (char_sgdma_unmap_user_buf (?cb ps (length ps)) write (?m ps))"
          using run ok Inr by (auto simp: char_sgdma_map_user_buf_to_sgl_def Let_def split_beta split: if_splits)
        then show ?thesis using u by simp
      next
        case False
        then have nr: "length ps = (unat (cb_buf cb) mod 4096 + cb_len cb + 4095) div 4096"
          using pages_spanned_count [of "cb_len cb"] len by simp
        note left = fill_sgl_left [OF len this]
        have "rv = 0 \<and> cb' = ?cb ps ?n \<and> m' = ?m ps \<and> sg = fst (fill_sgl ps (cb_buf cb) (of_nat (cb_len cb)))"
          using run ok Inr False left by (auto simp: char_sgdma_map_user_buf_to_sgl_def Let_def split_beta split: if_splits)
        moreover have "ps \<noteq> []" using False ok by auto
        moreover have "me_pin M (cb_buf cb) (length ps) = Inr ps" using Inr False by simp
        ultimately show ?thesis using False nr by (simp add: mapped_def)
      qed
    qed
  qed
qed

text \<open>Unmapping a buffer that was mapped, whatever the scatter table has become.\<close>

lemma unmap_mapped:
  assumes "mapped cb m ps m'" and "ps \<noteq> []"
  shows "um_pins (snd (char_sgdma_unmap_user_buf (cb\<lparr>cb_sgt := t\<rparr>) write m')) = um_pins m"
    and "um_arrays (snd (char_sgdma_unmap_user_buf (cb\<lparr>cb_sgt := t\<rparr>) write m')) = um_arrays m"
  using unmap_pins [of "cb\<lparr>cb_sgt := t\<rparr>" ps 0 m' "um_pins m" "write"] assms by (simp_all add: mapped_def)

section \<open>Properties\<close>

text \<open>
  C15 (equivalence). The scatter list of a buffer moves exactly its bytes, in order: the entries, one per
  page, cover the byte at each offset of the buffer once, on the page and at the place in it that the
  user's address gives, and nothing else.
\<close>
theorem scatter_list_equals_buffer:
  assumes "0 < cb_len cb" and "cb_len cb < 2 ^ 32" and "pin_ok M" and "cb_pages cb = []" and "cb_pages_nr cb = 0"
    and "char_sgdma_map_user_buf_to_sgl M cb write m = (0, cb', sg, m')"
  shows "\<exists>ps. me_pin M (cb_buf cb) (length ps) = Inr ps \<and> cb_pages cb' = map Some ps \<and>
    length ps = (unat (cb_buf cb) mod 4096 + cb_len cb + 4095) div 4096 \<and>
    sg_bytes sg = user_bytes ps (cb_buf cb) (cb_len cb)"
proof -
  obtain ps where ps: "mapped cb' m ps m'" "length ps = (unat (cb_buf cb) mod 4096 + cb_len cb + 4095) div 4096"
    "sg = fst (fill_sgl ps (cb_buf cb) (of_nat (cb_len cb)))" "me_pin M (cb_buf cb) (length ps) = Inr ps"
    using map_user_buf_pinned [OF assms(2-6)] by auto
  then show ?thesis
    using fill_sgl_bytes [OF assms(1,2) ps(2)] by (auto simp: mapped_def)
qed

text \<open>The kernel gives the pages 50, 51, \<dots> of a buffer.\<close>

definition sample_pages :: map_env where
  "sample_pages = \<lparr>me_sgl = True, me_array = True, me_pin = (\<lambda>buf n. Inr (map (\<lambda>i. 50 + i) [0..<n])),
     me_dma_map = (\<lambda>sg t. t\<lparr>sgl := map (\<lambda>e. \<lparr>sg_dma_address = of_nat (us_page e * 4096 + us_offset e),
       sg_dma_len = of_nat (us_length e)\<rparr>) sg, nents := length sg\<rparr>)\<rparr>"

definition no_pins :: user_mem where
  "no_pins = \<lparr>um_pins = [], um_dirty = [], um_arrays = 0\<rparr>"

lemma sample_pin_ok: "pin_ok sample_pages"
  by (simp add: pin_ok_def sample_pages_def)

definition sample_buffer :: xdma_io_cb where
  "sample_buffer = zero_cb\<lparr>cb_buf := 0x1F00, cb_len := 0x300, cb_ep_addr := 0x1F00, cb_write := True\<rparr>"

definition sample_sg :: "user_sg list" where
  "sample_sg = [\<lparr>us_page = 50, us_offset = 0xF00, us_length = 0x100\<rparr>, \<lparr>us_page = 51, us_offset = 0, us_length = 0x200\<rparr>]"

lemma sample_maps:
  "\<exists>cb' m'. char_sgdma_map_user_buf_to_sgl sample_pages sample_buffer True no_pins = (0, cb', sample_sg, m')"
proof -
  have n: "unat (pages_spanned 0x1F00 (of_nat 0x300)) = 2"
    using pages_spanned_count [of "0x300" "0x1F00"] by simp
  have "map (\<lambda>i. 50 + i) [0..<2] = [50, 51 :: nat]" by (simp add: upt_rec)
  moreover have "\<not> adjacent_duplicate [50, 51]" by (simp add: adjacent_duplicate_def upt_rec)
  moreover have "fill_sgl [50, 51] 0x1F00 (of_nat 0x300) = (sample_sg, 0)"
    by (simp add: sample_sg_def Let_def)
  ultimately have "fst (char_sgdma_map_user_buf_to_sgl sample_pages sample_buffer True no_pins) = 0"
    "fst (snd (snd (char_sgdma_map_user_buf_to_sgl sample_pages sample_buffer True no_pins))) = sample_sg"
    unfolding char_sgdma_map_user_buf_to_sgl_def Let_def
    using n by (simp_all add: sample_buffer_def sample_pages_def zero_cb_def split_beta)
  then show ?thesis by (metis prod.collapse)
qed

lemma scatter_list_equals_buffer_witness:
  "\<exists>cb' sg m'. char_sgdma_map_user_buf_to_sgl sample_pages sample_buffer True no_pins = (0, cb', sg, m') \<and>
     sg_bytes sg = user_bytes [50, 51] 0x1F00 0x300"
proof -
  obtain cb' sg m' where r: "char_sgdma_map_user_buf_to_sgl sample_pages sample_buffer True no_pins = (0, cb', sg, m')"
    using sample_maps by blast
  obtain ps where ps: "me_pin sample_pages 0x1F00 (length ps) = Inr ps" "length ps = 2"
    "sg_bytes sg = user_bytes ps 0x1F00 0x300"
    using scatter_list_equals_buffer [OF _ _ sample_pin_ok _ _ r] by (auto simp: sample_buffer_def zero_cb_def)
  then have "ps = [50, 51]" by (simp add: sample_pages_def upt_rec)
  with ps r show ?thesis by blast
qed

section \<open>A transfer that completes\<close>

text \<open>
  What the kernel documents of mapping a scatter list for DMA: at least one entry, and as many bytes as
  the list has; no entry is so long that the rounding of the request's piece count wraps.
\<close>

definition dma_map_ok :: "u32 \<Rightarrow> user_sg list \<Rightarrow> sg_table \<Rightarrow> bool" where
  "dma_map_ok blen sg t \<longleftrightarrow> 0 < nents t \<and> nents t \<le> length (sgl t) \<and>
     (\<forall>e \<in> set (take (nents t) (sgl t)). unat (sg_dma_len e) + unat blen \<le> 2 ^ 32) \<and>
     sum_list (map (\<lambda>e. unat (sg_dma_len e)) (take (nents t) (sgl t))) = sum_list (map us_length sg)"

lemma length_sg_bytes: "length (sg_bytes sg) = sum_list (map us_length sg)"
  by (simp add: sg_bytes_def length_concat comp_def)

lemma pieces_total:
  fixes blen :: u32
  assumes "blen \<noteq> 0"
  shows "sum_list (map (\<lambda>d. unat (sd_len d)) (all_pieces (unat blen) sgs)) = sum_list (map (\<lambda>e. unat (sg_dma_len e)) sgs)"
proof -
  have "unat blen < 2 ^ 32" using unsigned_less [of blen] by simp
  moreover have "0 < unat blen" using assms by (simp add: unat_gt_0)
  ultimately have b: "0 < unat blen" "unat blen < 2 ^ 32" by blast+
  show ?thesis by (induction sgs) (simp_all add: pieces_sum [OF b])
qed

text \<open>A submit of a mapped list returns its bytes.\<close>

lemma submit_mapped:
  assumes "select_engine dev channel write = Inr st" and "ring_ok (eng st)" and "normal_io st"
    and "dma_map_ok (desc_blen_max E) sg (dma_map sgt)" and "desc_blen_max E \<noteq> 0" and "\<forall>n. \<not> oom n"
    and "completes (rid, 0) await" and "sum_list (map us_length sg) = count" and "count < 2 ^ 32"
  shows "\<exists>sgt' dev'. xdma_xfer_submit E oom dma_map await rid dev channel write ep sgt False =
    Some (int count, sgt', dev')"
proof -
  let ?t = "dma_map sgt"
  have t: "0 < nents ?t" "nents ?t \<le> length (sgl ?t)"
    "\<forall>e \<in> set (take (nents ?t) (sgl ?t)). unat (sg_dma_len e) + unat (desc_blen_max E) \<le> 2 ^ 32"
    "sum_list (map (\<lambda>e. unat (sg_dma_len e)) (take (nents ?t) (sgl ?t))) = count"
    using assms(4,8) by (simp_all add: dma_map_ok_def)
  obtain req where req: "xdma_init_request (desc_blen_max E) oom ?t ep = Some (Some req)"
    "take (rq_sw_desc_cnt req) (rq_sdesc req) = all_pieces (unat (desc_blen_max E)) (take (nents ?t) (sgl ?t))"
    "rq_sw_desc_cnt req \<le> length (rq_sdesc req)" "rq_sw_desc_idx req = 0"
    using init_request_built [OF assms(5) t(2) assms(6) t(3)] by blast
  have "map (\<lambda>j. unat (sd_len (rq_sdesc req ! j))) [0..<rq_sw_desc_cnt req] =
      map (\<lambda>d. unat (sd_len d)) (take (rq_sw_desc_cnt req) (rq_sdesc req))"
    using req(3) by (simp add: list_eq_iff_nth_eq)
  then have bytes: "piece_bytes (rq_sdesc req) 0 (rq_sw_desc_cnt req) = count"
    unfolding piece_bytes_def using pieces_total [OF assms(5)] t(4) req(2) by simp
  have "map_for_dma dma_map False sgt = Some ?t" using t(1) by (simp add: map_for_dma_def)
  from submit_completed [OF assms(1-3) this req(1,4) assms(7)] bytes assms(9) show ?thesis by auto
qed

lemma read_write_completes:
  assumes len: "0 < count" "count < 2 ^ 32" and pin: "pin_ok M"
    and cb: "cb = zero_cb\<lparr>cb_buf := buf, cb_len := count, cb_ep_addr := pos, cb_write := write\<rparr>"
    and mp: "char_sgdma_map_user_buf_to_sgl M cb write m = (0, cb', sg, m1)"
    and dm: "dma_map_ok (desc_blen_max E) sg (me_dma_map M sg (cb_sgt cb'))"
    and e: "e = eng (cdev_engine h2c ch dev)" "e_dir e = dir_of write"
    and al: "check_transfer_align e buf (of_nat count) pos True = 0" and chk: "0 \<le> chk"
    and sub: "select_engine dev (e_channel e) write = Inr st" "ring_ok (eng st)" "normal_io st"
      "desc_blen_max E \<noteq> 0" "\<forall>n. \<not> oom n" "completes (rid, 0) await"
  shows "\<exists>dev' m'. char_sgdma_read_write E M oom await rid chk h2c ch buf count pos write (dev, m) =
      Some (int count, dev', m') \<and> um_pins m' = um_pins m \<and> um_arrays m' = um_arrays m"
proof -
  have c: "cb_buf cb = buf" "cb_len cb = count" "cb_pages cb = []" "cb_pages_nr cb = 0"
    by (simp_all add: cb zero_cb_def)
  obtain ps where ps: "mapped cb' m ps m1" "ps \<noteq> []" "length ps = (unat buf mod 4096 + count + 4095) div 4096"
    "sg = fst (fill_sgl ps buf (of_nat count))"
    using map_user_buf_pinned [OF _ pin c(3,4) mp] len(2) c(1,2) by auto
  have "sg_bytes sg = user_bytes ps buf count" using fill_sgl_bytes [OF len ps(3)] ps(4) by simp
  from arg_cong [OF this, of length] have total: "sum_list (map us_length sg) = count"
    by (simp add: length_sg_bytes user_bytes_def)
  obtain sgt' dev' where s: "xdma_xfer_submit E oom (me_dma_map M sg) await rid dev (e_channel e) write pos (cb_sgt cb') False =
      Some (int count, sgt', dev')"
    using submit_mapped [where dma_map = "me_dma_map M sg" and sgt = "cb_sgt cb'", OF sub(1-3) dm sub(4-6) total len(2)]
    by blast
  have "char_sgdma_read_write E M oom await rid chk h2c ch buf count pos write (dev, m) =
      Some (int count, dev', snd (char_sgdma_unmap_user_buf (cb'\<lparr>cb_sgt := sgt'\<rparr>) write m1))"
    using s mp e al chk by (simp add: char_sgdma_read_write_def Let_def split_beta cb)
  then show ?thesis using unmap_mapped [OF ps(1,2)] by blast
qed

text \<open>
  C16 (safety). A read or a write releases every page it pinned, whatever fails on the way: afterwards the
  pins of the system are what they were. Of the arrays of page pointers only the one of a call that
  fails may remain.
\<close>
theorem read_write_releases_pins:
  assumes "pin_ok M" and "count < 2 ^ 32"
    and "char_sgdma_read_write E M oom await rid chk h2c ch buf count pos write (dev, m) = Some (res, dev', m')"
  shows "um_pins m' = um_pins m \<and> (um_arrays m' = um_arrays m \<or> um_arrays m' = Suc (um_arrays m) \<and> res < 0)"
proof -
  let ?cb = "zero_cb\<lparr>cb_buf := buf, cb_len := count, cb_ep_addr := pos, cb_write := write\<rparr>"
  obtain rv cb sg m1 where mp: "char_sgdma_map_user_buf_to_sgl M ?cb write m = (rv, cb, sg, m1)" by (metis prod_cases4)
  have "cb_len ?cb < 2 ^ 32" "cb_pages ?cb = []" "cb_pages_nr ?cb = 0" using assms(2) by (simp_all add: zero_cb_def)
  note p = map_user_buf_pinned [OF this(1) assms(1) this(2,3) mp]
  consider "m' = m" | "rv < 0" "m' = m1" "res = rv"
    | sgt where "\<not> rv < 0" "m' = snd (char_sgdma_unmap_user_buf (cb\<lparr>cb_sgt := sgt\<rparr>) write m1)"
    using assms(3) mp
    by (auto simp: char_sgdma_read_write_def Let_def split_beta split: if_splits option.splits)
  then show ?thesis
  proof cases
    case 3
    then obtain ps where "mapped cb m ps m1" "ps \<noteq> []" using p by auto
    from unmap_mapped [OF this] show ?thesis unfolding 3(2) by blast
  qed (use p in auto)
qed

text \<open>The engine of the sample device takes any alignment.\<close>

lemma sample_write_setting:
  "dma_map_ok 0x1000 sample_sg (me_dma_map sample_pages sample_sg t)"
  "check_transfer_align sample_engine buf len pos True = 0" "normal_io idle_sample"
  "cdev_engine True 0 sample_dev = idle_sample" "eng idle_sample = sample_engine"
  "e_channel sample_engine = 0" "e_dir sample_engine = dir_of True"
  by (simp_all add: dma_map_ok_def sample_sg_def sample_pages_def check_transfer_align_def sample_engine_def
      normal_io_def streaming_c2h_def idle_sample_def cdev_engine_def sample_dev_def dir_of_def Let_def)

lemma sample_write:
  "\<exists>dev' m'. char_sgdma_read_write (sample_env 0 0) sample_pages (\<lambda>_. False) (finish_xfer (7, 0)) 7 0 True 0
      0x1F00 0x300 0x1F00 True (sample_dev, no_pins) = Some (0x300, dev', m')"
proof -
  obtain cb' m1 where r: "char_sgdma_map_user_buf_to_sgl sample_pages sample_buffer True no_pins = (0, cb', sample_sg, m1)"
    using sample_maps by blast
  have "desc_blen_max (sample_env 0 0) = 0x1000" by (simp add: sample_env_def)
  then have "\<exists>dev' m'. char_sgdma_read_write (sample_env 0 0) sample_pages (\<lambda>_. False) (finish_xfer (7, 0)) 7 0 True 0
      0x1F00 0x300 0x1F00 True (sample_dev, no_pins) = Some (int 0x300, dev', m') \<and> um_pins m' = um_pins no_pins \<and> um_arrays m' = um_arrays no_pins"
    using r sample_write_setting select_sample idle_sample_ring finish_xfer_completes sample_pin_ok
    by (intro read_write_completes [where cb = sample_buffer and e = sample_engine]) (simp_all add: sample_buffer_def)
  then show ?thesis by auto
qed

lemma read_write_releases_pins_witness:
  "\<exists>dev' m'. char_sgdma_read_write (sample_env 0 0) sample_pages (\<lambda>_. False) (finish_xfer (7, 0)) 7 0 True 0
      0x1F00 0x300 0x1F00 True (sample_dev, no_pins) = Some (0x300, dev', m') \<and> um_pins m' = []"
  using sample_write read_write_releases_pins [OF sample_pin_ok, of "0x300"] by (fastforce simp: no_pins_def)

text \<open>
  When the user's pages are there, the list is mapped for DMA without losing bytes and each
  wait of the submission ends with its transfer completed, a read or write of a non-streaming channel
  returns the whole count, and the pages and the array of page pointers are released.
\<close>
theorem read_write_all_bytes:
  assumes "0 < count" and "count < 2 ^ 32" and "pin_ok M"
    and "cb = zero_cb\<lparr>cb_buf := buf, cb_len := count, cb_ep_addr := pos, cb_write := write\<rparr>"
    and "char_sgdma_map_user_buf_to_sgl M cb write m = (0, cb', sg, m1)"
    and "dma_map_ok (desc_blen_max E) sg (me_dma_map M sg (cb_sgt cb'))"
    and "e = eng (cdev_engine h2c ch dev)" and "e_dir e = dir_of write"
    and "check_transfer_align e buf (of_nat count) pos True = 0" and "0 \<le> chk"
    and "select_engine dev (e_channel e) write = Inr st" and "ring_ok (eng st)" and "normal_io st"
    and "desc_blen_max E \<noteq> 0" and "\<forall>n. \<not> oom n" and "completes (rid, 0) await"
  shows "\<exists>dev' m'. char_sgdma_read_write E M oom await rid chk h2c ch buf count pos write (dev, m) =
      Some (int count, dev', m') \<and> um_pins m' = um_pins m \<and> um_arrays m' = um_arrays m"
  by (rule read_write_completes [OF assms])

lemma read_write_all_bytes_witness:
  "\<exists>dev' m'. char_sgdma_read_write (sample_env 0 0) sample_pages (\<lambda>_. False) (finish_xfer (7, 0)) 7 0 True 0
      0x1F00 0x300 0x1F00 True (sample_dev, no_pins) = Some (0x300, dev', m') \<and> um_arrays m' = 0"
proof -
  obtain cb' m1 where r: "char_sgdma_map_user_buf_to_sgl sample_pages sample_buffer True no_pins = (0, cb', sample_sg, m1)"
    using sample_maps by blast
  have "desc_blen_max (sample_env 0 0) = 0x1000" by (simp add: sample_env_def)
  then have "\<exists>dev' m'. char_sgdma_read_write (sample_env 0 0) sample_pages (\<lambda>_. False) (finish_xfer (7, 0)) 7 0 True 0
      0x1F00 0x300 0x1F00 True (sample_dev, no_pins) = Some (int 0x300, dev', m') \<and> um_pins m' = um_pins no_pins \<and> um_arrays m' = um_arrays no_pins"
    using r sample_write_setting select_sample idle_sample_ring finish_xfer_completes sample_pin_ok
    by (intro read_write_all_bytes [where cb = sample_buffer and e = sample_engine]) (simp_all add: sample_buffer_def)
  then show ?thesis by (auto simp: no_pins_def)
qed

section \<open>Alignment and long buffers\<close>

lemma align_mask:
  assumes "unat (x :: u8) = 2 ^ a"
  shows "(ucast x - 1 :: 'w::len word) = mask a"
proof -
  have "(ucast x :: 'w word) = of_nat (unat x)" by simp
  then show ?thesis by (simp add: assms mask_eq_exp_minus_1)
qed

lemma low_mod32:
  assumes "a \<le> 32"
  shows "unat (ucast (w :: u64) AND mask a :: u32) = unat w mod 2 ^ a"
proof -
  have "unat (ucast w :: u32) = unat w mod 2 ^ 32" by (simp add: unsigned_ucast_eq take_bit_eq_mod)
  moreover have "unat w mod 2 ^ 32 mod 2 ^ a = unat w mod 2 ^ a"
    by (rule mod_mod_cancel, rule le_imp_power_dvd, rule assms)
  ultimately show ?thesis by (simp only: low_bits_mod)
qed

text \<open>
  For an engine whose alignment and granularity are powers of two, a transfer passes the
  check exactly if it is aligned: with a fixed device address the buffer, the device address of a
  blocking call and the length must be multiples, with an incrementing one the buffer and the device
  address must agree modulo the alignment.
\<close>
theorem align_check_exact:
  assumes "unat (e_addr_align e) = 2 ^ a" and "unat (e_len_granularity e) = 2 ^ g"
  shows "check_transfer_align e buf count pos sync =
    (if (if e_non_incr_addr e
         then 2 ^ a dvd unat buf \<and> (sync \<longrightarrow> 2 ^ a dvd unat pos) \<and> 2 ^ g dvd unat count
         else unat buf mod 2 ^ a = unat pos mod 2 ^ a) then 0 else - EINVAL)"
proof -
  have "unat (e_addr_align e) < 2 ^ 8" using unsigned_less [of "e_addr_align e"] by simp
  then have "a < 8" unfolding assms(1) by (rule power_less_imp_less_exp [rotated]) simp
  then have a: "a \<le> 32" by simp
  note m = align_mask [OF assms(1), where 'w = 32] align_mask [OF assms(2), where 'w = 64]
  have lsb: "(ucast w AND mask a = (0 :: u32)) = (2 ^ a dvd unat w)" for w :: u64
    using low_mod32 [OF a, of w] by (metis dvd_eq_mod_eq_0 unat_eq_0)
  have len: "(count AND mask g = 0) = (2 ^ g dvd unat count)"
    using low_bits_mod [of count g] by (metis dvd_eq_mod_eq_0 unat_eq_0)
  have agree: "(ucast buf AND mask a = (ucast pos AND mask a :: u32)) = (unat buf mod 2 ^ a = unat pos mod 2 ^ a)"
    using low_mod32 [OF a] by (metis word_unat_eq_iff)
  show ?thesis unfolding check_transfer_align_def Let_def m lsb len agree by auto
qed

lemma align_check_exact_witness:
  "check_transfer_align (sample_engine\<lparr>e_non_incr_addr := True, e_addr_align := 0x40\<rparr>) 0x1040 3 0x80 True = 0"
  using align_check_exact [where e = "sample_engine\<lparr>e_non_incr_addr := True, e_addr_align := 0x40\<rparr>" and a = 6 and g = 0]
  by (simp add: sample_engine_def)

lemma map_4g:
  assumes "ucast (of_nat (cb_len cb) :: u64) = (0 :: u32)" and "of_nat (cb_len cb) \<noteq> (0 :: u64)"
    and "me_sgl M" and "me_array M" and "n = unat (pages_spanned (cb_buf cb) (of_nat (cb_len cb)))" and "n \<noteq> 0"
    and "me_pin M (cb_buf cb) n = Inr ps" and "length ps = n" and "\<not> adjacent_duplicate ps"
  shows "\<exists>cb' sg m'. char_sgdma_map_user_buf_to_sgl M cb write m = (- EINVAL, cb', sg, m') \<and>
    um_pins m' = ps @ um_pins m \<and> um_arrays m' = Suc (um_arrays m)"
proof -
  have left: "snd (fill_sgl ps (cb_buf cb) (of_nat (cb_len cb))) \<noteq> 0"
    using fill_sgl_zero [OF assms(1), of ps "cb_buf cb"] assms(2) by simp
  then show ?thesis
    using assms(3-9) by (simp add: char_sgdma_map_user_buf_to_sgl_def Let_def split_beta)
qed

text \<open>
  An aperture transfer of 4 GiB is refused only after its pages have been pinned, because
  the lengths of the entries are taken modulo \<open>2 ^ 32\<close>; the pins, more than a million of them, and the
  array of page pointers are never released.
\<close>
theorem aperture_4g_leaks_pins:
  assumes "e_dir (eng st) = dir_of write" and "ai_len arg = 2 ^ 32"
    and "check_transfer_align (eng st) (ai_buffer arg) (of_nat (ai_len arg)) (ai_ep_addr arg) True = 0"
    and "me_sgl M" and "me_array M" and "n = (unat (ai_buffer arg) mod 4096 + 2 ^ 32 + 4095) div 4096"
    and "me_pin M (ai_buffer arg) n = Inr ps" and "length ps = n" and "\<not> adjacent_duplicate ps"
  shows "\<exists>m'. ioctl_do_aperture_dma E M oom await rid arg write (st, m) = Some (- EINVAL, None, st, m') \<and>
    um_pins m' = ps @ um_pins m \<and> 2 ^ 20 \<le> length ps \<and> um_arrays m' = Suc (um_arrays m)"
proof -
  let ?cb = "zero_cb\<lparr>cb_buf := ai_buffer arg, cb_len := ai_len arg, cb_ep_addr := ai_ep_addr arg, cb_write := write\<rparr>"
  have n: "n = unat (pages_spanned (ai_buffer arg) (of_nat (2 ^ 32)))"
    using pages_spanned_count [of "2 ^ 32" "ai_buffer arg"] assms(6) by simp
  have big: "2 ^ 20 \<le> n" unfolding assms(6) by simp
  have "ucast (of_nat (2 ^ 32) :: u64) = (0 :: u32)" "of_nat (2 ^ 32) \<noteq> (0 :: u64)" by simp_all
  then obtain cb' sg m' where "char_sgdma_map_user_buf_to_sgl M ?cb write m = (- EINVAL, cb', sg, m')"
    "um_pins m' = ps @ um_pins m" "um_arrays m' = Suc (um_arrays m)"
    using map_4g [of ?cb M n ps "write" m] assms(2,4,5,7-9) n big by auto
  then show ?thesis using assms(1,3,8) big by (simp add: ioctl_do_aperture_dma_def Let_def)
qed

lemma sample_no_duplicate: "\<not> adjacent_duplicate (map (\<lambda>i. 50 + i) [0..<n])"
  by (auto simp: adjacent_duplicate_def list_ex_iff)

lemma aperture_4g_leaks_pins_witness:
  "\<exists>m'. ioctl_do_aperture_dma (sample_env 0 0) sample_pages False (\<lambda>st. st) 7
      \<lparr>ai_ep_addr = 0, ai_aperture = 64, ai_buffer = 0, ai_len = 2 ^ 32, ai_error = 0, ai_done = 0\<rparr> True (idle_sample, no_pins)
    = Some (- EINVAL, None, idle_sample, m') \<and> 2 ^ 20 \<le> length (um_pins m')"
proof -
  let ?arg = "\<lparr>ai_ep_addr = 0, ai_aperture = 64, ai_buffer = 0, ai_len = 2 ^ 32, ai_error = 0, ai_done = 0\<rparr>"
  have e: "eng idle_sample = sample_engine" by (rule sample_write_setting)
  have "\<exists>m'. ioctl_do_aperture_dma (sample_env 0 0) sample_pages False (\<lambda>st. st) 7 ?arg True (idle_sample, no_pins) =
      Some (- EINVAL, None, idle_sample, m') \<and> um_pins m' = map (\<lambda>i. 50 + i) [0..<2 ^ 20] @ um_pins no_pins \<and>
      2 ^ 20 \<le> length (map (\<lambda>i. 50 + i) [0..<2 ^ 20]) \<and> um_arrays m' = Suc (um_arrays no_pins)"
    by (rule aperture_4g_leaks_pins [where n = "2 ^ 20"])
      (simp_all add: e sample_write_setting sample_no_duplicate, simp_all add: sample_pages_def)
  then show ?thesis by fastforce
qed

end
