(* ===== verification/Cdev_Aio.thy ===== *)
theory Cdev_Aio
  imports Cdev_Sgdma
begin

text \<open>
  Asynchronous requests on a DMA channel (\<^verbatim>\<open>cdev_aio_write\<close>, \<^verbatim>\<open>cdev_aio_read\<close> and
  the completion handler \<^verbatim>\<open>async_io_handler\<close> in \<^verbatim>\<open>cdev_sgdma.c\<close>): one
  submission without waiting for each element of the vector, one call of the handler for each of
  their completions; the last of these ends the request.
\<close>

section \<open>Data\<close>

text \<open>
  \<open>ca_req\<close> are the requests the submissions have handed out. The counters are \<^verbatim>\<open>int\<close> in the
  code; they only count up from 0.
\<close>

record cdev_async_io =
  ca_cb :: "xdma_io_cb list"
  ca_req :: "xdma_request_cb option list"
  ca_write :: bool
  ca_cancel :: bool
  ca_cmpl_cnt :: nat
  ca_req_cnt :: nat
  ca_res :: int
  ca_res2 :: int
  ca_err_cnt :: nat

text \<open>
  \<open>as_caio\<close> is the request, if it is not freed; \<open>as_done\<close> are the results given to
  \<^verbatim>\<open>ki_complete\<close>, the latest first; \<open>as_kfree\<close> the positions in the array of control blocks whose
  address was given to \<^verbatim>\<open>kfree\<close>.
\<close>

record 'c aio_state =
  as_dev :: "'c xdma_dev_io"
  as_mem :: user_mem
  as_caio :: "cdev_async_io option"
  as_done :: "int list"
  as_kfree :: "nat list"

section \<open>Submitting\<close>

definition aio_cb :: "u64 \<times> nat \<Rightarrow> u64 \<Rightarrow> bool \<Rightarrow> xdma_io_cb" where
  "aio_cb v pos write = zero_cb\<lparr>cb_buf := fst v, cb_len := snd v, cb_ep_addr := pos, cb_write := write,
     cb_private := Some 0, cb_io_done := Fn_async_io_handler\<rparr>"

text \<open>
  The elements of the vector from \<open>i\<close> on; an early return gives its code. What the submission returns
  is not looked at. \<open>M i\<close> and \<open>rid i\<close> are what the kernel answers to element \<open>i\<close> and the request it gets.
\<close>

fun aio_submit_from ::
  "('c, 'x) kenv_scheme \<Rightarrow> (nat \<Rightarrow> map_env) \<Rightarrow> (nat \<Rightarrow> bool) \<Rightarrow> (nat \<Rightarrow> nat) \<Rightarrow> bool \<Rightarrow> nat \<Rightarrow> u64 \<Rightarrow> bool \<Rightarrow>
     nat \<Rightarrow> (u64 \<times> nat) list \<Rightarrow> cdev_async_io \<Rightarrow> 'c aio_state \<Rightarrow> (int option \<times> 'c aio_state) option" where
  "aio_submit_from E M oom rid h2c ch pos write i [] caio s = Some (None, s\<lparr>as_caio := Some caio\<rparr>)"
| "aio_submit_from E M oom rid h2c ch pos write i (v # vs) caio s =
     (let e = eng (cdev_engine h2c ch (as_dev s));
          rv = check_transfer_align e (fst v) (of_nat (snd v)) pos True
      in if rv \<noteq> 0 then Some (Some rv, s\<lparr>as_caio := None\<rparr>)
         else (let (rv, cb, sg, m) = char_sgdma_map_user_buf_to_sgl (M i) (aio_cb v pos write) write (as_mem s);
                   caio = caio\<lparr>ca_cb := (ca_cb caio)[i := cb]\<rparr>; s = s\<lparr>as_mem := m\<rparr>
               in if rv < 0 then Some (Some rv, s\<lparr>as_caio := Some caio\<rparr>)
                  else (case xdma_xfer_submit_nowait E oom (me_dma_map (M i) sg) (rid i) i (as_dev s)
                               (e_channel e) write pos (cb_sgt cb) False of
                          None \<Rightarrow> None
                        | Some (_, req, sgt, dev) \<Rightarrow>
                            aio_submit_from E M oom rid h2c ch pos write (Suc i) vs
                              (caio\<lparr>ca_cb := (ca_cb caio)[i := cb\<lparr>cb_sgt := sgt, cb_req := map_option (\<lambda>_. rid i) req\<rparr>],
                                    ca_req := (ca_req caio)[i := req]\<rparr>)
                              (s\<lparr>as_dev := dev\<rparr>))))"

definition new_caio :: "bool \<Rightarrow> nat \<Rightarrow> cdev_async_io" where
  "new_caio write n = \<lparr>ca_cb = replicate n zero_cb, ca_req = replicate n None, ca_write = write,
     ca_cancel = False, ca_cmpl_cnt = 0, ca_req_cnt = n, ca_res = 0, ca_res2 = 0, ca_err_cnt = 0\<rparr>"

text \<open>The allocations of the request and of its control blocks are not checked by the code.\<close>

definition cdev_aio ::
  "('c, 'x) kenv_scheme \<Rightarrow> (nat \<Rightarrow> map_env) \<Rightarrow> (nat \<Rightarrow> bool) \<Rightarrow> (nat \<Rightarrow> nat) \<Rightarrow> bool \<Rightarrow> nat \<Rightarrow> u64 \<Rightarrow> bool \<Rightarrow>
     (u64 \<times> nat) list \<Rightarrow> 'c aio_state \<Rightarrow> (int \<times> 'c aio_state) option" where
  "cdev_aio E M oom rid h2c ch pos write vs s =
     (if e_dir (eng (cdev_engine h2c ch (as_dev s))) \<noteq> dir_of write then Some (- EINVAL, s)
      else (case aio_submit_from E M oom rid h2c ch pos write 0 vs (new_caio write (length vs)) s of
              None \<Rightarrow> None
            | Some (Some rv, s) \<Rightarrow> Some (rv, s)
            | Some (None, s) \<Rightarrow>
                (let st = cdev_engine h2c ch (as_dev s)
                 in Some (- EIOCBQUEUED, case e_cmplthp (eng st) of
                      None \<Rightarrow> s
                    | Some th \<Rightarrow> s\<lparr>as_dev := put_engine h2c ch (wake_up (Wake_cmpl_thread th) st) (as_dev s)\<rparr>))))"

definition cdev_aio_write ::
  "('c, 'x) kenv_scheme \<Rightarrow> (nat \<Rightarrow> map_env) \<Rightarrow> (nat \<Rightarrow> bool) \<Rightarrow> (nat \<Rightarrow> nat) \<Rightarrow> bool \<Rightarrow> nat \<Rightarrow> u64 \<Rightarrow>
     (u64 \<times> nat) list \<Rightarrow> 'c aio_state \<Rightarrow> (int \<times> 'c aio_state) option" where
  "cdev_aio_write E M oom rid h2c ch pos vs s = cdev_aio E M oom rid h2c ch pos True vs s"

definition cdev_aio_read ::
  "('c, 'x) kenv_scheme \<Rightarrow> (nat \<Rightarrow> map_env) \<Rightarrow> (nat \<Rightarrow> bool) \<Rightarrow> (nat \<Rightarrow> nat) \<Rightarrow> bool \<Rightarrow> nat \<Rightarrow> u64 \<Rightarrow>
     (u64 \<times> nat) list \<Rightarrow> 'c aio_state \<Rightarrow> (int \<times> 'c aio_state) option" where
  "cdev_aio_read E M oom rid h2c ch pos vs s = cdev_aio E M oom rid h2c ch pos False vs s"

section \<open>Completing\<close>

text \<open>
  The handler for control block \<open>i\<close>: \<open>locked\<close> says whether \<^verbatim>\<open>spin_trylock\<close> succeeded. The
  result \<^verbatim>\<open>ki_complete\<close> gets is that of the kernels from 5.16 on.
\<close>

definition aio_finish :: "nat \<Rightarrow> cdev_async_io \<Rightarrow> 'c aio_state \<Rightarrow> 'c aio_state" where
  "aio_finish i caio s =
     s\<lparr>as_caio := None, as_kfree := i # as_kfree s,
       as_done := (if ca_err_cnt caio \<noteq> 0 then ca_res2 caio else ca_res caio) # as_done s\<rparr>"

text \<open>The element's buffer is released and its outcome counted; the last element ends the request.\<close>

definition aio_account ::
  "nat \<Rightarrow> int \<Rightarrow> int \<Rightarrow> sg_table \<Rightarrow> 'c xdma_dev_io \<Rightarrow> cdev_async_io \<Rightarrow> 'c aio_state \<Rightarrow> 'c aio_state" where
  "aio_account i err numbytes sgt dev caio s =
     (let cb = ca_cb caio ! i;
          (cb, m) = char_sgdma_unmap_user_buf (cb\<lparr>cb_sgt := sgt\<rparr>) (cb_write cb) (as_mem s);
          res2 = or (ca_res2 caio) (if err < 0 then err else 0);
          caio = caio\<lparr>ca_cb := (ca_cb caio)[i := cb], ca_res2 := res2,
                      ca_err_cnt := (if res2 \<noteq> 0 then Suc (ca_err_cnt caio) else ca_err_cnt caio),
                      ca_cmpl_cnt := Suc (ca_cmpl_cnt caio),
                      ca_res := ca_res caio + numbytes\<rparr>;
          s = s\<lparr>as_mem := m, as_dev := dev, as_caio := Some caio\<rparr>
      in if ca_cmpl_cnt caio = ca_req_cnt caio then aio_finish i caio s else s)"

definition async_io_handler ::
  "('c, 'x) kenv_scheme \<Rightarrow> int \<Rightarrow> bool \<Rightarrow> bool \<Rightarrow> nat \<Rightarrow> nat \<Rightarrow> int \<Rightarrow> 'c aio_state \<Rightarrow> 'c aio_state option" where
  "async_io_handler E chk locked h2c ch i err s =
     (case as_caio s of
        None \<Rightarrow> Some s
      | Some caio \<Rightarrow>
         if chk < 0 then Some s
         else if \<not> locked then Some (s\<lparr>as_done := (- EBUSY) # as_done s, as_caio := None\<rparr>)
         else if ca_cancel caio then Some (s\<lparr>as_caio := None, as_kfree := i # as_kfree s\<rparr>)
         else (let cb = ca_cb caio ! i; e = eng (cdev_engine h2c ch (as_dev s))
               in if err \<noteq> 0 then Some (aio_account i err 0 (cb_sgt cb) (as_dev s) caio s)
                  else (case ca_req caio ! i of
                          None \<Rightarrow> None
                        | Some req \<Rightarrow>
                            map_option (\<lambda>(rv, sgt, dev). aio_account i err rv sgt dev caio s)
                              (xdma_xfer_completion E (the (cb_req cb)) req (as_dev s) (e_channel e)
                                 (cb_write cb) (cb_sgt cb) False))))"

end
