(* ===== verification/Cdev_Aio_Spec.thy ===== *)
theory Cdev_Aio_Spec
  imports Cdev_Aio Cdev_Sgdma_Spec
begin

text \<open>
  The completion handler of asynchronous requests: the request is completed once, by the last of its
  elements, with an error exactly if one of them failed.
\<close>

text \<open>The handler for one element after the other, the element and its error.\<close>

fun handle_all ::
  "('c, 'x) kenv_scheme \<Rightarrow> bool \<Rightarrow> nat \<Rightarrow> (nat \<times> int) list \<Rightarrow> 'c aio_state \<Rightarrow> 'c aio_state option" where
  "handle_all E h2c ch [] s = Some s"
| "handle_all E h2c ch (c # cs) s =
     Option.bind (async_io_handler E 0 True h2c ch (fst c) (snd c) s) (handle_all E h2c ch cs)"

text \<open>What holds of a request between two of its completions: \<open>failed\<close> says whether one had an error.\<close>

definition pending :: "bool \<Rightarrow> cdev_async_io \<Rightarrow> bool" where
  "pending failed caio \<longleftrightarrow> \<not> ca_cancel caio \<and> ca_cmpl_cnt caio < ca_req_cnt caio \<and>
     (if failed then ca_res2 caio < 0 \<and> 0 < ca_err_cnt caio else ca_res2 caio = 0 \<and> ca_err_cnt caio = 0)"

lemma or_error:
  fixes x e :: int
  assumes "if failed then x < 0 else x = 0"
  shows "if failed \<or> e < 0 then or x (if e < 0 then e else 0) < 0 else or x (if e < 0 then e else 0) = 0"
  using assms by auto

lemma handler_step:
  assumes caio: "as_caio s = Some caio" and p: "pending failed caio"
    and run: "async_io_handler E 0 True h2c ch i err s = Some s'"
  shows "if Suc (ca_cmpl_cnt caio) = ca_req_cnt caio
    then as_caio s' = None \<and> as_kfree s' = i # as_kfree s \<and>
      (\<exists>r. as_done s' = r # as_done s \<and> (failed \<or> err < 0 \<longrightarrow> r < 0))
    else as_kfree s' = as_kfree s \<and> as_done s' = as_done s \<and>
      (\<exists>caio'. as_caio s' = Some caio' \<and> pending (failed \<or> err < 0) caio' \<and>
        ca_cmpl_cnt caio' = Suc (ca_cmpl_cnt caio) \<and> ca_req_cnt caio' = ca_req_cnt caio)"
proof -
  obtain n sgt dev where s': "s' = aio_account i err n sgt dev caio s"
    using run caio p by (auto simp: async_io_handler_def pending_def Let_def split: if_splits option.splits)
  define r where "r = or (ca_res2 caio) (if err < 0 then err else 0)"
  have "if failed \<or> err < 0 then r < 0 else r = 0"
    unfolding r_def by (rule or_error) (use p in \<open>simp add: pending_def split: if_splits\<close>)
  then show ?thesis
    unfolding s' aio_account_def Let_def r_def [symmetric]
    using p by (auto simp: pending_def aio_finish_def split_beta split: if_splits)
qed

lemma handle_all_once:
  "as_caio s = Some caio \<Longrightarrow> pending failed caio \<Longrightarrow> cs \<noteq> [] \<Longrightarrow>
     ca_cmpl_cnt caio + length cs = ca_req_cnt caio \<Longrightarrow> handle_all E h2c ch cs s = Some s' \<Longrightarrow>
     as_caio s' = None \<and> as_kfree s' = fst (last cs) # as_kfree s \<and>
     (\<exists>r. as_done s' = r # as_done s \<and> (failed \<or> (\<exists>c \<in> set cs. snd c < 0) \<longrightarrow> r < 0))"
proof (induction cs arbitrary: s caio failed)
  case (Cons c cs)
  obtain s1 where run: "async_io_handler E 0 True h2c ch (fst c) (snd c) s = Some s1"
    "handle_all E h2c ch cs s1 = Some s'"
    using Cons.prems(5) by (auto simp: bind_eq_Some_conv)
  note step = handler_step [OF Cons.prems(1,2) run(1)]
  show ?case
  proof (cases "cs = []")
    case True
    then show ?thesis using step run(2) Cons.prems(4) by auto
  next
    case False
    then have "Suc (ca_cmpl_cnt caio) \<noteq> ca_req_cnt caio" using Cons.prems(4) by (cases cs) auto
    then obtain caio' where c: "as_caio s1 = Some caio'" "pending (failed \<or> snd c < 0) caio'"
      "ca_cmpl_cnt caio' = Suc (ca_cmpl_cnt caio)" "ca_req_cnt caio' = ca_req_cnt caio"
      "as_kfree s1 = as_kfree s" "as_done s1 = as_done s"
      using step by auto
    have "ca_cmpl_cnt caio' + length cs = ca_req_cnt caio'" using c(3,4) Cons.prems(4) by simp
    from Cons.IH [OF c(1,2) False this run(2)] show ?thesis using c(5,6) False by auto
  qed
qed simp

text \<open>
  C36 (safety). A request of several elements is completed exactly once, by the handler call of its last
  element, whatever the order of the calls: before that neither a result is given nor anything freed,
  and then the request is freed and its result is negative if an element failed. What is freed along
  with it is the address of the control block of the element that came last, which is the array's own
  only for the first element.
\<close>
theorem aio_completes_once:
  assumes "as_caio s = Some caio" and "\<not> ca_cancel caio" and "ca_cmpl_cnt caio = 0" and "ca_res2 caio = 0"
    and "ca_err_cnt caio = 0" and "ca_req_cnt caio = length cs" and "cs \<noteq> []"
    and "handle_all E h2c ch cs s = Some s'"
  shows "as_caio s' = None \<and> as_kfree s' = fst (last cs) # as_kfree s \<and>
    (\<exists>r. as_done s' = r # as_done s \<and> ((\<exists>c \<in> set cs. snd c < 0) \<longrightarrow> r < 0))"
  using handle_all_once [of s caio False cs E h2c ch s'] assms by (auto simp: pending_def)

text \<open>Two elements, both timed out.\<close>

definition sample_aio :: "nat aio_state" where
  "sample_aio = \<lparr>as_dev = sample_dev, as_mem = no_pins, as_caio = Some (new_caio True 2), as_done = [], as_kfree = []\<rparr>"

lemma aio_completes_once_witness:
  "\<exists>s' r. handle_all (sample_env 0 0) True 0 [(0, - 110), (1, - 110)] sample_aio = Some s' \<and>
     as_done s' = [r] \<and> r < 0 \<and> as_kfree s' = [1]"
proof -
  have "handle_all (sample_env 0 0) True 0 [(0, - 110), (1, - 110)] sample_aio \<noteq> None"
    by (simp add: async_io_handler_def aio_account_def sample_aio_def new_caio_def aio_finish_def split_beta Let_def)
  then obtain s' where r: "handle_all (sample_env 0 0) True 0 [(0, - 110), (1, - 110)] sample_aio = Some s'" by blast
  from aio_completes_once [OF _ _ _ _ _ _ _ r, of "new_caio True 2"] r show ?thesis
    by (auto simp: sample_aio_def new_caio_def)
qed

end
