(* ===== verification/Cdev_Ctrl.thy ===== *)
theory Cdev_Ctrl
  imports Xdma_Cdev
begin

text \<open>
  The character devices for registers, events and descriptors (\<^verbatim>\<open>cdev_ctrl.c\<close>,
  \<^verbatim>\<open>cdev_events.c\<close>, \<^verbatim>\<open>cdev_bypass.c\<close>): reading and writing a word of a
  BAR, the ioctls of the control device, mapping a BAR, waiting for a user interrupt, and the
  descriptor bypass. \<open>d\<close> is the device the character device \<open>xc\<close> points to.
\<close>

section \<open>Words of a BAR\<close>

text \<open>
  Where \<open>pos\<close> of the BAR lies. Copying to or from the user may fail: the result has the word only if it
  was copied, and a word that could not be read from the user is what the stack held.
\<close>

definition ctrl_addr :: "xdma_cdev \<Rightarrow> u64 \<Rightarrow> iomem" where
  "ctrl_addr xc pos = IOM (nat (xc_bar xc)) (unat pos)"

definition char_ctrl_read ::
  "('x) xenv_scheme \<Rightarrow> bool \<Rightarrow> xdma_cdev \<Rightarrow> xdma_dev \<times> u64 \<Rightarrow> int \<times> u32 option \<times> xdma_dev \<times> u64" where
  "char_ctrl_read E copied xc s =
     (let (d, pos) = s; rv = xcdev_check d xc False
      in if rv < 0 then (rv, None, d, pos)
         else if pos AND 3 \<noteq> 0 then (- EPROTO, None, d, pos)
         else (let (w, log) = read_register E (ctrl_addr xc pos) (xd_io d)
               in (4, if copied then Some w else None, d\<lparr>xd_io := log\<rparr>, pos + 4)))"

definition char_ctrl_write ::
  "u32 option \<Rightarrow> u32 \<Rightarrow> xdma_cdev \<Rightarrow> xdma_dev \<times> u64 \<Rightarrow> int \<times> xdma_dev \<times> u64" where
  "char_ctrl_write user stack xc s =
     (let (d, pos) = s; rv = xcdev_check d xc False
      in if rv < 0 then (rv, d, pos)
         else if pos AND 3 \<noteq> 0 then (- EPROTO, d, pos)
         else (let w = (case user of Some w \<Rightarrow> w | None \<Rightarrow> stack)
               in (4, d\<lparr>xd_io := write_register w (ctrl_addr xc pos) (xd_io d)\<rparr>, pos + 4)))"

section \<open>The ioctls of the control device\<close>

text \<open>What the PCI device is; the device's feature number is never written and stays 0.\<close>

record pci_ident =
  pi_vendor :: u16
  pi_device :: u16
  pi_subsystem_vendor :: u16
  pi_subsystem_device :: u16
  pi_domain :: u16
  pi_bus :: u8
  pi_slot :: u8
  pi_func :: u8

record xdma_ioc_info =
  ii_magic :: u32
  ii_command :: u32
  ii_vendor :: u16
  ii_device :: u16
  ii_subsystem_vendor :: u16
  ii_subsystem_device :: u16
  ii_dma_engine_version :: u32
  ii_driver_version :: u32
  ii_feature_id :: u64
  ii_domain :: u16
  ii_bus :: u8
  ii_dev :: u8
  ii_func :: u8

definition DRV_MOD_VERSION_NUMBER :: u32 where
  "DRV_MOD_VERSION_NUMBER = 2025 * 1000 + 2 * 100 + 0"

definition version_ioctl :: "pci_ident \<Rightarrow> bool \<Rightarrow> bool \<Rightarrow> int \<times> xdma_ioc_info option" where
  "version_ioctl p copied_in copied_out =
     (if \<not> copied_in then (- EFAULT, None)
      else if \<not> copied_out then (- EFAULT, None)
      else (0, Some \<lparr>ii_magic = 0, ii_command = 0, ii_vendor = pi_vendor p, ii_device = pi_device p,
        ii_subsystem_vendor = pi_subsystem_vendor p, ii_subsystem_device = pi_subsystem_device p,
        ii_dma_engine_version = 0, ii_driver_version = DRV_MOD_VERSION_NUMBER, ii_feature_id = 0,
        ii_domain = pi_domain p, ii_bus = pi_bus p, ii_dev = pi_slot p, ii_func = pi_func p\<rparr>))"

text \<open>An ioctl number: direction, size, type and number; the three of the control device.\<close>

definition ioc :: "u32 \<Rightarrow> u32 \<Rightarrow> u32 \<Rightarrow> u32 \<Rightarrow> u32" where
  "ioc dir typ nr sz = push_bit 30 dir OR push_bit 16 sz OR push_bit 8 typ OR nr"

abbreviation (input) XDMA_IOC_MAGIC :: u32 where "XDMA_IOC_MAGIC \<equiv> 0x78"
abbreviation (input) XDMA_XCL_MAGIC :: u32 where "XDMA_XCL_MAGIC \<equiv> 0x586C0C6C"

definition XDMA_IOCINFO :: u32 where "XDMA_IOCINFO = ioc 3 XDMA_IOC_MAGIC 1 40"
definition XDMA_IOCOFFLINE :: u32 where "XDMA_IOCOFFLINE = ioc 0 XDMA_IOC_MAGIC 2 0"
definition XDMA_IOCONLINE :: u32 where "XDMA_IOCONLINE = ioc 0 XDMA_IOC_MAGIC 3 0"

text \<open>
  What the user's memory answers: whether it may be accessed at all, the magic number it holds if it can
  be read, and whether the whole structure can be read and written.
\<close>

record ctrl_user =
  cu_access :: bool
  cu_magic :: "u32 option"
  cu_in :: bool
  cu_out :: bool

text \<open>\<open>h\<close> is the device object the character device points to.\<close>

definition char_ctrl_ioctl ::
  "('x) xenv_scheme \<Rightarrow> open_env \<Rightarrow> pci_ident \<Rightarrow> ctrl_user \<Rightarrow> xdma_cdev \<Rightarrow> nat \<Rightarrow> nat \<Rightarrow> u32 \<Rightarrow> xdma_sys \<Rightarrow>
     int \<times> xdma_ioc_info option \<times> xdma_sys" where
  "char_ctrl_ioctl E K p U xc pdev h cmd s =
     (let rv = xcdev_check (sy_dev s h) xc False; dir = drop_bit 30 cmd
      in if rv < 0 then (rv, None, s)
         else if drop_bit 8 cmd AND 0xff \<noteq> XDMA_IOC_MAGIC then (- ENOTTY, None, s)
         else if (dir AND 2 \<noteq> 0 \<or> dir AND 1 \<noteq> 0) \<and> \<not> cu_access U then (- EFAULT, None, s)
         else if cmd = XDMA_IOCINFO then
           (case cu_magic U of
              None \<Rightarrow> (- EFAULT, None, s)
            | Some magic \<Rightarrow>
                if magic \<noteq> XDMA_XCL_MAGIC then (- ENOTTY, None, s)
                else (let (rv, out) = version_ioctl p (cu_in U) (cu_out U) in (rv, out, s)))
         else if cmd = XDMA_IOCOFFLINE then (0, None, xdma_device_offline E K pdev h s)
         else if cmd = XDMA_IOCONLINE then (0, None, xdma_device_online E K pdev h s)
         else (- ENOTTY, None, s))"

section \<open>Mapping a BAR\<close>

record vm_area =
  vm_start :: u64
  vm_end :: u64
  vm_pgoff :: u64

text \<open>
  \<open>start\<close> and \<open>final\<close> are the first and the last address of the BAR, \<open>remap\<close> what the kernel returns; the
  result has the user's address, the physical address and the length of what is mapped. The page's
  protection flags have no counterpart.
\<close>

definition bridge_mmap ::
  "u64 \<Rightarrow> u64 \<Rightarrow> int \<Rightarrow> xdma_dev \<Rightarrow> xdma_cdev \<Rightarrow> vm_area \<Rightarrow> int \<times> (u64 \<times> u64 \<times> u64) option" where
  "bridge_mmap start final remap d xc v =
     (let rv = xcdev_check d xc False
      in if rv < 0 then (rv, None)
         else (let off = push_bit 12 (vm_pgoff v);
                   phys = start + off;
                   vsize = vm_end v - vm_start v;
                   psize = final - start + 1 - off
               in if vsize > psize then (- EINVAL, None)
                  else if remap \<noteq> 0 then (- EAGAIN, None)
                  else (0, Some (vm_start v, push_bit 12 (drop_bit 12 phys), vsize))))"

section \<open>Events\<close>

text \<open>\<open>await\<close> is the wait for an event: what it returns and the device it finds.\<close>

definition char_events_read ::
  "(xdma_dev \<Rightarrow> int \<times> xdma_dev) \<Rightarrow> bool \<Rightarrow> xdma_cdev \<Rightarrow> nat \<Rightarrow> u64 \<Rightarrow> xdma_dev \<Rightarrow> int \<times> bool option \<times> xdma_dev" where
  "char_events_read await copied xc count pos d =
     (let rv = xcdev_check d xc False
      in if rv < 0 then (rv, None, d)
         else if count \<noteq> 4 then (- EPROTO, None, d)
         else if pos AND 3 \<noteq> 0 then (- EPROTO, None, d)
         else (let (rv, d) = await d
               in if rv = - ERESTARTSYS then (- ERESTARTSYS, None, d)
                  else (let i = nat (xc_bar xc); u = xd_user_irq d ! i; events = ui_events_irq u
                        in (4, if copied then Some events else None,
                            d\<lparr>xd_user_irq := (xd_user_irq d)[i := u\<lparr>ui_events_irq := False\<rparr>]\<rparr>))))"

text \<open>The poll's mask is \<^verbatim>\<open>POLLIN | POLLRDNORM\<close>; a negative result is an error.\<close>

definition char_events_poll :: "xdma_cdev \<Rightarrow> xdma_dev \<Rightarrow> int" where
  "char_events_poll xc d =
     (let rv = xcdev_check d xc False
      in if rv < 0 then rv
         else if ui_events_irq (xd_user_irq d ! nat (xc_bar xc)) then 0x41 else 0)"

section \<open>Descriptor bypass\<close>

text \<open>
  Copying the descriptors of a transfer from number \<open>i\<close> on, \<open>n\<close> of them left: the descriptors copied so
  far, the place in the buffer and the return code. \<open>fails k\<close>: copying to place \<open>k\<close> fails.
\<close>

fun copy_desc_data ::
  "(nat \<Rightarrow> bool) \<Rightarrow> nat \<Rightarrow> xdma_desc list \<Rightarrow> nat \<Rightarrow> nat \<Rightarrow> int \<times> nat \<times> xdma_desc list \<Rightarrow> int \<times> nat \<times> xdma_desc list" where
  "copy_desc_data fails buf_size descs i 0 a = a"
| "copy_desc_data fails buf_size descs i (Suc n) (rc, buf_offset, out) =
     copy_desc_data fails buf_size descs (Suc i) n
       (if buf_offset + 32 \<le> buf_size
        then (if fails buf_offset then (- EINVAL, buf_size, out)
              else (rc, buf_offset + 32, out @ [descs ! i]))
        else (- ENOMEM, buf_offset, out))"

text \<open>All transfers queued on the engine; the code of the last one is kept.\<close>

definition char_bypass_read ::
  "(nat \<Rightarrow> bool) \<Rightarrow> (xid \<Rightarrow> xdma_transfer) \<Rightarrow> xdma_cdev \<Rightarrow> xdma_engine \<Rightarrow> nat \<Rightarrow> xdma_dev \<Rightarrow> int \<times> xdma_desc list" where
  "char_bypass_read fails xs xc e count d =
     (let rc = xcdev_check d xc True
      in if rc < 0 then (rc, [])
         else if count mod 4 \<noteq> 0 then (- EINVAL, [])
         else if xd_bypass_bar_idx d < 0 then (- ENODEV, [])
         else (let (rc, buf_offset, out) =
                     fold (\<lambda>t (rc, buf_offset, out).
                         copy_desc_data fails count (e_desc e) (x_desc_virt (xs t)) (x_desc_num (xs t)) (0, buf_offset, out))
                       (e_transfer_list e) (rc, 0, [])
               in (if rc < 0 then rc else int buf_offset, out)))"

text \<open>
  Writing the words of the user's buffer to the engine's place in the bypass BAR; a word that cannot be
  read ends the loop. The engine's offset counts words in the pointer arithmetic of the code.
\<close>

fun bypass_words :: "iomem \<Rightarrow> u32 option list \<Rightarrow> nat \<Rightarrow> int \<times> iolog \<Rightarrow> int \<times> iolog" where
  "bypass_words a [] buf_offset s = s"
| "bypass_words a (None # ws) buf_offset (rc, log) = (- EINVAL, log)"
| "bypass_words a (Some w # ws) buf_offset (rc, log) =
     bypass_words a ws (buf_offset + 4) (int (buf_offset + 4), write_register w a log)"

definition char_bypass_write ::
  "u32 option list \<Rightarrow> xdma_cdev \<Rightarrow> xdma_engine \<Rightarrow> nat \<Rightarrow> xdma_dev \<Rightarrow> int \<times> xdma_dev" where
  "char_bypass_write buf xc e count d =
     (let rc = xcdev_check d xc True
      in if rc < 0 then (rc, d)
         else if count mod 4 \<noteq> 0 then (- EINVAL, d)
         else if xd_bypass_bar_idx d < 0 then (- ENODEV, d)
         else (let bypass_addr = IOM (nat (xd_bypass_bar_idx d)) (4 * unat (e_bypass_offset e));
                   (rc, log) = bypass_words bypass_addr (take (count div 4) buf) 0 (rc, xd_io d)
               in (rc, d\<lparr>xd_io := log\<rparr>)))"

end
