(* ===== verification/Cdev_Xvc.thy ===== *)
theory Cdev_Xvc
  imports Xdma_Cdev
begin

text \<open>
  The virtual cable (\<^verbatim>\<open>cdev_xvc.c\<close>): an ioctl shifts the bits of two buffers through a JTAG
  bridge behind a BAR, 32 at a time, and gives back what came out. Bytes are put into words as a
  little-endian processor does.
\<close>

section \<open>Shifting a word\<close>

abbreviation (input) COMPLETION_LOOP_MAX :: nat where "COMPLETION_LOOP_MAX \<equiv> 100"

datatype xvc_reg = XVC_BAR_LENGTH_REG | XVC_BAR_TMS_REG | XVC_BAR_TDI_REG | XVC_BAR_TDO_REG | XVC_BAR_CTRL_REG

fun xvc_offset :: "xvc_reg \<Rightarrow> nat" where
  "xvc_offset XVC_BAR_LENGTH_REG = 0x0" | "xvc_offset XVC_BAR_TMS_REG = 0x4" | "xvc_offset XVC_BAR_TDI_REG = 0x8"
| "xvc_offset XVC_BAR_TDO_REG = 0xC" | "xvc_offset XVC_BAR_CTRL_REG = 0x10"

definition xreg :: "iomem \<Rightarrow> xvc_reg \<Rightarrow> iomem" where
  "xreg base r = io_plus base (xvc_offset r)"

text \<open>The loop that waits for the shift, \<open>n\<close> reads left: whether it completed.\<close>

fun xvc_poll :: "('x) xenv_scheme \<Rightarrow> iomem \<Rightarrow> nat \<Rightarrow> iolog \<Rightarrow> bool \<times> iolog" where
  "xvc_poll E base 0 log = (False, log)"
| "xvc_poll E base (Suc n) log =
     (let (control, log) = read_register E (xreg base XVC_BAR_CTRL_REG) log
      in if control AND 0x01 = 0 then (True, log) else xvc_poll E base n log)"

text \<open>The bits that came out are the second component; they are not written on a time-out.\<close>

definition xvc_shift_bits ::
  "('x) xenv_scheme \<Rightarrow> iomem \<Rightarrow> u32 \<Rightarrow> u32 \<Rightarrow> iolog \<Rightarrow> int \<times> u32 option \<times> iolog" where
  "xvc_shift_bits E base tms_bits tdi_bits log =
     (let log = write_register tms_bits (xreg base XVC_BAR_TMS_REG) log;
          log = write_register tdi_bits (xreg base XVC_BAR_TDI_REG) log;
          log = write_register 0x1 (xreg base XVC_BAR_CTRL_REG) log;
          (completed, log) = xvc_poll E base COMPLETION_LOOP_MAX log
      in if \<not> completed then (- ETIMEDOUT, None, log)
         else (let (tdo, log) = read_register E (xreg base XVC_BAR_TDO_REG) log in (0, Some tdo, log)))"

section \<open>The buffers\<close>

text \<open>The word that holds some bytes, zero elsewhere, and the first \<open>n\<close> bytes of a word.\<close>

fun le_word :: "u8 list \<Rightarrow> u32" where
  "le_word [] = 0"
| "le_word (b # bs) = push_bit 8 (le_word bs) OR ucast b"

definition le_bytes :: "nat \<Rightarrow> u32 \<Rightarrow> u8 list" where
  "le_bytes n w = map (\<lambda>i. ucast (drop_bit (8 * i) w)) [0..<n]"

text \<open>
  The loop over the words from bit \<open>bits\<close> on. The counters are unsigned and may wrap, so the loop may not
  end: \<open>None\<close>.
\<close>

partial_function (option) xvc_loop ::
  "('x) xenv_scheme \<Rightarrow> iomem \<Rightarrow> u32 \<Rightarrow> u8 list \<Rightarrow> u8 list \<Rightarrow> u32 \<Rightarrow> u32 \<Rightarrow> int \<Rightarrow> u8 list \<Rightarrow> iolog \<Rightarrow>
     (int \<times> u8 list \<times> iolog) option" where
  "xvc_loop E base total_bits tms tdi bits bits_left rv tdo log =
     (if \<not> bits < total_bits then Some (rv, tdo, log)
      else (let bytes = unat (drop_bit 3 bits);
                (shift_bytes, log) = (if bits_left < 32
                   then (unat (drop_bit 3 (bits_left + 7)), write_register bits_left (xreg base XVC_BAR_LENGTH_REG) log)
                   else (4, log));
                tms_store = le_word (take shift_bytes (drop bytes tms));
                tdi_store = le_word (take shift_bytes (drop bytes tdi));
                (rv, tdo_store, log) = xvc_shift_bits E base tms_store tdi_store log
            in if rv < 0 then Some (rv, tdo, log)
               else xvc_loop E base total_bits tms tdi (bits + 32) (bits_left - 32) rv
                      (write_from bytes (le_bytes shift_bytes (case tdo_store of Some w \<Rightarrow> w | None \<Rightarrow> 0)) tdo) log))"

declare xvc_loop.simps [code]

section \<open>The ioctl\<close>

record xvc_ioc =
  xv_opcode :: u32
  xv_length :: u32

text \<open>
  What the user's memory holds: the structure and the bytes of the two buffers, or how many bytes could
  not be copied; \<open>xu_left\<close> is the same for the answer.
\<close>

record xvc_user =
  xu_ioc :: "int + xvc_ioc"
  xu_tms :: "int + u8 list"
  xu_tdi :: "int + u8 list"
  xu_left :: int

definition XDMA_IOCXVC :: u32 where
  "XDMA_IOCXVC = push_bit 30 3 OR push_bit 16 32 OR push_bit 8 0x58564344 OR 1"

abbreviation (input) XVC_BAR_OFFSET_DFLT :: nat where "XVC_BAR_OFFSET_DFLT \<equiv> 0x40000"

definition xvc_base :: "xdma_cdev \<Rightarrow> iomem" where
  "xvc_base xc = IOM (nat (xc_bar xc)) XVC_BAR_OFFSET_DFLT"

text \<open>
  The buffer for the answer starts with what the allocation holds, \<open>fresh\<close>. The result has the bytes given
  to the user, if the call gets that far.
\<close>

definition xvc_ioctl ::
  "('x) xenv_scheme \<Rightarrow> bool \<Rightarrow> (nat \<Rightarrow> u8 list) \<Rightarrow> xvc_user \<Rightarrow> xdma_cdev \<Rightarrow> u32 \<Rightarrow> xdma_dev \<Rightarrow>
     (int \<times> u8 list option \<times> xdma_dev) option" where
  "xvc_ioctl E oom fresh U xc cmd d =
     (let rv = xcdev_check d xc False
      in if rv < 0 then Some (rv, None, d)
         else if cmd \<noteq> XDMA_IOCXVC then Some (- ENOIOCTLCMD, None, d)
         else (case xu_ioc U of
            Inl left \<Rightarrow> Some (left, None, d)
          | Inr obj \<Rightarrow>
              (let opcode = xv_opcode obj; total_bits = xv_length obj;
                   total_bytes = unat (drop_bit 3 (total_bits + 7))
               in if opcode \<noteq> 0x01 \<and> opcode \<noteq> 0x02 then Some (- EINVAL, None, d)
                  else if oom then Some (- ENOMEM, None, d)
                  else (case xu_tms U of
                     Inl left \<Rightarrow> Some (left, None, d)
                   | Inr tms \<Rightarrow>
                      (case xu_tdi U of
                         Inl left \<Rightarrow> Some (left, None, d)
                       | Inr tdi \<Rightarrow>
                          (let base = xvc_base xc;
                               log = (if total_bits \<ge> 32
                                      then write_register 0x20 (xreg base XVC_BAR_LENGTH_REG) (xd_io d) else xd_io d)
                           in map_option (\<lambda>(rv, tdo, log).
                                if rv < 0 then (rv, None, d\<lparr>xd_io := log\<rparr>)
                                else (xu_left U, Some (if opcode = 0x2 then tdi else tdo), d\<lparr>xd_io := log\<rparr>))
                              (xvc_loop E base total_bits tms tdi 0 total_bits 0 (fresh total_bytes) log)))))))"

end
