(* ===== verification/Cdev_Xvc_Spec.thy ===== *)
theory Cdev_Xvc_Spec
  imports Cdev_Xvc
begin

text \<open>
  The virtual cable: bytes and words, the loop ends and stays inside its buffers, and a bridge that
  echoes its input gives the user's own bytes back.
\<close>

declare split_paired_All [simp del] split_paired_Ex [simp del]

section \<open>Bytes and words\<close>

lemma bit_le_word:
  "k < 32 \<Longrightarrow> bit (le_word bs) k \<longleftrightarrow> k div 8 < length bs \<and> bit (bs ! (k div 8)) (k mod 8)"
proof (induction bs arbitrary: k)
  case (Cons b bs)
  show ?case
  proof (cases "k < 8")
    case True
    then show ?thesis using Cons.prems by (auto simp: bit_or_iff bit_push_bit_iff bit_ucast_iff)
  next
    case False
    then obtain j where k: "k = j + 8" by (metis add.commute le_add_diff_inverse not_less)
    have "(j + 8) div 8 = Suc (j div 8)" by simp
    moreover have "\<not> bit b k" using False by (auto dest: bit_imp_le_length)
    ultimately show ?thesis using Cons.IH [of j] Cons.prems k
      by (auto simp: bit_or_iff bit_push_bit_iff bit_ucast_iff)
  qed
qed simp

lemma le_bytes_word:
  assumes "length bs = n" and "n \<le> 4"
  shows "le_bytes n (le_word bs) = bs"
proof (rule nth_equalityI)
  show "length (le_bytes n (le_word bs)) = length bs" using assms by (simp add: le_bytes_def)
  fix i assume "i < length (le_bytes n (le_word bs))"
  then have i: "i < n" by (simp add: le_bytes_def)
  show "le_bytes n (le_word bs) ! i = bs ! i"
  proof (rule bit_word_eqI)
    fix j :: nat assume j: "j < LENGTH(8)"
    then have "8 * i + j < 32" using i assms(2) by simp
    then have "bit (le_word bs) (8 * i + j) \<longleftrightarrow> bit (bs ! i) j"
      using bit_le_word [of "8 * i + j" bs] j i assms(1) by simp
    then show "bit (le_bytes n (le_word bs) ! i) j \<longleftrightarrow> bit (bs ! i) j"
      using i j by (simp add: le_bytes_def bit_ucast_iff bit_drop_bit_eq)
  qed
qed

section \<open>The loop\<close>

text \<open>The bits left and the place in the buffer, on natural numbers.\<close>

definition bit_pos :: "nat \<Rightarrow> u32" where
  "bit_pos k = of_nat (32 * k)"

lemma loop_counters:
  assumes "32 * k < unat tot" and "unat tot \<le> 2 ^ 32 - 32"
  shows "bit_pos k < tot" and "bit_pos k + 32 = bit_pos (Suc k)"
    and "unat (drop_bit 3 (bit_pos k)) = 4 * k"
    and "unat (of_nat (unat tot - 32 * k) :: u32) = unat tot - 32 * k"
proof -
  have u: "unat (bit_pos k) = 32 * k" unfolding bit_pos_def using assms by (intro unat_of_nat_small) simp
  show "bit_pos k < tot" unfolding word_less_nat_alt u by (rule assms(1))
  show "bit_pos k + 32 = bit_pos (Suc k)" by (simp add: bit_pos_def)
  show "unat (drop_bit 3 (bit_pos k)) = 4 * k" unfolding unat_drop_bit u by simp
  show "unat (of_nat (unat tot - 32 * k) :: u32) = unat tot - 32 * k"
    using assms(2) by (intro unat_of_nat_small) simp
qed

lemma loop_end: "unat tot \<le> 32 * k \<Longrightarrow> 32 * k < 2 ^ 32 \<Longrightarrow> \<not> bit_pos k < tot"
  unfolding bit_pos_def word_less_nat_alt by (subst unat_of_nat_small) simp_all

text \<open>The size of the step at word \<open>k\<close>.\<close>

definition step_bytes :: "u32 \<Rightarrow> nat \<Rightarrow> nat" where
  "step_bytes tot k = (if unat tot - 32 * k < 32 then (unat tot - 32 * k + 7) div 8 else 4)"

definition step_log :: "iomem \<Rightarrow> u32 \<Rightarrow> nat \<Rightarrow> iolog \<Rightarrow> iolog" where
  "step_log base tot k log = (if unat tot - 32 * k < 32
     then write_register (of_nat (unat tot - 32 * k)) (xreg base XVC_BAR_LENGTH_REG) log else log)"

lemma xvc_loop_step:
  assumes k: "32 * k < unat tot" and small: "unat tot \<le> 2 ^ 32 - 32" and left: "left = of_nat (unat tot - 32 * k)"
  shows "xvc_loop E base tot tms tdi (bit_pos k) left rv tdo log =
    (let sb = step_bytes tot k;
         (rv, out, log) = xvc_shift_bits E base (le_word (take sb (drop (4 * k) tms))) (le_word (take sb (drop (4 * k) tdi)))
                            (step_log base tot k log)
     in if rv < 0 then Some (rv, tdo, log)
        else xvc_loop E base tot tms tdi (bit_pos (Suc k)) (left - 32) rv
               (write_from (4 * k) (le_bytes sb (case out of Some w \<Rightarrow> w | None \<Rightarrow> 0)) tdo) log)"
proof -
  note c = loop_counters [OF k small]
  have lt: "left < 32 \<longleftrightarrow> unat tot - 32 * k < 32" unfolding left word_less_nat_alt c(4) by simp
  have "unat tot - 32 * k < 32 \<Longrightarrow> unat (drop_bit 3 (left + 7)) = (unat tot - 32 * k + 7) div 8"
  proof -
    assume "unat tot - 32 * k < 32"
    then have "unat (left + 7) = unat tot - 32 * k + 7"
      unfolding left using c(4) by (subst unat_add_no_wrap) simp_all
    then show ?thesis by (simp add: unat_drop_bit)
  qed
  then have "(if left < 32 then (unat (drop_bit 3 (left + 7)), write_register left (xreg base XVC_BAR_LENGTH_REG) log)
      else (4, log)) = (step_bytes tot k, step_log base tot k log)"
    unfolding lt by (simp add: step_bytes_def step_log_def left)
  then show ?thesis
    using c(1-3) by (subst xvc_loop.simps) (simp add: Let_def split_beta)
qed

lemma next_left:
  assumes "32 * Suc k < unat tot"
  shows "(of_nat (unat tot - 32 * k) - 32 :: u32) = of_nat (unat tot - 32 * Suc k)"
proof -
  have "unat tot - 32 * k = (unat tot - 32 * Suc k) + 32" using assms by simp
  then show ?thesis by (simp only: of_nat_add) simp
qed

lemma loop_done:
  assumes "unat tot \<le> 32 * k" and "32 * k < unat tot + 32" and "unat tot \<le> 2 ^ 32 - 32"
  shows "xvc_loop E base tot tms tdi (bit_pos k) left rv tdo log = Some (rv, tdo, log)"
proof -
  have "\<not> bit_pos k < tot" using assms by (intro loop_end) simp_all
  then show ?thesis by (subst xvc_loop.simps) simp
qed

lemma xvc_loop_ends:
  "unat tot \<le> 2 ^ 32 - 32 \<Longrightarrow> 32 * k < unat tot + 32 \<Longrightarrow>
     (32 * k < unat tot \<longrightarrow> left = of_nat (unat tot - 32 * k)) \<Longrightarrow>
     \<exists>r. xvc_loop E base tot tms tdi (bit_pos k) left rv tdo log = Some r"
proof (induction "unat tot + 32 - 32 * k" arbitrary: k left rv tdo log rule: less_induct)
  case less
  show ?case
  proof (cases "32 * k < unat tot")
    case False
    then have "xvc_loop E base tot tms tdi (bit_pos k) left rv tdo log = Some (rv, tdo, log)"
      using less.prems(1,2) by (intro loop_done) simp_all
    then show ?thesis ..
  next
    case True
    then have left: "left = of_nat (unat tot - 32 * k)" using less.prems(3) by blast
    have "\<exists>r. xvc_loop E base tot tms tdi (bit_pos (Suc k)) (left - 32) rv' tdo' log' = Some r" for rv' tdo' log'
      by (rule less.hyps) (use True less.prems(1) next_left left in auto)
    then show ?thesis
      unfolding xvc_loop_step [OF True less.prems(1) left] Let_def
      by (simp add: split_beta)
  qed
qed

section \<open>A bridge that echoes\<close>

text \<open>A shift completes at the first look, and what comes out is the last thing that was shifted in.\<close>

definition echoes :: "('x) xenv_scheme \<Rightarrow> iomem \<Rightarrow> bool" where
  "echoes E base \<longleftrightarrow> (\<forall>log. hw E log (xreg base XVC_BAR_CTRL_REG) AND 0x01 = 0 \<and>
     (\<forall>v vs. writes_to (xreg base XVC_BAR_TDI_REG) log = v # vs \<longrightarrow> hw E log (xreg base XVC_BAR_TDO_REG) = v))"

lemma xreg_eq [simp]: "xreg base r = xreg base r' \<longleftrightarrow> r = r'"
  by (cases base; cases r; cases r') (simp_all add: xreg_def io_plus_def)

lemma shift_echo:
  assumes "echoes E base"
  shows "\<exists>log'. xvc_shift_bits E base tms tdi log = (0, Some tdi, log')"
proof -
  have poll: "xvc_poll E base (Suc n) log = (True, Rd (xreg base XVC_BAR_CTRL_REG) # log)" for n log
    using assms by (simp add: echoes_def read_register_def)
  have hundred: "(100 :: nat) = Suc 99" by simp
  show ?thesis
    unfolding xvc_shift_bits_def Let_def hundred poll
    using assms by (simp add: echoes_def read_register_def write_register_def)
qed

lemma step_bytes_fits:
  assumes "32 * k < unat tot" and "len = (unat tot + 7) div 8"
  shows "4 * k + step_bytes tot k \<le> len" and "step_bytes tot k \<le> 4"
    and "step_bytes tot k = 4 \<or> 4 * k + step_bytes tot k = len"
proof -
  have "(unat tot + 7) div 8 = (unat tot - 32 * k + 7 + 4 * k * 8) div 8" using assms(1) by simp
  also have "\<dots> = 4 * k + (unat tot - 32 * k + 7) div 8" by simp
  finally have len: "len = 4 * k + (unat tot - 32 * k + 7) div 8" using assms(2) by simp
  show "4 * k + step_bytes tot k \<le> len" and "step_bytes tot k \<le> 4"
    and "step_bytes tot k = 4 \<or> 4 * k + step_bytes tot k = len"
    unfolding len step_bytes_def by (auto simp: less_Suc_eq_le)
qed

lemma xvc_loop_echo:
  assumes ec: "echoes E base" and small: "unat tot \<le> 2 ^ 32 - 32"
    and len: "len = (unat tot + 7) div 8" "length tdi = len"
  shows "32 * k < unat tot + 32 \<Longrightarrow> (32 * k < unat tot \<longrightarrow> left = of_nat (unat tot - 32 * k)) \<Longrightarrow>
     length tdo = len \<Longrightarrow> take (4 * k) tdo = take (4 * k) tdi \<Longrightarrow>
     \<exists>log'. xvc_loop E base tot tms tdi (bit_pos k) left 0 tdo log = Some (0, tdi, log')"
proof (induction "unat tot + 32 - 32 * k" arbitrary: k left tdo log rule: less_induct)
  case less
  show ?case
  proof (cases "32 * k < unat tot")
    case False
    then have "len \<le> 4 * k" unfolding len(1) by linarith
    then have "tdo = tdi" using less.prems(3,4) len(2) by simp
    moreover have "xvc_loop E base tot tms tdi (bit_pos k) left 0 tdo log = Some (0, tdo, log)"
      using False less.prems(1) small by (intro loop_done) simp_all
    ultimately show ?thesis by simp
  next
    case True
    then have left: "left = of_nat (unat tot - 32 * k)" using less.prems(2) by blast
    let ?sb = "step_bytes tot k"
    note f = step_bytes_fits [OF True len(1)]
    let ?w = "take ?sb (drop (4 * k) tdi)"
    have w: "length ?w = ?sb" using f(1) len(2) by simp
    obtain log' where sh: "xvc_shift_bits E base (le_word (take ?sb (drop (4 * k) tms))) (le_word ?w)
        (step_log base tot k log) = (0, Some (le_word ?w), log')" using shift_echo [OF ec] by blast
    let ?tdo = "write_from (4 * k) ?w tdo"
    have tdo: "?tdo = take (4 * k) tdi @ ?w @ drop (4 * k + ?sb) tdo"
      using write_from_fits [of "4 * k" ?w tdo] w f(1) less.prems(3,4) by simp
    have pre: "take (4 * k) tdi @ ?w = take (4 * k + ?sb) tdi" by (simp add: take_add)
    have nxt: "take (4 * Suc k) ?tdo = take (4 * Suc k) tdi"
      using f(3)
    proof
      assume "?sb = 4"
      then show ?thesis using tdo pre len(2) f(1) by (simp add: add.commute)
    next
      assume "4 * k + ?sb = len"
      then have "?tdo = tdi" using tdo pre len(2) less.prems(3) by simp
      then show ?thesis by simp
    qed
    have "\<exists>log''. xvc_loop E base tot tms tdi (bit_pos (Suc k)) (left - 32) 0 ?tdo log' = Some (0, tdi, log'')"
      by (rule less.hyps) (use True next_left left less.prems(3) nxt in auto)
    then show ?thesis
      unfolding xvc_loop_step [OF True small left] Let_def sh prod.case
      using le_bytes_word [OF w f(2)] by simp
  qed
qed

section \<open>A length that wraps\<close>

text \<open>The counter is a multiple of 32 that wraps before it reaches the length.\<close>

lemma never_reaches:
  assumes "2 ^ 32 - 32 < unat tot" and "32 dvd unat bits"
  shows "bits < tot" and "32 dvd unat (bits + 32 :: u32)"
proof -
  have "unat bits < 2 ^ 32" using unsigned_less [of bits, where ?'a = nat] by simp
  then have "unat bits \<le> 2 ^ 32 - 32" using assms(2) by (elim dvdE) simp
  then show "bits < tot" unfolding word_less_nat_alt using assms(1) by simp
  have "unat (bits + 32) = (unat bits + 32) mod 2 ^ 32" by (simp add: unat_word_ariths)
  moreover have "32 dvd (unat bits + 32) mod 2 ^ 32" using assms(2) by (simp add: dvd_mod)
  ultimately show "32 dvd unat (bits + 32)" by simp
qed

lemmas xvc_loop_partial = xvc_loop.raw_induct [rotated 1, consumes 1, case_names step]

lemma wrapped_only_fails:
  assumes "xvc_loop E base tot tms tdi bits left rv tdo log = Some r"
  shows "2 ^ 32 - 32 < unat tot \<Longrightarrow> 32 dvd unat bits \<Longrightarrow> fst r < 0"
  using assms
proof (induction rule: xvc_loop_partial)
  case (step loop E base tot tms tdi bits left rv tdo log r)
  note f = never_reaches [OF step.prems]
  have "loop E base tot tms tdi (bits + 32) (left - 32) rv' tdo' log' = Some r \<Longrightarrow> fst r < 0" for rv' tdo' log'
    using step.IH step.prems(1) f(2) by blast
  then show ?case
    using step.hyps f(1) by (auto simp: Let_def split_beta split: if_splits)
qed

lemma echoed_never_fails:
  assumes "xvc_loop E base tot tms tdi bits left rv tdo log = Some r"
  shows "echoes E base \<Longrightarrow> rv = 0 \<Longrightarrow> fst r = 0"
  using assms
proof (induction rule: xvc_loop_partial)
  case (step loop E base tot tms tdi bits left rv tdo log r)
  have sh: "fst (xvc_shift_bits E base a b l) = 0" for a b l
    using shift_echo [OF step.prems(1), of a b l] by auto
  have "loop E base tot tms tdi (bits + 32) (left - 32) 0 tdo' log' = Some r \<Longrightarrow> fst r = 0" for tdo' log'
    using step.IH step.prems(1) by blast
  then show ?case
    using step.hyps step.prems(2) sh by (auto simp: Let_def split_beta split: if_splits)
qed

lemma wrapped_never_ends:
  assumes "echoes E base" and "2 ^ 32 - 32 < unat tot"
  shows "xvc_loop E base tot tms tdi 0 left 0 tdo log = None"
proof (rule ccontr)
  assume "\<not> ?thesis"
  then obtain r where r: "xvc_loop E base tot tms tdi 0 left 0 tdo log = Some r" by blast
  show False using wrapped_only_fails [OF r] echoed_never_fails [OF r] assms by simp
qed

section \<open>The ioctl\<close>

text \<open>A call with a valid command that gets all of the user's memory.\<close>

definition good_call :: "xvc_user \<Rightarrow> u32 \<Rightarrow> u32 \<Rightarrow> u8 list \<Rightarrow> u8 list \<Rightarrow> bool" where
  "good_call U opc len tms tdi \<longleftrightarrow> xu_ioc U = Inr \<lparr>xv_opcode = opc, xv_length = len\<rparr> \<and> (opc = 1 \<or> opc = 2) \<and>
     xu_tms U = Inr tms \<and> xu_tdi U = Inr tdi"

lemma xvc_ioctl_loop:
  assumes "0 \<le> xcdev_check d xc False" and "good_call U opc len tms tdi"
  shows "xvc_ioctl E False fresh U xc XDMA_IOCXVC d =
     map_option (\<lambda>(rv, tdo, log).
         if rv < 0 then (rv, None, d\<lparr>xd_io := log\<rparr>)
         else (xu_left U, Some (if opc = 2 then tdi else tdo), d\<lparr>xd_io := log\<rparr>))
       (xvc_loop E (xvc_base xc) len tms tdi 0 len 0 (fresh (unat (drop_bit 3 (len + 7))))
         (if 32 \<le> len then write_register 0x20 (xreg (xvc_base xc) XVC_BAR_LENGTH_REG) (xd_io d) else xd_io d))"
  using assms unfolding xvc_ioctl_def good_call_def by (elim conjE disjE; hypsubst) (simp_all add: Let_def)

text \<open>A device behind BAR 2, bridges that echo and that never finish, and a user with 37 bits.\<close>

definition cable :: xdma_cdev where
  "cable = zero_cdev\<lparr>xc_magic := MAGIC_CHAR, xc_xdev := True, xc_bar := 2\<rparr>"

definition echo_bridge :: xenv where
  "echo_bridge = \<lparr>hw = (\<lambda>log a. if a = IOM 2 0x4000C
       then (case writes_to (IOM 2 0x40008) log of v # _ \<Rightarrow> v | [] \<Rightarrow> 0) else 0),
     poll_mode = False, interrupt_mode = 0, enable_st_c2h_credit = False, desc_blen_max = 0x1000\<rparr>"

definition stuck_bridge :: xenv where
  "stuck_bridge = echo_bridge\<lparr>hw := \<lambda>_ _. 1\<rparr>"

definition jtag_user :: "u32 \<Rightarrow> u8 list \<Rightarrow> xvc_user" where
  "jtag_user len tdi = \<lparr>xu_ioc = Inr \<lparr>xv_opcode = 2, xv_length = len\<rparr>, xu_tms = Inr [0, 0, 0, 0, 1],
     xu_tdi = Inr tdi, xu_left = 0\<rparr>"

lemma cable_sample:
  "0 \<le> xcdev_check blank_dev cable False" "good_call (jtag_user len tdi) 2 len [0, 0, 0, 0, 1] tdi"
  "echoes echo_bridge (xvc_base cable)"
  by (simp_all add: xcdev_check_def blank_dev_def cable_def good_call_def jtag_user_def echoes_def
      echo_bridge_def xvc_base_def xreg_def io_plus_def)

text \<open>
  The ioctl of the virtual cable returns, whatever the bridge answers and whatever the user gives, for
  every length of at most 2^32 - 32 bits: each word is polled a bounded number of times and the bit
  counter does not wrap.
\<close>

theorem xvc_returns:
  assumes "\<And>obj. xu_ioc U = Inr obj \<Longrightarrow> unat (xv_length obj) \<le> 2 ^ 32 - 32"
  shows "\<exists>r. xvc_ioctl E oom fresh U xc cmd d = Some r"
proof (cases "xu_ioc U")
  case (Inl l)
  then show ?thesis by (simp add: xvc_ioctl_def Let_def)
next
  case (Inr obj)
  have "\<exists>r. xvc_loop E base (xv_length obj) tms tdi 0 (xv_length obj) 0 tdo log = Some r" for base tms tdi tdo log
    using xvc_loop_ends [of "xv_length obj" 0 "xv_length obj"] assms [OF Inr] by (simp add: bit_pos_def)
  then show ?thesis using Inr
    by (auto simp: xvc_ioctl_def Let_def split: sum.split)
qed

lemma xvc_returns_witness:
  "\<exists>r. xvc_ioctl stuck_bridge False (\<lambda>n. replicate n 0) (jtag_user 37 [1, 2, 3, 4, 5]) cable XDMA_IOCXVC blank_dev = Some r"
  by (rule xvc_returns) (simp add: jtag_user_def)

text \<open>
  C31 (roundtrip). Over a bridge that gives back the bits it was given, the ioctl copies to the user exactly the bytes of
  the user's own TDI buffer, for every length up to 2^32 - 32 bits, the last partial word and the last
  partial byte included, for both operations.
\<close>

theorem xvc_echo:
  assumes "0 \<le> xcdev_check d xc False" and "good_call U opc len tms tdi" and "echoes E (xvc_base xc)"
    and "unat len \<le> 2 ^ 32 - 32" and "length tdi = (unat len + 7) div 8"
    and "length (fresh (length tdi)) = length tdi"
  shows "\<exists>log. xvc_ioctl E False fresh U xc XDMA_IOCXVC d = Some (xu_left U, Some tdi, d\<lparr>xd_io := log\<rparr>)"
proof -
  have "unat (len + 7) = unat len + 7" using assms(4) by (subst unat_add_no_wrap) simp_all
  then have "unat (drop_bit 3 (len + 7)) = length tdi" by (simp add: unat_drop_bit assms(5))
  then have "length (fresh (unat (drop_bit 3 (len + 7)))) = length tdi" using assms(6) by simp
  then have "\<exists>log'. xvc_loop E (xvc_base xc) len tms tdi 0 len 0 (fresh (unat (drop_bit 3 (len + 7)))) log
      = Some (0, tdi, log')" for log
    using xvc_loop_echo [OF assms(3,4) refl assms(5), of 0 len] assms(5) by (simp add: bit_pos_def)
  then obtain log' where "xvc_loop E (xvc_base xc) len tms tdi 0 len 0 (fresh (unat (drop_bit 3 (len + 7))))
      (if 32 \<le> len then write_register 0x20 (xreg (xvc_base xc) XVC_BAR_LENGTH_REG) (xd_io d) else xd_io d)
      = Some (0, tdi, log')" by blast
  then show ?thesis unfolding xvc_ioctl_loop [OF assms(1,2)] by simp (rule exI, rule refl)
qed

lemma xvc_echo_witness:
  "\<exists>log. xvc_ioctl echo_bridge False (\<lambda>n. replicate n 0) (jtag_user 37 [1, 2, 3, 4, 5]) cable XDMA_IOCXVC blank_dev
     = Some (0, Some [1, 2, 3, 4, 5], blank_dev\<lparr>xd_io := log\<rparr>)"
  using xvc_echo [OF cable_sample, of 37 "[1, 2, 3, 4, 5]" "\<lambda>n. replicate n 0"]
  by (simp add: jtag_user_def)

text \<open>
  A length of at least 2^32 - 7 bits makes the number of bytes wrap to zero, so nothing is allocated and
  nothing is copied, yet the loop runs over the words; it never ends on a bridge that answers, since the
  bit counter wraps as well.
\<close>

theorem xvc_length_wraps:
  assumes "0 \<le> xcdev_check d xc False" and "good_call U opc len tms tdi" and "echoes E (xvc_base xc)"
    and "2 ^ 32 - 7 \<le> unat len"
  shows "drop_bit 3 (len + 7) = 0 \<and> xvc_ioctl E False fresh U xc XDMA_IOCXVC d = None"
proof -
  have "unat (len + 7) = unat len + 7 - 2 ^ 32"
    using assms(4) unsigned_less [of len, where ?'a = nat] by (simp add: unat_word_ariths le_mod_geq)
  then have "unat (drop_bit 3 (len + 7)) = 0" using unsigned_less [of len, where ?'a = nat] by (simp add: unat_drop_bit)
  then have "drop_bit 3 (len + 7) = 0" by (simp only: unat_eq_0)
  moreover have "xvc_ioctl E False fresh U xc XDMA_IOCXVC d = None"
    unfolding xvc_ioctl_loop [OF assms(1,2)] using wrapped_never_ends [OF assms(3)] assms(4) by simp
  ultimately show ?thesis by simp
qed

lemma xvc_length_wraps_witness:
  "xvc_ioctl echo_bridge False (\<lambda>n. replicate n 0) (jtag_user 0xFFFFFFFF []) cable XDMA_IOCXVC blank_dev = None"
  using xvc_length_wraps [OF cable_sample, of "0xFFFFFFFF" "\<lambda>n. replicate n 0" "[]"] by simp

end
