(* ===== verification/Xdma_Hw.thy ===== *)
theory Xdma_Hw
  imports Xdma_Xfer_Spec Xdma_Notify
begin

text \<open>
  The device's side of a transfer, as the documentation of the DMA core has it: once its run bit is
  written, an engine takes the address of the first descriptor from its registers, follows the chain and
  copies each segment between the host's memory and the card's; it then interrupts, and the work item
  of the interrupt (\<^verbatim>\<open>engine_service_work\<close>) services the engine. The contract of such a wait
  is the locale \<open>dma_wait\<close>, in which submission is followed through the memories.
\<close>

section \<open>Memories\<close>

record memories =
  host_mem :: "u64 \<Rightarrow> u8"
  card_mem :: "u64 \<Rightarrow> u8"

text \<open>The first \<open>n\<close> bytes from \<open>src\<close> on replace those from \<open>dst\<close> on.\<close>

definition copy_bytes :: "(u64 \<Rightarrow> u8) \<Rightarrow> u64 \<Rightarrow> u64 \<Rightarrow> nat \<Rightarrow> (u64 \<Rightarrow> u8) \<Rightarrow> u64 \<Rightarrow> u8" where
  "copy_bytes from src dst n to a = (if unat (a - dst) < n then from (src + (a - dst)) else to a)"

definition move_segment :: "dma_data_direction \<Rightarrow> u64 \<times> u64 \<times> u32 \<Rightarrow> memories \<Rightarrow> memories" where
  "move_segment dir seg w =
     (let (src, dst, len) = seg
      in case dir of
           DMA_TO_DEVICE \<Rightarrow> w\<lparr>card_mem := copy_bytes (host_mem w) src dst (unat len) (card_mem w)\<rparr>
         | DMA_FROM_DEVICE \<Rightarrow> w\<lparr>host_mem := copy_bytes (card_mem w) src dst (unat len) (host_mem w)\<rparr>)"

section \<open>The engine of the device\<close>

text \<open>The value a register was last written with.\<close>

definition written :: "iomem \<Rightarrow> iolog \<Rightarrow> u32" where
  "written a log = (case writes_to a log of [] \<Rightarrow> 0 | v # _ \<Rightarrow> v)"

definition first_desc_addr :: "('c, 's) est_scheme \<Rightarrow> u64" where
  "first_desc_addr st =
     addr_of (written (sreg st SR_first_desc_hi) (io st)) (written (sreg st SR_first_desc_lo) (io st))"

definition run_bit :: "('c, 's) est_scheme \<Rightarrow> bool" where
  "run_bit st \<longleftrightarrow> written (ereg st ER_control) (io st) AND XDMA_CTRL_RUN_STOP \<noteq> 0"

text \<open>The segments of a run: none where it does not run or meets something that is not a descriptor.\<close>

definition hw_segments :: "('c, 's) est_scheme \<Rightarrow> (u64 \<times> u64 \<times> u32) list option" where
  "hw_segments st =
     (if run_bit st then hw_walk (length (e_desc (eng st))) (ring_mem (eng st)) (first_desc_addr st) else None)"

text \<open>What the status and count registers answer after a run of \<open>n\<close> descriptors.\<close>

definition device_answers :: "('c, 's) est_scheme \<Rightarrow> nat \<Rightarrow> ('x) xenv_scheme \<Rightarrow> ('x) xenv_scheme" where
  "device_answers st n E = E\<lparr>hw := \<lambda>log a.
     if a = ereg st ER_completed_desc_count then of_nat n
     else if a = ereg st ER_status_rc then XDMA_STAT_DESC_STOPPED OR XDMA_STAT_DESC_COMPLETED
     else hw E log a\<rparr>"

text \<open>A sleep in which the engine runs, interrupts and is serviced.\<close>

definition interrupt_wait :: "(memories, 'x) kenv_scheme \<Rightarrow> memories est \<Rightarrow> memories est" where
  "interrupt_wait E st =
     (case hw_segments st of
        None \<Rightarrow> st
      | Some segs \<Rightarrow>
          engine_service_work (device_answers st (length segs) E)
            (st\<lparr>client := fold (move_segment (e_dir (eng st))) segs (client st)\<rparr>))"

lemma hw_walk_more: "hw_walk n mem a = Some segs \<Longrightarrow> n \<le> m \<Longrightarrow> hw_walk m mem a = Some segs"
proof (induction n arbitrary: a m segs)
  case (Suc n)
  then obtain k d where m: "m = Suc k" "n \<le> k" "mem a = Some d" by (cases m) (auto split: option.splits)
  show ?case
  proof (cases "drop_bit 16 (d_control d) \<noteq> 0xAD4B \<or> d_control d AND XDMA_DESC_STOPPED \<noteq> 0")
    case True
    then show ?thesis using Suc.prems(1) m by (auto split: if_splits)
  next
    case False
    then obtain rest where "hw_walk n mem (addr_of (d_next_hi d) (d_next_lo d)) = Some rest" "segs = segment d # rest"
      using Suc.prems(1) m(3) by auto
    then show ?thesis using False m Suc.IH [OF _ m(2)] by simp
  qed
qed simp

section \<open>What a service leaves\<close>

text \<open>The fields of an engine that starting, stopping and servicing only read.\<close>

definition fixed_part ::
  "xdma_engine \<Rightarrow> (xdma_desc list \<times> nat \<times> nat \<times> u64 \<times> u32) \<times> (dma_data_direction \<times> bool \<times> bool \<times> bool) \<times>
     (u64 \<times> nat \<times> iomem \<times> iomem)" where
  "fixed_part e = ((e_desc e, e_desc_idx e, e_desc_max e, e_desc_bus e, e_desc_used e),
     (e_dir e, e_streaming e, e_non_incr_addr e, e_eop_flush e),
     (e_magic e, e_channel e, e_regs e, e_sgdma_regs e))"

lemma fixed_part_write [simp]:
  "fixed_part (e\<lparr>e_shutdown := a\<rparr>) = fixed_part e" "fixed_part (e\<lparr>e_running := b\<rparr>) = fixed_part e"
  "fixed_part (e\<lparr>e_desc_dequeued := a\<rparr>) = fixed_part e" "fixed_part (e\<lparr>e_status := a\<rparr>) = fixed_part e"
  "fixed_part (e\<lparr>e_transfer_list := q\<rparr>) = fixed_part e" "fixed_part (e\<lparr>e_xdma_perf := p\<rparr>) = fixed_part e"
  by (simp_all add: fixed_part_def)

lemma fixed_part_fields:
  assumes "fixed_part e = fixed_part e'"
  shows "e_desc e = e_desc e'" "e_desc_idx e = e_desc_idx e'" "e_desc_max e = e_desc_max e'"
    "e_desc_bus e = e_desc_bus e'" "e_dir e = e_dir e'" "e_streaming e = e_streaming e'"
    "e_non_incr_addr e = e_non_incr_addr e'" "e_eop_flush e = e_eop_flush e'" "e_magic e = e_magic e'"
    "e_regs e = e_regs e'" "e_sgdma_regs e = e_sgdma_regs e'" "e_channel e = e_channel e'"
    "e_desc_used e = e_desc_used e'"
  using assms by (simp_all add: fixed_part_def)

text \<open>What is left alone by a service: the fixed part, the flags and an engine that is not shut down.\<close>

definition left_alone :: "('c, 's) est_scheme \<Rightarrow> ('c, 's) est_scheme \<Rightarrow> bool" where
  "left_alone st st' \<longleftrightarrow> fixed_part (eng st') = fixed_part (eng st) \<and> xdev_flags st' = xdev_flags st \<and>
     (e_shutdown (eng st) = 0 \<longrightarrow> e_shutdown (eng st') = 0)"

lemma left_alone_refl [simp]: "left_alone st st"
  by (simp add: left_alone_def)

lemma left_alone_trans [trans]: "left_alone a b \<Longrightarrow> left_alone b c \<Longrightarrow> left_alone a c"
  by (simp add: left_alone_def)

named_theorems alone \<open>operations that leave the engine's fixed part alone\<close>

lemma read_alone [alone]: "left_alone st (snd (read_ereg E r st))"
  by (simp add: left_alone_def)

lemma start_alone [alone]: "left_alone st (snd (engine_start E st))"
  by (simp add: left_alone_def engine_start_def Let_def split_beta split: list.split)

lemma stop_alone [alone]: "left_alone st (snd (xdma_engine_stop E st))"
  by (simp add: left_alone_def)

lemma shutdown_alone [alone]: "left_alone st (snd (engine_service_shutdown E st))"
  by (simp add: left_alone_def engine_service_shutdown_def wake_up_def Let_def split_beta)

lemma status_alone [alone]: "left_alone st (snd (engine_status_read E c d st))"
  by (simp add: left_alone_def engine_status_read_def engine_reg_dump_def Let_def split_beta)

lemma perf_alone [alone]: "left_alone st (snd (engine_service_perf n st))"
  by (simp add: left_alone_def engine_service_perf_def wake_up_def Let_def split: option.split)

lemma completion_alone [alone]: "left_alone st (snd (engine_transfer_completion E t st))"
  by (auto simp: left_alone_def engine_transfer_completion_def wake_up_def Let_def split: option.split)

lemma retire_alone [alone]: "left_alone st (retire_one E t st)"
  by (simp add: left_alone_def retire_one_def engine_transfer_completion_def wake_up_def del_head_def
      set_xfer_def Let_def split: option.split)

lemma service_list_alone [alone]: "left_alone st (snd (snd (engine_service_transfer_list E tr pc st)))"
proof (induction E tr pc st rule: engine_service_transfer_list.induct)
  case (1 E pc st)
  then show ?case by (simp add: engine_service_transfer_list.simps)
next
  case (2 E t pc st)
  then show ?case
    using left_alone_trans [OF retire_alone [of st E t]] retire_alone [of st E t]
    by (auto simp: engine_service_transfer_list.simps(2) [of E t pc st] Let_def
        simp del: transfer_list_retire_one split: list.split)
qed

lemma set_xfer_alone [alone]: "left_alone st (set_xfer t x st)"
  by (simp add: left_alone_def)

lemma dequeued_alone [alone]: "left_alone st (add_dequeued n st)"
  by (simp add: left_alone_def add_dequeued_def)

lemma transfer_del_alone [alone]: "left_alone st (snd (transfer_del E t st))"
  by (simp add: left_alone_def transfer_del_def del_head_def engine_transfer_completion_def wake_up_def
      Let_def split: option.split)

lemma err_handle_alone [alone]: "left_alone st (snd (engine_err_handle E t st))"
  by (simp add: left_alone_def engine_err_handle_def Let_def)

lemma final_alone [alone]: "left_alone st (snd (engine_service_final_transfer E tr n st))"
proof (cases tr)
  case None
  then show ?thesis by (simp add: engine_service_final_transfer_def)
next
  case (Some t)
  note step = left_alone_trans [OF _ set_xfer_alone] left_alone_trans [OF _ dequeued_alone]
    left_alone_trans [OF _ shutdown_alone] left_alone_trans [OF _ err_handle_alone]
    left_alone_trans [OF _ transfer_del_alone]
  show ?thesis
    by (simp add: Some engine_service_final_transfer_def Let_def split_beta step del: fun_upd_apply)
qed

lemma resume_alone [alone]: "left_alone st (snd (engine_service_resume E st))"
proof -
  have "left_alone st (wake_up w (st\<lparr>eng := e\<rparr>))"
    if "e_shutdown (eng st) AND 1 \<noteq> 0" "fixed_part e = fixed_part (eng st)" for w e
    using that by (auto simp: left_alone_def wake_up_def)
  then show ?thesis
    using start_alone [of st E] shutdown_alone [of st E]
    by (simp add: engine_service_resume_def Let_def split_beta)
qed

lemma service_queue_alone: "left_alone st (service_queue E pc st)"
proof -
  let ?s1 = "if head_of st = None then st else snd (engine_service_perf pc st)"
  let ?l = "engine_service_transfer_list E (head_of st) (pc - e_desc_dequeued (eng ?s1)) ?s1"
  let ?f = "snd (engine_service_final_transfer E (fst ?l) (fst (snd ?l)) (snd (snd ?l)))"
  have "left_alone st ?s1" by (simp add: perf_alone)
  also have "left_alone ?s1 (snd (snd ?l))" by (rule service_list_alone)
  also have "left_alone (snd (snd ?l)) ?f" by (rule final_alone)
  also have "left_alone ?f (snd (engine_service_resume E ?f))" by (rule resume_alone)
  finally show ?thesis by (simp add: service_queue_def Let_def split_beta)
qed

lemma service_alone: "left_alone st (snd (engine_service E wb st))"
proof -
  have a: "left_alone st s \<Longrightarrow> left_alone st (snd (engine_service_shutdown E s))" for s
    by (rule left_alone_trans [OF _ shutdown_alone])
  have b: "left_alone st s \<Longrightarrow> left_alone st (service_queue E n s)" for s n
    by (rule left_alone_trans [OF _ service_queue_alone])
  have c: "left_alone st s \<Longrightarrow> left_alone st (snd (read_ereg E r s))" for s r
    by (rule left_alone_trans [OF _ read_alone])
  show ?thesis
    by (simp add: engine_service_def Let_def split_beta status_alone a b c)
qed

section \<open>The contract of a wait\<close>

text \<open>A transfer is under way: the engine runs for it alone and will move \<open>segs\<close>.\<close>

definition launched :: "xid \<Rightarrow> (u64 \<times> u64 \<times> u32) list \<Rightarrow> memories est \<Rightarrow> bool" where
  "launched t segs st \<longleftrightarrow> hw_segments st = Some segs \<and> length segs = x_desc_num (xfers st t) \<and>
     0 < x_desc_num (xfers st t) \<and> x_desc_num (xfers st t) < 2 ^ 32 \<and> x_cb (xfers st t) = None \<and>
     e_transfer_list (eng st) = [t] \<and> e_running (eng st) \<and> e_desc_dequeued (eng st) = 0 \<and>
     \<not> e_eop_flush (eng st) \<and> e_magic (eng st) = MAGIC_ENGINE \<and> e_shutdown (eng st) = 0"

text \<open>It has landed: completed, the bytes moved, the engine idle and otherwise as it was.\<close>

definition landed :: "xid \<Rightarrow> (u64 \<times> u64 \<times> u32) list \<Rightarrow> memories est \<Rightarrow> memories est \<Rightarrow> bool" where
  "landed t segs st st' \<longleftrightarrow> x_state (xfers st' t) = TRANSFER_STATE_COMPLETED \<and>
     x_len (xfers st' t) = x_len (xfers st t) \<and> left_alone st st' \<and>
     e_transfer_list (eng st') = [] \<and> \<not> e_running (eng st') \<and>
     client st' = fold (move_segment (e_dir (eng st))) segs (client st)"

lemma work_frame:
  "eng (engine_service_work E st) = (if e_magic (eng st) \<noteq> MAGIC_ENGINE then eng st else eng (snd (engine_service E 0 st)))"
  "xfers (engine_service_work E st) = (if e_magic (eng st) \<noteq> MAGIC_ENGINE then xfers st else xfers (snd (engine_service E 0 st)))"
  "client (engine_service_work E st) = (if e_magic (eng st) \<noteq> MAGIC_ENGINE then client st else client (snd (engine_service E 0 st)))"
  "xdev_flags (engine_service_work E st) =
     (if e_magic (eng st) \<noteq> MAGIC_ENGINE then xdev_flags st else xdev_flags (snd (engine_service E 0 st)))"
  by (simp_all add: engine_service_work_def Let_def split_beta)

text \<open>The interrupt and its work item keep the contract.\<close>

lemma interrupt_lands:
  assumes l: "launched t segs st"
  shows "landed t segs st (interrupt_wait E st)"
proof -
  let ?n = "length segs"
  let ?E = "device_answers st ?n E"
  let ?s = "st\<lparr>client := fold (move_segment (e_dir (eng st))) segs (client st)\<rparr>"
  let ?r = "snd (engine_service ?E 0 ?s)"
  have regs: "ereg ?s r = ereg st r" for r by (simp add: ereg_def)
  have rc: "ereg st ER_status_rc \<noteq> ereg st ER_completed_desc_count"
    by (simp add: ereg_def io_plus_def)
  have st1: "hw ?E (io ?s) (ereg ?s ER_status_rc) = XDMA_STAT_DESC_STOPPED OR XDMA_STAT_DESC_COMPLETED"
    using rc by (simp add: regs device_answers_def)
  have cnt: "\<forall>log. hw ?E log (ereg ?s ER_completed_desc_count) = of_nat ?n"
    by (simp add: regs device_answers_def)
  have n: "unat (of_nat ?n :: u32) = unat (e_desc_dequeued (eng ?s)) + desc_sum (xfers ?s) [] + ?n" "0 < ?n"
      "?n \<le> x_desc_num (xfers ?s t)"
    using l by (simp_all add: launched_def unat_of_nat_small)
  have q: "e_transfer_list (eng ?s) = [] @ t # []" "e_running (eng ?s)" "\<not> e_eop_flush (eng ?s)"
    using l by (simp_all add: launched_def)
  have ok: "\<not> status_error ((eng ?s)\<lparr>e_status := XDMA_STAT_DESC_STOPPED OR XDMA_STAT_DESC_COMPLETED\<rparr>)"
    by (simp add: status_error_def stat_masks)
  note e = engine_service_retires [OF q(2,3,1) _ _ st1 _ cnt n, simplified ok]
  have x: "xfers ?r = (xfers st)(t := final_xfer False ?n (xfers st t))" "e_transfer_list (eng ?r) = []"
      "\<not> e_running (eng ?r)"
    using e ok by simp_all
  have "notified ?E ?s ?r" by (rule service_notified)
  then obtain k where "client ?r = fold (notify ?E (xfers ?s)) (take k [t]) (client ?s)"
    using q(1) by (auto simp: notified_def)
  then have c: "client ?r = client ?s" using l by (cases k) (simp_all add: notify_def launched_def)
  have al: "left_alone ?s ?r" by (rule service_alone)
  have w: "interrupt_wait E st = engine_service_work ?E ?s" using l by (simp add: interrupt_wait_def launched_def)
  have m: "e_magic (eng ?s) = MAGIC_ENGINE" using l by (simp add: launched_def)
  have "\<not> ?n < x_desc_num (xfers st t)" using l by (simp add: launched_def)
  with x c al show ?thesis
    unfolding w landed_def left_alone_def work_frame using m by (simp add: final_xfer_def)
qed

text \<open>
  The contract as an interface: a sleep of the submitter from which it wakes up with the transfer landed.
  What a submission does to the memories is proved from the contract alone.
\<close>

locale dma_wait =
  fixes await :: "memories est \<Rightarrow> memories est"
  assumes lands: "launched t segs st \<Longrightarrow> landed t segs st (await st)"

interpretation interrupts: dma_wait "interrupt_wait E" for E :: "(memories, 'x) kenv_scheme"
  by unfold_locales (rule interrupt_lands)

end
