(* ===== verification/Xdma_Path.thy ===== *)
theory Xdma_Path
  imports Xdma_Hw
begin

text \<open>
  The path of the bytes of a request: its pieces as moves between host and card, the registers a start
  writes, and the rounds of a submission (\<^verbatim>\<open>xdma_xfer_submit\<close>) with the device's side in between.
\<close>

section \<open>Moves\<close>

text \<open>A piece of a request moves \<open>sd_len\<close> bytes between a host address and a card address.\<close>

fun moves :: "u64 \<Rightarrow> sw_desc list \<Rightarrow> (u64 \<times> u64 \<times> u32) list" where
  "moves ep [] = []"
| "moves ep (d # ds) = (sd_addr d, ep, sd_len d) # moves (ep + ucast (sd_len d)) ds"

definition end_ep :: "u64 \<Rightarrow> sw_desc list \<Rightarrow> u64" where
  "end_ep ep ds = ep + sum_list (map (\<lambda>d. ucast (sd_len d)) ds)"

definition oriented :: "dma_data_direction \<Rightarrow> u64 \<times> u64 \<times> u32 \<Rightarrow> u64 \<times> u64 \<times> u32" where
  "oriented dir m = (case dir of DMA_TO_DEVICE \<Rightarrow> m | DMA_FROM_DEVICE \<Rightarrow> (fst (snd m), fst m, snd (snd m)))"

definition run_moves :: "dma_data_direction \<Rightarrow> u64 \<Rightarrow> sw_desc list \<Rightarrow> memories \<Rightarrow> memories" where
  "run_moves dir ep ds w = fold (move_segment dir) (map (oriented dir) (moves ep ds)) w"

lemma moves_append: "moves ep (ds @ ds') = moves ep ds @ moves (end_ep ep ds) ds'"
  by (induction ds arbitrary: ep) (simp_all add: end_ep_def add.assoc)

lemma end_ep_append: "end_ep ep (ds @ ds') = end_ep (end_ep ep ds) ds'"
  by (simp add: end_ep_def)

lemma run_moves_append: "run_moves dir ep (ds @ ds') w = run_moves dir (end_ep ep ds) ds' (run_moves dir ep ds w)"
  by (simp add: run_moves_def moves_append)

lemma run_moves_Nil [simp]: "run_moves dir ep [] w = w"
  by (simp add: run_moves_def)

lemma ep_at_end: "ep_at False ep sd n = end_ep ep (map sd [0..<n])"
  by (induction n) (simp_all add: end_ep_def)

lemma planned_moves:
  assumes "\<not> e_non_incr_addr e" and "\<not> e_streaming e"
  shows "map (planned_segment e req) [0..<n] =
    map (oriented (e_dir e)) (moves (rq_ep_addr req) (map (next_sdesc req) [0..<n]))"
proof (induction n)
  case (Suc n)
  have "planned_segment e req n = oriented (e_dir e)
      (sd_addr (next_sdesc req n), end_ep (rq_ep_addr req) (map (next_sdesc req) [0..<n]), sd_len (next_sdesc req n))"
    using assms by (cases "e_dir e") (simp_all add: planned_segment_def oriented_def ep_at_end Let_def)
  with Suc show ?case by (simp add: moves_append)
qed simp

text \<open>The pieces of a request that are left, and the first \<open>n\<close> of them.\<close>

definition left_pieces :: "xdma_request_cb \<Rightarrow> sw_desc list" where
  "left_pieces req = map (next_sdesc req) [0..<rq_sw_desc_cnt req - rq_sw_desc_idx req]"

lemma left_pieces_split:
  assumes "n \<le> rq_sw_desc_cnt req - rq_sw_desc_idx req"
    and "rq_sw_desc_idx req' = rq_sw_desc_idx req + n" and "rq_sw_desc_cnt req' = rq_sw_desc_cnt req"
    and "rq_sdesc req' = rq_sdesc req"
  shows "left_pieces req = map (next_sdesc req) [0..<n] @ left_pieces req'"
proof -
  let ?k = "rq_sw_desc_cnt req - rq_sw_desc_idx req"
  have "[0..<?k] = [0..<n] @ map (\<lambda>j. j + n) [0..<?k - n]"
    using assms(1) by (metis add.commute le_add_diff_inverse map_add_upt upt_add_eq_append zero_le)
  then have "left_pieces req = map (next_sdesc req) [0..<n] @ map (\<lambda>j. next_sdesc req (j + n)) [0..<?k - n]"
    by (simp only: left_pieces_def map_append map_map o_def)
  moreover have "next_sdesc req (j + n) = next_sdesc req' j" for j
    using assms(2,4) by (simp add: next_sdesc_def ac_simps)
  moreover have "rq_sw_desc_cnt req' - rq_sw_desc_idx req' = ?k - n" using assms(2,3) by simp
  ultimately show ?thesis by (simp add: left_pieces_def)
qed

section \<open>What a start writes\<close>

lemma io_steps:
  "io (write_sreg v r st) = Wr (sreg st r) v # io st" "io (write_ereg v q st) = Wr (ereg st q) v # io st"
  "io (snd (read_ereg E q st)) = Rd (ereg st q) # io st"
  by (simp_all add: write_sreg_def write_ereg_def read_ereg_def write_register_def read_register_def)

lemma reg_frame:
  "ereg (write_sreg v s st) q = ereg st q" "sreg (write_sreg v s st) r = sreg st r"
  by (simp_all add: ereg_def sreg_def)

lemma mode_config_io:
  "\<exists>m. io (snd (engine_start_mode_config E st)) =
     Rd (ereg st ER_status) # Wr (ereg st ER_control) (start_control E (eng st)) #
       (if e_xdma_perf (eng st) = None then [] else [Wr (ereg st ER_interrupt_enable_mask) m]) @ io st"
  by (auto simp: engine_start_mode_config_def Let_def split_beta io_steps ereg_def)

lemma status_read_io: "io (snd (engine_status_read E False False st)) = Rd (ereg st ER_status) # io st"
  by (simp add: engine_status_read_def Let_def split_beta io_steps)

lemma writes_to_mask:
  "writes_to a ((if p then [] else [Wr b m]) @ log) = (if b = a \<and> \<not> p then m # writes_to a log else writes_to a log)"
  by simp

text \<open>A start in two parts: the credits, then everything from the address of the first descriptor on.\<close>

definition start_credits :: "('x) xenv_scheme \<Rightarrow> ('c, 's) est_scheme \<Rightarrow> ('c, 's) est_scheme" where
  "start_credits E st =
     (let st = st\<lparr>eng := (eng st)\<lparr>e_shutdown := ENGINE_SHUTDOWN_NONE\<rparr>\<rparr>;
          st = (if credit_engine E (eng st)
                then write_sreg (e_desc_used (eng st)) SR_credits st else st)
      in st\<lparr>eng := (eng st)\<lparr>e_desc_dequeued := 0\<rparr>\<rparr>)"

definition start_tail ::
  "('x) xenv_scheme \<Rightarrow> xid \<Rightarrow> xdma_transfer \<Rightarrow> ('c, 's) est_scheme \<Rightarrow> xid option \<times> ('c, 's) est_scheme" where
  "start_tail E t x st =
     (let st = write_sreg (PCI_DMA_L (x_desc_bus x)) SR_first_desc_lo st;
          st = write_sreg (PCI_DMA_H (x_desc_bus x)) SR_first_desc_hi st;
          st = write_sreg (xdma_get_next_adj (of_nat (x_desc_adjacent x))
                             (PCI_DMA_L (x_desc_bus x))) SR_first_desc_adjacent st;
          (rv, st) = engine_start_mode_config E st
      in if rv < 0 then (None, st)
         else (let (rv, st) = engine_status_read E False False st
               in if rv < 0 then (None, st)
                  else (Some t, st\<lparr>eng := (eng st)\<lparr>e_running := True\<rparr>\<rparr>)))"

lemma engine_start_parts:
  assumes "\<not> e_running (eng st)" and "e_transfer_list (eng st) = t # ts"
  shows "engine_start E st = start_tail E t (xfers st t) (start_credits E st)"
  unfolding engine_start_def start_tail_def start_credits_def assms(2) list.case Let_def
  by (simp only: assms(1) if_False)

lemma start_tail_io:
  "\<exists>m. io (snd (start_tail E t x st)) =
     Rd (ereg st ER_status) # Rd (ereg st ER_status) # Wr (ereg st ER_control) (start_control E (eng st)) #
     (if e_xdma_perf (eng st) = None then [] else [Wr (ereg st ER_interrupt_enable_mask) m]) @
     Wr (sreg st SR_first_desc_adjacent) (xdma_get_next_adj (of_nat (x_desc_adjacent x)) (PCI_DMA_L (x_desc_bus x))) #
     Wr (sreg st SR_first_desc_hi) (PCI_DMA_H (x_desc_bus x)) #
     Wr (sreg st SR_first_desc_lo) (PCI_DMA_L (x_desc_bus x)) # io st"
proof -
  let ?s = "write_sreg (xdma_get_next_adj (of_nat (x_desc_adjacent x)) (PCI_DMA_L (x_desc_bus x)))
      SR_first_desc_adjacent (write_sreg (PCI_DMA_H (x_desc_bus x)) SR_first_desc_hi
        (write_sreg (PCI_DMA_L (x_desc_bus x)) SR_first_desc_lo st))"
  let ?c = "snd (engine_start_mode_config E ?s)"
  have e: "eng ?c = eng st" "eng ?s = eng st" by simp_all
  have "io (snd (start_tail E t x st)) = io (snd (engine_status_read E False False ?c))"
    by (simp add: start_tail_def Let_def split_beta)
  also have "\<dots> = Rd (ereg st ER_status) # io ?c" by (simp add: status_read_io ereg_def e)
  finally have 1: "io (snd (start_tail E t x st)) = Rd (ereg st ER_status) # io ?c" .
  obtain m where "io ?c = Rd (ereg ?s ER_status) # Wr (ereg ?s ER_control) (start_control E (eng ?s)) #
      (if e_xdma_perf (eng ?s) = None then [] else [Wr (ereg ?s ER_interrupt_enable_mask) m]) @ io ?s"
    using mode_config_io [of E ?s] by blast
  then show ?thesis
    unfolding 1 by (intro exI [of _ m]) (simp only: io_steps reg_frame e append_Cons)
qed

lemma start_credits_regs:
  "ereg (start_credits E st) q = ereg st q" "sreg (start_credits E st) r = sreg st r"
  by (simp_all add: start_credits_def ereg_def sreg_def Let_def)

lemma start_registers:
  fixes st :: "('c, 's) est_scheme" and E :: "('x) xenv_scheme"
  assumes "\<not> e_running (eng st)" and "e_transfer_list (eng st) = t # ts"
    and sg: "e_sgdma_regs (eng st) = io_plus (e_regs (eng st)) SGDMA_OFFSET_FROM_CHANNEL"
  shows "first_desc_addr (snd (engine_start E st)) = x_desc_bus (xfers st t)"
    and "run_bit (snd (engine_start E st))"
proof -
  let ?r = "snd (engine_start E st)" and ?s = "start_credits E st"
  let ?lo = "PCI_DMA_L (x_desc_bus (xfers st t))" and ?hi = "PCI_DMA_H (x_desc_bus (xfers st t))"
  obtain m log where io: "io ?r =
     Rd (ereg st ER_status) # Rd (ereg st ER_status) # Wr (ereg st ER_control) (start_control E (eng ?s)) #
     (if e_xdma_perf (eng ?s) = None then [] else [Wr (ereg st ER_interrupt_enable_mask) m]) @
     Wr (sreg st SR_first_desc_adjacent) (xdma_get_next_adj (of_nat (x_desc_adjacent (xfers st t))) ?lo) #
     Wr (sreg st SR_first_desc_hi) ?hi # Wr (sreg st SR_first_desc_lo) ?lo # log"
    using start_tail_io [of E t "xfers st t" ?s]
    unfolding engine_start_parts [OF assms(1,2)] start_credits_regs by blast
  have eq: "sreg st x = io_plus (e_regs (eng st)) (0x4000 + engine_sgdma_regs x)" for x
    unfolding sreg_def sg by (simp add: io_plus_def)
  have ne: "ereg st q \<noteq> sreg st x" for q x
    unfolding eq by (cases "e_regs (eng st)"; cases q) (simp_all add: ereg_def io_plus_def)
  have ne2: "sreg st SR_first_desc_adjacent \<noteq> sreg st SR_first_desc_lo"
    "sreg st SR_first_desc_adjacent \<noteq> sreg st SR_first_desc_hi" "sreg st SR_first_desc_hi \<noteq> sreg st SR_first_desc_lo"
    by (simp_all add: eq io_plus_def)
  have w: "written (sreg st SR_first_desc_lo) (io ?r) = ?lo" "written (sreg st SR_first_desc_hi) (io ?r) = ?hi"
    "written (ereg st ER_control) (io ?r) = start_control E (eng ?s)"
    unfolding io written_def by (simp_all only: writes_to.simps writes_to_mask ne ne2 simp_thms if_True if_False list.case)
  have "fixed_part (eng ?r) = fixed_part (eng st)" using start_alone [of st E] by (simp add: left_alone_def)
  note e = fixed_part_fields(10,11) [OF this]
  have regs: "ereg ?r q = ereg st q" "sreg ?r x = sreg st x" for q x
    by (simp_all add: ereg_def sreg_def e)
  show "first_desc_addr ?r = x_desc_bus (xfers st t)"
    by (simp only: first_desc_addr_def regs w addr_of_parts)
  show "run_bit ?r"
    by (simp only: run_bit_def regs w) (simp add: start_control_def)
qed

section \<open>Queueing a transfer on an idle engine\<close>

lemma ring_mem_cong: "e_desc e = e_desc e' \<Longrightarrow> e_desc_bus e = e_desc_bus e' \<Longrightarrow> ring_mem e = ring_mem e'"
  by (simp add: ring_mem_def fun_eq_iff Let_def)

text \<open>An engine with nothing to do, set up for memory-mapped transfers with a moving card address.\<close>

definition quiet :: "('c, 's) est_scheme \<Rightarrow> bool" where
  "quiet st \<longleftrightarrow> ring_ok (eng st) \<and> 32 * e_desc_max (eng st) \<le> 2 ^ 64 \<and> e_desc_max (eng st) < 2 ^ 32 \<and>
     e_transfer_list (eng st) = [] \<and> \<not> e_running (eng st) \<and> \<not> e_eop_flush (eng st) \<and>
     \<not> e_streaming (eng st) \<and> \<not> e_non_incr_addr (eng st) \<and> e_magic (eng st) = MAGIC_ENGINE \<and>
     e_shutdown (eng st) AND ENGINE_SHUTDOWN_REQUEST = 0 \<and> xdev_flags st AND XDEV_FLAG_OFFLINE = 0 \<and>
     e_sgdma_regs (eng st) = io_plus (e_regs (eng st)) SGDMA_OFFSET_FROM_CHANNEL"

lemma queue_launches:
  fixes st :: "memories est" and E :: "('x) xenv_scheme"
  assumes q: "quiet st" and n: "0 < x_desc_num (xfers st t)" "x_desc_num (xfers st t) < 2 ^ 32"
      "x_desc_num (xfers st t) \<le> length (e_desc (eng st))"
    and cb: "x_cb (xfers st t) = None"
    and walk: "hw_walk (x_desc_num (xfers st t)) (ring_mem (eng st)) (x_desc_bus (xfers st t)) = Some segs"
    and len: "length segs = x_desc_num (xfers st t)"
  defines "r \<equiv> transfer_queue E t st"
  shows "fst r = 0" and "launched t segs (snd r)" and "fixed_part (eng (snd r)) = fixed_part (eng st)"
    and "xdev_flags (snd r) = xdev_flags st" and "client (snd r) = client st"
    and "x_len (xfers (snd r) t) = x_len (xfers st t)"
proof -
  let ?s = "set_xfer t ((xfers st t)\<lparr>x_state := TRANSFER_STATE_SUBMITTED\<rparr>) st"
  let ?s' = "?s\<lparr>eng := (eng ?s)\<lparr>e_transfer_list := e_transfer_list (eng ?s) @ [t]\<rparr>\<rparr>"
  have r: "r = (0, snd (engine_start E ?s'))"
    using q n(1) by (simp add: r_def quiet_def transfer_queue_def xdma_device_flag_check_def Let_def)
  have i: "\<not> e_running (eng ?s')" "e_transfer_list (eng ?s') = t # []"
    "e_sgdma_regs (eng ?s') = io_plus (e_regs (eng ?s')) SGDMA_OFFSET_FROM_CHANNEL"
    using q by (simp_all add: quiet_def)
  note run = engine_start_idle [OF i(1,2), of E] and reg = start_registers [OF i, of E]
  have fp: "fixed_part (eng (snd r)) = fixed_part (eng st)" and fl: "xdev_flags (snd r) = xdev_flags st"
    using start_alone [of ?s' E] by (simp_all add: r left_alone_def)
  note f = fixed_part_fields [OF fp]
  have "first_desc_addr (snd r) = x_desc_bus (xfers st t)" "run_bit (snd r)"
    using reg by (simp_all add: r)
  moreover have "ring_mem (eng (snd r)) = ring_mem (eng st)" by (rule ring_mem_cong) (rule f)+
  ultimately have "hw_segments (snd r) = Some segs"
    using hw_walk_more [OF walk n(3)] f(1) by (simp add: hw_segments_def)
  then show "launched t segs (snd r)"
    using q n(1,2) cb len run f(8,9) by (simp add: launched_def quiet_def r)
  show "fst r = 0" "fixed_part (eng (snd r)) = fixed_part (eng st)" "xdev_flags (snd r) = xdev_flags st"
    "client (snd r) = client st" "x_len (xfers (snd r) t) = x_len (xfers st t)"
    using fp fl by (simp_all add: r)
qed

section \<open>A round of a submission\<close>

lemma wake_launched [simp]: "launched t segs (wake_up w st) = launched t segs st"
  by (simp add: launched_def hw_segments_def run_bit_def first_desc_addr_def wake_up_def ereg_def sreg_def)

lemma wake_keeps:
  "eng (wake_up w st) = eng st" "xfers (wake_up w st) = xfers st" "client (wake_up w st) = client st"
  "xdev_flags (wake_up w st) = xdev_flags st"
  by (simp_all add: wake_up_def)

text \<open>What the transfer of a round is.\<close>

lemma prepared:
  fixes s :: "memories submission" and t :: xid and m :: bool
  assumes "ready s" and q: "quiet (s_st s)"
  defines "p \<equiv> prepare_transfer t None m s" and "k \<equiv> planned (eng (s_st s)) (s_req s)"
  shows "quiet (s_st p)" and "x_desc_num (xfers (s_st p) t) = k" and "x_cb (xfers (s_st p) t) = None"
    and "k \<le> length (e_desc (eng (s_st p)))"
    and "hw_walk k (ring_mem (eng (s_st p))) (x_desc_bus (xfers (s_st p) t)) =
      Some (map (oriented (e_dir (eng (s_st s)))) (moves (rq_ep_addr (s_req s)) (map (next_sdesc (s_req s)) [0..<k])))"
    and "rq_ep_addr (s_req p) = end_ep (rq_ep_addr (s_req s)) (map (next_sdesc (s_req s)) [0..<k])"
    and "client (s_st p) = client (s_st s)" and "e_dir (eng (s_st p)) = e_dir (eng (s_st s))"
    and "e_channel (eng (s_st p)) = e_channel (eng (s_st s))"
proof -
  let ?e = "eng (s_st s)" and ?rq = "s_req s"
  have ok: "ring_ok ?e" "req_left ?rq" using assms(1) by (simp_all add: ready_def)
  note eq = transfer_init_eq [OF ok(1), of ?rq] and b = planned_bounds [OF ok] and f = prepare_transfer_facts [OF assms(1)]
  have pe: "eng (s_st p) = fst (transfer_init ?e ?rq)" "s_req p = fst (snd (transfer_init ?e ?rq))"
    "x_desc_bus (xfers (s_st p) t) = first_desc_bus ?e" "client (s_st p) = client (s_st s)"
    by (simp_all add: p_def prepare_transfer_def split_beta Let_def) (simp add: eq)
  show "x_desc_num (xfers (s_st p) t) = k" "x_cb (xfers (s_st p) t) = None" using f(18,19) by (simp_all add: p_def k_def)
  show quiet: "quiet (s_st p)"
  proof -
    have "ring_ok (eng (s_st p))" "xdev_flags (s_st p) = xdev_flags (s_st s)" by (simp_all add: p_def f)
    moreover have "e_desc_max (eng (s_st p)) = e_desc_max ?e" "e_transfer_list (eng (s_st p)) = e_transfer_list ?e"
      "e_running (eng (s_st p)) = e_running ?e" "e_eop_flush (eng (s_st p)) = e_eop_flush ?e"
      "e_streaming (eng (s_st p)) = e_streaming ?e" "e_non_incr_addr (eng (s_st p)) = e_non_incr_addr ?e"
      "e_magic (eng (s_st p)) = e_magic ?e" "e_shutdown (eng (s_st p)) = e_shutdown ?e"
      "e_sgdma_regs (eng (s_st p)) = e_sgdma_regs ?e" "e_regs (eng (s_st p)) = e_regs ?e"
      by (simp_all add: pe eq)
    ultimately show ?thesis using q by (simp add: quiet_def)
  qed
  have mx: "e_desc_max (eng (s_st p)) = e_desc_max ?e" using f(9) by (simp add: p_def)
  show "k \<le> length (e_desc (eng (s_st p)))"
    using quiet b(3) by (simp add: quiet_def ring_ok_def mx k_def)
  have "32 * e_desc_max ?e \<le> 2 ^ 64" using q by (simp add: quiet_def)
  then have "hw_walk (k - 0) (ring_mem (eng (s_st p))) (desc_addr (first_desc_bus ?e) 0) =
      Some (map (planned_segment ?e ?rq) [0..<k])"
    unfolding pe k_def using b(1) by (intro hw_walk_laid ok)
  then show "hw_walk k (ring_mem (eng (s_st p))) (x_desc_bus (xfers (s_st p) t)) =
      Some (map (oriented (e_dir ?e)) (moves (rq_ep_addr ?rq) (map (next_sdesc ?rq) [0..<k])))"
    using planned_moves [of ?e ?rq k] q by (simp add: desc_addr_def pe(3) quiet_def)
  show "rq_ep_addr (s_req p) = end_ep (rq_ep_addr ?rq) (map (next_sdesc ?rq) [0..<k])"
    using built_facts(1) [OF ok] q by (simp add: pe eq k_def ep_at_end quiet_def)
  show "client (s_st p) = client (s_st s)" by (rule pe)
  show "e_dir (eng (s_st p)) = e_dir ?e" "e_channel (eng (s_st p)) = e_channel ?e" by (simp_all add: pe eq)
qed

lemma quiet_landed:
  assumes "launched t segs st" and "landed t segs st st'" and "fixed_part (eng st) = fixed_part e" and "xdev_flags st = f"
    and "quiet (s\<lparr>eng := e, xdev_flags := f\<rparr>)"
  shows "quiet st'"
proof -
  have "fixed_part (eng st') = fixed_part e" using assms(2,3) by (simp add: landed_def left_alone_def)
  note f = fixed_part_fields [OF this]
  have "e_shutdown (eng st') = 0" "xdev_flags st' = f" using assms(1,2,4) by (simp_all add: landed_def left_alone_def launched_def)
  then show ?thesis using assms(2,5) f by (simp add: quiet_def ring_ok_def landed_def)
qed

lemma dismantle_quiet: "quiet (s_st (dismantle t s)) = quiet (s_st s)"
  by (simp add: dismantle_def transfer_destroy_def quiet_def ring_ok_def Let_def)

lemma dismantle_rest:
  "client (s_st (dismantle t s)) = client (s_st s)" "e_channel (eng (s_st (dismantle t s))) = e_channel (eng (s_st s))"
  by (simp_all add: dismantle_def transfer_destroy_def Let_def)

text \<open>How a round moves a submission on: \<open>k\<close> pieces, and the bytes of these pieces.\<close>

definition round_done :: "nat \<Rightarrow> memories submission \<Rightarrow> memories submission \<Rightarrow> bool" where
  "round_done k s r \<longleftrightarrow> s_rv r = 0 \<and> quiet (s_st r) \<and> s_nents r = s_nents s - k \<and>
     s_done r = s_done s + int (sum_list (map (\<lambda>d. unat (sd_len d)) (map (next_sdesc (s_req s)) [0..<k]))) \<and>
     rq_sw_desc_idx (s_req r) = rq_sw_desc_idx (s_req s) + k \<and> rq_sdesc (s_req r) = rq_sdesc (s_req s) \<and>
     rq_sw_desc_cnt (s_req r) = rq_sw_desc_cnt (s_req s) \<and>
     rq_ep_addr (s_req r) = end_ep (rq_ep_addr (s_req s)) (map (next_sdesc (s_req s)) [0..<k]) \<and>
     e_dir (eng (s_st r)) = e_dir (eng (s_st s)) \<and> e_channel (eng (s_st r)) = e_channel (eng (s_st s)) \<and>
     client (s_st r) = run_moves (e_dir (eng (s_st s))) (rq_ep_addr (s_req s))
       (map (next_sdesc (s_req s)) [0..<k]) (client (s_st s))"

context dma_wait begin

lemma submit_round_moves:
  fixes E :: "(memories, 'x) kenv_scheme"
  assumes "ready s" and "quiet (s_st s)"
    and small: "sum_list (map (\<lambda>d. unat (sd_len d)) (left_pieces (s_req s))) < 2 ^ 32"
  shows "round_done (planned (eng (s_st s)) (s_req s)) s (submit_round E await t m s)"
proof -
  let ?k = "planned (eng (s_st s)) (s_req s)" and ?p = "prepare_transfer t None m s"
  let ?ds = "map (next_sdesc (s_req s)) [0..<?k]"
  let ?segs = "map (oriented (e_dir (eng (s_st s)))) (moves (rq_ep_addr (s_req s)) ?ds)"
  let ?q = "transfer_queue E t (s_st ?p)"
  let ?w = "case e_cmplthp (eng (snd ?q)) of Some th \<Rightarrow> wake_up (Wake_cmpl_thread th) (snd ?q) | None \<Rightarrow> snd ?q"
  let ?s2 = "?p\<lparr>s_rv := fst ?q, s_st := await ?w\<rparr>"
  note f = prepare_transfer_facts [OF assms(1)] and P = prepared [OF assms(1,2), where t = t and m = m]
  have k: "0 < ?k" "?k < 2 ^ 32"
    using f(2,4) assms(2) by (simp_all add: quiet_def)
  have "length (moves ep ds) = length ds" for ep ds by (induction ds arbitrary: ep) simp_all
  then have len: "length ?segs = ?k" by simp
  note Q = queue_launches [where E = E and t = t and st = "s_st ?p", unfolded P(2), OF P(1) k P(4) P(3) P(5) len]
  have l: "launched t ?segs ?w" using Q(2) by (simp split: option.split)
  note a = lands [OF l]
  have w: "eng ?w = eng (snd ?q)" "xfers ?w = xfers (snd ?q)" "client ?w = client (snd ?q)" "xdev_flags ?w = xdev_flags (snd ?q)"
    by (simp_all add: wake_keeps split: option.split)
  have quiet: "quiet (await ?w)"
    by (rule quiet_landed [OF l a, where e = "eng (s_st ?p)" and f = "xdev_flags (s_st ?p)" and s = "s_st ?p"])
       (use P(1) Q(3,4) w in simp_all)
  have fp: "fixed_part (eng (await ?w)) = fixed_part (eng (s_st ?p))" using a Q(3) w(1) by (simp add: landed_def left_alone_def)
  have "sum_list (map (\<lambda>d. unat (sd_len d)) ?ds) \<le> sum_list (map (\<lambda>d. unat (sd_len d)) (left_pieces (s_req s)))"
    using f(3) assms(1)
      left_pieces_split [of ?k "s_req s" "(s_req s)\<lparr>rq_sw_desc_idx := rq_sw_desc_idx (s_req s) + ?k\<rparr>"]
    by (simp add: ready_def)
  then have sm: "sum_list (map (\<lambda>d. unat (sd_len d)) ?ds) < 2 ^ 32" using small by simp
  have "x_len (xfers (await ?w) t) = sum_list (map (\<lambda>d. sd_len d) ?ds)"
    using a f(20) Q(6) w(2) by (simp add: landed_def comp_def next_sdesc_def)
  then have "unat (x_len (xfers (await ?w) t)) = sum_list (map (\<lambda>d. unat (sd_len d)) ?ds)"
    using unat_sum_list [of sd_len ?ds] sm by simp
  then have bytes: "uint (x_len (xfers (await ?w) t)) = int (sum_list (map (\<lambda>d. unat (sd_len d)) ?ds))"
    by (metis uint_nat)
  have ns: "\<not> streaming_c2h (eng (await ?w))" using quiet by (simp add: quiet_def streaming_c2h_def)
  have "x_state (xfers (await ?w) t) = TRANSFER_STATE_COMPLETED" using a by (simp add: landed_def)
  then have aw: "after_wait E t ?s2 = ?s2\<lparr>s_rv := 0, s_done := s_done s + int (sum_list (map (\<lambda>d. unat (sd_len d)) ?ds))\<rparr>"
    using ns bytes f(15) by (simp add: after_wait_def Let_def)
  have r: "submit_round E await t m s = dismantle t (after_wait E t ?s2)"
    using Q(1) by (simp add: submit_round_def split_beta Let_def)
  have cl: "client (await ?w) = run_moves (e_dir (eng (s_st s))) (rq_ep_addr (s_req s)) ?ds (client (s_st s))"
    using a Q(3,5) P(7,8) w(1,3) fixed_part_fields(5) [OF Q(3)] by (simp add: landed_def run_moves_def)
  show ?thesis
    unfolding r aw round_done_def
    using f(1,5,6,7) P(6,8,9) quiet cl fixed_part_fields(5,12) [OF fp]
    by (simp add: dismantle_facts dismantle_quiet dismantle_rest)
qed

lemma submit_loop_moves:
  fixes E :: "(memories, 'x) kenv_scheme"
  shows "s_nents s = rq_sw_desc_cnt (s_req s) - rq_sw_desc_idx (s_req s) \<Longrightarrow> quiet (s_st s) \<Longrightarrow> s_rv s = 0 \<Longrightarrow>
    sum_list (map (\<lambda>d. unat (sd_len d)) (left_pieces (s_req s))) < 2 ^ 32 \<Longrightarrow>
    \<exists>r. submit_loop E await t m s = Some r \<and> s_rv r = 0 \<and> quiet (s_st r) \<and>
      s_done r = s_done s + int (sum_list (map (\<lambda>d. unat (sd_len d)) (left_pieces (s_req s)))) \<and>
      e_dir (eng (s_st r)) = e_dir (eng (s_st s)) \<and> e_channel (eng (s_st r)) = e_channel (eng (s_st s)) \<and>
      client (s_st r) = run_moves (e_dir (eng (s_st s))) (rq_ep_addr (s_req s)) (left_pieces (s_req s)) (client (s_st s))"
proof (induction "s_nents s" arbitrary: s rule: less_induct)
  case less
  show ?case
  proof (cases "s_nents s = 0")
    case True
    then show ?thesis using less.prems by (simp add: submit_loop.simps left_pieces_def)
  next
    case False
    let ?r = "submit_round E await t m s" and ?k = "planned (eng (s_st s)) (s_req s)"
    let ?ds = "map (next_sdesc (s_req s)) [0..<?k]"
    have s: "ready s" using False less.prems(1,2) by (simp add: ready_def req_left_def quiet_def)
    note f = prepare_transfer_facts(2,3) [OF s]
    have R: "round_done ?k s ?r" by (rule submit_round_moves [OF s less.prems(2,4)])
    have split: "left_pieces (s_req s) = ?ds @ left_pieces (s_req ?r)"
      using R f less.prems(1) by (intro left_pieces_split) (simp_all add: round_done_def)
    have "s_nents ?r < s_nents s" "s_nents ?r = rq_sw_desc_cnt (s_req ?r) - rq_sw_desc_idx (s_req ?r)"
      "quiet (s_st ?r)" "s_rv ?r = 0" using R f False less.prems(1) by (simp_all add: round_done_def)
    moreover have "sum_list (map (\<lambda>d. unat (sd_len d)) (left_pieces (s_req ?r))) < 2 ^ 32"
      using less.prems(4) unfolding split by simp
    ultimately obtain r where "submit_loop E await t m ?r = Some r" "s_rv r = 0" "quiet (s_st r)"
      "s_done r = s_done ?r + int (sum_list (map (\<lambda>d. unat (sd_len d)) (left_pieces (s_req ?r))))"
      "e_dir (eng (s_st r)) = e_dir (eng (s_st ?r))" "e_channel (eng (s_st r)) = e_channel (eng (s_st ?r))"
      "client (s_st r) = run_moves (e_dir (eng (s_st ?r))) (rq_ep_addr (s_req ?r)) (left_pieces (s_req ?r)) (client (s_st ?r))"
      using less.hyps [of ?r] by blast
    with R show ?thesis
      using False less.prems(3) unfolding split run_moves_append
      by (simp add: submit_loop.simps [of E await t m s] round_done_def)
  qed
qed

text \<open>A whole submission: it returns the length of its request and has moved its pieces, in order.\<close>

lemma submit_moves:
  fixes E :: "(memories, 'x) kenv_scheme"
  assumes sel: "select_engine dev ch write = Inr st" and q: "quiet st"
    and "map_for_dma dma_map m sgt = Some sgt1"
    and "xdma_init_request (desc_blen_max E) oom sgt1 ep = Some (Some req)"
    and idx: "rq_sw_desc_idx req = 0" and ep: "rq_ep_addr req = ep"
    and ds: "take (rq_sw_desc_cnt req) (rq_sdesc req) = ds" "rq_sw_desc_cnt req \<le> length (rq_sdesc req)"
    and n: "sum_list (map (\<lambda>d. unat (sd_len d)) ds) = n" "n < 2 ^ 32"
  shows "\<exists>sgt' st'. xdma_xfer_submit E oom dma_map await rid dev ch write ep sgt m =
      Some (int n, sgt', put_engine write ch st' dev) \<and> quiet st' \<and> e_dir (eng st') = e_dir (eng st) \<and>
      e_channel (eng st') = e_channel (eng st) \<and> client st' = run_moves (dir_of write) ep ds (client st)"
proof -
  let ?s = "\<lparr>s_nents = rq_sw_desc_cnt req, s_done = 0, s_rv = 0, s_req = req, s_sgt = sgt1, s_st = st\<rparr>"
  have dir: "e_dir (eng st) = dir_of write"
    using sel by (auto simp: select_engine_def Let_def split: if_splits)
  have "map (next_sdesc req) [0..<rq_sw_desc_cnt req] = take (rq_sw_desc_cnt req) (rq_sdesc req)"
    using ds(2) idx by (simp add: list_eq_iff_nth_eq next_sdesc_def)
  then have left: "left_pieces req = ds" using ds(1) idx by (simp add: left_pieces_def)
  obtain r where r: "submit_loop E await (rid, 0) m ?s = Some r" "s_rv r = 0" "quiet (s_st r)" "s_done r = int n"
    "e_dir (eng (s_st r)) = dir_of write" "e_channel (eng (s_st r)) = e_channel (eng st)"
    "client (s_st r) = run_moves (dir_of write) ep ds (client st)"
    using submit_loop_moves [of ?s E "(rid, 0)" m] left n idx ep q dir by auto
  have "xdma_xfer_submit E oom dma_map await rid dev ch write ep sgt m =
      Some (if s_done r \<noteq> 0 then s_done r else s_rv r, unmap_sgl m (s_sgt r), put_engine write ch (s_st r) dev)"
    using sel assms(3,4) r(1) by (simp add: xdma_xfer_submit_def submit_result_def)
  then show ?thesis using r dir by auto
qed

end

end
