(* ===== verification/Cdev_Path_Spec.thy ===== *)
theory Cdev_Path_Spec
  imports Cdev_Sgdma_Spec Xdma_Path
begin

text \<open>
  From the user's buffer to the card and back: a write or a read of the character device, through the
  pinned pages, the scatter list, the request, the descriptor ring, the engine's registers, the engine's
  run and the interrupt that ends each transfer. The byte at each offset of the buffer ends up at that
  offset from the file position on the card, and the other way round.
\<close>

section \<open>Bytes of memory\<close>

text \<open>Storing values at addresses, one after the other.\<close>

fun store :: "u64 list \<Rightarrow> u8 list \<Rightarrow> (u64 \<Rightarrow> u8) \<Rightarrow> u64 \<Rightarrow> u8" where
  "store (a # as) (v # vs) m = store as vs (m(a := v))"
| "store _ _ m = m"

lemma store_append: "length as = length vs \<Longrightarrow> store (as @ as') (vs @ vs') m = store as' vs' (store as vs m)"
  by (induction as vs m rule: store.induct) auto

lemma store_other: "a \<notin> set as \<Longrightarrow> store as vs m a = m a"
  by (induction as vs m rule: store.induct) auto

lemma store_nth:
  "distinct as \<Longrightarrow> length as = length vs \<Longrightarrow> i < length as \<Longrightarrow> store as vs m (as ! i) = vs ! i"
proof (induction as vs m arbitrary: i rule: store.induct)
  case (1 a as v vs m)
  show ?case
  proof (cases i)
    case 0
    then show ?thesis using 1 by (simp add: store_other)
  next
    case (Suc j)
    then show ?thesis using 1(1) [of j] 1(2-4) by (simp del: fun_upd_apply)
  qed
qed simp_all

definition span :: "u64 \<Rightarrow> nat \<Rightarrow> u64 list" where
  "span a n = map (\<lambda>k. a + of_nat k) [0..<n]"

lemma length_span [simp]: "length (span a n) = n"
  by (simp add: span_def)

lemma nth_span [simp]: "k < n \<Longrightarrow> span a n ! k = a + of_nat k"
  by (simp add: span_def)

lemma span_0 [simp]: "span a 0 = []"
  by (simp add: span_def)

lemma span_add: "span a (m + n) = span a m @ span (a + of_nat m) n"
proof -
  have "[0..<m + n] = [0..<m] @ map (\<lambda>k. k + m) [0..<n]"
    by (metis add.commute map_add_upt upt_add_eq_append zero_le)
  then show ?thesis by (simp add: span_def comp_def algebra_simps)
qed

lemma span_distinct:
  assumes "n \<le> 2 ^ 64"
  shows "distinct (span a n)"
proof -
  have "i = j" if "i < n" "j < n" "(of_nat i :: u64) = of_nat j" for i j
  proof -
    have "unat (of_nat i :: u64) = i" by (rule unat_of_nat_small) (use that(1) assms in simp)
    moreover have "unat (of_nat j :: u64) = j" by (rule unat_of_nat_small) (use that(2) assms in simp)
    ultimately show ?thesis using that(3) by metis
  qed
  then show ?thesis by (auto simp: span_def distinct_map intro!: inj_onI)
qed

lemma copy_bytes_store:
  "n \<le> 2 ^ 64 \<Longrightarrow> copy_bytes from src dst n to = store (span dst n) (map from (span src n)) to"
proof (induction n)
  case 0
  then show ?case by (simp add: copy_bytes_def fun_eq_iff)
next
  case (Suc n)
  have n: "unat (of_nat n :: u64) = n" using Suc.prems by (intro unat_of_nat_small) simp
  have iff: "unat (a - dst) < Suc n \<longleftrightarrow> unat (a - dst) < n \<or> a = dst + of_nat n" for a
  proof -
    have "unat (a - dst) = n \<longleftrightarrow> a - dst = of_nat n" by (metis n word_unat_eq_iff)
    then show ?thesis by (auto simp: less_Suc_eq algebra_simps)
  qed
  have "copy_bytes from src dst (Suc n) to = (copy_bytes from src dst n to)(dst + of_nat n := from (src + of_nat n))"
    by (auto simp: fun_eq_iff copy_bytes_def iff)
  moreover have "span a (Suc n) = span a n @ [a + of_nat n]" for a by (simp add: span_def)
  ultimately show ?case using Suc by (simp add: store_append)
qed

section \<open>The bytes of a request\<close>

definition desc_bytes :: "sw_desc list \<Rightarrow> u64 list" where
  "desc_bytes ds = concat (map (\<lambda>d. span (sd_addr d) (unat (sd_len d))) ds)"

lemma desc_bytes_simps [simp]:
  "desc_bytes [] = []" "desc_bytes (d # ds) = span (sd_addr d) (unat (sd_len d)) @ desc_bytes ds"
  "desc_bytes (ds @ ds') = desc_bytes ds @ desc_bytes ds'"
  by (simp_all add: desc_bytes_def)

lemma unat_len_small: "unat (n :: u32) \<le> 2 ^ 64"
proof -
  have "unat n < 2 ^ LENGTH(32)" by (rule unsigned_less)
  then show ?thesis by simp
qed

lemma length_desc_bytes: "length (desc_bytes ds) = sum_list (map (\<lambda>d. unat (sd_len d)) ds)"
  by (induction ds) simp_all

lemma run_moves_Cons:
  "run_moves dir ep (d # ds) w =
     run_moves dir (ep + ucast (sd_len d)) ds (move_segment dir (oriented dir (sd_addr d, ep, sd_len d)) w)"
  by (simp add: run_moves_def)

lemma len_of_nat: "(ucast n :: u64) = of_nat (unat (n :: u32))"
  by simp

lemma run_moves_to_card:
  "run_moves DMA_TO_DEVICE ep ds w =
     w\<lparr>card_mem := store (span ep (length (desc_bytes ds))) (map (host_mem w) (desc_bytes ds)) (card_mem w)\<rparr>"
proof (induction ds arbitrary: ep w)
  case (Cons d ds)
  have "move_segment DMA_TO_DEVICE (oriented DMA_TO_DEVICE (sd_addr d, ep, sd_len d)) w =
      w\<lparr>card_mem := store (span ep (unat (sd_len d))) (map (host_mem w) (span (sd_addr d) (unat (sd_len d)))) (card_mem w)\<rparr>"
    by (simp add: move_segment_def oriented_def copy_bytes_store [OF unat_len_small])
  then show ?case
    by (simp add: run_moves_Cons Cons span_add store_append len_of_nat del: of_nat_unat)
qed simp

lemma run_moves_to_host:
  "run_moves DMA_FROM_DEVICE ep ds w =
     w\<lparr>host_mem := store (desc_bytes ds) (map (card_mem w) (span ep (length (desc_bytes ds)))) (host_mem w)\<rparr>"
proof (induction ds arbitrary: ep w)
  case (Cons d ds)
  have "move_segment DMA_FROM_DEVICE (oriented DMA_FROM_DEVICE (sd_addr d, ep, sd_len d)) w =
      w\<lparr>host_mem := store (span (sd_addr d) (unat (sd_len d))) (map (card_mem w) (span ep (unat (sd_len d)))) (host_mem w)\<rparr>"
    by (simp add: move_segment_def oriented_def copy_bytes_store [OF unat_len_small])
  then show ?case
    by (simp add: run_moves_Cons Cons span_add store_append len_of_nat del: of_nat_unat)
qed simp

text \<open>Cutting entries into pieces keeps their bytes.\<close>

lemma pieces_bytes:
  assumes "0 < b" and "b < 2 ^ 32"
  shows "desc_bytes (pieces b addr n) = span addr n"
  using assms
proof (induction b addr n rule: pieces.induct)
  case (1 b addr n)
  consider "n = 0" | "0 < n" "n \<le> b" | "b < n" by linarith
  then show ?case
  proof cases
    case 1
    then show ?thesis by (simp add: pieces.simps [of b addr 0])
  next
    case 2
    then show ?thesis using \<open>b < 2 ^ 32\<close> by (simp add: pieces.simps [of b addr n] unat_of_nat_small)
  next
    case 3
    then have "span addr n = span addr b @ span (addr + of_nat b) (n - b)"
      using span_add [of addr b "n - b"] by simp
    with 3 1 show ?thesis by (simp add: pieces.simps [of b addr n] unat_of_nat_small)
  qed
qed

definition table_bytes :: "sg_table \<Rightarrow> u64 list" where
  "table_bytes t = concat (map (\<lambda>e. span (sg_dma_address e) (unat (sg_dma_len e))) (take (nents t) (sgl t)))"

lemma all_pieces_bytes:
  fixes blen :: u32
  assumes "blen \<noteq> 0"
  shows "desc_bytes (all_pieces (unat blen) es) = concat (map (\<lambda>e. span (sg_dma_address e) (unat (sg_dma_len e))) es)"
proof -
  have "unat blen < 2 ^ LENGTH(32)" by (rule unsigned_less)
  then have "unat blen < 2 ^ 32" by simp
  moreover have "0 < unat blen" using assms by (simp add: unat_gt_0)
  ultimately have b: "desc_bytes (pieces (unat blen) addr n) = span addr n" for addr n
    by (intro pieces_bytes)
  show ?thesis by (induction es) (simp_all add: b)
qed

section \<open>The user's buffer\<close>

text \<open>The kernel pins the pages \<open>ps\<close> of a buffer.\<close>

definition pinned :: "map_env \<Rightarrow> u64 \<Rightarrow> nat \<Rightarrow> nat list \<Rightarrow> bool" where
  "pinned M buf count ps \<longleftrightarrow> me_sgl M \<and> me_array M \<and> me_pin M buf (length ps) = Inr ps \<and>
     length ps = (unat buf mod 4096 + count + 4095) div 4096 \<and> \<not> adjacent_duplicate ps"

text \<open>
  What the kernel documents of \<^verbatim>\<open>dma_map_sg\<close>: the entries it returns, possibly fewer than it was
  given, cover the bytes of the list in order, each page being at its bus address; no entry is so long that
  the rounding of the request's piece count wraps.
\<close>

definition dma_maps :: "u32 \<Rightarrow> (nat \<Rightarrow> u64) \<Rightarrow> user_sg list \<Rightarrow> sg_table \<Rightarrow> bool" where
  "dma_maps blen bus sg t \<longleftrightarrow> 0 < nents t \<and> nents t \<le> length (sgl t) \<and>
     (\<forall>e \<in> set (take (nents t) (sgl t)). unat (sg_dma_len e) + unat blen \<le> 2 ^ 32) \<and>
     table_bytes t = map (\<lambda>(p, off). bus p + of_nat off) (sg_bytes sg)"

definition dma_map_keeps :: "u32 \<Rightarrow> (nat \<Rightarrow> u64) \<Rightarrow> map_env \<Rightarrow> bool" where
  "dma_map_keeps blen bus M \<longleftrightarrow>
     (\<forall>sg t. sg \<noteq> [] \<and> (\<forall>e \<in> set sg. us_offset e + us_length e \<le> 4096) \<longrightarrow> dma_maps blen bus sg (me_dma_map M sg t))"

text \<open>The bus addresses of the bytes of a buffer.\<close>

definition user_addrs :: "(nat \<Rightarrow> u64) \<Rightarrow> nat list \<Rightarrow> u64 \<Rightarrow> nat \<Rightarrow> u64 list" where
  "user_addrs bus ps buf n = map (\<lambda>(p, off). bus p + of_nat off) (user_bytes ps buf n)"

lemma length_user_addrs [simp]: "length (user_addrs bus ps buf n) = n"
  by (simp add: user_addrs_def user_bytes_def)

lemma fill_sgl_in_pages: "\<forall>e \<in> set (fst (fill_sgl ps buf len)). us_offset e + us_length e \<le> 4096"
proof (induction ps arbitrary: buf len)
  case (Cons p ps)
  have "unat (buf AND 0xfff) < 4096" by (simp add: page_offset)
  with Cons show ?case by (simp add: Let_def split_beta)
qed simp

lemma fill_sgl_nonempty: "ps \<noteq> [] \<Longrightarrow> fst (fill_sgl ps buf len) \<noteq> []"
  by (cases ps) (simp_all add: Let_def split_beta)

lemma map_pinned:
  assumes pin: "pinned M buf count ps" and len: "0 < count" "count < 2 ^ 32"
    and cb: "cb = zero_cb\<lparr>cb_buf := buf, cb_len := count, cb_ep_addr := pos, cb_write := write\<rparr>"
  shows "\<exists>cb' m1. char_sgdma_map_user_buf_to_sgl M cb write m = (0, cb', fst (fill_sgl ps buf (of_nat count)), m1) \<and>
    mapped cb' m ps m1 \<and> ps \<noteq> []"
proof -
  have n: "unat (pages_spanned buf (of_nat count)) = length ps"
    using pages_spanned_count [of count buf] pin len(2) by (simp add: pinned_def)
  have ps: "ps \<noteq> []"
  proof
    assume "ps = []"
    then have "(unat buf mod 4096 + count + 4095) div 4096 = 0" using pin by (simp add: pinned_def)
    then show False using len(1) by (simp add: div_eq_0_iff)
  qed
  have "snd (fill_sgl ps buf (of_nat count)) = 0"
    using pin len(2) by (intro fill_sgl_left) (simp_all add: pinned_def)
  moreover have "me_sgl M" "me_array M" "me_pin M buf (length ps) = Inr ps" "\<not> adjacent_duplicate ps"
    using pin unfolding pinned_def by blast+
  ultimately show ?thesis
    using ps n by (simp add: char_sgdma_map_user_buf_to_sgl_def cb zero_cb_def Let_def split_beta mapped_def)
qed

section \<open>A whole call\<close>

text \<open>The engine of the device file is the one submission selects, idle and set up.\<close>

definition dma_ready :: "bool \<Rightarrow> nat \<Rightarrow> memories xdma_dev_io \<Rightarrow> bool" where
  "dma_ready write ch dev \<longleftrightarrow> select_engine dev ch write = Inr (cdev_engine write ch dev) \<and>
     quiet (cdev_engine write ch dev) \<and> e_channel (eng (cdev_engine write ch dev)) = ch"

definition world :: "bool \<Rightarrow> nat \<Rightarrow> memories xdma_dev_io \<Rightarrow> memories" where
  "world write ch dev = client (cdev_engine write ch dev)"

text \<open>What a call is to do to the memories.\<close>

definition deliver :: "bool \<Rightarrow> u64 \<Rightarrow> u64 list \<Rightarrow> memories \<Rightarrow> memories" where
  "deliver write pos addrs w =
     (if write then w\<lparr>card_mem := store (span pos (length addrs)) (map (host_mem w) addrs) (card_mem w)\<rparr>
      else w\<lparr>host_mem := store addrs (map (card_mem w) (span pos (length addrs))) (host_mem w)\<rparr>)"

lemma cdev_put_engine [simp]: "cdev_engine write ch (put_engine write ch st dev) = st"
  by (simp add: cdev_engine_def put_engine_def)

lemma ready_put_engine:
  assumes "dma_ready write ch dev" and "quiet st'" and "e_dir (eng st') = dir_of write" and "e_channel (eng st') = ch"
  shows "dma_ready write ch (put_engine write ch st' dev)"
  using assms by (auto simp: dma_ready_def select_engine_def cdev_engine_def put_engine_def Let_def quiet_def
      xdma_device_flag_check_def split: if_splits)

context dma_wait begin

lemma call_delivers:
  fixes E :: "(memories, 'x) kenv_scheme"
  assumes len: "0 < count" "count < 2 ^ 32" and pin: "pinned M buf count ps" and dm: "dma_map_keeps (desc_blen_max E) bus M"
    and ready: "dma_ready write ch dev" and al: "check_transfer_align (eng (cdev_engine write ch dev)) buf (of_nat count) pos True = 0"
    and chk: "0 \<le> chk" and mem: "desc_blen_max E \<noteq> 0" "\<forall>n. \<not> oom n"
  shows "\<exists>st' dev' m'. char_sgdma_read_write E M oom await rid chk write ch buf count pos write (dev, m) = Some (int count, dev', m') \<and>
    dev' = put_engine write ch st' dev \<and> dma_ready write ch dev' \<and> um_pins m' = um_pins m \<and> um_arrays m' = um_arrays m \<and>
    world write ch dev' = deliver write pos (user_addrs bus ps buf count) (world write ch dev)"
proof -
  let ?cb = "zero_cb\<lparr>cb_buf := buf, cb_len := count, cb_ep_addr := pos, cb_write := write\<rparr>"
  let ?sg = "fst (fill_sgl ps buf (of_nat count))"
  let ?st = "cdev_engine write ch dev"
  obtain cb' m1 where mp: "char_sgdma_map_user_buf_to_sgl M ?cb write m = (0, cb', ?sg, m1)" "mapped cb' m ps m1" "ps \<noteq> []"
    using map_pinned [OF pin len refl] by blast
  let ?t = "me_dma_map M ?sg (cb_sgt cb')"
  have "dma_maps (desc_blen_max E) bus ?sg ?t"
    using dm fill_sgl_in_pages fill_sgl_nonempty [OF mp(3)] unfolding dma_map_keeps_def by blast
  then have t: "0 < nents ?t" "nents ?t \<le> length (sgl ?t)"
    "\<forall>e \<in> set (take (nents ?t) (sgl ?t)). unat (sg_dma_len e) + unat (desc_blen_max E) \<le> 2 ^ 32"
    "table_bytes ?t = map (\<lambda>(p, off). bus p + of_nat off) (sg_bytes ?sg)"
    by (simp_all add: dma_maps_def)
  have "sg_bytes ?sg = user_bytes ps buf count"
    using fill_sgl_bytes [OF len] pin by (simp add: pinned_def)
  then have tb: "table_bytes ?t = user_addrs bus ps buf count" using t(4) by (simp add: user_addrs_def)
  let ?ds = "all_pieces (unat (desc_blen_max E)) (take (nents ?t) (sgl ?t))"
  obtain req where req: "xdma_init_request (desc_blen_max E) oom ?t pos = Some (Some req)"
    "take (rq_sw_desc_cnt req) (rq_sdesc req) = ?ds" "rq_sw_desc_cnt req \<le> length (rq_sdesc req)"
    "rq_sw_desc_idx req = 0" "rq_ep_addr req = pos"
    using init_request_built [OF mem(1) t(2) mem(2) t(3)] by blast
  have db: "desc_bytes ?ds = user_addrs bus ps buf count"
    using all_pieces_bytes [OF mem(1)] tb by (simp add: table_bytes_def)
  then have n: "sum_list (map (\<lambda>d. unat (sd_len d)) ?ds) = count" by (metis length_desc_bytes length_user_addrs)
  have sel: "select_engine dev ch write = Inr ?st" "quiet ?st" "e_channel (eng ?st) = ch" using ready by (simp_all add: dma_ready_def)
  have dir: "e_dir (eng ?st) = dir_of write" using sel(1) by (auto simp: select_engine_def Let_def split: if_splits)
  have "map_for_dma (me_dma_map M ?sg) False (cb_sgt cb') = Some ?t" using t(1) by (simp add: map_for_dma_def)
  from submit_moves [OF sel(1,2) this req(1,4,5,2,3) n len(2), of rid]
  obtain sgt' st' where s: "xdma_xfer_submit E oom (me_dma_map M ?sg) await rid dev ch write pos (cb_sgt cb') False =
      Some (int count, sgt', put_engine write ch st' dev)" "quiet st'" "e_dir (eng st') = e_dir (eng ?st)"
      "e_channel (eng st') = e_channel (eng ?st)" "client st' = run_moves (dir_of write) pos ?ds (client ?st)"
    by blast
  have call: "char_sgdma_read_write E M oom await rid chk write ch buf count pos write (dev, m) =
      Some (int count, put_engine write ch st' dev, snd (char_sgdma_unmap_user_buf (cb'\<lparr>cb_sgt := sgt'\<rparr>) write m1))"
    using s(1) mp(1) sel(3) al chk dir by (simp add: char_sgdma_read_write_def Let_def split_beta)
  have "world write ch (put_engine write ch st' dev) = deliver write pos (user_addrs bus ps buf count) (world write ch dev)"
    using db by (simp add: world_def s(5) deliver_def dir_of_def run_moves_to_card run_moves_to_host)
  moreover have "dma_ready write ch (put_engine write ch st' dev)"
    using ready s(2-4) dir sel(3) by (intro ready_put_engine) simp_all
  ultimately show ?thesis using call unmap_mapped [OF mp(2,3)] by blast
qed

end

section \<open>Properties\<close>

text \<open>
  A device with one channel each way, whose host maps each page to the bus address of the same number; the
  host's memory holds at each address the low byte of the address, the card zeroes.
\<close>

definition path_env :: "memories kenv" where
  "path_env = \<lparr>hw = (\<lambda>log a. 0), poll_mode = False, interrupt_mode = 0, enable_st_c2h_credit = False,
     desc_blen_max = 0x1000, io_done = (\<lambda>cb err w. w)\<rparr>"

definition path_pages :: map_env where
  "path_pages = sample_pages\<lparr>me_pin := \<lambda>buf n. Inr (map (\<lambda>i. unat buf div 4096 + i) [0..<n])\<rparr>"

definition path_bus :: "nat \<Rightarrow> u64" where
  "path_bus p = of_nat (p * 4096)"

definition path_st :: "dma_data_direction \<Rightarrow> memories est" where
  "path_st dir = \<lparr>eng = sample_engine\<lparr>e_dir := dir\<rparr>, xfers = (\<lambda>_. zero_xfer), io = [], wakes = [],
     client = \<lparr>host_mem = ucast, card_mem = (\<lambda>_. 0)\<rparr>, xdev_flags = 0, xdev_msix_enabled = False, xdev_cfg = IOM 1 0\<rparr>"

definition path_dev :: "memories xdma_dev_io" where
  "path_dev = \<lparr>dv_hndl_check = 0, dv_h2c_channel_max = 1, dv_c2h_channel_max = 1,
     dv_engine_h2c = (\<lambda>_. path_st DMA_TO_DEVICE), dv_engine_c2h = (\<lambda>_. path_st DMA_FROM_DEVICE)\<rparr>"

lemma path_setting:
  "desc_blen_max path_env = 0x1000" "dma_ready write 0 path_dev"
  "check_transfer_align (eng (cdev_engine write 0 path_dev)) buf len pos True = 0"
  "world write 0 path_dev = \<lparr>host_mem = ucast, card_mem = (\<lambda>_. 0)\<rparr>"
  by (simp_all add: path_env_def dma_ready_def select_engine_def cdev_engine_def path_dev_def path_st_def
      sample_engine_def dir_of_def xdma_device_flag_check_def quiet_def ring_ok_def io_plus_def
      check_transfer_align_def world_def Let_def)

lemma path_map: "dma_map_keeps 0x1000 path_bus path_pages"
proof -
  have "dma_maps 0x1000 path_bus sg (me_dma_map path_pages sg t)"
    if "sg \<noteq> []" and small: "\<forall>e \<in> set sg. us_offset e + us_length e \<le> 4096" for sg t
  proof -
    let ?f = "\<lambda>e. \<lparr>sg_dma_address = of_nat (us_page e * 4096 + us_offset e), sg_dma_len = of_nat (us_length e)\<rparr>"
    have len: "unat (of_nat (us_length e) :: u32) = us_length e" "us_length e \<le> 4096" if "e \<in> set sg" for e
    proof -
      show "us_length e \<le> 4096" using small that by fastforce
      then show "unat (of_nat (us_length e) :: u32) = us_length e" by (intro unat_of_nat_small) simp
    qed
    have "map (\<lambda>e. span (sg_dma_address (?f e)) (unat (sg_dma_len (?f e)))) sg =
        map (\<lambda>e. map (\<lambda>(p, off). path_bus p + of_nat off) (map (\<lambda>j. (us_page e, us_offset e + j)) [0..<us_length e])) sg"
      by (intro map_cong refl) (simp add: len span_def path_bus_def comp_def algebra_simps)
    from arg_cong [OF this, of concat]
    have "concat (map (\<lambda>e. span (sg_dma_address (?f e)) (unat (sg_dma_len (?f e)))) sg) =
        map (\<lambda>(p, off). path_bus p + of_nat off) (sg_bytes sg)"
      unfolding sg_bytes_def map_concat map_map comp_def .
    then show ?thesis
      using that(1) len order_trans [OF len(2)]
      by (auto simp: dma_maps_def path_pages_def sample_pages_def table_bytes_def comp_def)
  qed
  then show ?thesis by (simp add: dma_map_keeps_def)
qed

lemma path_pinned:
  "pinned path_pages 0x1FFE 4 [Suc 0, 2]" "pinned path_pages 0x5FFE 4 [5, 6]"
  by (simp_all add: pinned_def path_pages_def sample_pages_def adjacent_duplicate_def upt_rec)

lemma path_addrs:
  "user_addrs path_bus [Suc 0, 2] 0x1FFE 4 = [0x1FFE, 0x1FFF, 0x2000, 0x2001]"
  "user_addrs path_bus [5, 6] 0x5FFE 4 = [0x5FFE, 0x5FFF, 0x6000, 0x6001]"
  by (simp_all add: user_addrs_def user_bytes_def path_bus_def upt_rec)

text \<open>
  C1 (functional). A write to a memory-mapped channel puts the user's bytes on the card: once it returns
  the count, the card holds, at each offset from the file position, the byte that was in the host's memory
  at that offset of the user's buffer, on whatever pages and with however many descriptors and passes
  through the ring; every other byte of the card and the host's memory are as before, and the pages are
  released.
\<close>
theorem write_reaches_card:
  fixes E :: "(memories, 'x) kenv_scheme"
  assumes "0 < count" and "count < 2 ^ 32" and "pinned M buf count ps" and "dma_map_keeps (desc_blen_max E) bus M"
    and "dma_ready True ch dev" and "check_transfer_align (eng (cdev_engine True ch dev)) buf (of_nat count) pos True = 0"
    and "0 \<le> chk" and "desc_blen_max E \<noteq> 0" and "\<forall>n. \<not> oom n"
  shows "\<exists>dev' m'. char_sgdma_write E M oom (interrupt_wait E) rid chk True ch buf count pos (dev, m) = Some (int count, dev', m') \<and>
    um_pins m' = um_pins m \<and>
    (\<forall>k < count. card_mem (world True ch dev') (pos + of_nat k) = host_mem (world True ch dev) (user_addrs bus ps buf count ! k)) \<and>
    (\<forall>a. a \<notin> set (span pos count) \<longrightarrow> card_mem (world True ch dev') a = card_mem (world True ch dev) a) \<and>
    host_mem (world True ch dev') = host_mem (world True ch dev)"
proof -
  obtain dev' m' where c: "char_sgdma_read_write E M oom (interrupt_wait E) rid chk True ch buf count pos True (dev, m) =
      Some (int count, dev', m')" "um_pins m' = um_pins m"
      "world True ch dev' = deliver True pos (user_addrs bus ps buf count) (world True ch dev)"
    using interrupts.call_delivers [OF assms(1-9)] by blast
  have "store (span pos count) vs mem (pos + of_nat k) = vs ! k" if "length vs = count" "k < count" for vs mem k
    using store_nth [of "span pos count" vs k mem] span_distinct [of count pos] that assms(2) by simp
  then show ?thesis
    using c by (simp add: char_sgdma_write_def deliver_def store_other)
qed

lemma write_reaches_card_witness:
  "\<exists>dev' m'. char_sgdma_write path_env path_pages (\<lambda>_. False) (interrupt_wait path_env) 7 0 True 0 0x1FFE 4 0x8FFE
      (path_dev, no_pins) = Some (4, dev', m') \<and> card_mem (world True 0 dev') 0x8FFF = 0xFF \<and>
     card_mem (world True 0 dev') 0x9001 = 1"
proof -
  have "\<exists>dev' m'. char_sgdma_write path_env path_pages (\<lambda>_. False) (interrupt_wait path_env) 7 0 True 0 0x1FFE 4 0x8FFE
      (path_dev, no_pins) = Some (int 4, dev', m') \<and> um_pins m' = um_pins no_pins \<and>
    (\<forall>k < 4. card_mem (world True 0 dev') (0x8FFE + of_nat k) =
       host_mem (world True 0 path_dev) (user_addrs path_bus [Suc 0, 2] 0x1FFE 4 ! k)) \<and>
    (\<forall>a. a \<notin> set (span 0x8FFE 4) \<longrightarrow> card_mem (world True 0 dev') a = card_mem (world True 0 path_dev) a) \<and>
    host_mem (world True 0 dev') = host_mem (world True 0 path_dev)"
    by (rule write_reaches_card) (simp_all add: path_setting path_pinned path_map)
  then obtain dev' m' where w: "char_sgdma_write path_env path_pages (\<lambda>_. False) (interrupt_wait path_env) 7 0 True 0 0x1FFE 4 0x8FFE
      (path_dev, no_pins) = Some (int 4, dev', m')"
    "\<And>k. k < 4 \<Longrightarrow> card_mem (world True 0 dev') (0x8FFE + of_nat k) = ucast (user_addrs path_bus [Suc 0, 2] 0x1FFE 4 ! k)"
    by (auto simp: path_setting)
  have "card_mem (world True 0 dev') 0x8FFF = 0xFF" "card_mem (world True 0 dev') 0x9001 = 1"
    using w(2) [of 1] w(2) [of 3] by (simp_all add: path_addrs)
  with w(1) show ?thesis by auto
qed

text \<open>
  C2 (functional). A read of a memory-mapped channel brings the card's bytes to the user: when the bytes
  of the buffer are at distinct addresses, each of them holds, after the read has returned the count, the
  byte the card has at that offset from the file position; nothing else in the host's memory changes, nor
  does the card.
\<close>
theorem read_reaches_user:
  fixes E :: "(memories, 'x) kenv_scheme"
  assumes "0 < count" and "count < 2 ^ 32" and "pinned M buf count ps" and "dma_map_keeps (desc_blen_max E) bus M"
    and "dma_ready False ch dev" and "check_transfer_align (eng (cdev_engine False ch dev)) buf (of_nat count) pos True = 0"
    and "0 \<le> chk" and "desc_blen_max E \<noteq> 0" and "\<forall>n. \<not> oom n" and "distinct (user_addrs bus ps buf count)"
  shows "\<exists>dev' m'. char_sgdma_read_write E M oom (interrupt_wait E) rid chk False ch buf count pos False (dev, m) =
      Some (int count, dev', m') \<and> um_pins m' = um_pins m \<and>
    (\<forall>k < count. host_mem (world False ch dev') (user_addrs bus ps buf count ! k) = card_mem (world False ch dev) (pos + of_nat k)) \<and>
    (\<forall>a. a \<notin> set (user_addrs bus ps buf count) \<longrightarrow> host_mem (world False ch dev') a = host_mem (world False ch dev) a) \<and>
    card_mem (world False ch dev') = card_mem (world False ch dev)"
proof -
  obtain dev' m' where c: "char_sgdma_read_write E M oom (interrupt_wait E) rid chk False ch buf count pos False (dev, m) =
      Some (int count, dev', m')" "um_pins m' = um_pins m"
      "world False ch dev' = deliver False pos (user_addrs bus ps buf count) (world False ch dev)"
    using interrupts.call_delivers [OF assms(1-9)] by blast
  have "store (user_addrs bus ps buf count) vs mem (user_addrs bus ps buf count ! k) = vs ! k"
    if "length vs = count" "k < count" for vs mem k
    using store_nth [OF assms(10), of vs k mem] that by simp
  then show ?thesis
    using c by (simp add: deliver_def store_other)
qed

lemma read_reaches_user_witness:
  "\<exists>dev' m'. char_sgdma_read_write path_env path_pages (\<lambda>_. False) (interrupt_wait path_env) 7 0 False 0 0x5FFE 4 0x8FFE False
      (path_dev, no_pins) = Some (4, dev', m') \<and> host_mem (world False 0 dev') 0x6001 = 0"
proof -
  have "\<exists>dev' m'. char_sgdma_read_write path_env path_pages (\<lambda>_. False) (interrupt_wait path_env) 7 0 False 0 0x5FFE 4 0x8FFE False
      (path_dev, no_pins) = Some (int 4, dev', m') \<and> um_pins m' = um_pins no_pins \<and>
    (\<forall>k < 4. host_mem (world False 0 dev') (user_addrs path_bus [5, 6] 0x5FFE 4 ! k) =
       card_mem (world False 0 path_dev) (0x8FFE + of_nat k)) \<and>
    (\<forall>a. a \<notin> set (user_addrs path_bus [5, 6] 0x5FFE 4) \<longrightarrow> host_mem (world False 0 dev') a = host_mem (world False 0 path_dev) a) \<and>
    card_mem (world False 0 dev') = card_mem (world False 0 path_dev)"
    by (rule read_reaches_user) (simp_all add: path_setting path_pinned path_map, simp add: path_addrs)
  then obtain dev' m' where w: "char_sgdma_read_write path_env path_pages (\<lambda>_. False) (interrupt_wait path_env) 7 0 False 0 0x5FFE 4 0x8FFE False
      (path_dev, no_pins) = Some (int 4, dev', m')"
    "\<And>k. k < 4 \<Longrightarrow> host_mem (world False 0 dev') (user_addrs path_bus [5, 6] 0x5FFE 4 ! k) = 0"
    by (auto simp: path_setting)
  have "host_mem (world False 0 dev') 0x6001 = 0" using w(2) [of 3] by (simp add: path_addrs)
  with w(1) show ?thesis by auto
qed

text \<open>The memories are one: an engine finds them as the engine before it has left them.\<close>

definition with_world :: "bool \<Rightarrow> nat \<Rightarrow> memories \<Rightarrow> memories xdma_dev_io \<Rightarrow> memories xdma_dev_io" where
  "with_world write ch w dev = put_engine write ch ((cdev_engine write ch dev)\<lparr>client := w\<rparr>) dev"

lemma ready_with_world:
  assumes "dma_ready write ch dev"
  shows "dma_ready write ch (with_world write ch w dev)"
proof -
  have "e_dir (eng (cdev_engine write ch dev)) = dir_of write"
    using assms by (auto simp: dma_ready_def select_engine_def Let_def split: if_splits)
  then show ?thesis
    using assms unfolding with_world_def by (intro ready_put_engine) (simp_all add: dma_ready_def quiet_def)
qed

lemma ready_other:
  "dma_ready False ch' (put_engine True ch st' dev) = dma_ready False ch' dev"
  "cdev_engine False ch' (put_engine True ch st' dev) = cdev_engine False ch' dev"
  by (simp_all add: dma_ready_def select_engine_def cdev_engine_def put_engine_def)

text \<open>
  C3 (roundtrip). What is written comes back: after a write of a buffer at a file position, a read of as
  many bytes at that position through a receiving channel fills another buffer with the bytes of the first,
  byte for byte.
\<close>
theorem write_read_roundtrip:
  fixes E :: "(memories, 'x) kenv_scheme"
  assumes "0 < count" and "count < 2 ^ 32" and "dma_map_keeps (desc_blen_max E) bus M" and "desc_blen_max E \<noteq> 0"
    and "\<forall>n. \<not> oom n" and "0 \<le> chk" and "pinned M buf count ps" and "pinned M buf' count ps'"
    and "dma_ready True ch dev" and "dma_ready False ch' dev" and "distinct (user_addrs bus ps' buf' count)"
    and "check_transfer_align (eng (cdev_engine True ch dev)) buf (of_nat count) pos True = 0"
    and "check_transfer_align (eng (cdev_engine False ch' dev)) buf' (of_nat count) pos True = 0"
  shows "\<exists>dev1 m1 dev2 m2.
    char_sgdma_write E M oom (interrupt_wait E) rid chk True ch buf count pos (dev, m) = Some (int count, dev1, m1) \<and>
    char_sgdma_read_write E M oom (interrupt_wait E) rid chk False ch' buf' count pos False
      (with_world False ch' (world True ch dev1) dev1, m1) = Some (int count, dev2, m2) \<and> um_pins m2 = um_pins m \<and>
    (\<forall>k < count. host_mem (world False ch' dev2) (user_addrs bus ps' buf' count ! k) =
       host_mem (world True ch dev) (user_addrs bus ps buf count ! k))"
proof -
  obtain st1 dev1 m1 where c: "char_sgdma_read_write E M oom (interrupt_wait E) rid chk True ch buf count pos True (dev, m) =
      Some (int count, dev1, m1)" "dev1 = put_engine True ch st1 dev" "um_pins m1 = um_pins m"
      "world True ch dev1 = deliver True pos (user_addrs bus ps buf count) (world True ch dev)"
    using interrupts.call_delivers [OF assms(1,2,7,3,9,12,6,4,5)] by blast
  let ?w = "world True ch dev1" and ?dev = "with_world False ch' (world True ch dev1) dev1"
  have r: "dma_ready False ch' ?dev" using assms(10) by (intro ready_with_world) (simp add: c(2) ready_other)
  have al: "check_transfer_align (eng (cdev_engine False ch' ?dev)) buf' (of_nat count) pos True = 0"
    using assms(13) by (simp add: with_world_def c(2) ready_other)
  obtain dev2 m2 where d: "char_sgdma_read_write E M oom (interrupt_wait E) rid chk False ch' buf' count pos False (?dev, m1) =
      Some (int count, dev2, m2)" "um_pins m2 = um_pins m1"
      "world False ch' dev2 = deliver False pos (user_addrs bus ps' buf' count) (world False ch' ?dev)"
    using interrupts.call_delivers [OF assms(1,2,8,3) r al assms(6,4,5)] by blast
  have w: "world False ch' ?dev = ?w" by (simp add: world_def with_world_def)
  let ?w2 = "world False ch' dev2"
  have "host_mem ?w2 (user_addrs bus ps' buf' count ! k) = host_mem (world True ch dev) (user_addrs bus ps buf count ! k)"
    if k: "k < count" for k
  proof -
    have "host_mem ?w2 (user_addrs bus ps' buf' count ! k) = card_mem ?w (pos + of_nat k)"
      using store_nth [OF assms(11), of "map (card_mem ?w) (span pos count)" k] k
      by (simp add: d(3) w deliver_def)
    also have "\<dots> = host_mem (world True ch dev) (user_addrs bus ps buf count ! k)"
      using store_nth [of "span pos count" "map (host_mem (world True ch dev)) (user_addrs bus ps buf count)" k]
        span_distinct [of count pos] k assms(2) by (simp add: c(4) deliver_def)
    finally show ?thesis .
  qed
  then show ?thesis using c(1,3) d(1,2) by (auto simp: char_sgdma_write_def)
qed

lemma write_read_roundtrip_witness:
  "\<exists>dev1 m1 dev2 m2.
    char_sgdma_write path_env path_pages (\<lambda>_. False) (interrupt_wait path_env) 7 0 True 0 0x1FFE 4 0x8FFE (path_dev, no_pins) =
      Some (4, dev1, m1) \<and>
    char_sgdma_read_write path_env path_pages (\<lambda>_. False) (interrupt_wait path_env) 7 0 False 0 0x5FFE 4 0x8FFE False
      (with_world False 0 (world True 0 dev1) dev1, m1) = Some (4, dev2, m2) \<and> host_mem (world False 0 dev2) 0x6001 = 1"
proof -
  have "\<exists>dev1 m1 dev2 m2.
    char_sgdma_write path_env path_pages (\<lambda>_. False) (interrupt_wait path_env) 7 0 True 0 0x1FFE 4 0x8FFE (path_dev, no_pins) =
      Some (int 4, dev1, m1) \<and>
    char_sgdma_read_write path_env path_pages (\<lambda>_. False) (interrupt_wait path_env) 7 0 False 0 0x5FFE 4 0x8FFE False
      (with_world False 0 (world True 0 dev1) dev1, m1) = Some (int 4, dev2, m2) \<and> um_pins m2 = um_pins no_pins \<and>
    (\<forall>k < 4. host_mem (world False 0 dev2) (user_addrs path_bus [5, 6] 0x5FFE 4 ! k) =
       host_mem (world True 0 path_dev) (user_addrs path_bus [Suc 0, 2] 0x1FFE 4 ! k))"
    by (rule write_read_roundtrip) (simp_all add: path_setting path_pinned path_map, simp add: path_addrs)
  then obtain dev1 m1 dev2 m2 where w: "char_sgdma_write path_env path_pages (\<lambda>_. False) (interrupt_wait path_env) 7 0 True 0 0x1FFE 4 0x8FFE
      (path_dev, no_pins) = Some (int 4, dev1, m1)"
    "char_sgdma_read_write path_env path_pages (\<lambda>_. False) (interrupt_wait path_env) 7 0 False 0 0x5FFE 4 0x8FFE False
      (with_world False 0 (world True 0 dev1) dev1, m1) = Some (int 4, dev2, m2)"
    "\<And>k. k < 4 \<Longrightarrow> host_mem (world False 0 dev2) (user_addrs path_bus [5, 6] 0x5FFE 4 ! k) =
       ucast (user_addrs path_bus [Suc 0, 2] 0x1FFE 4 ! k)"
    by (auto simp: path_setting)
  have "host_mem (world False 0 dev2) 0x6001 = 1" using w(3) [of 3] by (simp add: path_addrs)
  with w(1,2) show ?thesis by auto
qed

end
