(* ===== verification/Tool_Dma.thy ===== *)
theory Tool_Dma
  imports Xdma_Request
begin

text \<open>
  The command line tools that move data (\<^verbatim>\<open>tools/dma_utils.c\<close>,
  \<^verbatim>\<open>tools/dma_to_device.c\<close>, \<^verbatim>\<open>tools/dma_from_device.c\<close>,
  \<^verbatim>\<open>dbuf_capture.c\<close>). What an open file answers to seek, read, write and ioctl is a record of
  parameters over the file's state; printing and the parsing of arguments have no counterpart. Sizes and
  offsets are natural numbers: the sums of the code fit into 64 bits for every file the calls accept.
\<close>

section \<open>Files\<close>

text \<open>A read gives its result and the bytes it put at the start of the buffer.\<close>

record 'f file_ops =
  fo_lseek :: "nat \<Rightarrow> 'f \<Rightarrow> int \<times> 'f"
  fo_read :: "nat \<Rightarrow> 'f \<Rightarrow> int \<times> u8 list \<times> 'f"
  fo_write :: "u8 list \<Rightarrow> 'f \<Rightarrow> int \<times> 'f"

abbreviation (input) RW_MAX_SIZE :: nat where "RW_MAX_SIZE \<equiv> 0x7ffff000"

text \<open>The seek before a piece of the transfer, which is left out at offset 0.\<close>

definition seek_to :: "('f, 'y) file_ops_scheme \<Rightarrow> nat \<Rightarrow> 'f \<Rightarrow> bool \<times> 'f" where
  "seek_to F offset f = (if offset \<noteq> 0 then (let (rc, f) = fo_lseek F offset f in (rc = int offset, f)) else (True, f))"

text \<open>
  The loops, \<open>count\<close> bytes of \<open>sz\<close> done; the place in the buffer is \<open>count\<close> as well, since a piece that is
  not complete ends the loop.
\<close>

function read_pieces ::
  "('f, 'y) file_ops_scheme \<Rightarrow> nat \<Rightarrow> nat \<Rightarrow> nat \<Rightarrow> u8 list \<Rightarrow> 'f \<Rightarrow> int \<times> u8 list \<times> 'f" where
  "read_pieces F sz offset count buffer f =
     (if \<not> count < sz then (int count, buffer, f)
      else (let bytes = min (sz - count) RW_MAX_SIZE;
                (sought, f) = seek_to F offset f
            in if \<not> sought then (- EIO, buffer, f)
               else (let (rc, data, f) = fo_read F bytes f;
                         buffer = write_from count data buffer
                     in if rc < 0 then (- EIO, buffer, f)
                        else if rc \<noteq> int bytes then (int count + rc, buffer, f)
                        else read_pieces F sz (offset + bytes) (count + bytes) buffer f)))"
  by pat_completeness auto
termination by (relation "measure (\<lambda>(F, sz, offset, count, buffer, f). sz - count)") auto

function write_pieces ::
  "('f, 'y) file_ops_scheme \<Rightarrow> nat \<Rightarrow> nat \<Rightarrow> nat \<Rightarrow> u8 list \<Rightarrow> 'f \<Rightarrow> int \<times> 'f" where
  "write_pieces F sz offset count buffer f =
     (if \<not> count < sz then (int count, f)
      else (let bytes = min (sz - count) RW_MAX_SIZE;
                (sought, f) = seek_to F offset f
            in if \<not> sought then (- EIO, f)
               else (let (rc, f) = fo_write F (take bytes (drop count buffer)) f
                     in if rc < 0 then (- EIO, f)
                        else if rc \<noteq> int bytes then (int count + rc, f)
                        else write_pieces F sz (offset + bytes) (count + bytes) buffer f)))"
  by pat_completeness auto
termination by (relation "measure (\<lambda>(F, sz, offset, count, buffer, f). sz - count)") auto

declare read_pieces.simps [simp del] write_pieces.simps [simp del]

definition read_to_buffer ::
  "('f, 'y) file_ops_scheme \<Rightarrow> u8 list \<Rightarrow> nat \<Rightarrow> nat \<Rightarrow> 'f \<Rightarrow> int \<times> u8 list \<times> 'f" where
  "read_to_buffer F buffer sz base f = read_pieces F sz base 0 buffer f"

definition write_from_buffer ::
  "('f, 'y) file_ops_scheme \<Rightarrow> u8 list \<Rightarrow> nat \<Rightarrow> nat \<Rightarrow> 'f \<Rightarrow> int \<times> 'f" where
  "write_from_buffer F buffer sz base f = write_pieces F sz base 0 buffer f"

section \<open>Time\<close>

record timespec =
  tv_sec :: int
  tv_nsec :: int

definition timespec_check :: "timespec \<Rightarrow> int" where
  "timespec_check t = (if tv_nsec t < 0 \<or> tv_nsec t \<ge> 1000000000 then - 1 else 0)"

text \<open>The first time after the call.\<close>

definition timespec_sub :: "timespec \<Rightarrow> timespec \<Rightarrow> timespec" where
  "timespec_sub t1 t2 =
     (if timespec_check t1 < 0 then t1
      else if timespec_check t2 < 0 then t1
      else (let t = \<lparr>tv_sec = tv_sec t1 - tv_sec t2, tv_nsec = tv_nsec t1 - tv_nsec t2\<rparr>
            in if tv_nsec t \<ge> 1000000000 then \<lparr>tv_sec = tv_sec t + 1, tv_nsec = tv_nsec t - 1000000000\<rparr>
               else if tv_nsec t < 0 then \<lparr>tv_sec = tv_sec t - 1, tv_nsec = tv_nsec t + 1000000000\<rparr>
               else t))"

section \<open>The two tools\<close>

text \<open>
  A device answers the aperture ioctls as well: the result, the error and the bytes done of the structure,
  and the buffer after it. The structure's aperture has 32 bits. \<open>True\<close> writes to the device.
\<close>

record 'f device_ops = "'f file_ops" +
  do_aperture :: "bool \<Rightarrow> u8 list \<Rightarrow> nat \<Rightarrow> nat \<Rightarrow> nat \<Rightarrow> 'f \<Rightarrow> int \<times> int \<times> nat \<times> u8 list \<times> 'f"

text \<open>
  The arguments, and what the run finds: whether the files can be opened and the buffer allocated (with
  the bytes the allocation holds), the clock before and after each round, and what the result variable holds
  before anything sets it.
\<close>

record dma_args =
  ta_addr :: nat
  ta_aperture :: nat
  ta_size :: nat
  ta_count :: nat
  ta_eop_flush :: bool
  ta_opens :: bool
  ta_in_opens :: bool
  ta_out_opens :: bool
  ta_alloc :: "u8 list option"
  ta_clock :: "nat \<Rightarrow> timespec \<times> timespec"
  ta_rc :: int

record ('d, 'o) dma_state =
  ts_dev :: 'd
  ts_out :: 'o
  ts_buffer :: "u8 list"
  ts_out_offset :: nat
  ts_underflow :: bool
  ts_total_time :: int

text \<open>The end of a round: the underflow, the time, and the output file, if any.\<close>

definition end_round ::
  "'o file_ops option \<Rightarrow> dma_args \<Rightarrow> nat \<Rightarrow> nat \<Rightarrow> ('d, 'o) dma_state \<Rightarrow> int option \<times> ('d, 'o) dma_state" where
  "end_round out A i bytes_done s =
     (let s = (if bytes_done < ta_size A then s\<lparr>ts_underflow := True\<rparr> else s);
          t = timespec_sub (snd (ta_clock A i)) (fst (ta_clock A i));
          s = s\<lparr>ts_total_time := ts_total_time s + tv_sec t * 1000000000 + tv_nsec t\<rparr>
      in case out of
           None \<Rightarrow> (None, s)
         | Some W \<Rightarrow>
             (let (rc, f) = write_from_buffer W (ts_buffer s) bytes_done (ts_out_offset s) (ts_out s);
                  s = s\<lparr>ts_out := f\<rparr>
              in if rc < 0 \<or> rc < int bytes_done then (Some rc, s)
                 else (None, s\<lparr>ts_out_offset := ts_out_offset s + bytes_done\<rparr>)))"

text \<open>The rounds from number \<open>i\<close> on, \<open>n\<close> of them left: the code of a round that ends the run.\<close>

fun to_rounds ::
  "'d device_ops \<Rightarrow> 'o file_ops option \<Rightarrow> dma_args \<Rightarrow> nat \<Rightarrow> nat \<Rightarrow> ('d, 'o) dma_state \<Rightarrow>
     int option \<times> ('d, 'o) dma_state" where
  "to_rounds D out A 0 i s = (None, s)"
| "to_rounds D out A (Suc n) i s =
     (let (goto, bytes_done, s) =
        (if ta_aperture A \<noteq> 0 then
           (let (rc, err, dn, buf, d) = do_aperture D True (ts_buffer s) (ta_size A) (ta_addr A) (ta_aperture A mod 2 ^ 32) (ts_dev s)
            in (if rc < 0 \<or> err \<noteq> 0 then Some rc else None, dn, s\<lparr>ts_dev := d, ts_buffer := buf\<rparr>))
         else (let (rc, d) = write_from_buffer D (ts_buffer s) (ta_size A) (ta_addr A) (ts_dev s)
               in (if rc < 0 then Some rc else None, nat rc, s\<lparr>ts_dev := d\<rparr>)))
      in if goto \<noteq> None then (goto, s)
         else (let (goto, s) = end_round out A i bytes_done s
               in if goto \<noteq> None then (goto, s) else to_rounds D out A n (Suc i) s))"

fun from_rounds ::
  "'d device_ops \<Rightarrow> 'o file_ops option \<Rightarrow> dma_args \<Rightarrow> nat \<Rightarrow> nat \<Rightarrow> ('d, 'o) dma_state \<Rightarrow>
     int option \<times> ('d, 'o) dma_state" where
  "from_rounds D out A 0 i s = (None, s)"
| "from_rounds D out A (Suc n) i s =
     (let (goto, bytes_done, s) =
        (if ta_aperture A \<noteq> 0 then
           (let (rc, err, dn, buf, d) = do_aperture D False (ts_buffer s) (ta_size A) (ta_addr A) (ta_aperture A mod 2 ^ 32) (ts_dev s)
            in (if rc < 0 \<or> err \<noteq> 0 then Some rc else None, dn, s\<lparr>ts_dev := d, ts_buffer := buf\<rparr>))
         else (let (rc, buf, d) = read_to_buffer D (ts_buffer s) (ta_size A) (ta_addr A) (ts_dev s)
               in (if rc < 0 then Some rc else None, nat rc, s\<lparr>ts_dev := d, ts_buffer := buf\<rparr>)))
      in if goto \<noteq> None then (goto, s)
         else (let (goto, s) = end_round out A i bytes_done s
               in if goto \<noteq> None then (goto, s) else from_rounds D out A n (Suc i) s))"

text \<open>
  \<^verbatim>\<open>test_dma\<close> of \<^verbatim>\<open>dma_to_device.c\<close>; the input file is read once, a run that stops early without an
  error counts as one without underflow. Without an input file and without rounds nothing sets the result.
\<close>

definition dma_to_device ::
  "'d device_ops \<Rightarrow> ('i file_ops \<times> 'i) option \<Rightarrow> 'o file_ops option \<Rightarrow> dma_args \<Rightarrow> 'd \<Rightarrow> 'o \<Rightarrow> int \<times> 'd \<times> 'o" where
  "dma_to_device D inp out A d w =
     (if \<not> ta_opens A then (- EINVAL, d, w)
      else if inp \<noteq> None \<and> \<not> ta_in_opens A then (- EINVAL, d, w)
      else if out \<noteq> None \<and> \<not> ta_out_opens A then (- EINVAL, d, w)
      else (case ta_alloc A of
         None \<Rightarrow> (- ENOMEM, d, w)
       | Some buffer \<Rightarrow>
          (let (rc, buffer) = (case inp of None \<Rightarrow> (int (ta_size A), buffer)
                 | Some (I, f) \<Rightarrow> (let (rc, buffer, _) = read_to_buffer I buffer (ta_size A) 0 f in (rc, buffer)))
           in if rc < 0 then (rc, d, w)
              else if rc < int (ta_size A) then (0, d, w)
              else (let (goto, s) = to_rounds D out A (ta_count A) 0
                          \<lparr>ts_dev = d, ts_out = w, ts_buffer = buffer, ts_out_offset = 0, ts_underflow = False, ts_total_time = 0\<rparr>
                    in (case goto of Some rc \<Rightarrow> if rc < 0 then rc else if ts_underflow s then - EIO else 0
                          | None \<Rightarrow> if inp = None \<and> ta_count A = 0 \<and> ta_rc A < 0 then ta_rc A
                                    else if ts_underflow s then - EIO else 0, ts_dev s, ts_out s)))))"

definition dma_from_device ::
  "'d device_ops \<Rightarrow> 'o file_ops option \<Rightarrow> dma_args \<Rightarrow> 'd \<Rightarrow> 'o \<Rightarrow> int \<times> 'd \<times> 'o" where
  "dma_from_device D out A d w =
     (if \<not> ta_opens A then (- EINVAL, d, w)
      else if out \<noteq> None \<and> \<not> ta_out_opens A then (- EINVAL, d, w)
      else (case ta_alloc A of
         None \<Rightarrow> (- ENOMEM, d, w)
       | Some buffer \<Rightarrow>
          (let (goto, s) = from_rounds D out A (ta_count A) 0
                 \<lparr>ts_dev = d, ts_out = w, ts_buffer = buffer, ts_out_offset = 0, ts_underflow = False, ts_total_time = 0\<rparr>
           in (case goto of Some rc \<Rightarrow> rc
                 | None \<Rightarrow> if \<not> ts_underflow s then 0 else if ta_eop_flush A then 0 else - EIO, ts_dev s, ts_out s))))"

section \<open>Capturing with the double buffer\<close>

text \<open>The loop of the capture, \<open>n\<close> reads left: the bytes of the complete blocks so far.\<close>

fun capture_loop :: "('f \<Rightarrow> int \<times> u8 list \<times> 'f) \<Rightarrow> int \<Rightarrow> nat \<Rightarrow> u8 list \<Rightarrow> 'f \<Rightarrow> u8 list \<times> 'f" where
  "capture_loop rd sz 0 got f = (got, f)"
| "capture_loop rd sz (Suc n) got f =
     (let (r, data, f) = rd f
      in if r \<noteq> sz then (got, f) else capture_loop rd sz n (got @ data) f)"

end
