(* ===== verification/Tool_Dma_Spec.thy ===== *)
theory Tool_Dma_Spec
  imports Tool_Dma
begin

text \<open>
  The tools move exactly the bytes asked for: over files and devices that seek, read and write as documented, a
  run writes the input file to the device, and a second run reads it back.
\<close>

declare split_paired_All [simp del] split_paired_Ex [simp del]

section \<open>Files that can be addressed\<close>

text \<open>Bytes put at a place of a file that is at least that long.\<close>

definition put_bytes :: "nat \<Rightarrow> u8 list \<Rightarrow> u8 list \<Rightarrow> u8 list" where
  "put_bytes p d xs = take p xs @ d @ drop (p + length d) xs"

text \<open>
  What the tools rely on: a seek sets the place, a read inside the file gives its bytes from that place on
  and a write there that ends within \<open>room\<close> puts its bytes. Where the place is afterwards is left open, as
  a device does not move it.
\<close>

definition addressed ::
  "('f, 'y) file_ops_scheme \<Rightarrow> ('f \<Rightarrow> u8 list) \<Rightarrow> ('f \<Rightarrow> nat) \<Rightarrow> nat \<Rightarrow> bool" where
  "addressed F img pos room \<longleftrightarrow>
     (\<forall>p f. p \<le> room \<longrightarrow> (\<exists>f'. fo_lseek F p f = (int p, f') \<and> img f' = img f \<and> pos f' = p)) \<and>
     (\<forall>n f. pos f + n \<le> length (img f) \<longrightarrow>
       (\<exists>f'. fo_read F n f = (int n, take n (drop (pos f) (img f)), f') \<and> img f' = img f)) \<and>
     (\<forall>d f. pos f \<le> length (img f) \<longrightarrow> pos f + length d \<le> room \<longrightarrow>
       (\<exists>f'. fo_write F d f = (int (length d), f') \<and> img f' = put_bytes (pos f) d (img f)))"

lemma addressed_seek: "addressed F img pos room \<Longrightarrow> p \<le> room \<Longrightarrow>
    \<exists>f'. fo_lseek F p f = (int p, f') \<and> img f' = img f \<and> pos f' = p"
  by (simp add: addressed_def)

lemma addressed_read: "addressed F img pos room \<Longrightarrow> pos f + n \<le> length (img f) \<Longrightarrow>
    \<exists>f'. fo_read F n f = (int n, take n (drop (pos f) (img f)), f') \<and> img f' = img f"
  by (simp add: addressed_def)

lemma addressed_write: "addressed F img pos room \<Longrightarrow> pos f \<le> length (img f) \<Longrightarrow> pos f + length d \<le> room \<Longrightarrow>
    \<exists>f'. fo_write F d f = (int (length d), f') \<and> img f' = put_bytes (pos f) d (img f)"
  by (simp add: addressed_def)

lemma seek_addressed:
  assumes "addressed F img pos room" and "p \<noteq> 0 \<or> pos f = 0" and "p \<le> room"
  shows "\<exists>f'. seek_to F p f = (True, f') \<and> img f' = img f \<and> pos f' = p"
proof (cases "p = 0")
  case True
  then show ?thesis using assms(2) by (simp add: seek_to_def)
next
  case False
  obtain f' where "fo_lseek F p f = (int p, f')" "img f' = img f" "pos f' = p"
    using addressed_seek [OF assms(1,3)] by blast
  then show ?thesis using False by (simp add: seek_to_def)
qed

lemma write_from_take:
  "length d = n \<Longrightarrow> k + n \<le> length xs \<Longrightarrow> take (k + n) (write_from k d xs) = take k xs @ d \<and>
     drop (k + n) (write_from k d xs) = drop (k + n) xs"
  by (simp add: write_from_fits)

lemma read_pieces_addressed:
  assumes a: "addressed F img pos room"
  shows "count \<le> sz \<Longrightarrow> base + sz \<le> length (img f) \<Longrightarrow> base + sz \<le> room \<Longrightarrow> sz \<le> length buffer \<Longrightarrow>
    base + count \<noteq> 0 \<or> pos f = 0 \<Longrightarrow> take count buffer = take count (drop base (img f)) \<Longrightarrow>
    \<exists>f'. read_pieces F sz (base + count) count buffer f = (int sz, take sz (drop base (img f)) @ drop sz buffer, f')
      \<and> img f' = img f"
proof (induction "sz - count" arbitrary: count buffer f rule: less_induct)
  case less
  show ?case
  proof (cases "count < sz")
    case False
    then have c: "count = sz" using less.prems(1) by simp
    have "take sz (drop base (img f)) @ drop sz buffer = buffer"
      using less.prems(6) unfolding c by (metis append_take_drop_id)
    then show ?thesis by (subst read_pieces.simps) (simp add: c)
  next
    case True
    let ?n = "min (sz - count) RW_MAX_SIZE"
    obtain f1 where s: "seek_to F (base + count) f = (True, f1)" "img f1 = img f" "pos f1 = base + count"
      using seek_addressed [OF a less.prems(5)] less.prems(1,3) by auto
    have n: "0 < ?n" "count + ?n \<le> sz" using True by simp_all
    have "pos f1 + ?n \<le> length (img f1)" using s(2,3) n(2) less.prems(2) by simp
    then obtain f2 where r: "fo_read F ?n f1 = (int ?n, take ?n (drop (base + count) (img f)), f2)" "img f2 = img f"
      using addressed_read [OF a] s(2,3) by metis
    let ?d = "take ?n (drop (base + count) (img f))"
    let ?b = "write_from count ?d buffer"
    have d: "length ?d = ?n" using n(2) less.prems(2) by simp
    have cn: "count + ?n \<le> length buffer" using n(2) less.prems(4) by simp
    have "take (count + ?n) ?b = take count buffer @ ?d" using write_from_take [OF d cn] by blast
    also have "\<dots> = take (count + ?n) (drop base (img f))"
      using less.prems(6) by (simp add: take_add add.commute)
    finally have b: "take (count + ?n) ?b = take (count + ?n) (drop base (img f2))" using r(2) by simp
    have "\<exists>f'. read_pieces F sz (base + (count + ?n)) (count + ?n) ?b f2
        = (int sz, take sz (drop base (img f2)) @ drop sz ?b, f') \<and> img f' = img f2"
      by (rule less.hyps) (use n less.prems r(2) b True in auto)
    moreover have "drop sz ?b = drop sz buffer"
    proof -
      have "drop sz ?b = drop (sz - (count + ?n)) (drop (count + ?n) ?b)" using n(2) by simp
      also have "\<dots> = drop sz buffer" using write_from_take [OF d cn] n(2) by simp
      finally show ?thesis .
    qed
    ultimately show ?thesis
      using r(2) by (subst read_pieces.simps) (simp add: True s(1) r(1) Let_def add.assoc)
  qed
qed

lemma read_addressed:
  assumes "addressed F img pos room" and "base \<noteq> 0 \<or> pos f = 0" and "base + sz \<le> length (img f)"
    and "base + sz \<le> room" and "sz \<le> length buffer"
  shows "\<exists>f'. read_to_buffer F buffer sz base f = (int sz, take sz (drop base (img f)) @ drop sz buffer, f')
    \<and> img f' = img f"
  unfolding read_to_buffer_def
  using read_pieces_addressed [OF assms(1), of 0 sz base f buffer] assms(2-5) by simp

section \<open>Writing\<close>

lemma length_put_bytes: "p \<le> length xs \<Longrightarrow> length (put_bytes p d xs) = max (p + length d) (length xs)"
  by (simp add: put_bytes_def)

lemma put_bytes_twice: "p \<le> length xs \<Longrightarrow> put_bytes (p + length d) e (put_bytes p d xs) = put_bytes p (d @ e) xs"
  by (simp add: put_bytes_def ac_simps)

lemma put_bytes_again: "p \<le> length xs \<Longrightarrow> put_bytes p d (put_bytes p d xs) = put_bytes p d xs"
  by (simp add: put_bytes_def)

lemma put_bytes_get: "p \<le> length xs \<Longrightarrow> take (length d) (drop p (put_bytes p d xs)) = d"
  by (simp add: put_bytes_def)

lemma write_pieces_addressed:
  assumes a: "addressed F img pos room"
  shows "count \<le> sz \<Longrightarrow> base + count \<le> length (img f) \<Longrightarrow> base + sz \<le> room \<Longrightarrow> sz \<le> length buffer \<Longrightarrow>
    base + count \<noteq> 0 \<or> pos f = 0 \<Longrightarrow>
    \<exists>f'. write_pieces F sz (base + count) count buffer f = (int sz, f')
      \<and> img f' = put_bytes (base + count) (drop count (take sz buffer)) (img f)"
proof (induction "sz - count" arbitrary: count f rule: less_induct)
  case less
  show ?case
  proof (cases "count < sz")
    case False
    then have c: "count = sz" using less.prems(1) by simp
    show ?thesis by (subst write_pieces.simps) (simp add: c put_bytes_def)
  next
    case True
    let ?n = "min (sz - count) RW_MAX_SIZE"
    let ?d = "take ?n (drop count buffer)"
    obtain f1 where s: "seek_to F (base + count) f = (True, f1)" "img f1 = img f" "pos f1 = base + count"
      using seek_addressed [OF a less.prems(5)] less.prems(1,3) by auto
    have n: "0 < ?n" "count + ?n \<le> sz" using True by simp_all
    have d: "length ?d = ?n" using n(2) less.prems(4) by simp
    have "pos f1 \<le> length (img f1)" "pos f1 + length ?d \<le> room" using s(2,3) n(2) less.prems(2,3) d by simp_all
    then obtain f2 where r: "fo_write F ?d f1 = (int ?n, f2)" "img f2 = put_bytes (base + count) ?d (img f)"
      using addressed_write [OF a] s(2,3) d by metis
    have len: "base + (count + ?n) \<le> length (img f2)"
      using r(2) d less.prems(2) by (simp add: length_put_bytes add.assoc)
    have "\<exists>f'. write_pieces F sz (base + (count + ?n)) (count + ?n) buffer f2 = (int sz, f')
        \<and> img f' = put_bytes (base + (count + ?n)) (drop (count + ?n) (take sz buffer)) (img f2)"
      by (rule less.hyps) (use n less.prems(3,4) len True in auto)
    moreover have "put_bytes (base + (count + ?n)) (drop (count + ?n) (take sz buffer)) (img f2)
        = put_bytes (base + count) (?d @ drop (count + ?n) (take sz buffer)) (img f)"
      unfolding r(2) using put_bytes_twice [OF less.prems(2), of ?d] d by (simp add: add.assoc)
    moreover have "?d @ drop (count + ?n) (take sz buffer) = drop count (take sz buffer)"
    proof -
      have "?d = take ?n (drop count (take sz buffer))" using n(2) by (simp add: drop_take min_def)
      then show ?thesis by (metis add.commute append_take_drop_id drop_drop)
    qed
    ultimately show ?thesis
      by (subst write_pieces.simps) (simp add: True s(1) r(1) Let_def add.assoc)
  qed
qed

lemma write_addressed:
  assumes "addressed F img pos room" and "base \<noteq> 0 \<or> pos f = 0" and "base \<le> length (img f)"
    and "base + sz \<le> room" and "sz \<le> length buffer"
  shows "\<exists>f'. write_from_buffer F buffer sz base f = (int sz, f') \<and> img f' = put_bytes base (take sz buffer) (img f)"
  unfolding write_from_buffer_def
  using write_pieces_addressed [OF assms(1), of 0 sz base f buffer] assms(2-5) by simp

section \<open>The rounds\<close>

text \<open>Arguments of a run without the aperture that finds its files and its memory.\<close>

definition plain_run :: "dma_args \<Rightarrow> bool" where
  "plain_run A \<longleftrightarrow> ta_aperture A = 0 \<and> ta_opens A \<and> ta_in_opens A \<and> ta_out_opens A \<and>
     (\<exists>b. ta_alloc A = Some b \<and> ta_size A \<le> length b)"

lemma to_rounds_plain:
  assumes a: "addressed D img pos room" and ap: "ta_aperture A = 0" and fits: "ta_addr A + ta_size A \<le> room"
  shows "ta_addr A \<noteq> 0 \<or> n \<le> 1 \<and> pos (ts_dev s) = 0 \<Longrightarrow> ta_addr A \<le> length (img (ts_dev s)) \<Longrightarrow>
    ta_size A \<le> length (ts_buffer s) \<Longrightarrow>
    \<exists>s'. to_rounds D None A n i s = (None, s') \<and> ts_underflow s' = ts_underflow s \<and> ts_out s' = ts_out s \<and>
      (0 < n \<longrightarrow> img (ts_dev s') = put_bytes (ta_addr A) (take (ta_size A) (ts_buffer s)) (img (ts_dev s)))"
proof (induction n arbitrary: i s)
  case (Suc n)
  let ?b = "take (ta_size A) (ts_buffer s)"
  have "ta_addr A \<noteq> 0 \<or> pos (ts_dev s) = 0" using Suc.prems(1) by auto
  then obtain d where w: "write_from_buffer D (ts_buffer s) (ta_size A) (ta_addr A) (ts_dev s) = (int (ta_size A), d)"
    "img d = put_bytes (ta_addr A) ?b (img (ts_dev s))"
    using write_addressed [OF a _ Suc.prems(2) fits Suc.prems(3)] by blast
  obtain t where e: "end_round None A i (ta_size A) (s\<lparr>ts_dev := d\<rparr>) = (None, s\<lparr>ts_dev := d, ts_total_time := t\<rparr>)"
    by (simp add: end_round_def Let_def)
  let ?s = "s\<lparr>ts_dev := d, ts_total_time := t\<rparr>"
  show ?case
  proof (cases n)
    case 0
    then show ?thesis using w e by (simp add: ap Let_def)
  next
    case (Suc m)
    then have nz: "ta_addr A \<noteq> 0" using Suc.prems(1) by simp
    have "ta_addr A \<le> length (img (ts_dev ?s))" using w(2) Suc.prems(2) by (simp add: length_put_bytes)
    then obtain s' where "to_rounds D None A n (Suc i) ?s = (None, s')" "ts_underflow s' = ts_underflow s" "ts_out s' = ts_out s"
      "img (ts_dev s') = put_bytes (ta_addr A) ?b (img d)"
      using Suc.IH [of ?s "Suc i"] nz Suc.prems(3) \<open>n = Suc m\<close> by auto
    then show ?thesis using w e put_bytes_again [OF Suc.prems(2)] by (simp add: ap Let_def)
  qed
qed simp

lemma from_rounds_plain:
  assumes a: "addressed D img pos room" and w: "addressed W wimg wpos wroom" and ap: "ta_aperture A = 0"
    and fits: "ta_addr A + ta_size A \<le> room" and sz: "0 < ta_size A"
    and data: "data = take (ta_size A) (drop (ta_addr A) (img d0))"
  shows "ta_addr A \<noteq> 0 \<or> n \<le> 1 \<and> pos (ts_dev s) = 0 \<Longrightarrow> img (ts_dev s) = img d0 \<Longrightarrow>
    ta_addr A + ta_size A \<le> length (img d0) \<Longrightarrow> ta_size A \<le> length (ts_buffer s) \<Longrightarrow>
    ts_out_offset s = length (wimg (ts_out s)) \<Longrightarrow> ts_out_offset s \<noteq> 0 \<or> wpos (ts_out s) = 0 \<Longrightarrow>
    ts_out_offset s + n * ta_size A \<le> wroom \<Longrightarrow>
    \<exists>s'. from_rounds D (Some W) A n i s = (None, s') \<and> ts_underflow s' = ts_underflow s \<and>
      img (ts_dev s') = img d0 \<and> wimg (ts_out s') = wimg (ts_out s) @ concat (replicate n data)"
proof (induction n arbitrary: i s)
  case (Suc n)
  have "ta_addr A \<noteq> 0 \<or> pos (ts_dev s) = 0" using Suc.prems(1) by auto
  then obtain d where r: "read_to_buffer D (ts_buffer s) (ta_size A) (ta_addr A) (ts_dev s)
      = (int (ta_size A), data @ drop (ta_size A) (ts_buffer s), d)" "img d = img d0"
    using read_addressed [OF a _ _ fits Suc.prems(4), of "ts_dev s"] Suc.prems(2,3) data by auto
  let ?b = "data @ drop (ta_size A) (ts_buffer s)"
  have dl: "length data = ta_size A" using data Suc.prems(3) by simp
  have "ta_size A \<le> length ?b" "ts_out_offset s + ta_size A \<le> wroom" using dl Suc.prems(7) by simp_all
  then obtain f where o: "write_from_buffer W ?b (ta_size A) (ts_out_offset s) (ts_out s) = (int (ta_size A), f)"
    "wimg f = put_bytes (ts_out_offset s) (take (ta_size A) ?b) (wimg (ts_out s))"
    using write_addressed [OF w Suc.prems(6), of "ta_size A" ?b] Suc.prems(5) by auto
  have f: "wimg f = wimg (ts_out s) @ data"
    using o(2) Suc.prems(5) dl by (simp add: put_bytes_def)
  obtain t where e: "end_round (Some W) A i (ta_size A) (s\<lparr>ts_dev := d, ts_buffer := ?b\<rparr>) =
      (None, s\<lparr>ts_dev := d, ts_buffer := ?b, ts_total_time := t, ts_out := f, ts_out_offset := ts_out_offset s + ta_size A\<rparr>)"
    using o(1) by (simp add: end_round_def Let_def)
  let ?s = "s\<lparr>ts_dev := d, ts_buffer := ?b, ts_total_time := t, ts_out := f, ts_out_offset := ts_out_offset s + ta_size A\<rparr>"
  have "\<exists>s'. from_rounds D (Some W) A n (Suc i) ?s = (None, s') \<and> ts_underflow s' = ts_underflow ?s \<and>
      img (ts_dev s') = img d0 \<and> wimg (ts_out s') = wimg (ts_out ?s) @ concat (replicate n data)"
  proof (cases n)
    case 0
    then show ?thesis using r(2) by simp
  next
    case (Suc m)
    show ?thesis
      by (rule Suc.IH) (use Suc.prems r(2) f dl sz Suc in \<open>auto simp: algebra_simps\<close>)
  qed
  then show ?case using r(1) e f by (simp add: ap Let_def)
qed simp

section \<open>The tools\<close>

lemma to_device_writes:
  assumes "addressed D img pos room" and "addressed I iimg ipos iroom" and run: "plain_run A"
    and inp: "ipos f = 0" "length (iimg f) = ta_size A" "ta_size A \<le> iroom"
    and at: "ta_addr A \<noteq> 0 \<or> ta_count A = 1 \<and> pos d = 0" "0 < ta_count A"
    and fits: "ta_addr A \<le> length (img d)" "ta_addr A + ta_size A \<le> room"
  shows "\<exists>d'. dma_to_device D (Some (I, f)) None A d w = (0, d', w) \<and> img d' = put_bytes (ta_addr A) (iimg f) (img d)"
proof -
  obtain b where b: "ta_alloc A = Some b" "ta_size A \<le> length b" using run by (auto simp: plain_run_def)
  obtain f' where r: "read_to_buffer I b (ta_size A) 0 f = (int (ta_size A), iimg f @ drop (ta_size A) b, f')"
    using read_addressed [OF assms(2), of 0 f "ta_size A" b] inp b(2) by auto
  let ?s = "\<lparr>ts_dev = d, ts_out = w, ts_buffer = iimg f @ drop (ta_size A) b, ts_out_offset = 0, ts_underflow = False, ts_total_time = 0\<rparr>"
  obtain s' where s': "to_rounds D None A (ta_count A) 0 ?s = (None, s')" "\<not> ts_underflow s'" "ts_out s' = w"
    "img (ts_dev s') = put_bytes (ta_addr A) (iimg f) (img d)"
    using to_rounds_plain [OF assms(1) _ fits(2), of "ta_count A" ?s 0] run at fits(1) inp(2) by (auto simp: plain_run_def)
  show ?thesis
    using run b(1) r s' by (simp add: dma_to_device_def plain_run_def)
qed

lemma from_device_reads:
  assumes "addressed D img pos room" and "addressed W wimg wpos wroom" and run: "plain_run A"
    and out: "wpos w = 0" "wimg w = []" "ta_count A * ta_size A \<le> wroom"
    and at: "ta_addr A \<noteq> 0 \<or> ta_count A \<le> 1 \<and> pos d = 0" "0 < ta_size A"
    and fits: "ta_addr A + ta_size A \<le> length (img d)" "ta_addr A + ta_size A \<le> room"
  shows "\<exists>d' w'. dma_from_device D (Some W) A d w = (0, d', w') \<and> img d' = img d \<and>
    wimg w' = concat (replicate (ta_count A) (take (ta_size A) (drop (ta_addr A) (img d))))"
proof -
  obtain b where b: "ta_alloc A = Some b" "ta_size A \<le> length b" using run by (auto simp: plain_run_def)
  let ?s = "\<lparr>ts_dev = d, ts_out = w, ts_buffer = b, ts_out_offset = 0, ts_underflow = False, ts_total_time = 0\<rparr>"
  obtain s' where "from_rounds D (Some W) A (ta_count A) 0 ?s = (None, s')" "\<not> ts_underflow s'" "img (ts_dev s') = img d"
    "wimg (ts_out s') = concat (replicate (ta_count A) (take (ta_size A) (drop (ta_addr A) (img d))))"
    using from_rounds_plain [OF assms(1,2) _ fits(2) at(2) refl, of "ta_count A" ?s d 0] run at(1) fits(1) out b(2)
    by (auto simp: plain_run_def)
  then show ?thesis using run b(1) by (simp add: dma_from_device_def plain_run_def)
qed

text \<open>
  Over files and devices that seek, read and write as documented, writing an input file to the device and
  reading the same window back both end with 0, and the output file holds the input's bytes once for each
  round of the reading, in pieces of any size.
\<close>

theorem tools_roundtrip:
  assumes "addressed D img pos room" and "addressed I iimg ipos iroom" and "addressed W wimg wpos wroom"
    and "plain_run A" and "plain_run B" and "ta_addr B = ta_addr A" and "ta_size B = ta_size A"
    and "ipos f = 0" and "length (iimg f) = ta_size A" and "0 < ta_size A" and "ta_size A \<le> iroom"
    and "wpos w = 0" and "wimg w = []" and "ta_count B * ta_size A \<le> wroom"
    and "0 < ta_count A" and "ta_addr A \<noteq> 0 \<or> ta_count A = 1 \<and> ta_count B \<le> 1 \<and> pos d = 0"
    and "ta_addr A \<le> length (img d)" and "ta_addr A + ta_size A \<le> room"
    and "dma_to_device D (Some (I, f)) None A d w = (rc, d1, w1)"
    and "img d2 = img d1" and "pos d2 = 0"
    and "dma_from_device D (Some W) B d2 w = (rc', d3, w3)"
  shows "rc = 0 \<and> rc' = 0 \<and> wimg w3 = concat (replicate (ta_count B) (iimg f))"
proof -
  have to: "rc = 0" "img d1 = put_bytes (ta_addr A) (iimg f) (img d)"
    using to_device_writes [OF assms(1,2,4,8,9,11) _ assms(15,17,18), where w = w] assms(16,19) by auto
  have len: "ta_addr B + ta_size B \<le> length (img d2)"
    using to(2) assms(6,7,9,17,20) by (simp add: length_put_bytes)
  have "take (ta_size B) (drop (ta_addr B) (img d2)) = iimg f"
    using to(2) assms(6,7,9,20) put_bytes_get [OF assms(17), of "iimg f"] by simp
  then show ?thesis
    using from_device_reads [OF assms(1,3,5,12,13) _ _ _ len] to(1) assms(6,7,10,14,16,18,21,22) by auto
qed

text \<open>A memory behind a device, which does not move its place, and a regular file.\<close>

definition memory_ops :: "(u8 list \<times> nat) device_ops" where
  "memory_ops = \<lparr>fo_lseek = (\<lambda>p (m, _). (int p, (m, p))),
     fo_read = (\<lambda>n (m, p). (int (length (take n (drop p m))), take n (drop p m), (m, p))),
     fo_write = (\<lambda>d (m, p). (int (length d), (put_bytes p d m, p))),
     do_aperture = (\<lambda>_ buf _ _ _ f. (- ENOTTY, 0, 0, buf, f))\<rparr>"

definition regular_ops :: "(u8 list \<times> nat) file_ops" where
  "regular_ops = \<lparr>fo_lseek = (\<lambda>p (m, _). (int p, (m, p))),
     fo_read = (\<lambda>n (m, p). (int (length (take n (drop p m))), take n (drop p m), (m, p + length (take n (drop p m))))),
     fo_write = (\<lambda>d (m, p). (int (length d), (put_bytes p d m, p + length d)))\<rparr>"

lemma sample_addressed: "addressed memory_ops fst snd 64" "addressed regular_ops fst snd 64"
  by (auto simp: addressed_def memory_ops_def regular_ops_def)

definition tool_args :: "nat \<Rightarrow> nat \<Rightarrow> dma_args" where
  "tool_args n sz = \<lparr>ta_addr = 4, ta_aperture = 0, ta_size = sz, ta_count = n, ta_eop_flush = False, ta_opens = True,
     ta_in_opens = True, ta_out_opens = True, ta_alloc = Some (replicate 8 0),
     ta_clock = (\<lambda>_. (\<lparr>tv_sec = 1, tv_nsec = 900000000\<rparr>, \<lparr>tv_sec = 2, tv_nsec = 100000000\<rparr>)), ta_rc = 0\<rparr>"

lemma tools_roundtrip_witness:
  "\<exists>d1 w1 d3 w3. dma_to_device memory_ops (Some (regular_ops, ([1, 2, 3], 0))) None (tool_args 1 3) (replicate 16 9, 0) ([] :: u8 list, 0 :: nat)
      = (0, d1, w1) \<and>
    dma_from_device memory_ops (Some regular_ops) (tool_args 2 3) (fst d1, 0) ([], 0) = (0, d3, w3) \<and> fst w3 = [1, 2, 3, 1, 2, 3]"
proof -
  obtain rc d1 w1 where t: "dma_to_device memory_ops (Some (regular_ops, ([1, 2, 3], 0))) None (tool_args 1 3)
      (replicate 16 9, 0) ([] :: u8 list, 0 :: nat) = (rc, d1, w1)" by (cases rule: prod_cases3)
  obtain rc' d3 w3 where f: "dma_from_device memory_ops (Some regular_ops) (tool_args 2 3) (fst d1, 0) ([], 0 :: nat)
      = (rc', d3, w3)" by (cases rule: prod_cases3)
  have "plain_run (tool_args n 3)" for n by (simp add: plain_run_def tool_args_def)
  from tools_roundtrip [OF sample_addressed(1,2,2) this this _ _ _ _ _ _ _ _ _ _ _ _ _ t _ _ f]
  show ?thesis using t f by (simp add: tool_args_def numeral_2_eq_2)
qed

text \<open>
  When the input file is shorter than the size that was asked for, the tool that writes to the device
  transfers nothing and still ends with 0.
\<close>

theorem short_input_ignored:
  assumes "plain_run A" and "ta_alloc A = Some buffer"
    and "read_to_buffer I buffer (ta_size A) 0 f = (rc, buffer', f')" and "0 \<le> rc" and "rc < int (ta_size A)"
  shows "dma_to_device D (Some (I, f)) None A d w = (0, d, w)"
  using assms by (simp add: dma_to_device_def plain_run_def)

lemma short_input_ignored_witness:
  "dma_to_device memory_ops (Some (regular_ops, ([1, 2, 3], 0))) None (tool_args 1 8) (replicate 16 9, 0) ([], 0 :: nat)
    = (0, (replicate 16 9, 0), ([], 0))"
proof -
  obtain b f where "read_to_buffer regular_ops (replicate 8 0) 8 0 ([1, 2, 3], 0) = (3, b, f)"
    by (simp add: read_to_buffer_def read_pieces.simps seek_to_def regular_ops_def)
  then show ?thesis
    using short_input_ignored [of "tool_args 1 8" "replicate 8 0" regular_ops "([1, 2, 3], 0)" 3 b f]
    by (simp add: plain_run_def tool_args_def)
qed

section \<open>Time\<close>

definition nanoseconds :: "timespec \<Rightarrow> int" where
  "nanoseconds t = tv_sec t * 1000000000 + tv_nsec t"

text \<open>The difference of two valid times is exact and valid.\<close>

lemma timespec_sub_exact:
  "timespec_check t1 = 0 \<Longrightarrow> timespec_check t2 = 0 \<Longrightarrow>
     nanoseconds (timespec_sub t1 t2) = nanoseconds t1 - nanoseconds t2 \<and> timespec_check (timespec_sub t1 t2) = 0"
  by (auto simp: timespec_sub_def timespec_check_def nanoseconds_def Let_def split: if_splits)

section \<open>Capturing\<close>

text \<open>
  A device that gives the blocks of a stream, one a read, fills the capture with the blocks in order; a
  read that is not complete ends it with the blocks before.
\<close>

lemma capture_blocks:
  assumes "\<And>k. k < n \<Longrightarrow> rd (st k) = (sz, blk k, st (Suc k))"
  shows "capture_loop rd sz n got (st 0) = (got @ concat (map blk [0..<n]), st n)"
proof -
  have "m \<le> n \<Longrightarrow> capture_loop rd sz m got (st (n - m)) = (got @ concat (map blk [n - m..<n]), st n)" for m got
  proof (induction m arbitrary: got)
    case (Suc m)
    then have k: "n - Suc m < n" "Suc (n - Suc m) = n - m" by simp_all
    then have "[n - Suc m..<n] = (n - Suc m) # [n - m..<n]" by (metis upt_conv_Cons)
    then show ?case using Suc assms [OF k(1)] k(2) by simp
  qed simp
  from this [of n] show ?thesis by simp
qed

end
