(* ===== verification/Tool_Args.thy ===== *)
theory Tool_Args
  imports Xdma_Prelude
begin

text \<open>
  The arguments of the tools: the conversions of the C library the tools call (\<^verbatim>\<open>strtoul\<close>, \<^verbatim>\<open>sscanf\<close> of
  one number, \<^verbatim>\<open>atoi\<close>), the integers of \<^verbatim>\<open>tools/dma_utils.c\<close> and \<^verbatim>\<open>tools/performance.c\<close>, and
  that a number that is written out is read back.
\<close>

section \<open>Numbers in strings\<close>

definition code_of :: "char \<Rightarrow> nat" where
  "code_of c = of_char c"

definition is_space :: "char \<Rightarrow> bool" where
  "is_space c \<longleftrightarrow> code_of c = 32 \<or> (9 \<le> code_of c \<and> code_of c \<le> 13)"

text \<open>The value of a digit; 36 for what is none.\<close>

definition digit_val :: "char \<Rightarrow> nat" where
  "digit_val c =
     (let n = code_of c
      in if 48 \<le> n \<and> n \<le> 57 then n - 48 else if 97 \<le> n \<and> n \<le> 122 then n - 87
         else if 65 \<le> n \<and> n \<le> 90 then n - 55 else 36)"

definition number :: "nat \<Rightarrow> string \<Rightarrow> nat" where
  "number base ds = foldl (\<lambda>n c. base * n + digit_val c) 0 ds"

definition hex_prefix :: "string \<Rightarrow> bool" where
  "hex_prefix s \<longleftrightarrow> (case s of z # x # d # _ \<Rightarrow> z = CHR ''0'' \<and> (x = CHR ''x'' \<or> x = CHR ''X'') \<and> digit_val d < 16 | _ \<Rightarrow> False)"

definition sign_of :: "string \<Rightarrow> bool \<times> string" where
  "sign_of s = (case s of [] \<Rightarrow> (False, []) | c # cs \<Rightarrow> if c = CHR ''-'' then (True, cs) else if c = CHR ''+'' then (False, cs) else (False, s))"

text \<open>
  Sign and magnitude of the number at the start of a string: blanks, a sign, the prefix of base 16, and the
  digits up to the first character that is none. Base 0 takes the base from the prefix.
\<close>

definition scan_number :: "nat \<Rightarrow> string \<Rightarrow> (bool \<times> nat) option" where
  "scan_number base s =
     (let (neg, s) = sign_of (dropWhile is_space s);
          (base, s) = (if (base = 0 \<or> base = 16) \<and> hex_prefix s then (16, drop 2 s)
                       else if base = 0 then (if take 1 s = ''0'' then 8 else 10, s) else (base, s));
          ds = takeWhile (\<lambda>c. digit_val c < base) s
      in if ds = [] then None else Some (neg, number base ds))"

definition to_ulong :: "bool \<times> nat \<Rightarrow> u64" where
  "to_ulong m = (if snd m \<ge> 2 ^ 64 then - 1 else if fst m then - of_nat (snd m) else of_nat (snd m))"

definition strtoul :: "nat \<Rightarrow> string \<Rightarrow> u64" where
  "strtoul base s = (case scan_number base s of None \<Rightarrow> 0 | Some m \<Rightarrow> to_ulong m)"

text \<open>\<^verbatim>\<open>atoi\<close> is the \<^verbatim>\<open>int\<close> of \<^verbatim>\<open>strtol\<close>, which stops at the limits of a \<^verbatim>\<open>long\<close>.\<close>

definition strtol :: "nat \<Rightarrow> string \<Rightarrow> int" where
  "strtol base s =
     (case scan_number base s of
        None \<Rightarrow> 0
      | Some (neg, n) \<Rightarrow> if neg then max (- int n) (- (2 ^ 63)) else min (int n) (2 ^ 63 - 1))"

definition atoi :: "string \<Rightarrow> int" where
  "atoi s = sint (word_of_int (strtol 10 s) :: u32)"

section \<open>The integers of the options\<close>

text \<open>The two attempts of \<^verbatim>\<open>sscanf\<close>: after a literal \<^verbatim>\<open>0x\<close>, and decimal.\<close>

definition scan_hex :: "string \<Rightarrow> u64 option" where
  "scan_hex s = (if take 2 s = ''0x'' then map_option to_ulong (scan_number 16 (drop 2 s)) else None)"

definition scan_dec :: "string \<Rightarrow> u64 option" where
  "scan_dec s = map_option to_ulong (scan_number 10 s)"

text \<open>
  \<open>junk\<close> is what the variable holds: neither attempt stores anything where there is no number.
\<close>

definition getopt_integer :: "u64 \<Rightarrow> string \<Rightarrow> u64" where
  "getopt_integer junk s =
     (case scan_hex s of Some v \<Rightarrow> v | None \<Rightarrow> (case scan_dec s of Some v \<Rightarrow> v | None \<Rightarrow> junk))"

text \<open>That of \<^verbatim>\<open>performance.c\<close> stores an \<^verbatim>\<open>unsigned int\<close>.\<close>

definition perf_getopt_integer :: "u32 \<Rightarrow> string \<Rightarrow> u32" where
  "perf_getopt_integer junk s =
     (case scan_hex s of Some v \<Rightarrow> ucast v | None \<Rightarrow> (case scan_dec s of Some v \<Rightarrow> ucast v | None \<Rightarrow> junk))"

section \<open>A number that is written is read back\<close>

text \<open>The digits of a number, as \<^verbatim>\<open>printf\<close> writes them.\<close>

definition digit :: "nat \<Rightarrow> char" where
  "digit d = char_of (if d < 10 then 48 + d else 87 + d)"

function show_nat :: "nat \<Rightarrow> nat \<Rightarrow> string" where
  "show_nat base n = (if base < 2 \<or> n < base then [digit n] else show_nat base (n div base) @ [digit (n mod base)])"
  by pat_completeness auto
termination by (relation "measure snd") auto

declare show_nat.simps [simp del]

lemma digit_val_digit: "d < 16 \<Longrightarrow> digit_val (digit d) = d"
  by (simp add: digit_val_def digit_def code_of_def Let_def)

lemma digit_no_sign: "d < 16 \<Longrightarrow> \<not> is_space (digit d) \<and> digit d \<noteq> CHR ''-'' \<and> digit d \<noteq> CHR ''+'' \<and> digit d \<noteq> CHR ''x'' \<and> digit d \<noteq> CHR ''X''"
proof -
  assume d: "d < 16"
  then have c: "code_of (digit d) = (if d < 10 then 48 + d else 87 + d)" by (simp add: digit_def code_of_def)
  have "code_of (CHR ''-'') = 45" "code_of (CHR ''+'') = 43" "code_of (CHR ''x'') = 120" "code_of (CHR ''X'') = 88"
    by (simp_all add: code_of_def)
  then show ?thesis using d c by (auto simp: is_space_def split: if_splits)
qed

lemma number_snoc: "number base (ds @ [c]) = base * number base ds + digit_val c"
  by (simp add: number_def)

lemma show_nat_digits:
  assumes "2 \<le> base" and "base \<le> 16"
  shows "number base (show_nat base n) = n \<and> show_nat base n \<noteq> [] \<and>
    (\<forall>c \<in> set (show_nat base n). \<exists>d < base. c = digit d)"
proof (induction n rule: less_induct)
  case (less n)
  show ?case
  proof (cases "n < base")
    case True
    then show ?thesis using assms by (auto simp: show_nat.simps [of base n] number_def digit_val_digit)
  next
    case False
    have "n div base < n" using False assms by simp
    note IH = less [OF this]
    have m: "n mod base < base" using assms by simp
    have "show_nat base n = show_nat base (n div base) @ [digit (n mod base)]"
      using False assms by (simp add: show_nat.simps [of base n])
    moreover have "digit_val (digit (n mod base)) = n mod base"
      by (rule digit_val_digit) (use m assms(2) in linarith)
    moreover have "\<exists>d < base. digit (n mod base) = digit d" using m by blast
    ultimately show ?thesis using IH by (auto simp: number_snoc)
  qed
qed

lemma scan_shown:
  assumes "2 \<le> base" and "base \<le> 16" and "n < 2 ^ 64" and "base = 16 \<longrightarrow> \<not> hex_prefix (show_nat base n)"
  shows "scan_number base (show_nat base n) = Some (False, n)"
proof -
  note d = show_nat_digits [OF assms(1,2), of n]
  obtain c cs where s: "show_nat base n = c # cs" using d by (cases "show_nat base n") auto
  then obtain k where c: "c = digit k" "k < 16" using d assms(2) by fastforce
  have tw: "takeWhile (\<lambda>c. digit_val c < base) (show_nat base n) = show_nat base n"
    unfolding takeWhile_eq_all_conv using d assms(2) by (auto simp: digit_val_digit)
  have h: "\<not> ((base = 0 \<or> base = 16) \<and> hex_prefix (show_nat base n))" "base \<noteq> 0" using assms(1,4) by auto
  have "sign_of (dropWhile is_space (show_nat base n)) = (False, show_nat base n)"
    using digit_no_sign [OF c(2)] by (simp add: s c sign_of_def)
  then show ?thesis
    unfolding scan_number_def Let_def using d h tw
    by (cases "base = 16") (simp_all del: takeWhile_eq_all_conv)
qed

text \<open>
  An option written as \<^verbatim>\<open>printf\<close> writes a number, in decimal or as \<^verbatim>\<open>0x\<close> and hexadecimal digits,
  is read as that number.
\<close>

lemma getopt_integer_reads:
  assumes "n < 2 ^ 64"
  shows "getopt_integer junk (show_nat 10 n) = of_nat n" and "getopt_integer junk (''0x'' @ show_nat 16 n) = of_nat n"
proof -
  have d10: "\<forall>c \<in> set (show_nat 10 n). \<exists>d < 10. c = digit d" "show_nat 10 n \<noteq> []" using show_nat_digits [of 10 n] by simp_all
  have d16: "\<forall>c \<in> set (show_nat 16 n). \<exists>d < 16. c = digit d" using show_nat_digits [of 16 n] by simp
  have no_x: "\<not> hex_prefix s" if "\<forall>c \<in> set s. \<exists>d < 16. c = digit d" for s
    using that digit_no_sign by (cases s; cases "tl s") (auto simp: hex_prefix_def split: list.splits)
  have "take 2 (show_nat 10 n) \<noteq> ''0x''"
  proof
    assume "take 2 (show_nat 10 n) = ''0x''"
    then have "CHR ''x'' \<in> set (take 2 (show_nat 10 n))" by simp
    then have "CHR ''x'' \<in> set (show_nat 10 n)" by (rule in_set_takeD)
    then obtain d where d: "d < 10" "digit d = CHR ''x''" using d10 by force
    then have "d < 16" by simp
    from digit_no_sign [OF this] d(2) show False by simp
  qed
  then show "getopt_integer junk (show_nat 10 n) = of_nat n"
    using scan_shown [of 10 n] assms by (simp add: getopt_integer_def scan_hex_def scan_dec_def to_ulong_def)
  show "getopt_integer junk (''0x'' @ show_nat 16 n) = of_nat n"
    using scan_shown [of 16 n] no_x [OF d16] assms by (simp add: getopt_integer_def scan_hex_def to_ulong_def)
qed

text \<open>Where there is no number, the option has whatever the variable held.\<close>

lemma getopt_integer_junk: "getopt_integer junk ''all'' = junk"
  by (simp add: getopt_integer_def scan_hex_def scan_dec_def scan_number_def sign_of_def is_space_def
      digit_val_def code_of_def hex_prefix_def Let_def)

end
