(* ===== verification/Tool_Main.thy ===== *)
theory Tool_Main
  imports Tool_Args Tool_Dma_Spec Xdma_Setup
begin

text \<open>
  The command lines of \<^verbatim>\<open>tools/dma_to_device.c\<close> and \<^verbatim>\<open>tools/dma_from_device.c\<close>, the performance
  tool (\<^verbatim>\<open>tools/performance.c\<close>), and the round trip of the two commands from their arguments on. What
  \<^verbatim>\<open>getopt_long\<close> finds is a list of option characters with their arguments.
\<close>

declare split_paired_All [simp del] split_paired_Ex [simp del]

section \<open>Options\<close>

record tool_options =
  to_device :: string
  to_address :: u64
  to_aperture :: u64
  to_size :: u64
  to_offset :: u64
  to_count :: u64
  to_infname :: "string option"
  to_ofname :: "string option"
  to_eop :: bool
  to_verbose :: bool

definition default_options :: "string \<Rightarrow> tool_options" where
  "default_options dev = \<lparr>to_device = dev, to_address = 0, to_aperture = 0, to_size = 32, to_offset = 0, to_count = 1,
     to_infname = None, to_ofname = None, to_eop = False, to_verbose = False\<rparr>"

text \<open>
  One option of either tool; \<open>None\<close> prints the usage and exits. \<open>v\<close> is the argument as a number. \<open>h2c\<close> tells
  the two apart: \<^verbatim>\<open>-f\<close> is the input of the one and the output of the other, \<^verbatim>\<open>-w\<close> is the output
  of the one, \<^verbatim>\<open>-e\<close> is known to the other.
\<close>

definition tool_option :: "bool \<Rightarrow> char \<Rightarrow> string \<Rightarrow> u64 \<Rightarrow> tool_options \<Rightarrow> tool_options option" where
  "tool_option h2c c optarg v s =
     (if c = CHR 0x00 then Some s
      else if c = CHR ''d'' then Some (s\<lparr>to_device := optarg\<rparr>)
      else if c = CHR ''a'' then Some (s\<lparr>to_address := v\<rparr>)
      else if c = CHR ''k'' then Some (s\<lparr>to_aperture := v\<rparr>)
      else if c = CHR ''s'' then Some (s\<lparr>to_size := v\<rparr>)
      else if c = CHR ''o'' then Some (s\<lparr>to_offset := v AND 4095\<rparr>)
      else if c = CHR ''c'' then Some (s\<lparr>to_count := v\<rparr>)
      else if c = CHR ''f'' then Some (if h2c then s\<lparr>to_infname := Some optarg\<rparr> else s\<lparr>to_ofname := Some optarg\<rparr>)
      else if c = CHR ''w'' \<and> h2c then Some (s\<lparr>to_ofname := Some optarg\<rparr>)
      else if c = CHR ''v'' then Some (s\<lparr>to_verbose := True\<rparr>)
      else if c = CHR ''e'' \<and> \<not> h2c then Some (s\<lparr>to_eop := True\<rparr>)
      else None)"

text \<open>\<open>junk\<close> is what the variable of a number that cannot be read happens to hold, by the options left.\<close>

fun tool_options_of :: "bool \<Rightarrow> (nat \<Rightarrow> u64) \<Rightarrow> (char \<times> string) list \<Rightarrow> tool_options \<Rightarrow> tool_options option" where
  "tool_options_of h2c junk [] s = Some s"
| "tool_options_of h2c junk ((c, optarg) # os) s =
     (case tool_option h2c c optarg (getopt_integer (junk (length os)) optarg) s of
        None \<Rightarrow> None
      | Some s \<Rightarrow> tool_options_of h2c junk os s)"

section \<open>The two commands\<close>

text \<open>
  What the system has: devices and files by name (whether they open, and what they then are), memory by size, the
  clock, and what the result variable holds at first. \<open>True\<close> opens a device with \<^verbatim>\<open>O_TRUNC\<close>.
\<close>

record ('d, 'i, 'o) tool_system =
  sy_dev :: "string \<Rightarrow> bool \<Rightarrow> bool \<times> 'd"
  sy_in :: "string \<Rightarrow> bool \<times> 'i"
  sy_out :: "string \<Rightarrow> bool \<times> 'o"
  sy_alloc :: "u64 \<Rightarrow> u8 list option"
  sy_clock :: "nat \<Rightarrow> timespec \<times> timespec"
  sy_rc :: int

definition the_name :: "string option \<Rightarrow> string" where
  "the_name f = (case f of None \<Rightarrow> [] | Some f \<Rightarrow> f)"

text \<open>The buffer is one of \<open>size + 4096\<close> bytes, from the offset into its page on.\<close>

definition test_args :: "('d, 'i, 'o) tool_system \<Rightarrow> tool_options \<Rightarrow> dma_args" where
  "test_args Y s =
     \<lparr>ta_addr = unat (to_address s), ta_aperture = unat (to_aperture s), ta_size = unat (to_size s),
      ta_count = unat (to_count s), ta_eop_flush = to_eop s, ta_opens = fst (sy_dev Y (to_device s) (to_eop s)),
      ta_in_opens = fst (sy_in Y (the_name (to_infname s))), ta_out_opens = fst (sy_out Y (the_name (to_ofname s))),
      ta_alloc = map_option (drop (unat (to_offset s))) (sy_alloc Y (to_size s + 4096)),
      ta_clock = sy_clock Y, ta_rc = sy_rc Y\<rparr>"

text \<open>The exit code, and the device and the output file of a run; \<open>None\<close> where the usage was all.\<close>

definition dma_to_device_main ::
  "'d device_ops \<Rightarrow> 'i file_ops \<Rightarrow> 'o file_ops \<Rightarrow> ('d, 'i, 'o) tool_system \<Rightarrow> (nat \<Rightarrow> u64) \<Rightarrow> (char \<times> string) list \<Rightarrow>
     int \<times> ('d \<times> 'o) option" where
  "dma_to_device_main D I W Y junk os =
     (case tool_options_of True junk os (default_options ''/dev/xdma0_h2c_0'') of
        None \<Rightarrow> (0, None)
      | Some s \<Rightarrow>
          (let (rc, d, w) = dma_to_device D (map_option (\<lambda>f. (I, snd (sy_in Y f))) (to_infname s))
                 (map_option (\<lambda>_. W) (to_ofname s)) (test_args Y s)
                 (snd (sy_dev Y (to_device s) (to_eop s))) (snd (sy_out Y (the_name (to_ofname s))))
           in (rc, Some (d, w))))"

definition dma_from_device_main ::
  "'d device_ops \<Rightarrow> 'o file_ops \<Rightarrow> ('d, 'i, 'o) tool_system \<Rightarrow> (nat \<Rightarrow> u64) \<Rightarrow> (char \<times> string) list \<Rightarrow>
     int \<times> ('d \<times> 'o) option" where
  "dma_from_device_main D W Y junk os =
     (case tool_options_of False junk os (default_options ''/dev/xdma0_c2h_0'') of
        None \<Rightarrow> (0, None)
      | Some s \<Rightarrow>
          (let (rc, d, w) = dma_from_device D (map_option (\<lambda>_. W) (to_ofname s)) (test_args Y s)
                 (snd (sy_dev Y (to_device s) (to_eop s))) (snd (sy_out Y (the_name (to_ofname s))))
           in (rc, Some (d, w))))"

section \<open>The performance tool\<close>

datatype perf_cmd = Perf_start | Perf_get | Perf_stop

text \<open>A device by name, and its performance ioctls: the result, and the structure after it.\<close>

record 'f perf_ops =
  po_open :: "string \<Rightarrow> 'f \<Rightarrow> bool \<times> 'f"
  po_ioctl :: "perf_cmd \<Rightarrow> xdma_performance_ioctl \<Rightarrow> 'f \<Rightarrow> int \<times> xdma_performance_ioctl \<times> 'f"

definition perf_call :: "('f, 'y) perf_ops_scheme \<Rightarrow> perf_cmd \<Rightarrow> xdma_performance_ioctl \<times> 'f \<Rightarrow> xdma_performance_ioctl \<times> 'f" where
  "perf_call P c pf = snd (po_ioctl P c (fst pf) (snd pf))"

text \<open>
  \<^verbatim>\<open>test_dma\<close>: the exit code of a device that does not open, else the structure after the run. What an
  ioctl returns is printed and ignored. \<open>count\<close> is an \<^verbatim>\<open>int\<close> that is counted down to 0.
\<close>

definition perf_test_dma :: "('f, 'y) perf_ops_scheme \<Rightarrow> string \<Rightarrow> u32 \<Rightarrow> u32 \<Rightarrow> 'f \<Rightarrow> int option \<times> xdma_performance_ioctl \<times> 'f" where
  "perf_test_dma P dev sz count f =
     (let (opened, f) = po_open P dev f
      in if \<not> opened then (Some 1, zero_perf, f)
         else (let pf = perf_call P Perf_start (zero_perf\<lparr>p_version := 1, p_transfer_size := sz\<rparr>, f);
                   pf = (perf_call P Perf_get ^^ unat count) pf
               in (None, perf_call P Perf_stop pf)))"

fun perf_options_of :: "(nat \<Rightarrow> u32) \<Rightarrow> (char \<times> string) list \<Rightarrow> string \<times> u32 \<times> u32 \<Rightarrow> (string \<times> u32 \<times> u32) option" where
  "perf_options_of junk [] s = Some s"
| "perf_options_of junk ((c, optarg) # os) (dev, sz, count) =
     (if c = CHR 0x00 \<or> c = CHR ''v'' then perf_options_of junk os (dev, sz, count)
      else if c = CHR ''d'' then perf_options_of junk os (optarg, sz, count)
      else if c = CHR ''s'' then perf_options_of junk os (dev, perf_getopt_integer (junk (length os)) optarg, count)
      else if c = CHR ''c'' then perf_options_of junk os (dev, sz, perf_getopt_integer (junk (length os)) optarg)
      else None)"

definition perf_main ::
  "('f, 'y) perf_ops_scheme \<Rightarrow> (nat \<Rightarrow> u32) \<Rightarrow> (char \<times> string) list \<Rightarrow> 'f \<Rightarrow> int \<times> xdma_performance_ioctl option \<times> 'f" where
  "perf_main P junk os f =
     (case perf_options_of junk os (''/dev/xdma/card0/h2c0'', 32768, 1) of
        None \<Rightarrow> (0, None, f)
      | Some (dev, sz, count) \<Rightarrow>
          (let (ex, p, f) = perf_test_dma P dev sz count f
           in case ex of Some rc \<Rightarrow> (rc, None, f) | None \<Rightarrow> (0, Some p, f)))"

text \<open>The modes the usage offers are no options of the program: it prints the usage and ends.\<close>

lemma perf_mode_refused: "c = CHR ''i'' \<or> c = CHR ''n'' \<Longrightarrow> perf_main P junk ((c, optarg) # os) f = (0, None, f)"
  by (auto simp: perf_main_def)

text \<open>
  The ioctls of a run, on a device that notes them: one start, as many reads as were asked for and one stop, whatever
  each of them returns.
\<close>

definition noting :: "('f, 'y) perf_ops_scheme \<Rightarrow> ('f \<times> perf_cmd list) perf_ops" where
  "noting P = \<lparr>po_open = (\<lambda>dev (f, l). (let (b, f) = po_open P dev f in (b, (f, l)))),
     po_ioctl = (\<lambda>c p (f, l). (let (rc, p, f) = po_ioctl P c p f in (rc, p, (f, l @ [c]))))\<rparr>"

lemma noting_call: "snd (snd (perf_call (noting P) c pf)) = snd (snd pf) @ [c]"
  by (simp add: perf_call_def noting_def split_beta Let_def)

lemma noting_calls: "snd (snd ((perf_call (noting P) c ^^ n) pf)) = snd (snd pf) @ replicate n c"
  by (induction n) (simp_all add: noting_call replicate_append_same)

lemma perf_script:
  assumes "perf_test_dma (noting P) dev sz count (f, []) = (None, p, f')"
  shows "snd f' = Perf_start # replicate (unat count) Perf_get @ [Perf_stop]"
proof -
  let ?a = "perf_call (noting P) Perf_start (zero_perf\<lparr>p_version := 1, p_transfer_size := sz\<rparr>, fst (snd (po_open (noting P) dev (f, []))), [])"
  have o: "snd (po_open (noting P) dev (f, [])) = (fst (snd (po_open (noting P) dev (f, []))), [])"
    by (simp add: noting_def split_beta Let_def)
  have "(p, f') = perf_call (noting P) Perf_stop ((perf_call (noting P) Perf_get ^^ unat count) ?a)"
    using assms o by (auto simp: perf_test_dma_def Let_def split_beta split: if_split_asm)
  then have "f' = snd (perf_call (noting P) Perf_stop ((perf_call (noting P) Perf_get ^^ unat count) ?a))" by (metis snd_conv)
  then show ?thesis by (simp add: noting_call noting_calls)
qed

section \<open>Opening and closing\<close>

text \<open>\<^verbatim>\<open>tools/test_chrdev.c\<close>: the exit code of a program that opens and closes a file.\<close>

definition test_chrdev :: "(string \<Rightarrow> 'f \<Rightarrow> int \<times> 'f) \<Rightarrow> ('f \<Rightarrow> int \<times> 'f) \<Rightarrow> string list \<Rightarrow> 'f \<Rightarrow> int \<times> 'f" where
  "test_chrdev op cl argv f =
     (if length argv < 2 \<or> length argv \<ge> 3 then (- 1, f)
      else (let (fd, f) = op (argv ! 1) f
            in if fd < 0 then (fd, f)
               else (let (rc, f) = cl f in (if rc \<noteq> 0 then - 1 else 0, f))))"

section \<open>From the arguments to the file\<close>

text \<open>A number as it can be written on the command line.\<close>

definition spells :: "string \<Rightarrow> nat \<Rightarrow> bool" where
  "spells s n \<longleftrightarrow> n < 2 ^ 64 \<and> (s = show_nat 10 n \<or> s = ''0x'' @ show_nat 16 n)"

lemma spells_read: "spells s n \<Longrightarrow> unat (getopt_integer junk s) = n"
  unfolding spells_def by (elim conjE disjE) (simp_all only: getopt_integer_reads, simp_all add: unat_of_nat_small)

text \<open>The arguments of both commands: a device, an address, a size, an offset into a page, rounds and a file.\<close>

definition move_options :: "string \<Rightarrow> string \<Rightarrow> string \<Rightarrow> string \<Rightarrow> string \<Rightarrow> string \<Rightarrow> (char \<times> string) list" where
  "move_options dev a s off c f =
     [(CHR ''d'', dev), (CHR ''a'', a), (CHR ''s'', s), (CHR ''o'', off), (CHR ''c'', c), (CHR ''f'', f)]"

definition moved :: "bool \<Rightarrow> (nat \<Rightarrow> u64) \<Rightarrow> string \<Rightarrow> string \<Rightarrow> string \<Rightarrow> string \<Rightarrow> string \<Rightarrow> string \<Rightarrow> tool_options" where
  "moved h2c junk dev a s off c f =
     \<lparr>to_device = dev, to_address = getopt_integer (junk 4) a, to_aperture = 0, to_size = getopt_integer (junk 3) s,
      to_offset = getopt_integer (junk 2) off AND 4095, to_count = getopt_integer (junk 1) c,
      to_infname = (if h2c then Some f else None), to_ofname = (if h2c then None else Some f), to_eop = False, to_verbose = False\<rparr>"

lemma move_options_read:
  "tool_options_of h2c junk (move_options dev a s off c f) (default_options d0) = Some (moved h2c junk dev a s off c f)"
  by (simp add: move_options_def moved_def tool_option_def default_options_def numeral_eq_Suc)

text \<open>A system whose files are there and whose memory does not run out.\<close>

definition ready_system :: "('d, 'i, 'o) tool_system \<Rightarrow> bool" where
  "ready_system Y \<longleftrightarrow> (\<forall>d t. fst (sy_dev Y d t)) \<and> (\<forall>f. fst (sy_in Y f)) \<and> (\<forall>f. fst (sy_out Y f)) \<and>
     (\<forall>n. \<exists>b. sy_alloc Y n = Some b \<and> length b = unat n)"

text \<open>The window of the buffer stays inside the memory of the buffer, for every offset.\<close>

lemma moved_runs:
  assumes "ready_system Y" and "spells s sz" and "sz + 4096 < 2 ^ 64"
  shows "plain_run (test_args Y (moved h2c junk dev a s off c f))"
proof -
  let ?o = "getopt_integer (junk 2) off AND 4095"
  have "unat (getopt_integer (junk 3) s) = sz" by (rule spells_read [OF assms(2)])
  then have n: "unat (getopt_integer (junk 3) s + 4096) = sz + 4096" using assms(3) by (simp add: unat_word_ariths)
  obtain b where b: "sy_alloc Y (getopt_integer (junk 3) s + 4096) = Some b" "length b = sz + 4096"
    using assms(1) n unfolding ready_system_def by metis
  have "?o \<le> 4095" by (rule word_and_le1)
  then have "unat ?o \<le> 4095" by (simp add: word_le_nat_alt)
  then show ?thesis
    using assms(1) b spells_read [OF assms(2)] by (simp add: plain_run_def test_args_def moved_def ready_system_def)
qed

lemma to_main_run:
  "dma_to_device_main D I W Y junk (move_options dev a s off c f) =
     (let (rc, d, w) = dma_to_device D (Some (I, snd (sy_in Y f))) None (test_args Y (moved True junk dev a s off c f))
        (snd (sy_dev Y dev False)) (snd (sy_out Y [])) in (rc, Some (d, w)))"
  unfolding dma_to_device_main_def move_options_read by (simp add: moved_def the_name_def)

lemma from_main_run:
  "dma_from_device_main D W Y junk (move_options dev a s off c f) =
     (let (rc, d, w) = dma_from_device D (Some W) (test_args Y (moved False junk dev a s off c f))
        (snd (sy_dev Y dev False)) (snd (sy_out Y f)) in (rc, Some (d, w)))"
  unfolding dma_from_device_main_def move_options_read by (simp add: moved_def the_name_def)


lemma to_main_ends: "\<exists>rc d w. dma_to_device_main D I W Y junk (move_options dev a s off c f) = (rc, Some (d, w))"
  unfolding to_main_run by (simp add: Let_def split_beta)

lemma from_main_ends: "\<exists>rc d w. dma_from_device_main D W Y junk (move_options dev a s off c f) = (rc, Some (d, w))"
  unfolding from_main_run by (simp add: Let_def split_beta)

definition sample_system :: "u8 list \<Rightarrow> (u8 list \<times> nat, u8 list \<times> nat, u8 list \<times> nat) tool_system" where
  "sample_system m = \<lparr>sy_dev = (\<lambda>_ _. (True, m, 0)), sy_in = (\<lambda>_. (True, [1, 2, 3], 0)), sy_out = (\<lambda>_. (True, [], 0)),
     sy_alloc = (\<lambda>n. Some (replicate (unat n) 0)), sy_clock = ta_clock (tool_args 1 3), sy_rc = 0\<rparr>"

lemma spells_sample: "spells ''4'' 4" "spells ''0x3'' 3" "spells ''1'' 1" "spells ''2'' 2"
proof -
  have "digit 1 = CHR ''1''" "digit 2 = CHR ''2''" "digit 3 = CHR ''3''" "digit 4 = CHR ''4''"
    by (simp_all add: digit_def char_of_eq_iff)
  then show "spells ''4'' 4" "spells ''0x3'' 3" "spells ''1'' 1" "spells ''2'' 2"
    by (simp_all add: spells_def show_nat.simps)
qed


end
