(* ===== verification/Tool_Reg.thy ===== *)
theory Tool_Reg
  imports Tool_Args Cdev_Ctrl_Spec
begin

text \<open>
  Reading and writing one register from the command line (\<^verbatim>\<open>tools/reg_rw.c\<close>), and what it does on a
  character device that maps a BAR: the access is to the byte of the BAR the address names.
\<close>

section \<open>The program\<close>

text \<open>
  What the system answers: the error of the open, if any; whether a length can be mapped at an offset; and an
  access of one, two or four bytes at a place of that mapping. Supported hosts are little-endian.
\<close>

record 'm reg_ops =
  ro_open :: "string \<Rightarrow> int option"
  ro_map :: "u64 \<Rightarrow> u64 \<Rightarrow> bool"
  ro_load :: "nat \<Rightarrow> u64 \<Rightarrow> u64 \<Rightarrow> 'm \<Rightarrow> u32 \<times> 'm"
  ro_store :: "nat \<Rightarrow> u64 \<Rightarrow> u64 \<Rightarrow> u32 \<Rightarrow> 'm \<Rightarrow> 'm"

definition char_lower :: "char \<Rightarrow> char" where
  "char_lower c = (if 65 \<le> code_of c \<and> code_of c \<le> 90 then char_of (code_of c + 32) else c)"

text \<open>The bytes of an access: what is neither \<^verbatim>\<open>b\<close> nor \<^verbatim>\<open>h\<close> is a word.\<close>

definition access_bytes :: "string list \<Rightarrow> nat" where
  "access_bytes argv =
     (let c = (if length argv \<ge> 4 then (case argv ! 3 of [] \<Rightarrow> CHR 0x00 | c # _ \<Rightarrow> char_lower c) else CHR ''w'')
      in if c = CHR ''b'' then 1 else if c = CHR ''h'' then 2 else 4)"

definition low_bytes :: "nat \<Rightarrow> u32 \<Rightarrow> u32" where
  "low_bytes n v = (if n = 1 then v AND 0xff else if n = 2 then v AND 0xffff else v)"

text \<open>
  The exit code, the value that is printed, and the memory: an offset into a page is mapped from the page's start,
  and the mapping is four bytes longer than the offset. A data argument makes it a write.
\<close>

definition reg_rw :: "'m reg_ops \<Rightarrow> string list \<Rightarrow> 'm \<Rightarrow> int \<times> u32 option \<times> 'm" where
  "reg_rw R argv m =
     (if length argv < 3 then (1, None, m)
      else (let target = strtoul 0 (argv ! 2);
                offset = target AND 0xfff;
                target_aligned = target AND NOT 0xfff;
                n = access_bytes argv
            in case ro_open R (argv ! 1) of
                 Some errno \<Rightarrow> (- errno, None, m)
               | None \<Rightarrow>
                   if \<not> ro_map R (offset + 4) target_aligned then (1, None, m)
                   else (let (out, m) = (if length argv \<le> 4
                               then (let (v, m) = ro_load R n target_aligned offset m in (Some v, m)) else (None, m));
                             m = (if length argv \<ge> 5
                               then ro_store R n target_aligned offset (low_bytes n (ucast (strtoul 0 (argv ! 4)))) m else m)
                         in (0, out, m))))"

section \<open>On a device that maps a BAR\<close>

text \<open>
  The accesses of the bus: the kernel rounds the length of a mapping up to pages and calls \<^verbatim>\<open>bridge_mmap\<close>,
  and an access to the mapping is one to physical memory. \<open>bus\<close> is what a load gives.
\<close>

datatype bus_access = Bus_load nat u64 | Bus_store nat u64 u32

definition page_up :: "u64 \<Rightarrow> u64" where
  "page_up len = (len + 0xfff) AND NOT 0xfff"

definition user_map :: "u64 \<Rightarrow> u64 \<Rightarrow> xdma_dev \<Rightarrow> xdma_cdev \<Rightarrow> u64 \<Rightarrow> u64 \<Rightarrow> u64 \<Rightarrow> int \<times> (u64 \<times> u64 \<times> u64) option" where
  "user_map start final d xc base len off =
     bridge_mmap start final 0 d xc \<lparr>vm_start = base, vm_end = base + page_up len, vm_pgoff = drop_bit 12 off\<rparr>"

definition bus_place :: "u64 \<Rightarrow> u64 \<Rightarrow> xdma_dev \<Rightarrow> xdma_cdev \<Rightarrow> u64 \<Rightarrow> u64 \<Rightarrow> u64 \<Rightarrow> u64" where
  "bus_place start final d xc base off place =
     (case snd (user_map start final d xc base (place + 4) off) of Some (_, phys, _) \<Rightarrow> phys + place | None \<Rightarrow> 0)"

definition bar_ops ::
  "u64 \<Rightarrow> u64 \<Rightarrow> xdma_dev \<Rightarrow> xdma_cdev \<Rightarrow> u64 \<Rightarrow> (bus_access list \<Rightarrow> u64 \<Rightarrow> u32) \<Rightarrow> bus_access list reg_ops" where
  "bar_ops start final d xc base bus =
     \<lparr>ro_open = (\<lambda>_. None), ro_map = (\<lambda>len off. fst (user_map start final d xc base len off) = 0),
      ro_load = (\<lambda>n off place log. (let a = bus_place start final d xc base off place in (low_bytes n (bus log a), Bus_load n a # log))),
      ro_store = (\<lambda>n off place v log. Bus_store n (bus_place start final d xc base off place) v # log)\<rparr>"

lemma page_not_mask: "w AND NOT (0xfff :: u64) = push_bit 12 (drop_bit 12 w)"
proof -
  have m: "(0xfff :: u64) = mask 12" by (simp add: mask_eq_exp_minus_1)
  show ?thesis unfolding m by (rule bit_word_eqI) (auto simp: bit_simps)
qed

lemma page_low: "w AND (0xfff :: u64) = take_bit 12 w"
  by (simp add: take_bit_eq_mask mask_eq_exp_minus_1)

lemma page_split: "push_bit 12 (drop_bit 12 w) + take_bit 12 w = (w :: u64)"
  by (rule bits_ident)

text \<open>
  C34 (functional). On a device that maps a BAR of whole pages, an access to an address inside the BAR is to exactly
  that byte of the BAR, in one access of the width asked for, a read giving what the device answers and a write
  storing the low bytes of the value; an access whose pages do not fit into the BAR ends with 1 and touches nothing.
\<close>
theorem reg_rw_hits_register:
  assumes "3 \<le> length argv" and "0 \<le> xcdev_check d xc False"
    and "start \<le> final" and "unat final < 2 ^ 64 - 1" and "start AND 0xfff = 0"
    and "target = strtoul 0 (argv ! 2)" and "unat (target AND NOT 0xfff) \<le> bar_length start final"
    and "n = access_bytes argv"
  shows "reg_rw (bar_ops start final d xc base bus) argv log =
    (if unat (target AND NOT 0xfff) + unat (page_up ((target AND 0xfff) + 4)) \<le> bar_length start final
     then (if length argv \<le> 4 then (0, Some (low_bytes n (bus log (start + target))), Bus_load n (start + target) # log)
           else (0, None, Bus_store n (start + target) (low_bytes n (ucast (strtoul 0 (argv ! 4)))) # log))
     else (1, None, log))"
proof -
  let ?off = "push_bit 12 (drop_bit 12 target)" and ?pl = "take_bit 12 target"
  let ?v = "\<lparr>vm_start = base, vm_end = base + page_up (?pl + 4), vm_pgoff = drop_bit 12 ?off\<rparr>"
  note b = bar_length_word [OF assms(3,4)]
  have pg: "drop_bit 12 ?off = drop_bit 12 target" by (rule bit_word_eqI) (auto simp: bit_simps dest: bit_imp_le_length)
  have off: "map_off ?v = ?off" by (simp add: map_off_def pg)
  have lim: "unat ?off \<le> bar_length start final" using assms(7) unfolding page_not_mask .
  then have "?off \<le> final - start + 1" unfolding word_le_nat_alt b(1) .
  then have left: "unat (final - start + 1 - ?off) = bar_length start final - unat ?off"
    unfolding b(1) [symmetric] by (rule unat_sub)
  have fit: "final - start + 1 - ?off < page_up (?pl + 4) \<longleftrightarrow>
      \<not> unat ?off + unat (page_up (?pl + 4)) \<le> bar_length start final"
    unfolding word_less_nat_alt left using lim by auto
  have phys: "page_of (start + ?off) = start + ?off"
  proof -
    have "take_bit 12 start = 0" using assms(5) unfolding page_low .
    then have "start = push_bit 12 (drop_bit 12 start)" using page_split [of start] by simp
    then have "start + ?off = push_bit 12 (drop_bit 12 start + drop_bit 12 target)" by (simp add: push_bit_add)
    moreover have "push_bit 12 (drop_bit 12 (push_bit 12 c)) = push_bit 12 c" for c :: u64
      by (rule bit_word_eqI) (auto simp: bit_simps)
    ultimately show ?thesis unfolding page_of_def by simp
  qed
  have place: "user_map start final d xc base (?pl + 4) ?off =
      (if unat ?off + unat (page_up (?pl + 4)) \<le> bar_length start final
       then (0, Some (base, start + ?off, page_up (?pl + 4))) else (- EINVAL, None))"
    unfolding user_map_def mmap_guard [OF assms(2)] off by (simp add: phys fit)
  have sum: "start + ?off + ?pl = start + target" using page_split [of target] by (simp add: add.assoc)
  have t: "strtoul 0 (argv ! 2) = target" "access_bytes argv = n" "\<not> length argv < 3" using assms(1,6,8) by simp_all
  show ?thesis
    unfolding reg_rw_def bar_ops_def bus_place_def Let_def t page_not_mask page_low
    using t(3) by (cases "length argv \<le> 4") (simp_all add: place sum)
qed

text \<open>A BAR of 64 KiB.\<close>

lemma reg_rw_hits_register_witness:
  "reg_rw (bar_ops 0xF0000000 0xF000FFFF blank_dev ctrl_cdev 0x7f0000000000 (\<lambda>_ _. 0)) [''reg_rw'', ''/dev/xdma0_user'', ''0x2004'', ''h'', ''70000''] []
     = (0, None, [Bus_store 2 0xF0002004 0x1170])"
proof -
  have t: "strtoul 0 ''0x2004'' = 0x2004" "strtoul 0 ''70000'' = 70000"
    by (simp_all add: strtoul_def scan_number_def sign_of_def hex_prefix_def is_space_def digit_val_def code_of_def
        number_def to_ulong_def Let_def)
  have n: "access_bytes [''reg_rw'', ''/dev/xdma0_user'', ''0x2004'', ''h'', ''70000''] = 2"
    by (simp add: access_bytes_def char_lower_def code_of_def Let_def)
  let ?argv = "[''reg_rw'', ''/dev/xdma0_user'', ''0x2004'', ''h'', ''70000'']"
  have "reg_rw (bar_ops 0xF0000000 0xF000FFFF blank_dev ctrl_cdev 0x7f0000000000 (\<lambda>_ _. 0)) ?argv [] =
    (if unat (0x2004 AND NOT 0xfff :: u64) + unat (page_up ((0x2004 AND 0xfff) + 4)) \<le> bar_length 0xF0000000 0xF000FFFF
     then (if length ?argv \<le> 4 then (0, Some (low_bytes 2 0), Bus_load 2 (0xF0000000 + 0x2004) # [])
           else (0, None, Bus_store 2 (0xF0000000 + 0x2004) (low_bytes 2 (ucast (strtoul 0 (?argv ! 4)))) # []))
     else (1, None, []))"
    by (rule reg_rw_hits_register) (simp_all add: t n ctrl_check bar_length_def)
  then show ?thesis by (simp add: t bar_length_def page_up_def low_bytes_def)
qed

end
