(* ===== verification/Tool_Capture.thy ===== *)
theory Tool_Capture
  imports Tool_Args Tool_Dma_Spec Cdev_Dbuf_Props Cdev_Ioctl
begin

text \<open>
  The capture program (\<^verbatim>\<open>dbuf_capture.c\<close>), and what it leaves in its file when it runs on the driver's
  double buffer: the blocks of the hardware from the first on, in order, none lost and none twice.
\<close>

declare split_paired_All [simp del] split_paired_Ex [simp del]

section \<open>The program\<close>

record capture_args =
  ca_dev :: string
  ca_out :: string
  ca_n :: int
  ca_size :: int

definition capture_default :: capture_args where
  "capture_default = \<lparr>ca_dev = ''/dev/xdma0_c2h_3'', ca_out = ''capture.bin'', ca_n = 200, ca_size = 4096\<rparr>"

text \<open>The arguments after the program's name; \<open>Inl\<close> is the one that is not known.\<close>

fun capture_parse :: "string list \<Rightarrow> capture_args \<Rightarrow> string + capture_args" where
  "capture_parse [] s = Inr s"
| "capture_parse [a] s = Inl a"
| "capture_parse (a # v # as) s =
     (if a = ''-d'' then capture_parse as (s\<lparr>ca_dev := v\<rparr>)
      else if a = ''-o'' then capture_parse as (s\<lparr>ca_out := v\<rparr>)
      else if a = ''-n'' then capture_parse as (s\<lparr>ca_n := atoi v\<rparr>)
      else if a = ''-s'' then capture_parse as (s\<lparr>ca_size := atoi v\<rparr>)
      else Inl a)"

text \<open>
  What the system answers: the device, whether the output file can be created, and whether there is memory for the
  capture. A read of a number of bytes gives its result and the bytes it put into the buffer.
\<close>

record 'f capture_ops =
  co_open :: "string \<Rightarrow> 'f \<Rightarrow> bool \<times> 'f"
  co_create :: "string \<Rightarrow> bool"
  co_malloc :: "u64 \<Rightarrow> bool"
  co_start :: "xdma_dbuf_ioctl \<Rightarrow> 'f \<Rightarrow> int \<times> 'f"
  co_read :: "u64 \<Rightarrow> 'f \<Rightarrow> int \<times> u8 list \<times> 'f"
  co_stop :: "'f \<Rightarrow> int \<times> 'f"
  co_close :: "'f \<Rightarrow> 'f"

text \<open>The exit code, the content of the output file if it was created, and the device.\<close>

definition dbuf_capture :: "'f capture_ops \<Rightarrow> string list \<Rightarrow> 'f \<Rightarrow> int \<times> u8 list option \<times> 'f" where
  "dbuf_capture C argv f =
     (case capture_parse argv capture_default of
        Inl _ \<Rightarrow> (1, None, f)
      | Inr s \<Rightarrow>
         if \<not> co_malloc C (word_of_int (ca_size s * ca_n s)) then (1, None, f)
         else (let (opened, f) = co_open C (ca_dev s) f
               in if \<not> opened then (1, None, f)
                  else if \<not> co_create C (ca_out s) then (1, None, co_close C f)
                  else (let (rv, f) = co_start C \<lparr>di_version = XDMA_DBUF_V1, di_buf_size = word_of_int (ca_size s),
                                                   di_ep_addr = 0\<rparr> f
                        in if rv < 0 then (1, Some [], co_close C f)
                           else (let (got, f) = capture_loop (co_read C (word_of_int (ca_size s))) (ca_size s)
                                                  (nat (ca_n s)) [] f;
                                     (_, f) = co_stop C f
                                 in (0, Some got, co_close C f)))))"

section \<open>On the driver\<close>

text \<open>
  A run of the double buffer, with the interrupts that come before each read finds its slot (\<open>tick\<close>; a wait
  that is still not over is ended by a signal) and the request each submission allocates. \<open>content\<close> gives the
  bytes of the blocks the hardware makes, in the order it makes them.
\<close>

record capture_env =
  cv_ioctl :: ioctl_env
  cv_tick :: "dbuf_run \<Rightarrow> dbuf_run"
  cv_rid :: "dbuf_run \<Rightarrow> nat"
  cv_oom :: "nat \<Rightarrow> bool"
  cv_copied :: "dbuf_run \<Rightarrow> bool"
  cv_content :: "nat \<Rightarrow> u8 list"

definition user_idle :: user_mem where
  "user_idle = \<lparr>um_pins = [], um_dirty = [], um_arrays = 0\<rparr>"

text \<open>The calls of the driver return, as shown below, so that the value of the model is there.\<close>

definition driver_ioctl :: "(dbuf, 'x) kenv_scheme \<Rightarrow> nat \<Rightarrow> capture_env \<Rightarrow> ioctl_cmd \<Rightarrow> dbuf_run \<Rightarrow> int \<times> dbuf_run" where
  "driver_ioctl E ch V cmd r =
     (let (rv, _, dev, _) = the (char_sgdma_ioctl E (cv_ioctl V) 0 False ch cmd (rn_dev r, user_idle))
      in (rv, r\<lparr>rn_dev := dev\<rparr>))"

definition driver_open :: "nat \<Rightarrow> dbuf_run \<Rightarrow> bool \<times> dbuf_run" where
  "driver_open ch r =
     (let st = dv_engine_c2h (rn_dev r) ch; (rv, e) = char_sgdma_open False (eng st)
      in (rv = 0, r\<lparr>rn_dev := put_engine False ch (st\<lparr>eng := e\<rparr>) (rn_dev r)\<rparr>))"

definition driver_read ::
  "(dbuf, 'x) kenv_scheme \<Rightarrow> nat \<Rightarrow> capture_env \<Rightarrow> u64 \<Rightarrow> dbuf_run \<Rightarrow> int \<times> u8 list \<times> dbuf_run" where
  "driver_read E ch V len r =
     (let r = cv_tick V r;
          (rv, slot, dev, _) = the (char_sgdma_read E (ie_map (cv_ioctl V)) (cv_oom V) (ie_await (cv_ioctl V))
             (\<lambda>d. (- ERESTARTSYS, d)) (cv_copied V r) (cv_rid V r) 0 ch 0 (unat len) 0 (rn_dev r, user_idle))
      in case slot of
           None \<Rightarrow> (rv, [], r\<lparr>rn_dev := dev\<rparr>)
         | Some i \<Rightarrow>
             (rv, take (unat len) (cv_content V (rn_mem r i)), r\<lparr>rn_dev := dev, rn_out := rn_out r @ [rn_mem r i]\<rparr>))"

definition driver_capture ::
  "(dbuf, 'x) kenv_scheme \<Rightarrow> nat \<Rightarrow> capture_env \<Rightarrow> (string \<Rightarrow> bool) \<Rightarrow> (u64 \<Rightarrow> bool) \<Rightarrow> dbuf_run capture_ops" where
  "driver_capture E ch V creates mallocs =
     \<lparr>co_open = (\<lambda>_. driver_open ch), co_create = creates, co_malloc = mallocs,
      co_start = (\<lambda>arg. driver_ioctl E ch V (IOCTL_XDMA_DBUF_START (Some arg))), co_read = driver_read E ch V,
      co_stop = driver_ioctl E ch V IOCTL_XDMA_DBUF_STOP,
      co_close = (\<lambda>r. r\<lparr>rn_dev := snd (char_sgdma_close 0 False ch (rn_dev r))\<rparr>)\<rparr>"

section \<open>The calls return\<close>

lemma nowait_returns:
  assumes fits: "slot_fits E e s" and blen: "desc_blen_max E \<noteq> 0" and ring: "ring_ok (eng (dv_engine_c2h dev ch))"
  shows "xdma_xfer_submit_nowait E oom f rid cb dev ch False ep (sl_sgt s) True \<noteq> None"
proof (cases "select_engine dev ch False")
  case (Inr st)
  then have st: "st = dv_engine_c2h dev ch" by (auto simp: select_engine_def Let_def split: if_splits)
  have m: "map_for_dma f True (sl_sgt s) = Some (sl_sgt s)" using fits by (simp add: map_for_dma_def slot_fits_def)
  show ?thesis
  proof (rule init_request_cases [OF blen, of oom "sl_sgt s" ep])
    fix r
    assume r: "xdma_init_request (desc_blen_max E) oom (sl_sgt s) ep = Some (Some r)"
    let ?s = "\<lparr>s_nents = rq_sw_desc_cnt r, s_done = 0, s_rv = 0, s_req = r\<lparr>rq_cb := Some cb\<rparr>,
        s_sgt = sl_sgt s, s_st = st\<rparr>"
    have "ready ?s" using ring slot_request [OF fits blen r] st by (simp add: ready_def req_left_def)
    from nowait_loop_owner [OF this, of E rid cb True 0] show ?thesis
      using Inr m r by (auto simp: xdma_xfer_submit_nowait_def)
  qed (use Inr m in \<open>simp add: xdma_xfer_submit_nowait_def\<close>)
qed (simp add: xdma_xfer_submit_nowait_def)

lemma submit_slot_returns:
  assumes ok: "dbuf_ok E ch dev" and i: "i < 2"
  shows "dbuf_submit_slot E oom rid ch i dev \<noteq> None"
proof -
  let ?db = "dbuf_of ch dev"
  let ?dev = "map_dbuf ch (\<lambda>db. upd_slot i (dbuf_prepare db) db) dev"
  have "length (db_slots ?db) = 2" using ok by (simp add: dbuf_ok_def dbuf_of_def Let_def)
  then have s: "db_slots (dbuf_of ch ?dev) ! i = dbuf_prepare ?db (db_slots ?db ! i)" using i by (simp add: upd_slot_def)
  have fits: "slot_fits E (eng (dv_engine_c2h dev ch)) (db_slots (dbuf_of ch ?dev) ! i)"
    using ok i unfolding s by (simp add: dbuf_ok_def dbuf_of_def Let_def slot_fits_def dbuf_prepare_def)
  have "desc_blen_max E \<noteq> 0" "ring_ok (eng (dv_engine_c2h ?dev ch))" using ok by (simp_all add: dbuf_ok_def Let_def)
  from nowait_returns [OF fits this] show ?thesis by (auto simp: dbuf_submit_slot_def Let_def split: option.splits)
qed

lemma read_dbuf_returns:
  assumes "dbuf_ok E ch dev"
  shows "char_sgdma_read_dbuf E oom (\<lambda>d. (- ERESTARTSYS, d)) copied rid ch count dev \<noteq> None"
proof -
  have "db_read_idx (dbuf_of ch dev) < 2" using assms by (simp add: dbuf_ok_def dbuf_of_def Let_def)
  from submit_slot_returns [OF assms this, of oom rid] show ?thesis
    by (auto simp: char_sgdma_read_dbuf_def Let_def split: option.split)
qed

lemma submit_all_returns:
  assumes ok: "dbuf_ok E ch dev" and q: "e_transfer_list (eng (dv_engine_c2h dev ch)) = []" and rid: "rid 0 \<noteq> rid 1"
  shows "\<exists>rv dev'. dbuf_submit_all E oom rid ch 2 0 dev = Some (rv, dev') \<and> rv \<le> 0"
proof -
  obtain rv0 dev0 where s0: "dbuf_submit_slot E oom (rid 0) ch 0 dev = Some (rv0, dev0)"
    using submit_slot_returns [OF ok, of 0 oom "rid 0"] by (cases "dbuf_submit_slot E oom (rid 0) ch 0 dev") auto
  show ?thesis
  proof (cases "rv0 < 0")
    case True
    then show ?thesis by (simp add: numeral_2_eq_2 s0)
  next
    case False
    then have rv0: "0 \<le> rv0" by simp
    have "dbuf_fresh ch (rid 0) dev" using q by (simp add: dbuf_fresh_def)
    then have "dbuf_ok E ch dev0" using dbuf_submit_law [OF ok _ _ s0 rv0] by simp
    then obtain rv1 dev1 where s1: "dbuf_submit_slot E oom (rid 1) ch 1 dev0 = Some (rv1, dev1)"
      using submit_slot_returns [of E ch dev0 1 oom "rid 1"] by (cases "dbuf_submit_slot E oom (rid 1) ch 1 dev0") auto
    show ?thesis using False s1 by (cases "rv1 < 0") (simp_all add: numeral_2_eq_2 s0)
  qed
qed

lemma alloc_slots_result: "\<forall>j. sgrv j \<le> 0 \<Longrightarrow> fst (dbuf_alloc_slots alloc sgrv len n i db) \<le> 0"
  by (induction n arbitrary: i db) (auto simp: Let_def split_beta dbuf_slot_init_sgt_def split: option.split)

lemma start_returns:
  assumes idle: "dbuf_idle E ch dev" and rid: "rid 0 \<noteq> rid 1" and sgrv: "\<forall>j. sgrv j \<le> 0"
    and fits: "unat (di_buf_size arg) \<le> unat (desc_blen_max E) * e_desc_max (eng (dv_engine_c2h dev ch))"
  shows "\<exists>rv dev'. ioctl_do_dbuf_start E oom alloc sgrv rid ch (Some arg) dev = Some (rv, dev') \<and> rv \<le> 0"
proof -
  let ?len = "unat (di_buf_size arg)"
  let ?db = "(dbuf_of ch dev)\<lparr>db_size := ?len, db_ep_addr := di_ep_addr arg, db_read_idx := 0\<rparr>"
  obtain rv db1 where a: "dbuf_alloc_slots alloc sgrv ?len 2 0 ?db = (rv, db1)" by fastforce
  have neg: "rv \<le> 0" using alloc_slots_result [OF sgrv, of alloc ?len 2 0 ?db] a by simp
  show ?thesis
  proof (cases "db_active (dbuf_of ch dev) \<or> di_version arg \<noteq> 1 \<or> di_buf_size arg = 0 \<or> di_buf_size arg AND 0xfff \<noteq> 0 \<or> rv \<noteq> 0")
    case True
    then show ?thesis using a neg by (auto simp: ioctl_do_dbuf_start_def Let_def)
  next
    case False
    have len: "0 < ?len" "?len < 2 ^ 32"
      using False unsigned_less [of "di_buf_size arg"] by (simp_all add: unat_gt_0)
    have l2: "length (db_slots ?db) = 2" using idle by (simp add: dbuf_idle_def)
    have rv: "rv = 0" using False by simp
    have f: "length (db_slots db1) = 2" "db_read_idx db1 = 0" "\<And>j. j < 2 \<Longrightarrow> slot_table ?len (db_slots db1 ! j)"
      using alloc_slots_facts [OF a [unfolded rv] _ len(2)] l2 by auto
    let ?dev = "map_dbuf ch (\<lambda>_. db1\<lparr>db_active := True\<rparr>) dev"
    have ok: "dbuf_ok E ch ?dev"
      using idle f len(1) fits
      by (simp add: dbuf_ok_def dbuf_idle_def slot_fits_def slot_table_def owned_def Let_def)
    have "e_transfer_list (eng (dv_engine_c2h ?dev ch)) = []" using idle by (simp add: dbuf_idle_def)
    from submit_all_returns [OF ok this rid] show ?thesis
      using False a by (simp add: ioctl_do_dbuf_start_def Let_def)
  qed
qed

section \<open>A read\<close>

text \<open>Interrupts alone: a run without a read.\<close>

definition interrupts_only ::
  "(dbuf, 'x) kenv_scheme \<Rightarrow> (nat \<Rightarrow> bool) \<Rightarrow> nat \<Rightarrow> dbuf_run \<Rightarrow> dbuf_run \<Rightarrow> bool" where
  "interrupts_only E oom ch r r' \<longleftrightarrow> (dbuf_run_step E oom ch)\<^sup>*\<^sup>* r r' \<and> rn_out r' = rn_out r"

definition capturing :: "(dbuf, 'x) kenv_scheme \<Rightarrow> nat \<Rightarrow> capture_env \<Rightarrow> dbuf xdma_dev_io \<Rightarrow> dbuf_run \<Rightarrow> bool" where
  "capturing E ch V dev r \<longleftrightarrow> (dbuf_run_step E (cv_oom V) ch)\<^sup>*\<^sup>* (fresh_run dev) r"

lemma capturing_facts:
  assumes "dbuf_started E ch dev" and "capturing E ch V dev r"
  shows "dbuf_ok E ch (rn_dev r)" and "rn_out r = [0..<length (rn_out r)]"
  using run_inv [OF assms(1) assms(2) [unfolded capturing_def]] by (simp_all add: pipe_inv_def run_pipe_def Let_def)

lemma read_dbuf_cases:
  assumes "char_sgdma_read_dbuf E oom (\<lambda>d. (- ERESTARTSYS, d)) copied rid ch count dev = Some (rv, slot, dev')" and "0 \<le> rv"
    and "dbuf_ok E ch dev"
  shows "rv = int count \<and> copied \<and> (\<exists>i. slot = Some i \<and> i \<in> dbuf_filled (dbuf_of ch dev))"
proof -
  have "db_active (dbuf_of ch dev)" "db_read_idx (dbuf_of ch dev) < 2" "length (db_slots (dbuf_of ch dev)) = 2"
    using assms(3) by (simp_all add: dbuf_ok_def dbuf_of_def Let_def)
  then show ?thesis
    using assms(1,2)
    by (auto simp: char_sgdma_read_dbuf_def Let_def dbuf_ready_def dbuf_filled_def split: if_split_asm option.split_asm)
qed

lemma driver_read_cases:
  assumes st: "dbuf_started E ch dev" and on: "capturing E ch V dev r"
    and tick: "interrupts_only E (cv_oom V) ch r (cv_tick V r)"
    and fresh: "dbuf_fresh ch (cv_rid V (cv_tick V r)) (rn_dev (cv_tick V r))"
    and read: "driver_read E ch V len r = (rv, data, r')"
  shows "rv < 0 \<or> rv = int (unat len) \<and> data = take (unat len) (cv_content V (length (rn_out r))) \<and>
    capturing E ch V dev r' \<and> length (rn_out r') = Suc (length (rn_out r))"
proof (cases "rv < 0")
  case False
  let ?r = "cv_tick V r"
  have on1: "capturing E ch V dev ?r" and out: "rn_out ?r = rn_out r"
    using on tick by (auto simp: capturing_def interrupts_only_def)
  note f = capturing_facts [OF st on1]
  obtain rv1 slot dev' where d: "char_sgdma_read_dbuf E (cv_oom V) (\<lambda>d. (- ERESTARTSYS, d)) (cv_copied V ?r) (cv_rid V ?r) ch
      (unat len) (rn_dev ?r) = Some (rv1, slot, dev')"
    using read_dbuf_returns [OF f(1), of "cv_oom V" "cv_copied V ?r" "cv_rid V ?r" "unat len"] by auto
  have "db_active (dbuf_of ch (rn_dev ?r))" using f(1) by (simp add: dbuf_ok_def dbuf_of_def Let_def)
  then have eq: "driver_read E ch V len r = (case slot of None \<Rightarrow> (rv1, [], ?r\<lparr>rn_dev := dev'\<rparr>)
      | Some i \<Rightarrow> (rv1, take (unat len) (cv_content V (rn_mem ?r i)), ?r\<lparr>rn_dev := dev', rn_out := rn_out ?r @ [rn_mem ?r i]\<rparr>))"
    by (simp add: driver_read_def char_sgdma_read_def d Let_def)
  then have rv: "rv1 = rv" using read by (auto split: option.split_asm)
  then have "0 \<le> rv1" using False by simp
  from read_dbuf_cases [OF d this f(1)] obtain i where i: "rv1 = int (unat len)" "cv_copied V ?r" "slot = Some i"
    "i \<in> dbuf_filled (dbuf_of ch (rn_dev ?r))" by blast
  have r': "r' = ?r\<lparr>rn_dev := dev', rn_out := rn_out ?r @ [rn_mem ?r i]\<rparr>" "data = take (unat len) (cv_content V (rn_mem ?r i))"
    using read unfolding eq i(3) by simp_all
  have "char_sgdma_read_dbuf E (cv_oom V) (\<lambda>d. (- ERESTARTSYS, d)) True (cv_rid V ?r) ch (unat len) (rn_dev ?r)
      = Some (rv1, Some i, dev')" using d i(2,3) by simp
  then have "dbuf_run_step E (cv_oom V) ch ?r r'"
    unfolding r'(1) by (rule dbuf_run_step.read [OF _ \<open>0 \<le> rv1\<close> i(4) fresh])
  then have on2: "capturing E ch V dev r'" using on1 by (auto simp: capturing_def)
  have "[0..<length (rn_out r')] = rn_out ?r @ [rn_mem ?r i]" using capturing_facts(2) [OF st on2] r'(1) by simp
  then have "rn_mem ?r i = length (rn_out r)" using r'(1) out by simp
  then show ?thesis using i(1) r' on2 rv out by simp
qed simp

section \<open>The capture\<close>

text \<open>The bytes of the block number \<open>k\<close> that a read of \<open>sz\<close> bytes takes.\<close>

definition block :: "capture_env \<Rightarrow> int \<Rightarrow> nat \<Rightarrow> u8 list" where
  "block V sz k = take (nat sz) (cv_content V k)"

text \<open>
  The environment keeps to the rules: only interrupts come before a read, and a submission allocates a
  request that is not queued.
\<close>

definition capture_rules :: "(dbuf, 'x) kenv_scheme \<Rightarrow> nat \<Rightarrow> capture_env \<Rightarrow> bool" where
  "capture_rules E ch V \<longleftrightarrow>
     (\<forall>r. interrupts_only E (cv_oom V) ch r (cv_tick V r)) \<and> (\<forall>r. dbuf_fresh ch (cv_rid V r) (rn_dev r)) \<and>
     ie_dbuf_rid (cv_ioctl V) 0 \<noteq> ie_dbuf_rid (cv_ioctl V) 1 \<and> (\<forall>i. ie_sgrv (cv_ioctl V) i \<le> 0)"

lemma capture_loop_prefix:
  assumes st: "dbuf_started E ch dev" and rules: "capture_rules E ch V" and sz: "0 \<le> sz" "unat len = nat sz"
  shows "capturing E ch V dev r \<Longrightarrow> capture_loop (driver_read E ch V len) sz n got r = (got', r') \<Longrightarrow> k = length (rn_out r) \<Longrightarrow>
    \<exists>m \<le> n. got' = got @ concat (map (block V sz) [k..<k + m]) \<and>
      (m < n \<longrightarrow> (\<exists>r1. capturing E ch V dev r1 \<and> length (rn_out r1) = k + m \<and> fst (driver_read E ch V len r1) \<noteq> sz))"
proof (induction n arbitrary: got r k)
  case 0
  then show ?case by simp
next
  case (Suc n)
  obtain rv data r1 where d: "driver_read E ch V len r = (rv, data, r1)" by (cases rule: prod_cases3)
  have tick: "interrupts_only E (cv_oom V) ch r (cv_tick V r)"
    and fresh: "dbuf_fresh ch (cv_rid V (cv_tick V r)) (rn_dev (cv_tick V r))"
    using rules by (auto simp: capture_rules_def)
  show ?case
  proof (cases "rv = sz")
    case False
    then have "got' = got" using Suc.prems(2) d by simp
    then show ?thesis using False d Suc.prems(1,3) by (intro exI [of _ 0]) auto
  next
    case True
    from driver_read_cases [OF st Suc.prems(1) tick fresh d] True sz
    have c: "data = block V sz k" "capturing E ch V dev r1" "length (rn_out r1) = Suc k"
      by (auto simp: block_def Suc.prems(3))
    have "capture_loop (driver_read E ch V len) sz n (got @ data) r1 = (got', r')" using Suc.prems(2) d True by simp
    from Suc.IH [OF c(2) this c(3) [symmetric]] obtain m where m: "m \<le> n"
      "got' = (got @ data) @ concat (map (block V sz) [Suc k..<Suc k + m])"
      "m < n \<longrightarrow> (\<exists>r1. capturing E ch V dev r1 \<and> length (rn_out r1) = Suc k + m \<and> fst (driver_read E ch V len r1) \<noteq> sz)"
      by blast
    have "[k..<k + Suc m] = k # [Suc k..<Suc k + m]" by (simp add: upt_conv_Cons)
    then have "got' = got @ concat (map (block V sz) [k..<k + Suc m])" using m(2) c(1) by simp
    then show ?thesis using m(1,3) by (intro exI [of _ "Suc m"]) simp
  qed
qed

lemma driver_open_idle:
  assumes "dbuf_idle E ch (rn_dev r)" and "driver_open ch r = (opened, r')"
  shows "dbuf_idle E ch (rn_dev r') \<and> e_desc_max (eng (dv_engine_c2h (rn_dev r') ch)) = e_desc_max (eng (dv_engine_c2h (rn_dev r) ch)) \<and>
    rn_mem r' = rn_mem r \<and> rn_made r' = rn_made r \<and> rn_out r' = rn_out r"
  using assms by (auto simp: driver_open_def char_sgdma_open_def dbuf_idle_def dbuf_of_def ring_ok_def Let_def split: if_split_asm)


section \<open>A complete capture\<close>

lemma run_out_grows: "(dbuf_run_step E oom ch)\<^sup>*\<^sup>* r r' \<Longrightarrow> length (rn_out r) \<le> length (rn_out r')"
  by (induction rule: rtranclp_induct) (auto elim!: dbuf_run_stepE)

lemma interrupts_online:
  assumes "interrupts_only E oom ch r r'" and "dbuf_ok E ch (rn_dev r)" and "dbuf_online E ch (rn_dev r)"
  shows "dbuf_online E ch (rn_dev r') \<and> db_size (dbuf_of ch (rn_dev r')) = db_size (dbuf_of ch (rn_dev r))"
proof -
  have "(dbuf_run_step E oom ch)\<^sup>*\<^sup>* r r' \<Longrightarrow> length (rn_out r') = length (rn_out r) \<Longrightarrow> ?thesis"
  proof (induction rule: rtranclp_induct)
    case (step r1 r2)
    have le: "length (rn_out r) \<le> length (rn_out r1)" by (rule run_out_grows [OF step.hyps(1)])
    have ok: "dbuf_ok E ch (rn_dev r1)" using run_simulates [OF step.hyps(1) assms(2)] by simp
    from step.hyps(2) show ?case
    proof cases
      case (interrupt dev' wb m c)
      have "dbuf_service E ch (rn_dev r1) dev'" using interrupt(2) by (auto simp: dbuf_service_def)
      from service_online [OF ok _ this] step.IH step.prems interrupt(1) show ?thesis by simp
    qed (use le step.prems in simp)
  qed (use assms(3) in simp)
  then show ?thesis using assms(1) by (simp add: interrupts_only_def)
qed

text \<open>The run after the reads so far.\<close>

primrec capture_state :: "(dbuf, 'x) kenv_scheme \<Rightarrow> nat \<Rightarrow> capture_env \<Rightarrow> u64 \<Rightarrow> dbuf_run \<Rightarrow> nat \<Rightarrow> dbuf_run" where
  "capture_state E ch V len r 0 = r"
| "capture_state E ch V len r (Suc k) = snd (snd (driver_read E ch V len (capture_state E ch V len r k)))"

text \<open>The slot a read waits for is filled in time, and the user's buffer can be written.\<close>

definition served :: "(dbuf, 'x) kenv_scheme \<Rightarrow> nat \<Rightarrow> capture_env \<Rightarrow> dbuf_run \<Rightarrow> bool" where
  "served E ch V r \<longleftrightarrow> (let r = cv_tick V r in
     cv_copied V r \<and> dbuf_turn ch (rn_dev r) \<in> dbuf_filled (dbuf_of ch (rn_dev r)))"

lemma driver_read_served:
  assumes st: "dbuf_started E ch dev" and on: "capturing E ch V dev r" and rules: "capture_rules E ch V"
    and up: "dbuf_online E ch (rn_dev r)" and len: "unat len \<le> db_size (dbuf_of ch (rn_dev r))"
    and mem: "cv_oom V = (\<lambda>_. False)" and served: "served E ch V r"
  shows "\<exists>r'. driver_read E ch V len r = (int (unat len), take (unat len) (cv_content V (length (rn_out r))), r') \<and>
    capturing E ch V dev r' \<and> length (rn_out r') = Suc (length (rn_out r)) \<and> dbuf_online E ch (rn_dev r') \<and>
    db_size (dbuf_of ch (rn_dev r')) = db_size (dbuf_of ch (rn_dev r))"
proof -
  let ?r = "cv_tick V r"
  have tick: "interrupts_only E (cv_oom V) ch r ?r" and fresh: "dbuf_fresh ch (cv_rid V ?r) (rn_dev ?r)"
    using rules by (auto simp: capture_rules_def)
  have on1: "capturing E ch V dev ?r" using on tick by (auto simp: capturing_def interrupts_only_def)
  note ok = capturing_facts(1) [OF st on] and ok1 = capturing_facts(1) [OF st on1]
  note up1 = interrupts_online [OF tick ok up]
  have turn: "dbuf_turn ch (rn_dev ?r) \<in> dbuf_filled (dbuf_of ch (rn_dev ?r))" and cp: "cv_copied V ?r"
    using served by (simp_all add: served_def Let_def)
  from read_delivers [OF ok1 fresh _ turn, of "unat len" "\<lambda>d. (- ERESTARTSYS, d)"] up1 len obtain dev' where
    d: "char_sgdma_read_dbuf E (\<lambda>_. False) (\<lambda>d. (- ERESTARTSYS, d)) True (cv_rid V ?r) ch (unat len) (rn_dev ?r) =
      Some (int (unat len), Some (dbuf_turn ch (rn_dev ?r)), dev')" "dbuf_online E ch dev'"
      "db_size (dbuf_of ch dev') = db_size (dbuf_of ch (rn_dev ?r))" by auto
  have "db_active (dbuf_of ch (rn_dev ?r))" using ok1 by (simp add: dbuf_ok_def dbuf_of_def Let_def)
  then obtain data r' where r: "driver_read E ch V len r = (int (unat len), data, r')" "rn_dev r' = dev'"
    using d(1) cp mem by (simp add: driver_read_def char_sgdma_read_def Let_def)
  from driver_read_cases [OF st on tick fresh r(1)] r d(2,3) up1 show ?thesis by auto
qed

text \<open>
  C5 (liveness). A capture whose slots are filled in time ends with all the blocks it was asked for, in the order the
  hardware made them, on a device that is up, and does not wait for ever or stop early.
\<close>
theorem capture_complete:
  assumes "dbuf_started E ch dev" and "dbuf_online E ch dev" and rules: "capture_rules E ch V"
    and "cv_oom V = (\<lambda>_. False)" and "unat len = nat sz" and "0 \<le> sz" and "nat sz \<le> db_size (dbuf_of ch dev)"
    and served: "\<forall>k < n. served E ch V (capture_state E ch V len (fresh_run dev) k)"
  shows "capture_loop (driver_read E ch V len) sz n [] (fresh_run dev) =
    (concat (map (block V sz) [0..<n]), capture_state E ch V len (fresh_run dev) n)"
proof -
  let ?st = "capture_state E ch V len (fresh_run dev)"
  have inv: "k \<le> n \<Longrightarrow> capturing E ch V dev (?st k) \<and> length (rn_out (?st k)) = k \<and> dbuf_online E ch (rn_dev (?st k)) \<and>
      db_size (dbuf_of ch (rn_dev (?st k))) = db_size (dbuf_of ch dev)" for k
  proof (induction k)
    case 0
    then show ?case using assms(2) by (simp add: capturing_def fresh_run_def)
  next
    case (Suc k)
    then have "served E ch V (?st k)" using served by simp
    from driver_read_served [OF assms(1) _ rules _ _ assms(4) this, of len] Suc assms(5,7) show ?case by auto
  qed
  have "driver_read E ch V len (?st k) = (sz, block V sz k, ?st (Suc k))" if k: "k < n" for k
  proof -
    have "served E ch V (?st k)" using served k by simp
    from driver_read_served [OF assms(1) _ rules _ _ assms(4) this, of len] inv [of k] k assms(5-7) show ?thesis
      by (auto simp: block_def)
  qed
  from capture_blocks [where st = ?st, OF this] show ?thesis by simp
qed

section \<open>A capture on the sample device\<close>

text \<open>One interrupt before each read.\<close>

definition one_service :: "dbuf_run \<Rightarrow> dbuf_run" where
  "one_service r =
     (let dev' = put_engine False 0 (snd (engine_service dbuf_env 0 (dv_engine_c2h (rn_dev r) 0))) (rn_dev r);
          (m, c) = land (completed_slots 0 (rn_dev r) dev') (rn_mem r, rn_made r)
      in r\<lparr>rn_dev := dev', rn_mem := m, rn_made := c\<rparr>)"

definition spare_request :: "dbuf_run \<Rightarrow> nat" where
  "spare_request r = Suc (fold max (map fst (e_transfer_list (eng (dv_engine_c2h (rn_dev r) 0)))) 0)"

definition capture_answers :: ioctl_env where
  "capture_answers = \<lparr>ie_perf_oom = False, ie_perf_mem = \<lparr>pm_buf = None, pm_transfer = None, pm_desc = None\<rparr>, ie_left = 0, ie_put = 0,
     ie_map = \<lparr>me_sgl = True, me_array = True, me_pin = (\<lambda>_ _. Inl 0), me_dma_map = (\<lambda>_ t. t)\<rparr>, ie_ap_oom = False, ie_await = id,
     ie_rid = 0, ie_oom = (\<lambda>_. False), ie_alloc = (\<lambda>_. Some 0x8000), ie_sgrv = (\<lambda>_. 0), ie_dbuf_rid = id\<rparr>"

definition capture_sample :: capture_env where
  "capture_sample = \<lparr>cv_ioctl = capture_answers, cv_tick = one_service, cv_rid = spare_request, cv_oom = (\<lambda>_. False),
     cv_copied = (\<lambda>_. True), cv_content = (\<lambda>k. replicate 4096 (of_nat k))\<rparr>"

lemma one_service_step: "interrupts_only dbuf_env oom 0 r (one_service r)"
proof -
  let ?dev = "put_engine False 0 (snd (engine_service dbuf_env 0 (dv_engine_c2h (rn_dev r) 0))) (rn_dev r)"
  obtain m c where l: "(m, c) = land (completed_slots 0 (rn_dev r) ?dev) (rn_mem r, rn_made r)" by (metis surj_pair)
  from dbuf_run_step.interrupt [OF refl l, where oom = oom] l [symmetric] show ?thesis
    by (simp add: interrupts_only_def one_service_def)
qed

lemma spare_request_fresh: "dbuf_fresh 0 (spare_request r) (rn_dev r)"
proof -
  let ?q = "map fst (e_transfer_list (eng (dv_engine_c2h (rn_dev r) 0)))"
  have "x \<le> fold max ?q 0" if "x \<in> set ?q" for x
    unfolding Max.set_eq_fold [symmetric] by (rule Max_ge) (use that in simp_all)
  then have "x \<noteq> Suc (fold max ?q 0)" if "x \<in> set ?q" for x using that by fastforce
  then show ?thesis unfolding dbuf_fresh_def spare_request_def set_map [symmetric] by blast
qed

lemma capture_sample_rules: "capture_rules dbuf_env 0 capture_sample"
  by (simp add: capture_rules_def capture_sample_def capture_answers_def one_service_step spare_request_fresh)


lemma capture_complete_witness:
  "fst (capture_loop (driver_read dbuf_env 0 capture_sample 64) 64 1 [] (fresh_run dbuf_sample)) = replicate 64 0"
proof -
  have "rn_dev (one_service (fresh_run dbuf_sample)) = dbuf_served"
    by (simp add: one_service_def fresh_run_def dbuf_served_def Let_def split_beta)
  then have "served dbuf_env 0 capture_sample (fresh_run dbuf_sample)"
    by (simp add: served_def capture_sample_def dbuf_served_facts Let_def)
  then have "\<forall>k < 1. served dbuf_env 0 capture_sample (capture_state dbuf_env 0 capture_sample 64 (fresh_run dbuf_sample) k)" by simp
  moreover have "64 \<le> db_size (dbuf_of 0 dbuf_sample)" by (simp add: dbuf_of_def dbuf_sample_defs)
  moreover have "cv_oom capture_sample = (\<lambda>_. False)" by (simp add: capture_sample_def)
  ultimately have "capture_loop (driver_read dbuf_env 0 capture_sample 64) 64 1 [] (fresh_run dbuf_sample) =
      (concat (map (block capture_sample 64) [0..<1]), capture_state dbuf_env 0 capture_sample 64 (fresh_run dbuf_sample) 1)"
    by (intro capture_complete [OF dbuf_sample_started dbuf_sample_online capture_sample_rules]) simp_all
  then show ?thesis by (simp add: block_def capture_sample_def)
qed

end
